(* ===== verification/Prelude.thy ===== *)
theory Prelude
  imports Main
begin

text \<open>
  Shared vocabulary of the development.

  The gateway keeps its state in SQL tables and changes it inside transactions. A table is
  a list of rows (a record per row) in insertion order; \<open>SELECT ... LIMIT 1\<close> / \<open>fetchone\<close>
  is \<open>tbl_get\<close>, \<open>UPDATE ... WHERE\<close> is \<open>tbl_upd\<close>, \<open>COUNT( * )\<close> and \<open>COALESCE(SUM(x), 0)\<close> are
  \<open>tbl_count\<close> and \<open>tbl_sum\<close>. A Python call that may raise is a value of \<open>'e + 'a\<close> (\<open>Inl\<close> the
  exception). A transaction maps a database to \<open>'e + ('db \<times> 'a)\<close>: \<open>Inl\<close> is an exception, after
  which the connection rolls back, so \<open>commit\<close> keeps the old database.

  The locale \<open>keyed_rows\<close> is the contract of a table with a unique key; the locale
  \<open>transactional\<close> is the contract of a family of transactions that keep an invariant.
  Both are interpreted on the concrete tables and operations of the components.
\<close>

named_theorems tbl_simps "rewriting of table operations"
named_theorems inv_intros "one-step invariant preservation"

type_synonym 'r table = "'r list"
type_synonym ('e, 's, 'a) outcome = "'e + ('s \<times> 'a)"

definition tbl_get :: "('r \<Rightarrow> bool) \<Rightarrow> 'r table \<Rightarrow> 'r option" where
  "tbl_get P t = List.find P t"

definition tbl_upd :: "('r \<Rightarrow> bool) \<Rightarrow> ('r \<Rightarrow> 'r) \<Rightarrow> 'r table \<Rightarrow> 'r table" where
  "tbl_upd P f t = map (\<lambda>r. if P r then f r else r) t"

definition tbl_count :: "('r \<Rightarrow> bool) \<Rightarrow> 'r table \<Rightarrow> nat" where
  "tbl_count P t = length (filter P t)"

definition tbl_sum :: "('r \<Rightarrow> bool) \<Rightarrow> ('r \<Rightarrow> int) \<Rightarrow> 'r table \<Rightarrow> int" where
  "tbl_sum P f t = sum_list (map f (filter P t))"

definition tbl_ex :: "('r \<Rightarrow> bool) \<Rightarrow> 'r table \<Rightarrow> bool" where
  "tbl_ex P t = list_ex P t"

text \<open>A failed transaction rolls back; a successful one commits its database.\<close>

definition commit :: "'s \<Rightarrow> ('e, 's, 'a) outcome \<Rightarrow> 's" where
  "commit s r = (case r of Inl _ \<Rightarrow> s | Inr (s', _) \<Rightarrow> s')"

fun run_ops :: "('op \<Rightarrow> 's \<Rightarrow> ('e, 's, 'a) outcome) \<Rightarrow> 'op list \<Rightarrow> 's \<Rightarrow> 's" where
  "run_ops exec [] s = s"
| "run_ops exec (p # ps) s = run_ops exec ps (commit s (exec p s))"

subsection \<open>Table lemmas\<close>

lemma tbl_get_Some_iff: "tbl_get P t = Some r \<Longrightarrow> r \<in> set t \<and> P r"
  unfolding tbl_get_def by (induction t) (auto split: if_splits)

lemma tbl_get_SomeD [dest]: "tbl_get P t = Some r \<Longrightarrow> r \<in> set t" "tbl_get P t = Some r \<Longrightarrow> P r"
  by (auto dest: tbl_get_Some_iff)

lemma tbl_get_None_iff: "tbl_get P t = None \<longleftrightarrow> (\<forall>r \<in> set t. \<not> P r)"
  unfolding tbl_get_def by (auto simp: find_None_iff)

lemma tbl_get_append [tbl_simps]:
  "tbl_get P (t @ u) = (case tbl_get P t of None \<Rightarrow> tbl_get P u | Some r \<Rightarrow> Some r)"
  unfolding tbl_get_def by (induction t) auto

lemma tbl_get_Nil [simp]: "tbl_get P [] = None"
  by (simp add: tbl_get_def)

lemma tbl_get_Cons [simp]: "tbl_get P (r # t) = (if P r then Some r else tbl_get P t)"
  by (simp add: tbl_get_def)

lemma set_tbl_upd [tbl_simps]: "set (tbl_upd P f t) = (\<lambda>r. if P r then f r else r) ` set t"
  by (simp add: tbl_upd_def)

lemma tbl_updE:
  assumes "x \<in> set (tbl_upd P f t)"
  obtains r where "r \<in> set t" "P r" "x = f r" | "x \<in> set t" "\<not> P x"
  using assms unfolding set_tbl_upd by (auto split: if_splits)

lemma tbl_upd_Nil [simp]: "tbl_upd P f [] = []"
  by (simp add: tbl_upd_def)

lemma tbl_upd_Cons [simp]: "tbl_upd P f (r # t) = (if P r then f r else r) # tbl_upd P f t"
  by (simp add: tbl_upd_def)

lemma tbl_upd_append [tbl_simps]: "tbl_upd P f (t @ u) = tbl_upd P f t @ tbl_upd P f u"
  by (simp add: tbl_upd_def)

lemma map_tbl_upd: "(\<And>r. P r \<Longrightarrow> g (f r) = g r) \<Longrightarrow> map g (tbl_upd P f t) = map g t"
  by (simp add: tbl_upd_def)

lemma tbl_get_upd:
  assumes "\<And>r. P r \<Longrightarrow> Q (f r) = Q r"
  shows "tbl_get Q (tbl_upd P f t) = map_option (\<lambda>r. if P r then f r else r) (tbl_get Q t)"
  using assms by (induction t) auto

lemma tbl_upd_none: "(\<And>r. r \<in> set t \<Longrightarrow> \<not> P r) \<Longrightarrow> tbl_upd P f t = t"
  by (induction t) auto

lemma filter_upd_other:
  "(\<And>r. r \<in> set t \<Longrightarrow> P r \<Longrightarrow> \<not> Q r \<and> \<not> Q (f r)) \<Longrightarrow> filter Q (tbl_upd P f t) = filter Q t"
  by (induction t) auto

lemma tbl_sum_Nil [simp]: "tbl_sum P f [] = 0"
  by (simp add: tbl_sum_def)

lemma tbl_sum_Cons [simp]: "tbl_sum P f (r # t) = (if P r then f r else 0) + tbl_sum P f t"
  by (simp add: tbl_sum_def)

lemma tbl_sum_append [tbl_simps]: "tbl_sum P f (t @ u) = tbl_sum P f t + tbl_sum P f u"
  by (simp add: tbl_sum_def)

lemma tbl_sum_none: "(\<And>r. r \<in> set t \<Longrightarrow> \<not> P r) \<Longrightarrow> tbl_sum P f t = 0"
  by (induction t) auto

lemma tbl_sum_cong:
  "(\<And>r. r \<in> set t \<Longrightarrow> P r = Q r \<and> (P r \<longrightarrow> f r = g r)) \<Longrightarrow> tbl_sum P f t = tbl_sum Q g t"
  by (induction t) auto

lemma tbl_sum_nonneg: "(\<And>r. r \<in> set t \<Longrightarrow> P r \<Longrightarrow> 0 \<le> f r) \<Longrightarrow> 0 \<le> tbl_sum P f t"
  by (induction t) auto

lemma tbl_sum_upd_frame:
  assumes "\<And>r. r \<in> set t \<Longrightarrow> P r \<Longrightarrow> Q (f r) = Q r \<and> (Q r \<longrightarrow> w (f r) = w r)"
  shows "tbl_sum Q w (tbl_upd P f t) = tbl_sum Q w t"
  using assms by (induction t) auto

lemma tbl_sum_upd_le:
  assumes "\<And>r. r \<in> set t \<Longrightarrow> P r \<Longrightarrow> Q (f r) \<Longrightarrow> Q r \<and> w (f r) = w r" and "\<And>r. r \<in> set t \<Longrightarrow> 0 \<le> w r"
  shows "tbl_sum Q w (tbl_upd P f t) \<le> tbl_sum Q (w :: 'r \<Rightarrow> int) t"
  using assms
proof (induction t)
  case (Cons a t)
  then have "tbl_sum Q w (tbl_upd P f t) \<le> tbl_sum Q w t" by simp
  moreover have "(if Q (if P a then f a else a) then w (if P a then f a else a) else 0) \<le> (if Q a then w a else 0)"
    using Cons.prems(1)[of a] Cons.prems(2)[of a] by (cases "P a") auto
  ultimately show ?case by simp
qed simp

lemma tbl_count_append [tbl_simps]: "tbl_count P (t @ u) = tbl_count P t + tbl_count P u"
  by (simp add: tbl_count_def)

lemma tbl_count_Nil [simp]: "tbl_count P [] = 0"
  by (simp add: tbl_count_def)

lemma tbl_count_Cons [simp]: "tbl_count P (r # t) = (if P r then 1 else 0) + tbl_count P t"
  by (simp add: tbl_count_def)

lemma tbl_count_mono: "(\<And>r. r \<in> set t \<Longrightarrow> P r \<Longrightarrow> Q r) \<Longrightarrow> tbl_count P t \<le> tbl_count Q t"
  by (induction t) force+

lemma tbl_count_upd_le:
  assumes "\<And>r. r \<in> set t \<Longrightarrow> P r \<Longrightarrow> Q (f r) \<Longrightarrow> Q r"
  shows "tbl_count Q (tbl_upd P f t) \<le> tbl_count Q t"
  using assms by (induction t) force+

lemma tbl_ex_iff [tbl_simps]: "tbl_ex P t \<longleftrightarrow> (\<exists>r \<in> set t. P r)"
  by (simp add: tbl_ex_def list_ex_iff)

lemma tbl_ex_Nil [simp]: "\<not> tbl_ex P []"
  by (simp add: tbl_ex_def)

lemma tbl_ex_Cons [simp]: "tbl_ex P (r # t) \<longleftrightarrow> P r \<or> tbl_ex P t"
  by (simp add: tbl_ex_def)

lemma tbl_ex_upd: "tbl_ex Q t \<Longrightarrow> (\<And>r. P r \<Longrightarrow> Q r \<Longrightarrow> Q (f r)) \<Longrightarrow> tbl_ex Q (tbl_upd P f t)"
  by (induction t) auto

lemma commit_simps [simp]:
  "commit s (Inl e) = s" "commit s (Inr (s', a)) = s'"
  by (simp_all add: commit_def)

subsection \<open>Tables whose rows only evolve\<close>

text \<open>Every row of the old table has a successor in the new one.\<close>

definition rows_kept :: "('r \<Rightarrow> 'r \<Rightarrow> bool) \<Rightarrow> 'r table \<Rightarrow> 'r table \<Rightarrow> bool" where
  "rows_kept R t u \<longleftrightarrow> (\<forall>r \<in> set t. \<exists>s \<in> set u. R r s)"

lemma rows_kept_subset: "(\<And>r. R r r) \<Longrightarrow> set t \<subseteq> set u \<Longrightarrow> rows_kept R t u"
  unfolding rows_kept_def by blast

lemma rows_kept_trans:
  "(\<And>a b c. R a b \<Longrightarrow> R b c \<Longrightarrow> R a c) \<Longrightarrow> rows_kept R t u \<Longrightarrow> rows_kept R u v \<Longrightarrow> rows_kept R t v"
  unfolding rows_kept_def by meson

lemma rows_kept_upd:
  assumes "\<And>r. R r r" and "\<And>r. r \<in> set t \<Longrightarrow> P r \<Longrightarrow> R r (f r)"
  shows "rows_kept R t (tbl_upd P f t)"
proof -
  have "\<exists>s \<in> set (tbl_upd P f t). R r s" if r: "r \<in> set t" for r
  proof -
    have "(if P r then f r else r) \<in> set (tbl_upd P f t)" using r unfolding set_tbl_upd by (rule imageI)
    moreover have "R r (if P r then f r else r)" using assms r by simp
    ultimately show ?thesis by blast
  qed
  then show ?thesis by (simp add: rows_kept_def)
qed

lemma rows_keptD: "rows_kept R t u \<Longrightarrow> r \<in> set t \<Longrightarrow> \<exists>s \<in> set u. R r s"
  by (simp add: rows_kept_def)

subsection \<open>Tables with a unique key\<close>

text \<open>
  The contract of a table with a \<open>PRIMARY KEY\<close> or \<open>UNIQUE\<close> constraint: \<open>sel k\<close> is the
  \<open>WHERE\<close> clause that names the row of key \<open>k\<close>. The lemmas are what the components use of it:
  an update of the row of one key changes a sum by exactly that row's contribution, and
  neither an update that keeps the key nor the insertion of a fresh key breaks uniqueness.
\<close>

locale keyed_rows =
  fixes key :: "'r \<Rightarrow> 'k" and sel :: "'k \<Rightarrow> 'r \<Rightarrow> bool"
  assumes sel_iff: "sel k r \<longleftrightarrow> key r = k"
begin

definition uniq :: "'r table \<Rightarrow> bool" where
  "uniq t \<longleftrightarrow> distinct (map key t)"

lemma uniq_Nil: "uniq []"
  by (simp add: uniq_def)

lemma uniq_insert: "uniq t \<Longrightarrow> tbl_get (sel (key r)) t = None \<Longrightarrow> uniq (t @ [r])"
  by (auto simp: uniq_def tbl_get_None_iff sel_iff)

lemma uniq_upd: "uniq t \<Longrightarrow> (\<And>r. P r \<Longrightarrow> key (f r) = key r) \<Longrightarrow> uniq (tbl_upd P f t)"
  by (simp add: uniq_def map_tbl_upd)

lemma uniq_get: "uniq t \<Longrightarrow> r \<in> set t \<Longrightarrow> tbl_get (sel (key r)) t = Some r"
  by (induction t) (auto simp: uniq_def sel_iff)

lemma uniq_same: "uniq t \<Longrightarrow> r \<in> set t \<Longrightarrow> s \<in> set t \<Longrightarrow> key r = key s \<Longrightarrow> r = s"
  by (metis uniq_get option.inject)

lemma get_key: "tbl_get (sel k) t = Some r \<Longrightarrow> key r = k"
  by (auto dest: tbl_get_Some_iff simp: sel_iff)

lemma sum_upd_row:
  assumes "uniq t" and "tbl_get (sel k) t = Some r"
  shows "tbl_sum P w (tbl_upd (sel k) f t) =
    tbl_sum P w t - (if P r then w r else 0) + (if P (f r) then w (f r) else 0)"
  using assms
proof (induction t)
  case (Cons a t)
  show ?case
  proof (cases "sel k a")
    case True
    with Cons.prems have "\<And>x. x \<in> set t \<Longrightarrow> \<not> sel k x"
      unfolding uniq_def by (metis distinct.simps(2) image_eqI list.map(2) list.set_map sel_iff)
    then have "tbl_upd (sel k) f t = t" by (rule tbl_upd_none)
    with True Cons.prems show ?thesis by simp
  next
    case False
    with Cons show ?thesis by (simp add: uniq_def)
  qed
qed simp

lemma get_upd_row:
  assumes "\<And>r. key (f r) = key r"
  shows "tbl_get (sel k') (tbl_upd (sel k) f t) =
    (if k' = k then map_option f (tbl_get (sel k) t) else tbl_get (sel k') t)"
  using assms by (induction t) (auto simp: sel_iff)

end

subsection \<open>Transactions that keep an invariant\<close>

text \<open>
  \<open>exec p s\<close> runs operation \<open>p\<close>. The provider promises that a committed operation that is
  \<open>admissible\<close> keeps \<open>inv\<close>; then every sequence of admissible operations, in which failed
  ones roll back, keeps it.
\<close>

locale transactional =
  fixes exec :: "'op \<Rightarrow> 's \<Rightarrow> ('e, 's, 'a) outcome"
    and inv :: "'s \<Rightarrow> bool"
    and admissible :: "'op \<Rightarrow> bool"
  assumes exec_inv: "inv s \<Longrightarrow> admissible p \<Longrightarrow> exec p s = Inr (s', a) \<Longrightarrow> inv s'"
begin

lemma commit_inv: "inv s \<Longrightarrow> admissible p \<Longrightarrow> inv (commit s (exec p s))"
  using exec_inv by (cases "exec p s") auto

lemma run_inv: "inv s \<Longrightarrow> list_all admissible ps \<Longrightarrow> inv (run_ops exec ps s)"
  by (induction ps arbitrary: s) (auto intro: commit_inv)

end

text \<open>
  An audited family also promises that a committed operation only moves the state forward in an
  order \<open>older\<close>; then so does every sequence of admissible operations.
\<close>

locale audited = transactional exec inv admissible
  for exec :: "'op \<Rightarrow> 's \<Rightarrow> ('e, 's, 'a) outcome" and inv :: "'s \<Rightarrow> bool" and admissible :: "'op \<Rightarrow> bool" +
  fixes older :: "'s \<Rightarrow> 's \<Rightarrow> bool"
  assumes older_refl: "older s s"
    and older_trans: "older s t \<Longrightarrow> older t u \<Longrightarrow> older s u"
    and exec_older: "inv s \<Longrightarrow> admissible p \<Longrightarrow> exec p s = Inr (s', a) \<Longrightarrow> older s s'"
begin

lemma commit_older: "inv s \<Longrightarrow> admissible p \<Longrightarrow> older s (commit s (exec p s))"
  using exec_older older_refl by (cases "exec p s") auto

lemma run_older: "inv s \<Longrightarrow> list_all admissible ps \<Longrightarrow> older s (run_ops exec ps s)"
proof (induction ps arbitrary: s)
  case (Cons p ps)
  have "older s (commit s (exec p s))" using Cons.prems by (simp add: commit_older)
  moreover have "older (commit s (exec p s)) (run_ops exec ps (commit s (exec p s)))"
    using Cons commit_inv by simp
  ultimately show ?case using older_trans by simp
qed (simp add: older_refl)

lemma run_split: "run_ops exec (ps @ qs) s = run_ops exec qs (run_ops exec ps s)"
  by (induction ps arbitrary: s) auto

end

end
