(* ===== verification/Py_Values.thy ===== *)
theory Py_Values
  imports Prelude "HOL-Library.Log_Nat"
begin

text \<open>
  The Python values and library calls the gateway uses: JSON documents as \<open>json.loads\<close>
  returns them, \<open>str\<close> methods, character classes of the anchored regular expressions,
  \<open>int(...)\<close> / \<open>str(...)\<close> on integers, and \<open>math.ceil(a / b)\<close> on integers.

  A \<open>str\<close> is a \<open>string\<close>, one \<open>char\<close> per code point below 256. A dict is an association list
  with distinct keys, in insertion order. A JSON number with a fraction or an exponent is a
  Python float; it is represented by its \<open>repr\<close>, which determines it.

  True division \<open>a / b\<close> of two ints rounds the exact quotient to the nearest IEEE double
  (ties to even) and raises \<open>OverflowError\<close> beyond the largest double. \<open>fl_quot\<close> computes that
  double as a mantissa and an exponent; \<open>ceil_truediv\<close> is \<open>math.ceil\<close> of it. The lemmas at the
  end bound where this is the exact integer ceiling.
\<close>

subsection \<open>JSON documents\<close>

datatype json =
    JNull
  | JBool bool
  | JInt int
  | JFloat string
  | JStr string
  | JList "json list"
  | JObj "(string \<times> json) list"

fun is_JObj :: "json \<Rightarrow> bool" where
  "is_JObj (JObj _) = True" | "is_JObj _ = False"

fun is_JStr :: "json \<Rightarrow> bool" where
  "is_JStr (JStr _) = True" | "is_JStr _ = False"

fun is_JList :: "json \<Rightarrow> bool" where
  "is_JList (JList _) = True" | "is_JList _ = False"

fun is_JInt :: "json \<Rightarrow> bool" where
  "is_JInt (JInt _) = True" | "is_JInt _ = False"

text \<open>\<open>d.get(k)\<close> on a dict: \<open>None\<close> for a missing key.\<close>

fun jget :: "json \<Rightarrow> string \<Rightarrow> json" where
  "jget (JObj kvs) k = (case map_of kvs k of None \<Rightarrow> JNull | Some v \<Rightarrow> v)"
| "jget _ _ = JNull"

fun jkeys :: "json \<Rightarrow> string set" where
  "jkeys (JObj kvs) = set (map fst kvs)"
| "jkeys _ = {}"

text \<open>Lists and dicts are unhashable: \<open>x in {...}\<close> and \<open>x in dict\<close> raise on them.\<close>

fun hashable :: "json \<Rightarrow> bool" where
  "hashable (JList _) = False" | "hashable (JObj _) = False" | "hashable _ = True"

text \<open>Truthiness.\<close>

fun truthy :: "json \<Rightarrow> bool" where
  "truthy JNull = False"
| "truthy (JBool b) = b"
| "truthy (JInt n) = (n \<noteq> 0)"
| "truthy (JFloat r) = (r \<noteq> ''0.0'' \<and> r \<noteq> ''-0.0'')"
| "truthy (JStr s) = (s \<noteq> [])"
| "truthy (JList xs) = (xs \<noteq> [])"
| "truthy (JObj kvs) = (kvs \<noteq> [])"

subsection \<open>Strings\<close>

definition code :: "char \<Rightarrow> nat" where
  "code c = of_char c"

definition is_space :: "char \<Rightarrow> bool" where
  "is_space c \<longleftrightarrow> (9 \<le> code c \<and> code c \<le> 13) \<or> (28 \<le> code c \<and> code c \<le> 32)
     \<or> code c = 133 \<or> code c = 160"

definition py_strip :: "string \<Rightarrow> string" where
  "py_strip s = rev (dropWhile is_space (rev (dropWhile is_space s)))"

definition starts_with :: "string \<Rightarrow> string \<Rightarrow> bool" where
  "starts_with p s \<longleftrightarrow> take (length p) s = p"

text \<open>\<open>s.split(sep)\<close> for a one-character separator.\<close>

fun py_split :: "char \<Rightarrow> string \<Rightarrow> string list" where
  "py_split sep [] = [[]]"
| "py_split sep (c # cs) =
     (if c = sep then [] # py_split sep cs
      else (case py_split sep cs of [] \<Rightarrow> [[c]] | w # ws \<Rightarrow> (c # w) # ws))"

text \<open>\<open>s.partition(sep)\<close>: the part before, whether the separator occurs, the part after.\<close>

fun py_partition :: "char \<Rightarrow> string \<Rightarrow> string \<times> bool \<times> string" where
  "py_partition sep [] = ([], False, [])"
| "py_partition sep (c # cs) =
     (if c = sep then ([], True, cs)
      else (case py_partition sep cs of (a, b, r) \<Rightarrow> (c # a, b, r)))"

definition is_digit :: "char \<Rightarrow> bool" where
  "is_digit c \<longleftrightarrow> 48 \<le> code c \<and> code c \<le> 57"

definition is_lower :: "char \<Rightarrow> bool" where
  "is_lower c \<longleftrightarrow> 97 \<le> code c \<and> code c \<le> 122"

definition is_upper :: "char \<Rightarrow> bool" where
  "is_upper c \<longleftrightarrow> 65 \<le> code c \<and> code c \<le> 90"

definition is_alnum :: "char \<Rightarrow> bool" where
  "is_alnum c \<longleftrightarrow> is_digit c \<or> is_lower c \<or> is_upper c"

text \<open>\<open>str.isalnum\<close> for code points up to 255.\<close>

definition py_alnum :: "char \<Rightarrow> bool" where
  "py_alnum c \<longleftrightarrow> is_alnum c \<or> code c \<in> {170, 178, 179, 181, 185, 186, 188, 189, 190} \<or> (192 \<le> code c \<and> code c \<noteq> 215 \<and> code c \<noteq> 247)"

text \<open>\<open>[first][rest]{lo,hi}\<close> as a full match.\<close>

definition full_class :: "(char \<Rightarrow> bool) \<Rightarrow> (char \<Rightarrow> bool) \<Rightarrow> nat \<Rightarrow> nat \<Rightarrow> string \<Rightarrow> bool" where
  "full_class f g lo hi s \<longleftrightarrow>
     (case s of [] \<Rightarrow> False
      | c # cs \<Rightarrow> f c \<and> list_all g cs \<and> lo \<le> length cs \<and> length cs \<le> hi)"

fun py_lower_char :: "char \<Rightarrow> char" where
  "py_lower_char c = (if is_upper c then char_of (code c + 32) else c)"

definition py_lower :: "string \<Rightarrow> string" where
  "py_lower s = map py_lower_char s"

subsection \<open>Integers as text\<close>

definition digit_char :: "nat \<Rightarrow> char" where
  "digit_char d = char_of (48 + d)"

function nat_str :: "int \<Rightarrow> string" where
  "nat_str n = (if n < 10 then [digit_char (nat n)] else nat_str (n div 10) @ [digit_char (nat (n mod 10))])"
  by auto
termination by (relation "measure nat") auto

declare nat_str.simps [simp del]

definition int_str :: "int \<Rightarrow> string" where
  "int_str n = (if n < 0 then ''-'' @ nat_str (- n) else nat_str n)"

fun digits_val :: "int \<Rightarrow> string \<Rightarrow> int option" where
  "digits_val acc [] = Some acc"
| "digits_val acc (c # cs) =
     (if is_digit c then digits_val (acc * 10 + int (code c - 48)) cs
      else if c = CHR ''_'' then
        (case cs of [] \<Rightarrow> None
         | d # _ \<Rightarrow> if is_digit d then digits_val acc cs else None)
      else None)"

definition unsigned_val :: "string \<Rightarrow> int option" where
  "unsigned_val s =
     (case s of [] \<Rightarrow> None | c # _ \<Rightarrow> if is_digit c then digits_val 0 s else None)"

text \<open>\<open>int(s)\<close>: surrounding whitespace, a sign, decimal digits with single underscores
  between them; \<open>None\<close> is \<open>ValueError\<close>.\<close>

definition py_int :: "string \<Rightarrow> int option" where
  "py_int s =
     (case py_strip s of
        [] \<Rightarrow> None
      | c # cs \<Rightarrow>
          if c = CHR ''-'' then map_option (\<lambda>n. - n) (unsigned_val cs)
          else if c = CHR ''+'' then unsigned_val cs
          else unsigned_val (c # cs))"

text \<open>\<open>time.strftime("%Y-%m", time.gmtime(now))\<close>: the proleptic Gregorian year and month of a
  number of seconds since 1970-01-01 UTC.\<close>

definition civil_month :: "int \<Rightarrow> int \<times> int" where
  "civil_month now =
     (let z = now div 86400 + 719468;
          era = z div 146097;
          doe = z mod 146097;
          yoe = (doe - doe div 1460 + doe div 36524 - doe div 146096) div 365;
          doy = doe - (365 * yoe + yoe div 4 - yoe div 100);
          mp = (5 * doy + 2) div 153;
          m = (if mp < 10 then mp + 3 else mp - 9)
      in (yoe + era * 400 + (if m \<le> 2 then 1 else 0), m))"

definition period_key_of :: "int \<Rightarrow> string" where
  "period_key_of now =
     (case civil_month now of (y, m) \<Rightarrow>
        int_str y @ ''-'' @ (if m < 10 then ''0'' else []) @ int_str m)"

subsection \<open>Division through floats\<close>

definition ceil_div :: "int \<Rightarrow> int \<Rightarrow> int" where
  "ceil_div a b = - ((- a) div b)"

definition round_half_even :: "int \<Rightarrow> int \<Rightarrow> int" where
  "round_half_even n d =
     (let q = n div d; r = n mod d in
      if 2 * r < d then q else if 2 * r > d then q + 1 else if even q then q else q + 1)"

text \<open>The binary exponent \<open>e\<close> of the double nearest to \<open>a / b\<close>:
  \<open>2 ^ 52 \<le> a / (b * 2 ^ e) < 2 ^ 53\<close>, but never below the subnormal exponent.\<close>

definition scaled_ge :: "int \<Rightarrow> int \<Rightarrow> int \<Rightarrow> bool" where
  "scaled_ge a b d \<longleftrightarrow> (if 0 \<le> d then b * 2 ^ nat d \<le> a else b \<le> a * 2 ^ nat (- d))"

definition fl_exp :: "int \<Rightarrow> int \<Rightarrow> int" where
  "fl_exp a b =
     (let d = bitlen a - bitlen b;
          e = (if scaled_ge a b d then d else d - 1)
      in max (e - 52) (- 1074))"

definition fl_quot :: "int \<Rightarrow> int \<Rightarrow> int \<times> int" where
  "fl_quot a b =
     (let e = fl_exp a b in
      (if 0 \<le> e then round_half_even a (b * 2 ^ nat e)
       else round_half_even (a * 2 ^ nat (- e)) b, e))"

text \<open>\<open>math.ceil(a / b)\<close> for \<open>0 \<le> a\<close> and \<open>0 < b\<close>; \<open>None\<close> is \<open>OverflowError\<close>.\<close>

definition ceil_truediv :: "int \<Rightarrow> int \<Rightarrow> int option" where
  "ceil_truediv a b =
     (if a = 0 then Some 0
      else case fl_quot a b of (m, e) \<Rightarrow>
        if 0 \<le> e then (if m * 2 ^ nat e < 2 ^ 1024 then Some (m * 2 ^ nat e) else None)
        else Some (ceil_div m (2 ^ nat (- e))))"

subsection \<open>Where float division is the exact ceiling\<close>

lemma scaled_ge_iff:
  assumes "scaled_ge a b d"
  shows "0 \<le> k \<Longrightarrow> 0 \<le> d + k \<Longrightarrow> b * 2 ^ nat (d + k) \<le> a * 2 ^ nat k"
proof -
  assume k: "0 \<le> k" and dk: "0 \<le> d + k"
  show ?thesis
  proof (cases "0 \<le> d")
    case True
    then have "b * 2 ^ nat d \<le> a" using assms by (simp add: scaled_ge_def)
    then have "b * 2 ^ nat d * 2 ^ nat k \<le> a * 2 ^ nat k" by (intro mult_right_mono) auto
    with True k show ?thesis by (simp add: nat_add_distrib power_add mult.assoc)
  next
    case False
    then have "b \<le> a * 2 ^ nat (- d)" using assms by (simp add: scaled_ge_def)
    then have "b * 2 ^ nat (d + k) \<le> a * 2 ^ nat (- d) * 2 ^ nat (d + k)" by (intro mult_right_mono) auto
    moreover have "nat k = nat (- d) + nat (d + k)" using False dk by simp
    ultimately show ?thesis by (simp add: power_add mult.assoc)
  qed
qed

lemma bitlen_pos: "0 < x \<Longrightarrow> 0 < bitlen x"
  using bitlen_bounds[of x] bitlen_nonneg[of x] by (cases "bitlen x = 0") auto

lemma scaled_ge_bitlen:
  assumes a: "0 < a" and b: "0 < b"
  shows "scaled_ge a b (bitlen a - bitlen b - 1)"
proof -
  let ?d = "bitlen a - bitlen b - 1"
  have la: "2 ^ nat (bitlen a - 1) \<le> a" and ub: "b < 2 ^ nat (bitlen b)"
    using bitlen_bounds[OF a] bitlen_bounds[OF b] by auto
  have pa: "0 < bitlen a" and pb: "0 < bitlen b" using a b by (simp_all add: bitlen_pos)
  show ?thesis
  proof (cases "0 \<le> ?d")
    case True
    then have "b * 2 ^ nat ?d \<le> 2 ^ nat (bitlen b) * 2 ^ nat ?d" using ub by (intro mult_right_mono) auto
    also have "\<dots> = 2 ^ nat (bitlen a - 1)" using True pb
      by (simp flip: power_add add: nat_add_distrib[symmetric])
    finally show ?thesis using True la by (simp add: scaled_ge_def)
  next
    case False
    have "b \<le> 2 ^ nat (bitlen b)" using ub by simp
    also have "\<dots> = 2 ^ nat (bitlen a - 1) * 2 ^ nat (- ?d)" using False pa
      by (simp flip: power_add add: nat_add_distrib[symmetric])
    also have "\<dots> \<le> a * 2 ^ nat (- ?d)" using la by (intro mult_right_mono) auto
    finally show ?thesis using False by (simp add: scaled_ge_def)
  qed
qed

lemma fl_exp_scaled:
  assumes "0 < a" and "0 < b" and "- 1074 < fl_exp a b"
  shows "scaled_ge a b (fl_exp a b + 52)"
  using assms scaled_ge_bitlen[OF assms(1,2)]
  by (auto simp: fl_exp_def Let_def max_def split: if_splits)

lemma round_half_even_le:
  assumes "0 < d" and "n \<le> M * d"
  shows "round_half_even n d \<le> M"
proof -
  have "n div d \<le> (M * d) div d" using assms by (intro zdiv_mono1)
  then have q: "n div d \<le> M" using assms by simp
  show ?thesis
  proof (cases "n div d = M")
    case True
    have "n mod d = n - M * d" using True by (metis minus_div_mult_eq_mod)
    then have "n mod d = 0" using assms by (smt (verit) pos_mod_sign)
    with True assms show ?thesis by (simp add: round_half_even_def)
  next
    case False
    with q show ?thesis by (auto simp: round_half_even_def Let_def)
  qed
qed

lemma round_half_even_ge:
  assumes d: "0 < d" and n: "2 * (M * d) + d < 2 * n"
  shows "M < round_half_even n d"
proof (cases "n div d \<le> M")
  case True
  have n_eq: "n = n div d * d + n mod d" by simp
  have r: "n mod d < d" using d by simp
  have M: "n div d = M"
  proof (rule ccontr)
    assume "n div d \<noteq> M"
    then have "n div d * d \<le> (M - 1) * d" using True d by (intro mult_right_mono) auto
    then have "n div d * d \<le> M * d - d" by (simp add: algebra_simps)
    with n_eq r n d show False by linarith
  qed
  have "d < 2 * (n mod d)" using n n_eq unfolding M by linarith
  then show ?thesis using M by (simp add: round_half_even_def)
next
  case False
  then show ?thesis by (auto simp: round_half_even_def Let_def)
qed

lemma ceil_div_bounds:
  assumes "0 < b"
  shows "a \<le> ceil_div a b * b" and "(ceil_div a b - 1) * b < a"
proof -
  have eq: "- a = (- a) div b * b + (- a) mod b" by simp
  have r: "0 \<le> (- a) mod b" "(- a) mod b < b" using assms by auto
  have c: "ceil_div a b * b = - ((- a) div b * b)" by (simp add: ceil_div_def)
  show "a \<le> ceil_div a b * b" using eq r c by linarith
  have "(ceil_div a b - 1) * b = ceil_div a b * b - b" by (simp add: algebra_simps)
  then show "(ceil_div a b - 1) * b < a" using eq r c by linarith
qed

lemma ceil_div_unique:
  assumes "0 < b" and "a \<le> c * b" and "(c - 1) * b < a"
  shows "ceil_div a b = c"
proof -
  have "a \<le> ceil_div a b * b" "(ceil_div a b - 1) * b < a" using ceil_div_bounds[OF assms(1)] by auto
  then have "(c - 1) * b < ceil_div a b * b" "(ceil_div a b - 1) * b < c * b" using assms by linarith+
  then have "c - 1 < ceil_div a b" "ceil_div a b - 1 < c" using assms(1) by auto
  then show ?thesis by simp
qed

lemma fl_exp_gt:
  assumes "0 < a" "0 < b" "b < 2 ^ 1000"
  shows "- 1074 < fl_exp a b"
proof -
  have "bitlen b \<le> 1000" using assms bitlen_le_iff_power[of b 1000] by simp
  moreover have "0 < bitlen a" using assms(1) by (rule bitlen_pos)
  ultimately show ?thesis by (auto simp: fl_exp_def Let_def)
qed

lemma ceil_truediv_exact:
  assumes a: "0 \<le> a" "a < 2 ^ 53" and b: "0 < b" "b < 2 ^ 1000"
  shows "ceil_truediv a b = Some (ceil_div a b)"
proof (cases "a = 0")
  case True
  then show ?thesis by (simp add: ceil_truediv_def ceil_div_def)
next
  case False
  with a have a0: "0 < a" by simp
  define e where "e = fl_exp a b"
  have s: "scaled_ge a b (e + 52)"
    unfolding e_def using fl_exp_scaled[OF a0 b(1) fl_exp_gt[OF a0 b]] .
  show ?thesis
  proof (cases "0 \<le> e")
    case True
    have "b * 2 ^ nat (e + 52) \<le> a" using s True by (simp add: scaled_ge_def)
    then have "b * 2 ^ nat e * 2 ^ 52 < 2 ^ 53" using a True by (simp add: nat_add_distrib power_add mult.assoc)
    then have lt2: "b * 2 ^ nat e < 2" by simp
    moreover have "1 \<le> b * 2 ^ nat e" using b by (simp add: int_one_le_iff_zero_less)
    ultimately have "b * 2 ^ nat e = 1" by simp
    then have "b = 1" "(2::int) ^ nat e = 1"
      using b by (auto simp: zmult_eq_1_iff)
    moreover have "nat e \<noteq> 0 \<Longrightarrow> (1::int) < 2 ^ nat e" by (intro one_less_power) auto
    ultimately have "b = 1" and "fl_exp a 1 = 0" using True by (auto simp: e_def)
    then show ?thesis using a False
      by (simp add: ceil_truediv_def fl_quot_def round_half_even_def ceil_div_def)
  next
    case False
    define k where "k = nat (- e)"
    have "b * 2 ^ nat (e + 52 + int k) \<le> a * 2 ^ nat (int k)"
      using s False by (intro scaled_ge_iff) (auto simp: k_def)
    then have "b * 2 ^ 52 \<le> a * 2 ^ k" using False by (simp add: k_def)
    also have "\<dots> < 2 ^ 53 * 2 ^ k" using a by (intro mult_strict_right_mono) auto
    finally have bk: "b < 2 * 2 ^ k" by simp
    let ?c = "ceil_div a b" and ?m = "round_half_even (a * 2 ^ k) b"
    have "a * 2 ^ k \<le> ?c * 2 ^ k * b"
      using ceil_div_bounds(1)[OF b(1), of a] by (metis mult.assoc mult.commute mult_right_mono zero_le_numeral zero_le_power)
    then have up: "?m \<le> ?c * 2 ^ k" using b by (intro round_half_even_le) auto
    have "(?c - 1) * b + 1 \<le> a" using ceil_div_bounds(2)[OF b(1), of a] by simp
    then have "((?c - 1) * b + 1) * 2 ^ k \<le> a * 2 ^ k" by (intro mult_right_mono) auto
    then have "2 * ((?c - 1) * 2 ^ k * b) + 2 * 2 ^ k \<le> 2 * (a * 2 ^ k)" by (simp add: algebra_simps)
    then have lo: "(?c - 1) * 2 ^ k < ?m" using bk b by (intro round_half_even_ge) auto
    have "ceil_div ?m (2 ^ k) = ?c" using up lo by (intro ceil_div_unique) auto
    then show ?thesis using False \<open>a \<noteq> 0\<close>
      by (simp add: ceil_truediv_def fl_quot_def Let_def e_def[symmetric] k_def)
  qed
qed

lemma ceil_truediv_nonneg:
  assumes "0 \<le> a" "0 < b" "ceil_truediv a b = Some c"
  shows "0 \<le> c"
proof -
  have rhe: "0 \<le> round_half_even n d" if "0 \<le> n" "0 < d" for n d :: int
    using that by (simp add: round_half_even_def Let_def pos_imp_zdiv_nonneg_iff)
  have cd: "0 \<le> ceil_div m k" if "0 \<le> m" "0 < k" for m k :: int
    using that by (simp add: ceil_div_def div_nonpos_pos_le0)
  obtain m e where q: "fl_quot a b = (m, e)" by fastforce
  then have "0 \<le> m" using assms rhe by (auto simp: fl_quot_def Let_def split: if_splits)
  then show ?thesis using assms q cd by (auto simp: ceil_truediv_def split: if_splits)
qed

end
