(* ===== verification/Billing_Catalog.thy ===== *)
theory Billing_Catalog
  imports Py_Values
begin

text \<open>
  \<open>app/billing.py\<close>, class \<open>BillingCatalog\<close>: the validated price list. The constructor takes
  the JSON document and either raises or yields a \<open>catalog\<close>: plans and credit packs indexed
  by id, rates indexed by (provider, model), the default plan and the value of a credit.

  A \<open>BillingError\<close> is its code and HTTP status (the message is prose). \<open>PyTypeError\<close> is the
  \<open>TypeError\<close> of testing an unhashable value for membership or of subscripting \<open>None\<close>,
  \<open>PyKeyError\<close> that of a missing dict key, \<open>PyOverflowError\<close> that of a
  quotient beyond the largest float, \<open>IntegrityError\<close> that of a violated SQL constraint.
\<close>

datatype billing_error =
    BillingError string nat
  | PyTypeError
  | PyKeyError
  | PyOverflowError
  | IntegrityError
  | SqlBindingError

record plan =
  plan_id :: json
  plan_name :: string
  plan_kind :: string
  plan_price :: "string option"
  monthly_included_credits :: int
  objective_reserve_credits :: int
  monthly_spend_limit_credits :: int
  concurrency_limit :: int
  low_credit_warning_credits :: int
  grace_days :: int
  entitlements :: "string list"

record pack =
  pack_id :: json
  pack_name :: string
  pack_price :: "string option"
  pack_credits :: int

record rate =
  input_usd_micros_per_million :: int
  output_usd_micros_per_million :: int
  compute_usd_micros_per_hour :: int
  margin_bps :: int

record catalog =
  usd_micros_per_credit :: int
  plans :: "(json \<times> plan) list"
  packs :: "(json \<times> pack) list"
  default_plan :: json
  rates :: "((string \<times> string) \<times> rate) list"

definition MICROCREDITS_PER_CREDIT :: int where
  "MICROCREDITS_PER_CREDIT = 1000000"

definition CATALOG_SCHEMA :: string where
  "CATALOG_SCHEMA = ''magistrate.billing-catalog.v1''"

definition catalog_invalid :: billing_error where
  "catalog_invalid = BillingError ''catalog_invalid'' 503"

text \<open>\<open>str(value)\<close> for the value of an \<open>id\<close> field; containers print with brackets, which no
  id pattern admits.\<close>

fun py_str :: "json \<Rightarrow> string" where
  "py_str JNull = ''None''"
| "py_str (JBool b) = (if b then ''True'' else ''False'')"
| "py_str (JInt n) = int_str n"
| "py_str (JFloat r) = r"
| "py_str (JStr s) = s"
| "py_str (JList _) = ''[]''"
| "py_str (JObj _) = ''{}''"

text \<open>\<open>value.get("id", "")\<close>\<close>

definition id_field :: "json \<Rightarrow> json" where
  "id_field v = (case v of JObj kvs \<Rightarrow> (case map_of kvs ''id'' of None \<Rightarrow> JStr [] | Some x \<Rightarrow> x) | _ \<Rightarrow> JStr [])"

definition catalog_id_ok :: "string \<Rightarrow> bool" where
  "catalog_id_ok = full_class (\<lambda>c. is_lower c \<or> is_digit c)
                     (\<lambda>c. is_lower c \<or> is_digit c \<or> c = CHR ''-'') 0 63"

text \<open>\<open>_indexed\<close>: the loop over the listed values, with the dict built so far.\<close>

fun indexed_loop :: "(json \<times> json) list \<Rightarrow> json list \<Rightarrow> billing_error + (json \<times> json) list" where
  "indexed_loop acc [] = Inr acc"
| "indexed_loop acc (v # vs) =
     (if \<not> is_JObj v \<or> \<not> catalog_id_ok (py_str (id_field v)) then Inl catalog_invalid
      else if id_field v \<in> fst ` set acc then Inl catalog_invalid
      else indexed_loop (acc @ [(id_field v, v)]) vs)"

definition indexed :: "json \<Rightarrow> string \<Rightarrow> billing_error + (json \<times> json) list" where
  "indexed payload field =
     (case jget payload field of JList vs \<Rightarrow> indexed_loop [] vs | _ \<Rightarrow> Inl catalog_invalid)"

definition price_ok :: "string \<Rightarrow> bool" where
  "price_ok s \<longleftrightarrow> starts_with ''price_'' s \<and> 6 < length s
     \<and> list_all (\<lambda>c. is_alnum c \<or> c = CHR ''_'') (drop 6 s)"

fun price :: "json \<Rightarrow> billing_error + string option" where
  "price JNull = Inr None"
| "price (JStr s) = (if price_ok s then Inr (Some s) else Inl catalog_invalid)"
| "price _ = Inl catalog_invalid"

text \<open>\<open>type(x) is int and x >= 0\<close>\<close>

definition nonneg_int :: "json \<Rightarrow> int option" where
  "nonneg_int v = (case v of JInt n \<Rightarrow> if n < 0 then None else Some n | _ \<Rightarrow> None)"

fun str_items :: "json list \<Rightarrow> string list option" where
  "str_items [] = Some []"
| "str_items (JStr s # vs) = (if s = [] then None else map_option ((#) s) (str_items vs))"
| "str_items _ = None"

definition PLAN_INT_FIELDS :: "string list" where
  "PLAN_INT_FIELDS = [''monthly_included_credits'', ''objective_reserve_credits'',
     ''monthly_spend_limit_credits'', ''concurrency_limit'', ''low_credit_warning_credits'',
     ''grace_days'']"

definition validate_plan :: "json \<times> json \<Rightarrow> billing_error + plan" where
  "validate_plan kv = (case kv of (k, p) \<Rightarrow>
     if \<not> hashable (jget p ''kind'') then Inl PyTypeError
     else case (jget p ''kind'', jget p ''name'') of
       (JStr kind, JStr name) \<Rightarrow>
         if kind \<notin> {''free'', ''demo'', ''subscription''} then Inl catalog_invalid
         else (case price (jget p ''stripe_price_id'') of
           Inl e \<Rightarrow> Inl e
         | Inr pr \<Rightarrow>
             (case map (\<lambda>f. nonneg_int (jget p f)) PLAN_INT_FIELDS of
               [Some incl, Some res, Some lmt, Some conc, Some low, Some grace] \<Rightarrow>
                 (if conc < 1 \<or> lmt < res then Inl catalog_invalid
                  else (case jget p ''entitlements'' of
                    JList vs \<Rightarrow>
                      (case str_items vs of
                        None \<Rightarrow> Inl catalog_invalid
                      | Some es \<Rightarrow>
                          if \<not> distinct es then Inl catalog_invalid
                          else if kind \<noteq> ''subscription'' \<and> pr \<noteq> None then Inl catalog_invalid
                          else Inr \<lparr>plan_id = k, plan_name = name, plan_kind = kind, plan_price = pr,
                                 monthly_included_credits = incl, objective_reserve_credits = res,
                                 monthly_spend_limit_credits = lmt, concurrency_limit = conc,
                                 low_credit_warning_credits = low, grace_days = grace,
                                 entitlements = es\<rparr>)
                  | _ \<Rightarrow> Inl catalog_invalid))
             | _ \<Rightarrow> Inl catalog_invalid))
     | _ \<Rightarrow> Inl catalog_invalid)"

definition validate_pack :: "json \<times> json \<Rightarrow> billing_error + pack" where
  "validate_pack kv = (case kv of (k, p) \<Rightarrow>
     case price (jget p ''stripe_price_id'') of
       Inl e \<Rightarrow> Inl e
     | Inr pr \<Rightarrow>
         (case (jget p ''name'', jget p ''credits'') of
            (JStr name, JInt n) \<Rightarrow>
              if n \<le> 0 then Inl catalog_invalid
              else Inr \<lparr>pack_id = k, pack_name = name, pack_price = pr, pack_credits = n\<rparr>
          | _ \<Rightarrow> Inl catalog_invalid))"

fun map_res :: "('a \<Rightarrow> 'e + 'b) \<Rightarrow> 'a list \<Rightarrow> 'e + 'b list" where
  "map_res f [] = Inr []"
| "map_res f (x # xs) = (case f x of Inl e \<Rightarrow> Inl e | Inr y \<Rightarrow>
     (case map_res f xs of Inl e \<Rightarrow> Inl e | Inr ys \<Rightarrow> Inr (y # ys)))"

definition rate_fields :: "json \<Rightarrow> rate option" where
  "rate_fields r =
     (case map (\<lambda>f. nonneg_int (jget r f)) [''input_usd_micros_per_million'',
        ''output_usd_micros_per_million'', ''compute_usd_micros_per_hour'', ''margin_bps''] of
        [Some a, Some b, Some c, Some m] \<Rightarrow>
          Some \<lparr>input_usd_micros_per_million = a, output_usd_micros_per_million = b,
                compute_usd_micros_per_hour = c, margin_bps = m\<rparr>
      | _ \<Rightarrow> None)"

fun rates_loop :: "((string \<times> string) \<times> rate) list \<Rightarrow> json list
    \<Rightarrow> billing_error + ((string \<times> string) \<times> rate) list" where
  "rates_loop acc [] = Inr acc"
| "rates_loop acc (r # rs) =
     (case (jget r ''provider'', jget r ''model'') of
        (JStr p, JStr m) \<Rightarrow>
          if (p, m) \<in> fst ` set acc then Inl catalog_invalid
          else (case rate_fields r of
            None \<Rightarrow> Inl catalog_invalid
          | Some x \<Rightarrow> rates_loop (acc @ [((p, m), x)]) rs)
      | _ \<Rightarrow> Inl catalog_invalid)"

text \<open>\<open>x == 1_000_000\<close> for a JSON value: the float 1000000.0 is equal too.\<close>

definition eq_precision :: "json \<Rightarrow> bool" where
  "eq_precision v \<longleftrightarrow> v = JInt MICROCREDITS_PER_CREDIT \<or> v = JFloat ''1000000.0''"

text \<open>\<open>default not in self.plans or self.plans[default].get("kind") not in {"free", "demo"}\<close>\<close>

definition default_check :: "(json \<times> json) list \<Rightarrow> json \<Rightarrow> billing_error + unit" where
  "default_check ps d =
     (if \<not> hashable d then Inl PyTypeError
      else case map_of ps d of
        None \<Rightarrow> Inl catalog_invalid
      | Some p \<Rightarrow>
          if \<not> hashable (jget p ''kind'') then Inl PyTypeError
          else if jget p ''kind'' \<noteq> JStr ''free'' \<and> jget p ''kind'' \<noteq> JStr ''demo''
          then Inl catalog_invalid else Inr ())"

definition BillingCatalog :: "json \<Rightarrow> billing_error + catalog" where
  "BillingCatalog payload =
     (if jget payload ''schema_version'' \<noteq> JStr CATALOG_SCHEMA \<or> jget payload ''currency'' \<noteq> JStr ''usd''
      then Inl catalog_invalid
      else if \<not> is_JObj (jget payload ''credit_unit'')
           \<or> \<not> eq_precision (jget (jget payload ''credit_unit'') ''microcredits_per_credit'')
      then Inl catalog_invalid
      else case jget (jget payload ''credit_unit'') ''usd_micros_per_credit'' of
        JInt usd \<Rightarrow>
          if usd \<le> 0 then Inl catalog_invalid
          else (case indexed payload ''plans'' of Inl e \<Rightarrow> Inl e | Inr ps \<Rightarrow>
            (case indexed payload ''credit_packs'' of Inl e \<Rightarrow> Inl e | Inr ks \<Rightarrow>
            (case default_check ps (jget payload ''default_plan'') of Inl e \<Rightarrow> Inl e | Inr _ \<Rightarrow>
            (case map_res validate_plan ps of Inl e \<Rightarrow> Inl e | Inr vps \<Rightarrow>
            (case map_res validate_pack ks of Inl e \<Rightarrow> Inl e | Inr vks \<Rightarrow>
            (case jget payload ''rates'' of
               JList rs \<Rightarrow>
                 (case rates_loop [] rs of Inl e \<Rightarrow> Inl e | Inr rt \<Rightarrow>
                    Inr \<lparr>usd_micros_per_credit = usd,
                         plans = map (\<lambda>p. (plan_id p, p)) vps,
                         packs = map (\<lambda>p. (pack_id p, p)) vks,
                         default_plan = jget payload ''default_plan'',
                         rates = rt\<rparr>)
             | _ \<Rightarrow> Inl catalog_invalid))))))
      | _ \<Rightarrow> Inl catalog_invalid)"

text \<open>\<open>price_item\<close>: plans before packs, each in catalog order.\<close>

datatype price_match = SubscriptionItem plan | CreditPackItem pack

definition price_item :: "catalog \<Rightarrow> string \<Rightarrow> price_match option" where
  "price_item c price_id =
     (case List.find (\<lambda>p. plan_price p = Some price_id) (map snd (plans c)) of
        Some p \<Rightarrow> Some (SubscriptionItem p)
      | None \<Rightarrow> map_option CreditPackItem (List.find (\<lambda>p. pack_price p = Some price_id) (map snd (packs c))))"

subsection \<open>What a catalog that loads guarantees\<close>

definition plan_ok :: "plan \<Rightarrow> bool" where
  "plan_ok p \<longleftrightarrow> plan_kind p \<in> {''free'', ''demo'', ''subscription''}
     \<and> 0 \<le> monthly_included_credits p \<and> 0 \<le> objective_reserve_credits p
     \<and> objective_reserve_credits p \<le> monthly_spend_limit_credits p
     \<and> 1 \<le> concurrency_limit p \<and> 0 \<le> low_credit_warning_credits p \<and> 0 \<le> grace_days p
     \<and> distinct (entitlements p) \<and> [] \<notin> set (entitlements p)
     \<and> (plan_kind p = ''subscription'' \<or> plan_price p = None)"

definition rate_ok :: "rate \<Rightarrow> bool" where
  "rate_ok r \<longleftrightarrow> 0 \<le> input_usd_micros_per_million r \<and> 0 \<le> output_usd_micros_per_million r
     \<and> 0 \<le> compute_usd_micros_per_hour r \<and> 0 \<le> margin_bps r"

definition catalog_ok :: "catalog \<Rightarrow> bool" where
  "catalog_ok c \<longleftrightarrow> 0 < usd_micros_per_credit c
     \<and> distinct (map fst (plans c)) \<and> distinct (map fst (packs c)) \<and> distinct (map fst (rates c))
     \<and> (\<forall>(k, p) \<in> set (plans c). plan_id p = k \<and> plan_ok p)
     \<and> (\<forall>(k, p) \<in> set (packs c). pack_id p = k \<and> 0 < pack_credits p)
     \<and> (\<forall>(k, r) \<in> set (rates c). rate_ok r)
     \<and> (\<exists>p. map_of (plans c) (default_plan c) = Some p \<and> plan_kind p \<in> {''free'', ''demo''})"

lemma map_res_Inr: "map_res f xs = Inr ys \<Longrightarrow> list_all2 (\<lambda>x y. f x = Inr y) xs ys"
  by (induction xs arbitrary: ys) (auto split: sum.splits)

lemma indexed_loop_distinct:
  "indexed_loop acc vs = Inr r \<Longrightarrow> distinct (map fst acc) \<Longrightarrow> distinct (map fst r)"
  by (induction acc vs rule: indexed_loop.induct) (auto split: if_splits)

lemma indexed_distinct: "indexed payload f = Inr r \<Longrightarrow> distinct (map fst r)"
  by (auto simp: indexed_def dest: indexed_loop_distinct split: json.splits)

lemma nonneg_int_Some: "nonneg_int v = Some n \<Longrightarrow> 0 \<le> n"
  by (auto simp: nonneg_int_def split: json.splits if_splits)

lemma rates_loop_ok:
  "rates_loop acc rs = Inr r \<Longrightarrow> distinct (map fst acc) \<Longrightarrow> (\<forall>(k, x) \<in> set acc. rate_ok x)
   \<Longrightarrow> distinct (map fst r) \<and> (\<forall>(k, x) \<in> set r. rate_ok x)"
proof (induction acc rs rule: rates_loop.induct)
  case (2 acc r rs)
  then show ?case
    by (fastforce simp: rate_fields_def rate_ok_def dest: nonneg_int_Some
        split: json.splits if_splits option.splits list.splits)
qed auto

lemma str_items_nonempty: "str_items vs = Some es \<Longrightarrow> [] \<notin> set es"
  by (induction vs arbitrary: es rule: str_items.induct) (auto split: if_splits)

lemma validate_plan_ok:
  "validate_plan (k, v) = Inr p \<Longrightarrow> plan_id p = k \<and> plan_ok p \<and> jget v ''kind'' = JStr (plan_kind p)"
  unfolding validate_plan_def
  by (auto simp: plan_ok_def PLAN_INT_FIELDS_def dest: nonneg_int_Some str_items_nonempty
      split: json.splits if_splits option.splits sum.splits)

lemma validate_pack_ok: "validate_pack (k, v) = Inr p \<Longrightarrow> pack_id p = k \<and> 0 < pack_credits p"
  unfolding validate_pack_def by (auto split: json.splits if_splits sum.splits)

lemma map_of_list_all2:
  assumes "list_all2 (\<lambda>x y. idf y = fst x \<and> P (snd x) y) xs ys" and "map_of xs k = Some v"
  shows "\<exists>y. map_of (map (\<lambda>y. (idf y, y)) ys) k = Some y \<and> P v y"
  using assms by (induction rule: list_all2_induct) (auto split: if_splits)

lemma list_all2_keys:
  "list_all2 (\<lambda>x y. idf y = fst x \<and> P x y) xs ys \<Longrightarrow> map (fst \<circ> (\<lambda>y. (idf y, y))) ys = map fst xs"
  by (induction rule: list_all2_induct) auto

lemma default_check_Inr:
  "default_check ps d = Inr u \<Longrightarrow> \<exists>p. map_of ps d = Some p \<and> jget p ''kind'' \<in> {JStr ''free'', JStr ''demo''}"
  by (auto simp: default_check_def split: if_splits option.splits)

lemma catalog_parts_ok:
  assumes ps: "distinct (map fst ps)" "list_all2 (\<lambda>x y. validate_plan x = Inr y) ps vps"
    and ks: "distinct (map fst ks)" "list_all2 (\<lambda>x y. validate_pack x = Inr y) ks vks"
    and rt: "rates_loop [] rs = Inr rt" and usd: "0 < usd" and d: "default_check ps d = Inr u"
  shows "catalog_ok \<lparr>usd_micros_per_credit = usd, plans = map (\<lambda>p. (plan_id p, p)) vps,
           packs = map (\<lambda>p. (pack_id p, p)) vks, default_plan = d, rates = rt\<rparr>"
proof -
  have p2: "list_all2 (\<lambda>x y. plan_id y = fst x \<and> jget (snd x) ''kind'' = JStr (plan_kind y)) ps vps"
    using ps(2) by (rule list_all2_mono) (auto dest: validate_plan_ok)
  have k2: "list_all2 (\<lambda>x y. pack_id y = fst x \<and> True) ks vks"
    using ks(2) by (rule list_all2_mono) (auto dest: validate_pack_ok)
  have vp: "\<forall>p \<in> set vps. plan_ok p" and vk: "\<forall>p \<in> set vks. 0 < pack_credits p"
    using ps(2) ks(2) by (auto simp: list_all2_conv_all_nth in_set_conv_nth
        dest!: validate_plan_ok validate_pack_ok) (metis prod.collapse validate_plan_ok validate_pack_ok)+
  obtain v where v: "map_of ps d = Some v" "jget v ''kind'' \<in> {JStr ''free'', JStr ''demo''}"
    using default_check_Inr[OF d] by blast
  obtain y where "map_of (map (\<lambda>y. (plan_id y, y)) vps) d = Some y" "jget v ''kind'' = JStr (plan_kind y)"
    using map_of_list_all2[OF p2 v(1)] by blast
  moreover have "distinct (map fst rt) \<and> (\<forall>(k, x) \<in> set rt. rate_ok x)"
    using rates_loop_ok[OF rt] by simp
  ultimately show ?thesis
    using usd ps(1) ks(1) vp vk v(2) list_all2_keys[OF p2] list_all2_keys[OF k2]
    by (auto simp: catalog_ok_def)
qed

text \<open>The entries of \<open>billing_catalog.json\<close> the examples use.\<close>

definition free_plan :: plan where
  "free_plan = \<lparr>plan_id = JStr ''free'', plan_name = ''Free'', plan_kind = ''free'', plan_price = None,
     monthly_included_credits = 500, objective_reserve_credits = 100,
     monthly_spend_limit_credits = 500, concurrency_limit = 1, low_credit_warning_credits = 125,
     grace_days = 0, entitlements = [''chat'', ''usage'', ''execution'', ''topups'']\<rparr>"

definition pro_plan :: plan where
  "pro_plan = \<lparr>plan_id = JStr ''pro'', plan_name = ''Pro'', plan_kind = ''subscription'',
     plan_price = Some ''price_pro'', monthly_included_credits = 50000,
     objective_reserve_credits = 300, monthly_spend_limit_credits = 100000,
     concurrency_limit = 8, low_credit_warning_credits = 5000, grace_days = 7,
     entitlements = [''chat'', ''execution'', ''topups'']\<rparr>"

definition sample_pack :: pack where
  "sample_pack = \<lparr>pack_id = JStr ''credits-10k'', pack_name = ''10k'', pack_price = Some ''price_10k'',
     pack_credits = 10000\<rparr>"

definition sample_rate :: rate where
  "sample_rate = \<lparr>input_usd_micros_per_million = 1000000, output_usd_micros_per_million = 1000000,
     compute_usd_micros_per_hour = 0, margin_bps = 0\<rparr>"

definition sample_catalog :: catalog where
  "sample_catalog = \<lparr>usd_micros_per_credit = 10000,
     plans = [(JStr ''free'', free_plan), (JStr ''pro'', pro_plan)],
     packs = [(JStr ''credits-10k'', sample_pack)], default_plan = JStr ''free'',
     rates = [((''anthropic'', ''m''), sample_rate)]\<rparr>"

definition json_of_plan :: "plan \<Rightarrow> json" where
  "json_of_plan p = JObj [(''id'', plan_id p), (''name'', JStr (plan_name p)),
     (''kind'', JStr (plan_kind p)),
     (''stripe_price_id'', case plan_price p of None \<Rightarrow> JNull | Some s \<Rightarrow> JStr s),
     (''monthly_included_credits'', JInt (monthly_included_credits p)),
     (''objective_reserve_credits'', JInt (objective_reserve_credits p)),
     (''monthly_spend_limit_credits'', JInt (monthly_spend_limit_credits p)),
     (''concurrency_limit'', JInt (concurrency_limit p)),
     (''low_credit_warning_credits'', JInt (low_credit_warning_credits p)),
     (''grace_days'', JInt (grace_days p)),
     (''entitlements'', JList (map JStr (entitlements p)))]"

definition sample_payload :: json where
  "sample_payload = JObj [(''schema_version'', JStr ''magistrate.billing-catalog.v1''),
     (''currency'', JStr ''usd''),
     (''credit_unit'', JObj [(''microcredits_per_credit'', JInt 1000000), (''usd_micros_per_credit'', JInt 10000)]),
     (''default_plan'', JStr ''free''),
     (''plans'', JList [json_of_plan free_plan, json_of_plan pro_plan]),
     (''credit_packs'', JList [JObj [(''id'', JStr ''credits-10k''), (''name'', JStr ''10k''),
        (''stripe_price_id'', JStr ''price_10k''), (''credits'', JInt 10000)]]),
     (''rates'', JList [JObj [(''provider'', JStr ''anthropic''), (''model'', JStr ''m''),
        (''input_usd_micros_per_million'', JInt 1000000), (''output_usd_micros_per_million'', JInt 1000000),
        (''compute_usd_micros_per_hour'', JInt 0), (''margin_bps'', JInt 0)]])]"

lemma sample_payload_loads: "BillingCatalog sample_payload = Inr sample_catalog"
  by code_simp

lemma BillingCatalog_ok:
  assumes "BillingCatalog payload = Inr c"
  shows "catalog_ok c"
  using assms unfolding BillingCatalog_def
  by (auto simp: not_le split: if_splits sum.splits json.splits dest!: indexed_distinct map_res_Inr)
     (blast intro: catalog_parts_ok)

lemma sample_catalog_ok: "catalog_ok sample_catalog"
  using BillingCatalog_ok[OF sample_payload_loads] .

text \<open>A catalog document that loads is well formed: ids and rates are unique, every plan has a
  known kind, non-negative amounts, at least one concurrent objective, a reserve that fits in
  its monthly limit and a price only if it is paid, packs and rates are non-negative, a credit
  has a positive value, and the default plan exists and is free or demo.\<close>

theorem catalog_load_ok:
  assumes "BillingCatalog payload = Inr c"
  shows "catalog_ok c"
  using assms by (rule BillingCatalog_ok)

theorem catalog_load_ok_witness: "catalog_ok sample_catalog"
  using catalog_load_ok[OF sample_payload_loads] .

end
