(* ===== verification/Credit_Ledger.thy ===== *)
theory Credit_Ledger
  imports Billing_Catalog "HOL-Library.Char_ord" "HOL-Library.List_Lexorder" "HOL-Library.Product_Lexorder"
begin

text \<open>
  \<open>app/billing.py\<close>, class \<open>CreditLedger\<close>: accounts, reservations and the append-only credit
  ledger, over the tables \<open>db.py\<close> creates. Every operation runs in one \<open>BEGIN IMMEDIATE\<close>
  transaction, so it is a function from the database to an outcome; an exception rolls back.

  Parameters: \<open>cat\<close> is the loaded catalog, \<open>now\<close> the clock, and \<open>hx\<close> stands for
  \<open>hashlib.sha256(x.encode()).hexdigest()[:32]\<close>. Amounts are unbounded integers in microcredits;
  a JSON column is the value it encodes.
\<close>

record account =
  acc_owner :: string
  acc_status :: string
  acc_customer :: "string option"
  acc_subscription :: "string option"
  acc_catalog_id :: "string option"
  acc_period_start :: json
  acc_period_end :: json
  acc_cancel_at_period_end :: bool
  acc_grace_ends_at :: "int option"
  available :: int
  reserved :: int
  period_spend :: int
  period_key :: "string option"
  provider_event_created :: "int option"
  acc_created_at :: int
  acc_updated_at :: int

record ledger_entry =
  le_id :: string
  le_owner :: string
  le_key :: string
  le_type :: string
  le_amount :: int
  le_balance :: int
  le_reservation :: "string option"
  le_objective :: "string option"
  le_source :: string
  le_metadata :: json
  le_created_at :: int

record usage =
  us_provider :: string
  us_model :: string
  us_input :: int
  us_output :: int
  us_compute :: int

datatype rs_status = Reserved | Settled | Released

record reservation =
  rs_id :: string
  rs_owner :: string
  rs_objective :: string
  rs_key :: string
  rs_estimated :: int
  rs_actual :: "int option"
  rs_status :: rs_status
  rs_usage :: "usage option"
  rs_created_at :: int
  rs_updated_at :: int

record usage_row =
  ur_id :: string
  ur_owner :: string
  ur_event :: string
  ur_objective :: string
  ur_reservation :: string
  ur_usage :: usage
  ur_cost :: int
  ur_created_at :: int

record webhook_event =
  we_id :: string
  we_type :: string
  we_received_at :: int
  we_digest :: "string option"

record checkout_session =
  cs_id :: string
  cs_owner :: string
  cs_catalog :: string
  cs_kind :: string
  cs_key :: string
  cs_created_at :: int

record billing_db =
  profiles :: "string list"
  accounts :: "account table"
  ledger :: "ledger_entry table"
  reservations :: "reservation table"
  usages :: "usage_row table"
  webhooks :: "webhook_event table"
  checkouts :: "checkout_session table"

subsection \<open>WHERE clauses\<close>

definition acc_sel :: "string \<Rightarrow> account \<Rightarrow> bool" where
  "acc_sel owner a \<longleftrightarrow> acc_owner a = owner"

definition le_sel :: "string \<times> string \<Rightarrow> ledger_entry \<Rightarrow> bool" where
  "le_sel k e \<longleftrightarrow> (le_owner e, le_key e) = k"

definition rs_sel :: "string \<times> string \<Rightarrow> reservation \<Rightarrow> bool" where
  "rs_sel k r \<longleftrightarrow> (rs_owner r, rs_objective r) = k"

definition rs_key_sel :: "string \<times> string \<Rightarrow> reservation \<Rightarrow> bool" where
  "rs_key_sel k r \<longleftrightarrow> (rs_owner r, rs_key r) = k"

definition rs_id_sel :: "string \<Rightarrow> reservation \<Rightarrow> bool" where
  "rs_id_sel i r \<longleftrightarrow> rs_id r = i"

definition ur_sel :: "string \<times> string \<Rightarrow> usage_row \<Rightarrow> bool" where
  "ur_sel k u \<longleftrightarrow> (ur_owner u, ur_event u) = k"

subsection \<open>Identifiers and amounts\<close>

definition microcredits :: "int \<Rightarrow> int" where
  "microcredits credits = credits * MICROCREDITS_PER_CREDIT"

definition nul_join :: "string \<Rightarrow> string \<Rightarrow> string" where
  "nul_join a b = a @ [char_of (0::nat)] @ b"

definition ledger_id :: "(string \<Rightarrow> string) \<Rightarrow> string \<Rightarrow> string \<Rightarrow> string" where
  "ledger_id hx owner key = ''cle_'' @ hx (nul_join owner key)"

definition reservation_id :: "(string \<Rightarrow> string) \<Rightarrow> string \<Rightarrow> string \<Rightarrow> string" where
  "reservation_id hx owner objective = ''cr_'' @ hx (nul_join owner objective)"

definition usage_id :: "(string \<Rightarrow> string) \<Rightarrow> string \<Rightarrow> string \<Rightarrow> string" where
  "usage_id hx owner event = ''use_'' @ hx (nul_join owner event)"

text \<open>A JSON scalar stored in a \<open>TEXT\<close> column.\<close>

definition db_text :: "json \<Rightarrow> string option" where
  "db_text v = (case v of JNull \<Rightarrow> None | _ \<Rightarrow> Some (py_str v))"

definition in_grace :: "account \<Rightarrow> int \<Rightarrow> bool" where
  "in_grace a now \<longleftrightarrow> acc_status a = ''past_due''
     \<and> (case acc_grace_ends_at a of None \<Rightarrow> False | Some g \<Rightarrow> g \<noteq> 0 \<and> now < g)"

definition execution_entitled :: "plan \<Rightarrow> account \<Rightarrow> int \<Rightarrow> bool" where
  "execution_entitled p a now \<longleftrightarrow> ''execution'' \<in> set (entitlements p)
     \<and> (acc_status a \<in> {''active'', ''trialing''} \<or> in_grace a now)"

subsection \<open>Operations\<close>

text \<open>\<open>INSERT OR IGNORE INTO credit_ledger\<close>: ignored on a duplicate \<open>entry_id\<close> or
  \<open>(owner_user_id, idempotency_key)\<close>; the flag says whether a row was inserted.\<close>

definition insert_ledger :: "ledger_entry \<Rightarrow> billing_db \<Rightarrow> billing_db \<times> bool" where
  "insert_ledger e d =
     (if tbl_ex (\<lambda>x. le_id x = le_id e \<or> le_sel (le_owner e, le_key e) x) (ledger d)
      then (d, False) else (d\<lparr>ledger := ledger d @ [e]\<rparr>, True))"

definition new_entry :: "(string \<Rightarrow> string) \<Rightarrow> string \<Rightarrow> string \<Rightarrow> string \<Rightarrow> int \<Rightarrow> int \<Rightarrow> string \<Rightarrow> int
    \<Rightarrow> string option \<Rightarrow> string option \<Rightarrow> json \<Rightarrow> ledger_entry" where
  "new_entry hx owner key typ amount balance src now rsv obj meta =
     \<lparr>le_id = ledger_id hx owner key, le_owner = owner, le_key = key, le_type = typ,
      le_amount = amount, le_balance = balance, le_reservation = rsv, le_objective = obj,
      le_source = src, le_metadata = meta, le_created_at = now\<rparr>"

definition upd_account :: "string \<Rightarrow> (account \<Rightarrow> account) \<Rightarrow> billing_db \<Rightarrow> billing_db" where
  "upd_account owner f d = d\<lparr>accounts := tbl_upd (acc_sel owner) f (accounts d)\<rparr>"

definition upd_reservation :: "string \<Rightarrow> (reservation \<Rightarrow> reservation) \<Rightarrow> billing_db \<Rightarrow> billing_db" where
  "upd_reservation i f d = d\<lparr>reservations := tbl_upd (rs_id_sel i) f (reservations d)\<rparr>"

definition fresh_account :: "catalog \<Rightarrow> string \<Rightarrow> int \<Rightarrow> account" where
  "fresh_account cat owner now =
     \<lparr>acc_owner = owner, acc_status = ''active'', acc_customer = None, acc_subscription = None,
      acc_catalog_id = db_text (default_plan cat), acc_period_start = JNull, acc_period_end = JNull,
      acc_cancel_at_period_end = False, acc_grace_ends_at = None, available = 0, reserved = 0,
      period_spend = 0, period_key = None, provider_event_created = None,
      acc_created_at = now, acc_updated_at = now\<rparr>"

text \<open>The first part of \<open>_account\<close>: the owner's row, inserted with the default plan if missing
  (the owner must be a known profile, by the foreign key).\<close>

definition ensure_account :: "catalog \<Rightarrow> string \<Rightarrow> int \<Rightarrow> billing_db \<Rightarrow> (billing_error, billing_db, account) outcome" where
  "ensure_account cat owner now d =
     (case tbl_get (acc_sel owner) (accounts d) of
        Some a \<Rightarrow> Inr (d, a)
      | None \<Rightarrow>
          if owner \<notin> set (profiles d) then Inl IntegrityError
          else Inr (d\<lparr>accounts := accounts d @ [fresh_account cat owner now]\<rparr>, fresh_account cat owner now))"

definition account_plan :: "catalog \<Rightarrow> account \<Rightarrow> plan option" where
  "account_plan cat a = (case acc_catalog_id a of None \<Rightarrow> None | Some c \<Rightarrow> map_of (plans cat) (JStr c))"

definition grant_key :: "plan \<Rightarrow> string \<Rightarrow> string" where
  "grant_key p period = ''included:'' @ py_str (plan_id p) @ '':'' @ period"

text \<open>\<open>_account\<close>: free and demo plans are granted their included credits once per calendar month.\<close>

definition ledger_account :: "(string \<Rightarrow> string) \<Rightarrow> catalog \<Rightarrow> string \<Rightarrow> int \<Rightarrow> billing_db
    \<Rightarrow> (billing_error, billing_db, account) outcome" where
  "ledger_account hx cat owner now d =
     (case ensure_account cat owner now d of
        Inl e \<Rightarrow> Inl e
      | Inr (d1, a) \<Rightarrow>
         (case account_plan cat a of
            None \<Rightarrow> Inl (BillingError ''account_plan_invalid'' 503)
          | Some p \<Rightarrow>
              let period = period_key_of now in
              if plan_kind p \<in> {''free'', ''demo''} \<and> period_key a \<noteq> Some period then
                let grant = microcredits (monthly_included_credits p);
                    balance = available a + grant;
                    (d2, inserted) = insert_ledger
                      (new_entry hx owner (grant_key p period) ''included_grant'' grant balance ''catalog'' now
                         None None (JObj [(''catalog_id'', plan_id p), (''period'', JStr period)])) d1;
                    d3 = (if inserted then
                            upd_account owner (\<lambda>x. x\<lparr>available := balance, period_spend := 0,
                              period_key := Some period, acc_updated_at := now\<rparr>) d2
                          else d2)
                in (case tbl_get (acc_sel owner) (accounts d3) of
                      None \<Rightarrow> Inl PyTypeError | Some a' \<Rightarrow> Inr (d3, a'))
              else Inr (d1, a)))"

definition plan_of :: "catalog \<Rightarrow> account \<Rightarrow> billing_error + plan" where
  "plan_of cat a = (case account_plan cat a of None \<Rightarrow> Inl PyKeyError | Some p \<Rightarrow> Inr p)"

definition active_count :: "string \<Rightarrow> billing_db \<Rightarrow> nat" where
  "active_count owner d = tbl_count (\<lambda>r. rs_owner r = owner \<and> rs_status r = Reserved) (reservations d)"

text \<open>The part of \<open>reserve_objective\<close> after the idempotency lookup: entitlement, concurrency,
  balance and monthly limit, then the hold, the account update and the ledger entry.\<close>

definition reserve_new :: "(string \<Rightarrow> string) \<Rightarrow> string \<Rightarrow> string \<Rightarrow> string \<Rightarrow> int \<Rightarrow> account \<Rightarrow> plan \<Rightarrow> billing_db
    \<Rightarrow> (billing_error, billing_db, reservation) outcome" where
  "reserve_new hx owner objective key now a p d =
     (let estimate = microcredits (objective_reserve_credits p);
          i = reservation_id hx owner objective;
          balance = available a - estimate;
          r = \<lparr>rs_id = i, rs_owner = owner, rs_objective = objective, rs_key = key,
               rs_estimated = estimate, rs_actual = None, rs_status = Reserved, rs_usage = None,
               rs_created_at = now, rs_updated_at = now\<rparr>
      in
      if \<not> execution_entitled p a now then Inl (BillingError ''execution_not_entitled'' 403)
      else if concurrency_limit p \<le> int (active_count owner d) then Inl (BillingError ''concurrency_limit'' 409)
      else if available a < estimate then Inl (BillingError ''insufficient_credits'' 402)
      else if microcredits (monthly_spend_limit_credits p) < period_spend a + reserved a + estimate
      then Inl (BillingError ''spend_limit'' 402)
      else if tbl_ex (\<lambda>x. rs_id x = i \<or> rs_sel (owner, objective) x \<or> rs_key_sel (owner, key) x) (reservations d)
      then Inl IntegrityError
      else
        let d1 = d\<lparr>reservations := reservations d @ [r]\<rparr>;
            d2 = upd_account owner (\<lambda>x. x\<lparr>available := balance, reserved := reserved x + estimate,
                   acc_updated_at := now\<rparr>) d1;
            (d3, _) = insert_ledger (new_entry hx owner (''reserve:'' @ key) ''reservation'' (- estimate) balance
                   ''execution'' now (Some i) (Some objective) (JObj [(''estimated_microcredits'', JInt estimate)])) d2
        in Inr (d3, r))"

definition reserve_objective :: "(string \<Rightarrow> string) \<Rightarrow> catalog \<Rightarrow> string \<Rightarrow> string \<Rightarrow> string \<Rightarrow> int \<Rightarrow> billing_db
    \<Rightarrow> (billing_error, billing_db, reservation) outcome" where
  "reserve_objective hx cat owner objective key now d =
     (case ledger_account hx cat owner now d of
        Inl e \<Rightarrow> Inl e
      | Inr (d1, a) \<Rightarrow>
         (case plan_of cat a of
            Inl e \<Rightarrow> Inl e
          | Inr p \<Rightarrow>
             (case tbl_get (rs_key_sel (owner, key)) (reservations d1) of
                Some r \<Rightarrow>
                  if rs_objective r \<noteq> objective then Inl (BillingError ''idempotency_conflict'' 409)
                  else Inr (d1, r)
              | None \<Rightarrow> reserve_new hx owner objective key now a p d1)))"

definition release_objective :: "(string \<Rightarrow> string) \<Rightarrow> string \<Rightarrow> string \<Rightarrow> string \<Rightarrow> int \<Rightarrow> billing_db
    \<Rightarrow> (billing_error, billing_db, bool) outcome" where
  "release_objective hx owner objective reason now d =
     (case tbl_get (rs_sel (owner, objective)) (reservations d) of
        None \<Rightarrow> Inr (d, False)
      | Some r \<Rightarrow>
          if rs_status r \<noteq> Reserved then Inr (d, False)
          else (case tbl_get (acc_sel owner) (accounts d) of
            None \<Rightarrow> Inl PyTypeError
          | Some a \<Rightarrow>
              let amount = rs_estimated r;
                  balance = available a + amount;
                  d1 = upd_reservation (rs_id r) (\<lambda>x. x\<lparr>rs_status := Released, rs_updated_at := now\<rparr>) d;
                  d2 = upd_account owner (\<lambda>x. x\<lparr>available := balance, reserved := reserved x - amount,
                         acc_updated_at := now\<rparr>) d1;
                  (d3, _) = insert_ledger (new_entry hx owner (''release:'' @ rs_id r) ''release'' amount balance
                         ''execution'' now (Some (rs_id r)) (Some objective)
                         (JObj [(''reason'', JStr (take 64 reason))])) d2
              in Inr (d3, True)))"

subsection \<open>Measured cost\<close>

definition USAGE_FIELDS :: "string set" where
  "USAGE_FIELDS = {''provider'', ''model'', ''input_tokens'', ''output_tokens'', ''compute_milliseconds''}"

definition usage_invalid :: billing_error where
  "usage_invalid = BillingError ''usage_invalid'' 422"

text \<open>The checks of \<open>measured_cost\<close>: a dict with exactly the five fields, a configured rate, and
  non-negative integer measurements.\<close>

definition check_usage :: "catalog \<Rightarrow> json \<Rightarrow> billing_error + (usage \<times> rate)" where
  "check_usage cat u =
     (if \<not> is_JObj u \<or> jkeys u \<noteq> USAGE_FIELDS then Inl usage_invalid
      else if \<not> hashable (jget u ''provider'') \<or> \<not> hashable (jget u ''model'') then Inl PyTypeError
      else case (jget u ''provider'', jget u ''model'') of
        (JStr pr, JStr mo) \<Rightarrow>
          (case map_of (rates cat) (pr, mo) of
             None \<Rightarrow> Inl (BillingError ''rate_not_configured'' 422)
           | Some r \<Rightarrow>
              (case map (\<lambda>f. nonneg_int (jget u f)) [''input_tokens'', ''output_tokens'', ''compute_milliseconds''] of
                 [Some i, Some ou, Some c] \<Rightarrow>
                   Inr (\<lparr>us_provider = pr, us_model = mo, us_input = i, us_output = ou, us_compute = c\<rparr>, r)
               | _ \<Rightarrow> Inl usage_invalid))
      | _ \<Rightarrow> Inl (BillingError ''rate_not_configured'' 422))"

definition ceil_res :: "int \<Rightarrow> int \<Rightarrow> billing_error + int" where
  "ceil_res a b = (case ceil_truediv a b of None \<Rightarrow> Inl PyOverflowError | Some c \<Rightarrow> Inr c)"

text \<open>The arithmetic of \<open>measured_cost\<close>; every quotient goes through a float.\<close>

definition usage_cost :: "catalog \<Rightarrow> usage \<Rightarrow> rate \<Rightarrow> billing_error + int" where
  "usage_cost cat u r =
     (let numerator = us_input u * input_usd_micros_per_million r + us_output u * output_usd_micros_per_million r in
      case ceil_res numerator 1000000 of Inl e \<Rightarrow> Inl e | Inr tokens \<Rightarrow>
      (case ceil_res (us_compute u * compute_usd_micros_per_hour r) 3600000 of Inl e \<Rightarrow> Inl e | Inr compute \<Rightarrow>
      (case ceil_res ((tokens + compute) * (10000 + margin_bps r)) 10000 of Inl e \<Rightarrow> Inl e | Inr billable \<Rightarrow>
       ceil_res (billable * MICROCREDITS_PER_CREDIT) (usd_micros_per_credit cat))))"

definition measured_cost :: "catalog \<Rightarrow> json \<Rightarrow> billing_error + int" where
  "measured_cost cat u = (case check_usage cat u of Inl e \<Rightarrow> Inl e | Inr (us, r) \<Rightarrow> usage_cost cat us r)"

subsection \<open>Settlement, refunds, grants\<close>

text \<open>The first settlement of a reserved objective: the reservation becomes settled with its
  measured cost, one usage row is inserted, and the hold is replaced by the cost.\<close>

definition settle_new :: "(string \<Rightarrow> string) \<Rightarrow> string \<Rightarrow> string \<Rightarrow> usage \<Rightarrow> int \<Rightarrow> string \<Rightarrow> int \<Rightarrow> reservation
    \<Rightarrow> account \<Rightarrow> billing_db \<Rightarrow> (billing_error, billing_db, reservation) outcome" where
  "settle_new hx owner objective us actual event now r a d =
     (let estimate = rs_estimated r;
          adjustment = estimate - actual;
          balance = available a + adjustment;
          settled = r\<lparr>rs_status := Settled, rs_actual := Some actual, rs_usage := Some us, rs_updated_at := now\<rparr>;
          u = \<lparr>ur_id = usage_id hx owner event, ur_owner = owner, ur_event = event, ur_objective = objective,
               ur_reservation = rs_id r, ur_usage = us, ur_cost = actual, ur_created_at = now\<rparr>;
          d1 = upd_reservation (rs_id r) (\<lambda>x. x\<lparr>rs_status := Settled, rs_actual := Some actual,
                 rs_usage := Some us, rs_updated_at := now\<rparr>) d
      in
      if tbl_ex (\<lambda>x. ur_id x = ur_id u \<or> ur_sel (owner, event) x \<or> (ur_owner x = owner \<and> ur_objective x = objective)) (usages d)
      then Inl IntegrityError
      else
        let d2 = d1\<lparr>usages := usages d1 @ [u]\<rparr>;
            d3 = upd_account owner (\<lambda>x. x\<lparr>available := balance, reserved := reserved x - estimate,
                   period_spend := period_spend x + actual, acc_updated_at := now\<rparr>) d2;
            (d4, _) = insert_ledger (new_entry hx owner (''settle:'' @ event) ''settlement'' adjustment balance
                   ''execution'' now (Some (rs_id r)) (Some objective)
                   (JObj [(''actual_microcredits'', JInt actual), (''estimated_microcredits'', JInt estimate),
                      (''usage'', JObj [(''provider'', JStr (us_provider us)), (''model'', JStr (us_model us)),
                         (''input_tokens'', JInt (us_input us)), (''output_tokens'', JInt (us_output us)),
                         (''compute_milliseconds'', JInt (us_compute us))])])) d3
        in Inr (d4, settled))"

definition settle_objective :: "(string \<Rightarrow> string) \<Rightarrow> catalog \<Rightarrow> string \<Rightarrow> string \<Rightarrow> json \<Rightarrow> string \<Rightarrow> int \<Rightarrow> billing_db
    \<Rightarrow> (billing_error, billing_db, reservation) outcome" where
  "settle_objective hx cat owner objective u event now d =
     (case check_usage cat u of Inl e \<Rightarrow> Inl e | Inr (us, rt) \<Rightarrow>
      (case usage_cost cat us rt of Inl e \<Rightarrow> Inl e | Inr actual \<Rightarrow>
       (case tbl_get (rs_sel (owner, objective)) (reservations d) of
          None \<Rightarrow> Inl (BillingError ''reservation_not_found'' 409)
        | Some r \<Rightarrow>
           (case rs_status r of
              Settled \<Rightarrow>
                (let prior = tbl_get (\<lambda>x. ur_owner x = owner \<and> ur_objective x = objective) (usages d) in
                 case rs_actual r of
                   None \<Rightarrow> Inl PyTypeError
                 | Some was \<Rightarrow>
                     if was \<noteq> actual \<or> rs_usage r \<noteq> Some us
                        \<or> (case prior of None \<Rightarrow> True | Some x \<Rightarrow> ur_event x \<noteq> event)
                     then Inl (BillingError ''settlement_conflict'' 409)
                     else Inr (d, r))
            | Released \<Rightarrow> Inl (BillingError ''reservation_released'' 409)
            | Reserved \<Rightarrow>
                (case tbl_get (acc_sel owner) (accounts d) of
                   None \<Rightarrow> Inl PyTypeError
                 | Some a \<Rightarrow> settle_new hx owner objective us actual event now r a d)))))"

definition refunded :: "string \<Rightarrow> string \<Rightarrow> billing_db \<Rightarrow> int" where
  "refunded owner i d =
     tbl_sum (\<lambda>e. le_owner e = owner \<and> le_reservation e = Some i \<and> le_type e = ''refund'') le_amount (ledger d)"

definition refund_objective :: "(string \<Rightarrow> string) \<Rightarrow> string \<Rightarrow> string \<Rightarrow> int \<Rightarrow> string \<Rightarrow> string \<Rightarrow> int \<Rightarrow> billing_db
    \<Rightarrow> (billing_error, billing_db, bool) outcome" where
  "refund_objective hx owner objective amount key reason now d =
     (if amount \<le> 0 then Inl (BillingError ''refund_invalid'' 400)
      else case tbl_get (\<lambda>r. rs_sel (owner, objective) r \<and> rs_status r = Settled) (reservations d) of
        None \<Rightarrow> Inl (BillingError ''refund_invalid'' 409)
      | Some r \<Rightarrow>
         (case rs_actual r of
            None \<Rightarrow> Inl PyTypeError
          | Some actual \<Rightarrow>
              if actual < amount then Inl (BillingError ''refund_invalid'' 409)
              else (case tbl_get (le_sel (owner, key)) (ledger d) of
                Some e \<Rightarrow>
                  if le_type e \<noteq> ''refund'' \<or> le_amount e \<noteq> amount \<or> le_objective e \<noteq> Some objective
                  then Inl (BillingError ''idempotency_conflict'' 409)
                  else Inr (d, False)
              | None \<Rightarrow>
                  if actual < refunded owner (rs_id r) d + amount then Inl (BillingError ''refund_invalid'' 409)
                  else (case tbl_get (acc_sel owner) (accounts d) of
                    None \<Rightarrow> Inl PyTypeError
                  | Some a \<Rightarrow>
                      let balance = available a + amount;
                          (d1, _) = insert_ledger (new_entry hx owner key ''refund'' amount balance ''execution'' now
                             (Some (rs_id r)) (Some objective) (JObj [(''reason'', JStr (take 128 reason))])) d;
                          d2 = upd_account owner (\<lambda>x. x\<lparr>available := balance,
                             period_spend := (if amount < period_spend x then period_spend x - amount else 0),
                             acc_updated_at := now\<rparr>) d1
                      in Inr (d2, True)))))"

definition add_credits :: "(string \<Rightarrow> string) \<Rightarrow> catalog \<Rightarrow> string \<Rightarrow> int \<Rightarrow> string \<Rightarrow> string \<Rightarrow> int \<Rightarrow> billing_db
    \<Rightarrow> (billing_error, billing_db, bool) outcome" where
  "add_credits hx cat owner credits key src now d =
     (if credits \<le> 0 then Inl (BillingError ''credits_invalid'' 400)
      else case ledger_account hx cat owner now d of
        Inl e \<Rightarrow> Inl e
      | Inr (d1, a) \<Rightarrow>
          let amount = microcredits credits in
          (case tbl_get (le_sel (owner, key)) (ledger d1) of
             Some e \<Rightarrow>
               if le_type e \<noteq> ''topup'' \<or> le_amount e \<noteq> amount \<or> le_source e \<noteq> src
               then Inl (BillingError ''idempotency_conflict'' 409)
               else Inr (d1, False)
           | None \<Rightarrow>
               let balance = available a + amount;
                   (d2, _) = insert_ledger (new_entry hx owner key ''topup'' amount balance src now None None (JObj [])) d1;
                   d3 = upd_account owner (\<lambda>x. x\<lparr>available := balance, acc_updated_at := now\<rparr>) d2
               in Inr (d3, True)))"

subsection \<open>Views\<close>

record summary_view =
  sv_catalog_id :: json
  sv_plan_name :: string
  sv_status :: string
  sv_period_end :: json
  sv_cancel_at_period_end :: bool
  sv_grace_ends_at :: "int option"
  sv_balance :: int
  sv_reserved :: int
  sv_period_spend :: int
  sv_low_credit_warning :: bool
  sv_entitlements :: "string \<Rightarrow> bool"
  sv_concurrency :: int
  sv_monthly_spend :: int
  sv_ledger :: "ledger_entry list"
  sv_usage :: "usage_row list"

text \<open>\<open>ORDER BY created_at DESC, id DESC LIMIT n\<close>\<close>

definition newest :: "('r \<Rightarrow> int \<times> string) \<Rightarrow> nat \<Rightarrow> 'r list \<Rightarrow> 'r list" where
  "newest k n t = take n (rev (sort_key k t))"

text \<open>\<open>summary\<close>: \<open>{name: True for name in entitlements} | {"execution": enabled}\<close> as a predicate.\<close>

definition summary :: "(string \<Rightarrow> string) \<Rightarrow> catalog \<Rightarrow> string \<Rightarrow> int \<Rightarrow> nat \<Rightarrow> billing_db
    \<Rightarrow> (billing_error, billing_db, summary_view) outcome" where
  "summary hx cat owner now ledger_limit d =
     (case ledger_account hx cat owner now d of
        Inl e \<Rightarrow> Inl e
      | Inr (d1, a) \<Rightarrow>
         (case plan_of cat a of
            Inl e \<Rightarrow> Inl e
          | Inr p \<Rightarrow>
              Inr (d1, \<lparr>sv_catalog_id = plan_id p, sv_plan_name = plan_name p, sv_status = acc_status a,
                sv_period_end = acc_period_end a, sv_cancel_at_period_end = acc_cancel_at_period_end a,
                sv_grace_ends_at = acc_grace_ends_at a, sv_balance = available a,
                sv_reserved = reserved a, sv_period_spend = period_spend a,
                sv_low_credit_warning = (available a \<le> microcredits (low_credit_warning_credits p)),
                sv_entitlements = (\<lambda>n. if n = ''execution'' then execution_entitled p a now
                                        else n \<in> set (entitlements p)),
                sv_concurrency = concurrency_limit p,
                sv_monthly_spend = microcredits (monthly_spend_limit_credits p),
                sv_ledger = newest (\<lambda>e. (le_created_at e, le_id e)) ledger_limit
                   (filter (\<lambda>e. le_owner e = owner) (ledger d1)),
                sv_usage = newest (\<lambda>u. (ur_created_at u, ur_id u)) ledger_limit
                   (filter (\<lambda>u. ur_owner u = owner) (usages d1))\<rparr>)))"

record billing_status_view =
  bs_available :: bool
  bs_status :: string
  bs_active :: bool
  bs_period_end :: json
  bs_portal :: bool

text \<open>\<open>billing_status\<close>; \<open>configured\<close> is \<open>billing_available()\<close>.\<close>

definition billing_status :: "bool \<Rightarrow> string \<Rightarrow> billing_db \<Rightarrow> billing_status_view" where
  "billing_status configured user d =
     (let row = tbl_get (acc_sel user) (accounts d);
          status = (case row of None \<Rightarrow> ''none'' | Some a \<Rightarrow> acc_status a)
      in \<lparr>bs_available = configured, bs_status = status, bs_active = (status \<in> {''active'', ''trialing''}),
          bs_period_end = (case row of None \<Rightarrow> JNull | Some a \<Rightarrow> acc_period_end a),
          bs_portal = (case row of None \<Rightarrow> False
             | Some a \<Rightarrow> (case acc_customer a of None \<Rightarrow> False | Some c \<Rightarrow> c \<noteq> [] \<and> configured))\<rparr>)"

definition subscription_active :: "bool \<Rightarrow> string \<Rightarrow> billing_db \<Rightarrow> bool" where
  "subscription_active configured user d = bs_active (billing_status configured user d)"

end
