(* ===== verification/Credit_Ledger_Inv.thy ===== *)
theory Credit_Ledger_Inv
  imports Credit_Ledger
begin

text \<open>
  The invariant of the billing tables and its preservation by every operation of
  \<open>CreditLedger\<close>. \<open>billing_inv\<close> says that keys are unique and entry ids are the digests of their
  keys (\<open>key_inv\<close>); that ledger rows point at existing accounts, reservations, usage rows and
  webhook events (\<open>link_inv\<close>); that the balance columns are exactly the sums of the ledger
  amounts and of the open holds (\<open>bal_inv\<close>); and that a reservation has a cost exactly when it
  is settled and is never refunded beyond it (\<open>settle_inv\<close>).

  The digest \<open>hx\<close> is idealised as injective where needed (no SHA-256 collision); owners do not
  contain the NUL separator.
\<close>

definition nul_free :: "string \<Rightarrow> bool" where
  "nul_free s \<longleftrightarrow> char_of (0::nat) \<notin> set s"

definition owner_sum :: "string \<Rightarrow> billing_db \<Rightarrow> int" where
  "owner_sum owner d = tbl_sum (\<lambda>e. le_owner e = owner) le_amount (ledger d)"

definition hold_sum :: "string \<Rightarrow> billing_db \<Rightarrow> int" where
  "hold_sum owner d =
     tbl_sum (\<lambda>r. rs_owner r = owner \<and> rs_status r = Reserved) rs_estimated (reservations d)"

interpretation acc: keyed_rows acc_owner acc_sel
  by unfold_locales (simp add: acc_sel_def)

interpretation le: keyed_rows "\<lambda>e. (le_owner e, le_key e)" le_sel
  by unfold_locales (simp add: le_sel_def)

interpretation rs: keyed_rows "\<lambda>r. (rs_owner r, rs_objective r)" rs_sel
  by unfold_locales (simp add: rs_sel_def)

interpretation rk: keyed_rows "\<lambda>r. (rs_owner r, rs_key r)" rs_key_sel
  by unfold_locales (simp add: rs_key_sel_def)

interpretation ri: keyed_rows rs_id rs_id_sel
  by unfold_locales (simp add: rs_id_sel_def)

interpretation ur: keyed_rows "\<lambda>u. (ur_owner u, ur_event u)" ur_sel
  by unfold_locales (simp add: ur_sel_def)

definition key_inv :: "(string \<Rightarrow> string) \<Rightarrow> billing_db \<Rightarrow> bool" where
  "key_inv hx d \<longleftrightarrow> acc.uniq (accounts d) \<and> le.uniq (ledger d)
     \<and> rs.uniq (reservations d) \<and> rk.uniq (reservations d) \<and> ri.uniq (reservations d)
     \<and> ur.uniq (usages d)
     \<and> (\<forall>e \<in> set (ledger d). le_id e = ledger_id hx (le_owner e) (le_key e) \<and> nul_free (le_owner e))
     \<and> (\<forall>a \<in> set (accounts d). nul_free (acc_owner a)) \<and> (\<forall>p \<in> set (profiles d). nul_free p)"

definition has_account :: "billing_db \<Rightarrow> string \<Rightarrow> bool" where
  "has_account d owner \<longleftrightarrow> owner \<in> acc_owner ` set (accounts d)"

text \<open>What the key of a ledger entry says about the other tables.\<close>

definition entry_linked :: "billing_db \<Rightarrow> ledger_entry \<Rightarrow> bool" where
  "entry_linked d e \<longleftrightarrow> has_account d (le_owner e)
     \<and> (\<forall>k. le_key e = ''reserve:'' @ k \<longrightarrow>
          (\<exists>r \<in> set (reservations d). rs_owner r = le_owner e \<and> rs_key r = k))
     \<and> (\<forall>i. le_key e = ''release:'' @ i \<longrightarrow>
          (\<exists>r \<in> set (reservations d). rs_owner r = le_owner e \<and> rs_id r = i \<and> rs_status r = Released))
     \<and> (\<forall>v. le_key e = ''settle:'' @ v \<longrightarrow>
          (\<exists>u \<in> set (usages d). ur_owner u = le_owner e \<and> ur_event u = v))
     \<and> (\<forall>v. le_key e = ''stripe:'' @ v \<longrightarrow> (\<exists>w \<in> set (webhooks d). we_id w = v))
     \<and> (\<forall>i. le_reservation e = Some i \<longrightarrow>
          (\<exists>r \<in> set (reservations d). rs_owner r = le_owner e \<and> rs_id r = i))"

definition link_inv :: "billing_db \<Rightarrow> bool" where
  "link_inv d \<longleftrightarrow> (\<forall>e \<in> set (ledger d). entry_linked d e)
     \<and> (\<forall>r \<in> set (reservations d). has_account d (rs_owner r))"

definition bal_inv :: "billing_db \<Rightarrow> bool" where
  "bal_inv d \<longleftrightarrow> (\<forall>a \<in> set (accounts d).
     available a = owner_sum (acc_owner a) d \<and> reserved a = hold_sum (acc_owner a) d)"

definition refund_cap :: "reservation \<Rightarrow> int" where
  "refund_cap r = (case rs_actual r of None \<Rightarrow> 0 | Some c \<Rightarrow> c)"

definition settle_inv :: "billing_db \<Rightarrow> bool" where
  "settle_inv d \<longleftrightarrow> (\<forall>r \<in> set (reservations d).
     (rs_status r = Settled \<longleftrightarrow> rs_actual r \<noteq> None) \<and> 0 \<le> rs_estimated r \<and> 0 \<le> refund_cap r
     \<and> refunded (rs_owner r) (rs_id r) d \<le> refund_cap r)"

definition billing_inv :: "(string \<Rightarrow> string) \<Rightarrow> billing_db \<Rightarrow> bool" where
  "billing_inv hx d \<longleftrightarrow> key_inv hx d \<and> link_inv d \<and> bal_inv d \<and> settle_inv d"

lemmas billing_inv_defs = billing_inv_def key_inv_def link_inv_def bal_inv_def settle_inv_def

subsection \<open>Identifiers\<close>

lemma nul_join_inj:
  "nul_free a \<Longrightarrow> nul_free a' \<Longrightarrow> nul_join a b = nul_join a' b' \<Longrightarrow> a = a' \<and> b = b'"
proof (induction a arbitrary: a')
  case Nil
  then show ?case by (cases a') (auto simp: nul_join_def nul_free_def)
next
  case (Cons c a)
  then show ?case by (cases a') (auto simp: nul_join_def nul_free_def)
qed

lemma ledger_id_inj:
  assumes "inj hx" and "nul_free a" and "nul_free a'" and "ledger_id hx a b = ledger_id hx a' b'"
  shows "a = a' \<and> b = b'"
  using assms nul_join_inj[of a a' b b'] by (auto simp: ledger_id_def dest!: injD)

text \<open>An insertion with a fresh key is not ignored.\<close>

lemma insert_ledger_fresh:
  assumes "inj hx" and "key_inv hx d" and "nul_free (le_owner e)"
    and "le_id e = ledger_id hx (le_owner e) (le_key e)"
    and "\<And>x. x \<in> set (ledger d) \<Longrightarrow> (le_owner x, le_key x) \<noteq> (le_owner e, le_key e)"
  shows "insert_ledger e d = (d\<lparr>ledger := ledger d @ [e]\<rparr>, True)"
proof -
  have "\<not> (le_id x = le_id e \<or> le_sel (le_owner e, le_key e) x)" if "x \<in> set (ledger d)" for x
    using assms that ledger_id_inj[OF assms(1), of "le_owner x" "le_owner e" "le_key x" "le_key e"]
    by (auto simp: key_inv_def le_sel_def)
  then show ?thesis by (auto simp: insert_ledger_def tbl_ex_iff)
qed

lemma new_entry_simps [simp]:
  "le_id (new_entry hx ow k ty am ba sr nw rsv ob me) = ledger_id hx ow k"
  "le_owner (new_entry hx ow k ty am ba sr nw rsv ob me) = ow"
  "le_key (new_entry hx ow k ty am ba sr nw rsv ob me) = k"
  "le_type (new_entry hx ow k ty am ba sr nw rsv ob me) = ty"
  "le_amount (new_entry hx ow k ty am ba sr nw rsv ob me) = am"
  "le_balance (new_entry hx ow k ty am ba sr nw rsv ob me) = ba"
  "le_reservation (new_entry hx ow k ty am ba sr nw rsv ob me) = rsv"
  "le_objective (new_entry hx ow k ty am ba sr nw rsv ob me) = ob"
  "le_source (new_entry hx ow k ty am ba sr nw rsv ob me) = sr"
  by (simp_all add: new_entry_def)

subsection \<open>Posting an entry\<close>

text \<open>Appending an entry and moving its owner's balance by the same amount, possibly together
  with a change of the holds, keeps the invariant.\<close>

lemma owner_sum_append [simp]:
  "owner_sum p (d\<lparr>ledger := ledger d @ [e]\<rparr>) = owner_sum p d + (if le_owner e = p then le_amount e else 0)"
  by (simp add: owner_sum_def tbl_sum_append)

lemma sums_upd_account [simp]:
  "owner_sum p (upd_account ow f d) = owner_sum p d"
  "hold_sum p (upd_account ow f d) = hold_sum p d"
  "refunded p i (upd_account ow f d) = refunded p i d"
  by (simp_all add: owner_sum_def hold_sum_def refunded_def upd_account_def)

lemma upd_account_fields [simp]:
  "ledger (upd_account ow f d) = ledger d" "reservations (upd_account ow f d) = reservations d"
  "usages (upd_account ow f d) = usages d" "webhooks (upd_account ow f d) = webhooks d"
  "profiles (upd_account ow f d) = profiles d" "checkouts (upd_account ow f d) = checkouts d"
  "accounts (upd_account ow f d) = tbl_upd (acc_sel ow) f (accounts d)"
  by (simp_all add: upd_account_def)

lemma hold_sum_ledger [simp]: "hold_sum p (d\<lparr>ledger := l\<rparr>) = hold_sum p d"
  by (simp add: hold_sum_def)

lemma has_account_upd [simp]:
  assumes "\<And>a. acc_owner (f a) = acc_owner a"
  shows "has_account (upd_account ow f d) p = has_account d p"
proof -
  have "map acc_owner (tbl_upd (acc_sel ow) f (accounts d)) = map acc_owner (accounts d)"
    by (rule map_tbl_upd) (simp add: assms)
  then have "set (map acc_owner (tbl_upd (acc_sel ow) f (accounts d))) = set (map acc_owner (accounts d))"
    by (rule arg_cong)
  then show ?thesis by (simp add: has_account_def)
qed

lemma has_account_frame [simp]:
  "has_account (d\<lparr>ledger := l\<rparr>) p = has_account d p"
  "has_account (d\<lparr>reservations := r\<rparr>) p = has_account d p"
  "has_account (d\<lparr>usages := u\<rparr>) p = has_account d p"
  "has_account (d\<lparr>webhooks := w\<rparr>) p = has_account d p"
  by (simp_all add: has_account_def)

lemma has_account_get: "has_account d p \<longleftrightarrow> (\<exists>a. tbl_get (acc_sel p) (accounts d) = Some a)"
  using tbl_get_None_iff[of "acc_sel p" "accounts d"]
  by (cases "tbl_get (acc_sel p) (accounts d)") (auto simp: has_account_def acc_sel_def)

text \<open>Links survive when accounts, usage rows and webhook events are kept and every reservation
  has a successor with the same identity that is still released if it was.\<close>

definition res_succ :: "reservation table \<Rightarrow> reservation table \<Rightarrow> bool" where
  "res_succ t t' \<longleftrightarrow> (\<forall>x \<in> set t. \<exists>y \<in> set t'. rs_owner y = rs_owner x \<and> rs_id y = rs_id x
     \<and> rs_key y = rs_key x \<and> (rs_status x = Released \<longrightarrow> rs_status y = Released))"

lemma res_succ_refl [simp]: "res_succ t t"
  by (auto simp: res_succ_def)

lemma res_succ_append [simp]: "res_succ t (t @ u)"
  by (auto simp: res_succ_def)

lemma entry_linked_mono:
  assumes e: "entry_linked d e" and acc: "\<And>p. has_account d p \<Longrightarrow> has_account d' p"
    and res: "res_succ (reservations d) (reservations d')"
    and us: "set (usages d) \<subseteq> set (usages d')" and wh: "set (webhooks d) \<subseteq> set (webhooks d')"
  shows "entry_linked d' e"
  unfolding entry_linked_def
proof (intro conjI allI impI)
  show "has_account d' (le_owner e)" using e acc by (simp add: entry_linked_def)
  fix k assume k: "le_key e = ''reserve:'' @ k"
  then obtain r where "r \<in> set (reservations d)" "rs_owner r = le_owner e" "rs_key r = k"
    using e unfolding entry_linked_def by blast
  with res show "\<exists>r \<in> set (reservations d'). rs_owner r = le_owner e \<and> rs_key r = k"
    unfolding res_succ_def by metis
next
  fix i assume "le_key e = ''release:'' @ i"
  then obtain r where "r \<in> set (reservations d)" "rs_owner r = le_owner e" "rs_id r = i" "rs_status r = Released"
    using e unfolding entry_linked_def by blast
  with res show "\<exists>r \<in> set (reservations d'). rs_owner r = le_owner e \<and> rs_id r = i \<and> rs_status r = Released"
    unfolding res_succ_def by metis
next
  fix v assume "le_key e = ''settle:'' @ v"
  with e us show "\<exists>u \<in> set (usages d'). ur_owner u = le_owner e \<and> ur_event u = v"
    unfolding entry_linked_def by blast
next
  fix v assume "le_key e = ''stripe:'' @ v"
  with e wh show "\<exists>w \<in> set (webhooks d'). we_id w = v" unfolding entry_linked_def by blast
next
  fix i assume "le_reservation e = Some i"
  then obtain r where "r \<in> set (reservations d)" "rs_owner r = le_owner e" "rs_id r = i"
    using e unfolding entry_linked_def by blast
  with res show "\<exists>r \<in> set (reservations d'). rs_owner r = le_owner e \<and> rs_id r = i"
    unfolding res_succ_def by metis
qed

lemma link_key:
  assumes "link_inv d" and "x \<in> set (ledger d)"
  shows "le_key x = ''reserve:'' @ k \<Longrightarrow> \<exists>r \<in> set (reservations d). rs_owner r = le_owner x \<and> rs_key r = k"
    and "le_key x = ''release:'' @ i \<Longrightarrow>
      \<exists>r \<in> set (reservations d). rs_owner r = le_owner x \<and> rs_id r = i \<and> rs_status r = Released"
    and "le_key x = ''settle:'' @ v \<Longrightarrow> \<exists>u \<in> set (usages d). ur_owner u = le_owner x \<and> ur_event u = v"
    and "le_key x = ''stripe:'' @ v \<Longrightarrow> \<exists>w \<in> set (webhooks d). we_id w = v"
    and "le_reservation x = Some i \<Longrightarrow> \<exists>r \<in> set (reservations d). rs_owner r = le_owner x \<and> rs_id r = i"
  using assms unfolding link_inv_def entry_linked_def by blast+

lemma refunded_append:
  "refunded p i (d\<lparr>ledger := ledger d @ [e]\<rparr>) = refunded p i d +
     (if le_owner e = p \<and> le_reservation e = Some i \<and> le_type e = ''refund'' then le_amount e else 0)"
  by (simp add: refunded_def tbl_sum_append)

lemma post_bal:
  assumes "bal_inv d" and "acc.uniq (accounts d)" and acc: "accounts d1 = accounts d" and led: "ledger d1 = ledger d"
    and hold: "\<And>p. hold_sum p d1 = hold_sum p d + (if p = le_owner e then y else 0)"
    and a: "tbl_get (acc_sel (le_owner e)) (accounts d) = Some a"
    and f: "\<And>x. acc_owner (f x) = acc_owner x"
    "available (f a) = available a + le_amount e" "reserved (f a) = reserved a + y"
  shows "bal_inv (upd_account (le_owner e) f (d1\<lparr>ledger := ledger d1 @ [e]\<rparr>))"
proof -
  have sums: "owner_sum p d1 = owner_sum p d" for p by (simp add: owner_sum_def led)
  have row: "b = a" if "b \<in> set (accounts d)" "acc_owner b = le_owner e" for b
    using acc.uniq_same[OF assms(2) that(1) tbl_get_SomeD(1)[OF a]] acc.get_key[OF a] that(2) by simp
  show ?thesis unfolding bal_inv_def
  proof
    fix b assume "b \<in> set (accounts (upd_account (le_owner e) f (d1\<lparr>ledger := ledger d1 @ [e]\<rparr>)))"
    then obtain c where c: "c \<in> set (accounts d)" "b = (if acc_sel (le_owner e) c then f c else c)"
      by (auto simp: set_tbl_upd acc)
    have inv: "available c = owner_sum (acc_owner c) d" "reserved c = hold_sum (acc_owner c) d"
      using assms(1) c by (auto simp: bal_inv_def)
    show "available b = owner_sum (acc_owner b) (upd_account (le_owner e) f (d1\<lparr>ledger := ledger d1 @ [e]\<rparr>)) \<and>
          reserved b = hold_sum (acc_owner b) (upd_account (le_owner e) f (d1\<lparr>ledger := ledger d1 @ [e]\<rparr>))"
    proof (cases "acc_owner c = le_owner e")
      case True
      then have "c = a" using row c by blast
      with True c inv f show ?thesis by (simp add: acc_sel_def sums hold)
    next
      case False
      with c inv show ?thesis by (auto simp: acc_sel_def sums hold)
    qed
  qed
qed

lemma post_inv:
  assumes inv: "key_inv hx d1" "link_inv d1" "settle_inv d1" "bal_inv d"
    and acc: "accounts d1 = accounts d" and led: "ledger d1 = ledger d"
    and hold: "\<And>p. hold_sum p d1 = hold_sum p d + (if p = le_owner e then y else 0)"
    and fresh: "\<And>x. x \<in> set (ledger d1) \<Longrightarrow> (le_owner x, le_key x) \<noteq> (le_owner e, le_key e)"
    and id: "le_id e = ledger_id hx (le_owner e) (le_key e)" "nul_free (le_owner e)"
    and linked: "entry_linked d1 e"
    and a: "tbl_get (acc_sel (le_owner e)) (accounts d) = Some a"
    and f: "\<And>x. acc_owner (f x) = acc_owner x"
    "available (f a) = available a + le_amount e" "reserved (f a) = reserved a + y"
    and ref: "\<And>r. r \<in> set (reservations d1) \<Longrightarrow> le_reservation e = Some (rs_id r) \<Longrightarrow> rs_owner r = le_owner e
       \<Longrightarrow> le_type e = ''refund'' \<Longrightarrow> refunded (rs_owner r) (rs_id r) d1 + le_amount e \<le> refund_cap r"
  shows "billing_inv hx (upd_account (le_owner e) f (d1\<lparr>ledger := ledger d1 @ [e]\<rparr>))"
proof -
  let ?d = "upd_account (le_owner e) f (d1\<lparr>ledger := ledger d1 @ [e]\<rparr>)"
  have "tbl_get (le_sel (le_owner e, le_key e)) (ledger d1) = None"
    using fresh by (auto simp: tbl_get_None_iff le_sel_def)
  then have "le.uniq (ledger d1 @ [e])" using inv(1) by (intro le.uniq_insert) (auto simp: key_inv_def)
  moreover have "acc.uniq (tbl_upd (acc_sel (le_owner e)) f (accounts d1))"
    using inv(1) f(1) by (intro acc.uniq_upd) (auto simp: key_inv_def)
  ultimately have "key_inv hx ?d" using inv(1) id f(1) by (auto simp: key_inv_def set_tbl_upd)
  moreover have "link_inv ?d" unfolding link_inv_def
  proof
    have "entry_linked ?d x" if "entry_linked d1 x" for x
      using that by (rule entry_linked_mono) (auto simp: f(1))
    then show "\<forall>x \<in> set (ledger ?d). entry_linked ?d x" using inv(2) linked by (auto simp: link_inv_def)
    show "\<forall>r \<in> set (reservations ?d). has_account ?d (rs_owner r)"
      using inv(2) by (auto simp: link_inv_def f(1))
  qed
  moreover have "acc.uniq (accounts d)" using inv(1) by (simp add: key_inv_def acc)
  then have "bal_inv ?d" using post_bal[OF inv(4) _ acc led hold a f] by blast
  moreover have "settle_inv ?d"
    using inv(3) ref by (fastforce simp: settle_inv_def refunded_append)
  ultimately show ?thesis by (simp add: billing_inv_def)
qed

lemma insert_after_upd:
  assumes "inj hx" and "key_inv hx d" and "nul_free (le_owner e)"
    and "le_id e = ledger_id hx (le_owner e) (le_key e)"
    and "\<And>x. x \<in> set (ledger d) \<Longrightarrow> (le_owner x, le_key x) \<noteq> (le_owner e, le_key e)"
    and "\<And>x. acc_owner (f x) = acc_owner x"
  shows "insert_ledger e (upd_account ow f d) = (upd_account ow f (d\<lparr>ledger := ledger d @ [e]\<rparr>), True)"
proof -
  have "key_inv hx (upd_account ow f d)"
    using assms(2,6) by (auto simp: key_inv_def set_tbl_upd intro!: acc.uniq_upd)
  then have "insert_ledger e (upd_account ow f d) =
      ((upd_account ow f d)\<lparr>ledger := ledger (upd_account ow f d) @ [e]\<rparr>, True)"
    using assms by (intro insert_ledger_fresh) auto
  then show ?thesis by (simp add: upd_account_def)
qed

lemma insert_ledger_True:
  "insert_ledger e d = (d', True) \<Longrightarrow> d' = d\<lparr>ledger := ledger d @ [e]\<rparr>
     \<and> (\<forall>x \<in> set (ledger d). (le_owner x, le_key x) \<noteq> (le_owner e, le_key e))"
  by (auto simp: insert_ledger_def tbl_ex_iff le_sel_def split: if_splits)

lemma insert_ledger_False: "insert_ledger e d = (d', False) \<Longrightarrow> d' = d"
  by (auto simp: insert_ledger_def split: if_splits)

subsection \<open>Accounts and monthly grants\<close>

lemma no_account_sums:
  assumes "link_inv d" and "\<not> has_account d p"
  shows "owner_sum p d = 0" and "hold_sum p d = 0"
  using assms unfolding owner_sum_def hold_sum_def link_inv_def entry_linked_def
  by (auto intro!: tbl_sum_none)

lemma insert_account_inv:
  assumes inv: "billing_inv hx d" and none: "\<not> has_account d (acc_owner n)" and nul: "nul_free (acc_owner n)"
    and n: "available n = 0" "reserved n = 0"
  shows "billing_inv hx (d\<lparr>accounts := accounts d @ [n]\<rparr>)"
proof -
  let ?d = "d\<lparr>accounts := accounts d @ [n]\<rparr>"
  have "has_account ?d p" if "has_account d p" for p using that by (auto simp: has_account_def)
  then have "entry_linked ?d e" if "entry_linked d e" for e
    using that by (rule_tac entry_linked_mono[of d]) auto
  moreover have "acc.uniq (accounts d @ [n])"
    using inv none by (intro acc.uniq_insert) (auto simp: billing_inv_defs has_account_get)
  moreover have "owner_sum (acc_owner n) d = 0" "hold_sum (acc_owner n) d = 0"
    using no_account_sums[of d "acc_owner n"] inv none by (auto simp: billing_inv_def)
  moreover have "owner_sum p ?d = owner_sum p d" "hold_sum p ?d = hold_sum p d"
    "refunded p i ?d = refunded p i d" for p i
    by (simp_all add: owner_sum_def hold_sum_def refunded_def)
  ultimately show ?thesis using inv n nul by (auto simp: billing_inv_defs has_account_def)
qed

lemma ensure_account_inv:
  assumes inv: "billing_inv hx d" and ea: "ensure_account cat owner now d = Inr (d', a)"
  shows "billing_inv hx d'" and "tbl_get (acc_sel owner) (accounts d') = Some a"
proof -
  have "billing_inv hx d' \<and> tbl_get (acc_sel owner) (accounts d') = Some a"
  proof (cases "tbl_get (acc_sel owner) (accounts d)")
    case (Some b)
    with ea inv show ?thesis by (simp add: ensure_account_def)
  next
    case None
    let ?n = "fresh_account cat owner now"
    have d': "d' = d\<lparr>accounts := accounts d @ [?n]\<rparr>" "a = ?n" "owner \<in> set (profiles d)"
      using ea None by (auto simp: ensure_account_def split: if_splits)
    have n: "acc_owner ?n = owner" "available ?n = 0" "reserved ?n = 0" by (simp_all add: fresh_account_def)
    have "nul_free owner" using inv d'(3) by (auto simp: billing_inv_defs)
    with None have "billing_inv hx d'"
      unfolding d' using insert_account_inv[OF inv, of ?n] n by (simp add: has_account_get)
    moreover have "tbl_get (acc_sel owner) (accounts d') = Some a"
      using None n by (auto simp: d' tbl_get_append acc_sel_def)
    ultimately show ?thesis by blast
  qed
  then show "billing_inv hx d'" and "tbl_get (acc_sel owner) (accounts d') = Some a" by blast+
qed

text \<open>Owners are profile identifiers, by the foreign key; they do not contain the separator.\<close>

lemma acc_nul: "billing_inv hx d \<Longrightarrow> tbl_get (acc_sel owner) (accounts d) = Some a \<Longrightarrow> nul_free owner"
  by (auto simp: billing_inv_defs acc_sel_def dest!: tbl_get_Some_iff)

lemma acc_get_upd:
  assumes "tbl_get (acc_sel p) (accounts d) = Some a" and "\<And>x. acc_owner (f x) = acc_owner x"
  shows "tbl_get (acc_sel p) (tbl_upd (acc_sel p) f (accounts d)) = Some (f a)"
  using assms by (simp add: acc.get_upd_row)

lemma ledger_account_inv:
  assumes inv: "billing_inv hx d" and la: "ledger_account hx cat owner now d = Inr (d', a)"
  shows "billing_inv hx d'" and "tbl_get (acc_sel owner) (accounts d') = Some a"
proof -
  obtain d1 a1 where ea: "ensure_account cat owner now d = Inr (d1, a1)"
    using la by (auto simp: ledger_account_def split: sum.splits)
  note e1 = ensure_account_inv[OF inv ea]
  note nul = acc_nul[OF e1]
  obtain p where p: "account_plan cat a1 = Some p"
    using la ea by (auto simp: ledger_account_def split: option.splits)
  define period where "period = period_key_of now"
  define grant where "grant = microcredits (monthly_included_credits p)"
  define e where "e = new_entry hx owner (grant_key p period) ''included_grant'' grant (available a1 + grant)
     ''catalog'' now None None (JObj [(''catalog_id'', plan_id p), (''period'', JStr period)])"
  define f where "f = (\<lambda>x::account. x\<lparr>available := available a1 + grant, period_spend := 0,
     period_key := Some period, acc_updated_at := now\<rparr>)"
  have f: "\<And>x. acc_owner (f x) = acc_owner x" "available (f a1) = available a1 + le_amount e"
    "reserved (f a1) = reserved a1" by (simp_all add: f_def e_def)
  have "billing_inv hx d' \<and> tbl_get (acc_sel owner) (accounts d') = Some a"
  proof (cases "plan_kind p \<in> {''free'', ''demo''} \<and> period_key a1 \<noteq> Some period")
    case False
    then have "(d', a) = (d1, a1)" using la ea p by (auto simp: ledger_account_def Let_def period_def)
    with e1 show ?thesis by simp
  next
    case True
    obtain d2 b where ins: "insert_ledger e d1 = (d2, b)" by fastforce
    have la': "(case tbl_get (acc_sel owner) (accounts (if b then upd_account owner f d2 else d2)) of
         None \<Rightarrow> Inl PyTypeError | Some a' \<Rightarrow> Inr (if b then upd_account owner f d2 else d2, a')) = Inr (d', a)"
      using la ea p True ins unfolding ledger_account_def period_def grant_def e_def f_def
      by (cases b) (auto simp: Let_def split: option.splits)
    show ?thesis
    proof (cases b)
      case False
      with ins have "d2 = d1" by (auto dest: insert_ledger_False)
      with la' False e1 show ?thesis by (auto split: option.splits)
    next
      case True
      with ins have d2: "d2 = d1\<lparr>ledger := ledger d1 @ [e]\<rparr>"
        and fresh: "\<And>x. x \<in> set (ledger d1) \<Longrightarrow> (le_owner x, le_key x) \<noteq> (le_owner e, le_key e)"
        using insert_ledger_True[of e d1 d2] by auto
      have "entry_linked d1 e" using e1(2)
        by (auto simp: entry_linked_def e_def grant_key_def has_account_get)
      then have "billing_inv hx (upd_account (le_owner e) f (d1\<lparr>ledger := ledger d1 @ [e]\<rparr>))"
        using e1 f fresh nul
        by (intro post_inv[where d = d1 and ?d1.0 = d1 and y = 0 and a = a1]) (auto simp: billing_inv_def e_def)
      moreover have "d' = upd_account owner f d2" "a = f a1"
        using la' True e1(2) acc_get_upd[OF e1(2) f(1)] by (auto simp: d2 split: option.splits)
      ultimately show ?thesis using acc_get_upd[OF e1(2) f(1)] by (simp add: d2 e_def)
    qed
  qed
  then show "billing_inv hx d'" and "tbl_get (acc_sel owner) (accounts d') = Some a" by blast+
qed

subsection \<open>Reservations\<close>

lemma reserve_new_inv:
  assumes hx: "inj hx" and inv: "billing_inv hx d"
    and a: "tbl_get (acc_sel owner) (accounts d) = Some a"
    and none: "tbl_get (rs_key_sel (owner, key)) (reservations d) = None"
    and est: "0 \<le> objective_reserve_credits p"
    and res: "reserve_new hx owner objective key now a p d = Inr (d', r)"
  shows "billing_inv hx d'"
proof -
  note nul = acc_nul[OF inv a]
  define i where "i = reservation_id hx owner objective"
  define estimate where "estimate = microcredits (objective_reserve_credits p)"
  define e where "e = new_entry hx owner (''reserve:'' @ key) ''reservation'' (- estimate) (available a - estimate)
     ''execution'' now (Some i) (Some objective) (JObj [(''estimated_microcredits'', JInt estimate)])"
  define f where "f = (\<lambda>x::account. x\<lparr>available := available a - estimate, reserved := reserved x + estimate,
     acc_updated_at := now\<rparr>)"
  define d1 where "d1 = d\<lparr>reservations := reservations d @ [r]\<rparr>"
  have r: "rs_id r = i" "rs_owner r = owner" "rs_objective r = objective" "rs_key r = key"
      "rs_estimated r = estimate" "rs_status r = Reserved" "rs_actual r = None"
    and new: "\<not> tbl_ex (\<lambda>x. rs_id x = i \<or> rs_sel (owner, objective) x \<or> rs_key_sel (owner, key) x) (reservations d)"
    and d': "d' = fst (insert_ledger e (upd_account owner f d1))"
    using res by (auto simp: reserve_new_def Let_def i_def estimate_def e_def f_def d1_def
        split: if_splits prod.splits)
  have f: "\<And>x. acc_owner (f x) = acc_owner x" "available (f a) = available a + le_amount e"
    "reserved (f a) = reserved a + estimate" by (simp_all add: f_def e_def)
  have fresh_id: "\<And>x. x \<in> set (reservations d) \<Longrightarrow> rs_id x \<noteq> i" using new by (auto simp: tbl_ex_iff)
  have key1: "key_inv hx d1"
    using inv new r by (auto simp: billing_inv_defs d1_def tbl_ex_iff tbl_get_None_iff rs_id_sel_def
        intro!: rs.uniq_insert rk.uniq_insert ri.uniq_insert)
  have lk: "entry_linked d1 x" if "entry_linked d x" for x
    using that by (auto simp: entry_linked_def d1_def)
  have link1: "link_inv d1"
    using inv lk a r by (auto simp: billing_inv_defs d1_def has_account_get)
  have norefund: "refunded owner i d = 0" unfolding refunded_def
    using inv fresh_id by (intro tbl_sum_none) (auto simp: billing_inv_defs entry_linked_def)
  have settle1: "settle_inv d1"
    using inv r norefund est
    by (auto simp: billing_inv_defs d1_def refunded_def refund_cap_def estimate_def microcredits_def MICROCREDITS_PER_CREDIT_def)
  have hold: "hold_sum q d1 = hold_sum q d + (if q = le_owner e then estimate else 0)" for q
    using r by (auto simp: hold_sum_def d1_def e_def tbl_sum_append)
  have fresh: "(le_owner x, le_key x) \<noteq> (le_owner e, le_key e)" if "x \<in> set (ledger d1)" for x
    using that inv none link_key(1)[of d x key]
    by (auto simp: billing_inv_def d1_def e_def tbl_get_None_iff rs_key_sel_def)
  have linked: "entry_linked d1 e" using a r by (auto simp: entry_linked_def e_def d1_def has_account_get)
  have "d' = upd_account (le_owner e) f (d1\<lparr>ledger := ledger d1 @ [e]\<rparr>)"
    unfolding d' using insert_after_upd[OF hx key1 _ _ fresh f(1), of owner] nul by (simp add: e_def)
  then show ?thesis
    using post_inv[OF key1 link1 settle1 _ _ _ hold fresh _ _ linked _ f] inv a nul
    by (auto simp: billing_inv_def d1_def e_def)
qed

text \<open>A reservation that leaves \<open>Reserved\<close>: the open holds drop by its estimate.\<close>

lemma close_reservation:
  assumes inv: "billing_inv hx d" and r: "r \<in> set (reservations d)" "rs_status r = Reserved"
    and g: "\<And>x. rs_id (g x) = rs_id x" "\<And>x. rs_owner (g x) = rs_owner x" "\<And>x. rs_objective (g x) = rs_objective x"
      "\<And>x. rs_key (g x) = rs_key x" "\<And>x. rs_estimated (g x) = rs_estimated x"
      "\<And>x. rs_status (g x) \<noteq> Reserved"
    and s: "rs_status (g r) = Settled \<longleftrightarrow> rs_actual (g r) \<noteq> None" "0 \<le> refund_cap (g r)"
  defines "d1 \<equiv> upd_reservation (rs_id r) g d"
  shows "key_inv hx d1" and "link_inv d1" and "settle_inv d1"
    and "hold_sum p d1 = hold_sum p d + (if p = rs_owner r then - rs_estimated r else 0)"
proof -
  have uniq: "ri.uniq (reservations d)" using inv by (simp add: billing_inv_defs)
  have row: "x = r" if "x \<in> set (reservations d)" "rs_id x = rs_id r" for x
    using ri.uniq_same[OF uniq that(1) r(1) that(2)] .
  have rows: "reservations d1 = tbl_upd (rs_id_sel (rs_id r)) g (reservations d)"
    and frame: "accounts d1 = accounts d" "ledger d1 = ledger d" "usages d1 = usages d" "webhooks d1 = webhooks d"
    "profiles d1 = profiles d"
    by (simp_all add: d1_def upd_reservation_def)
  show "key_inv hx d1" using inv g
    by (auto simp: billing_inv_defs rows frame intro!: rs.uniq_upd rk.uniq_upd ri.uniq_upd)
  have acc: "has_account d1 = has_account d" by (simp add: has_account_def frame fun_eq_iff)
  have "res_succ (reservations d) (reservations d1)" unfolding res_succ_def
  proof
    fix x assume x: "x \<in> set (reservations d)"
    then show "\<exists>y \<in> set (reservations d1). rs_owner y = rs_owner x \<and> rs_id y = rs_id x
      \<and> rs_key y = rs_key x \<and> (rs_status x = Released \<longrightarrow> rs_status y = Released)"
      using row[OF x] r(2) g by (intro bexI[of _ "if rs_id_sel (rs_id r) x then g x else x"])
        (auto simp: rows set_tbl_upd rs_id_sel_def)
  qed
  then have linked: "entry_linked d1 e" if "entry_linked d e" for e
    using that by (rule_tac entry_linked_mono[of d]) (auto simp: acc frame)
  have "link_inv d" using inv by (simp add: billing_inv_def)
  then show "link_inv d1"
    using g linked by (auto simp: link_inv_def acc frame rows set_tbl_upd)
  have si: "settle_inv d" using inv by (simp add: billing_inv_def)
  have ref: "refunded q i d1 = refunded q i d" for q i by (simp add: refunded_def frame)
  have z: "refunded (rs_owner r) (rs_id r) d \<le> 0" using si r by (auto simp: settle_inv_def refund_cap_def)
  show "settle_inv d1" unfolding settle_inv_def
  proof
    fix y assume "y \<in> set (reservations d1)"
    then obtain x where x: "x \<in> set (reservations d)" "y = (if rs_id x = rs_id r then g x else x)"
      by (auto simp: rows set_tbl_upd rs_id_sel_def)
    have "0 \<le> rs_estimated x" using si x by (simp add: settle_inv_def)
    with x row[OF x(1)] si g s z show "(rs_status y = Settled \<longleftrightarrow> rs_actual y \<noteq> None) \<and> 0 \<le> rs_estimated y
       \<and> 0 \<le> refund_cap y \<and> refunded (rs_owner y) (rs_id y) d1 \<le> refund_cap y"
      by (cases "rs_id x = rs_id r") (simp_all add: settle_inv_def ref)
  qed
  have "tbl_get (rs_id_sel (rs_id r)) (reservations d) = Some r" using ri.uniq_get[OF uniq r(1)] .
  then show "hold_sum p d1 = hold_sum p d + (if p = rs_owner r then - rs_estimated r else 0)"
    using r(2) g by (simp add: hold_sum_def rows ri.sum_upd_row[OF uniq])
qed

lemma rs_get_Some:
  assumes "tbl_get (rs_sel (owner, objective)) (reservations d) = Some r"
  shows "r \<in> set (reservations d)" "rs_owner r = owner" "rs_objective r = objective"
  using assms by (auto dest: tbl_get_Some_iff simp: rs_sel_def)

lemma release_objective_inv:
  assumes hx: "inj hx" and inv: "billing_inv hx d"
    and res: "release_objective hx owner objective reason now d = Inr (d', b)"
  shows "billing_inv hx d'"
proof (cases b)
  case False
  with res inv show ?thesis
    by (auto simp: release_objective_def Let_def split: option.splits if_splits prod.splits)
next
  case True
  obtain r a where r: "tbl_get (rs_sel (owner, objective)) (reservations d) = Some r" "rs_status r = Reserved"
    and a: "tbl_get (acc_sel owner) (accounts d) = Some a"
    using res True by (auto simp: release_objective_def split: option.splits if_splits)
  note r' = rs_get_Some[OF r(1)]
  define g where "g = (\<lambda>x::reservation. x\<lparr>rs_status := Released, rs_updated_at := now\<rparr>)"
  define d1 where "d1 = upd_reservation (rs_id r) g d"
  note nul = acc_nul[OF inv a]
  define e where "e = new_entry hx owner (''release:'' @ rs_id r) ''release'' (rs_estimated r)
     (available a + rs_estimated r) ''execution'' now (Some (rs_id r)) (Some objective)
     (JObj [(''reason'', JStr (take 64 reason))])"
  define f where "f = (\<lambda>x::account. x\<lparr>available := available a + rs_estimated r,
     reserved := reserved x - rs_estimated r, acc_updated_at := now\<rparr>)"
  have f: "\<And>x. acc_owner (f x) = acc_owner x" "available (f a) = available a + le_amount e"
    "reserved (f a) = reserved a + (- rs_estimated r)" by (simp_all add: f_def e_def)
  have noact: "rs_actual r = None" using inv r' r(2) by (auto simp: billing_inv_defs)
  note c = close_reservation[OF inv r'(1) r(2), of g, folded d1_def]
  have c1: "key_inv hx d1" "link_inv d1" "settle_inv d1"
    and hold: "hold_sum q d1 = hold_sum q d + (if q = le_owner e then - rs_estimated r else 0)" for q
    using c noact r'(2) by (simp_all add: g_def e_def refund_cap_def)
  have frame: "accounts d1 = accounts d" "ledger d1 = ledger d" by (simp_all add: d1_def upd_reservation_def)
  have rel: "g r \<in> set (reservations d1)"
    using r' by (force simp: d1_def upd_reservation_def set_tbl_upd rs_id_sel_def)
  have fresh: "(le_owner x, le_key x) \<noteq> (le_owner e, le_key e)" if x: "x \<in> set (ledger d1)" for x
  proof
    assume "(le_owner x, le_key x) = (le_owner e, le_key e)"
    then obtain y where y: "y \<in> set (reservations d)" "rs_id y = rs_id r" "rs_status y = Released"
      using x inv link_key(2)[of d x "rs_id r"] by (auto simp: billing_inv_def e_def frame)
    have uq: "ri.uniq (reservations d)" using inv by (simp add: billing_inv_defs)
    show False using ri.uniq_same[OF uq y(1) r'(1) y(2)] y(3) r(2) by simp
  qed
  have linked: "entry_linked d1 e" using a rel r'(2)
    by (auto simp: entry_linked_def e_def has_account_get frame g_def intro!: bexI[OF _ rel])
  have "insert_ledger e (upd_account owner f d1) = (upd_account owner f (d1\<lparr>ledger := ledger d1 @ [e]\<rparr>), True)"
    using insert_after_upd[OF hx c1(1) _ _ fresh f(1)] nul by (simp add: e_def)
  then have "d' = upd_account (le_owner e) f (d1\<lparr>ledger := ledger d1 @ [e]\<rparr>)"
    using res r a by (simp add: release_objective_def Let_def d1_def g_def e_def f_def)
  then show ?thesis
    using post_inv[OF c1 _ frame hold fresh _ _ linked _ f] inv a nul by (auto simp: billing_inv_def e_def)
qed

lemma settle_new_inv:
  assumes hx: "inj hx" and inv: "billing_inv hx d"
    and r: "tbl_get (rs_sel (owner, objective)) (reservations d) = Some r" "rs_status r = Reserved"
    and a: "tbl_get (acc_sel owner) (accounts d) = Some a" and act: "0 \<le> actual"
    and res: "settle_new hx owner objective us actual event now r a d = Inr (d', r1)"
  shows "billing_inv hx d'"
proof -
  note nul = acc_nul[OF inv a]
  note r' = rs_get_Some[OF r(1)]
  define g where "g = (\<lambda>x::reservation. x\<lparr>rs_status := Settled, rs_actual := Some actual,
     rs_usage := Some us, rs_updated_at := now\<rparr>)"
  define u where "u = \<lparr>ur_id = usage_id hx owner event, ur_owner = owner, ur_event = event, ur_objective = objective,
     ur_reservation = rs_id r, ur_usage = us, ur_cost = actual, ur_created_at = now\<rparr>"
  define d1 where "d1 = upd_reservation (rs_id r) g d"
  define d2 where "d2 = d1\<lparr>usages := usages d1 @ [u]\<rparr>"
  define meta where "meta = JObj [(''actual_microcredits'', JInt actual), (''estimated_microcredits'', JInt (rs_estimated r)),
     (''usage'', JObj [(''provider'', JStr (us_provider us)), (''model'', JStr (us_model us)),
        (''input_tokens'', JInt (us_input us)), (''output_tokens'', JInt (us_output us)),
        (''compute_milliseconds'', JInt (us_compute us))])]"
  define e where "e = new_entry hx owner (''settle:'' @ event) ''settlement'' (rs_estimated r - actual)
     (available a + (rs_estimated r - actual)) ''execution'' now (Some (rs_id r)) (Some objective) meta"
  define f where "f = (\<lambda>x::account. x\<lparr>available := available a + (rs_estimated r - actual),
     reserved := reserved x - rs_estimated r, period_spend := period_spend x + actual, acc_updated_at := now\<rparr>)"
  have f: "\<And>x. acc_owner (f x) = acc_owner x" "available (f a) = available a + le_amount e"
    "reserved (f a) = reserved a + (- rs_estimated r)" by (simp_all add: f_def e_def)
  have new: "\<not> tbl_ex (\<lambda>x. ur_id x = ur_id u \<or> ur_sel (owner, event) x \<or> (ur_owner x = owner \<and> ur_objective x = objective)) (usages d)"
    and d': "d' = fst (insert_ledger e (upd_account owner f d2))"
    using res by (auto simp: settle_new_def Let_def u_def d1_def d2_def g_def e_def f_def meta_def
        split: if_splits prod.splits)
  note c = close_reservation[OF inv r'(1) r(2), of g, folded d1_def]
  have c1: "key_inv hx d1" "link_inv d1" "settle_inv d1"
    and hold1: "hold_sum q d1 = hold_sum q d + (if q = le_owner e then - rs_estimated r else 0)" for q
    using c act r'(2) by (simp_all add: g_def e_def refund_cap_def)
  have frame: "accounts d2 = accounts d" "ledger d2 = ledger d" "usages d1 = usages d"
    by (simp_all add: d2_def d1_def upd_reservation_def)
  have c2: "key_inv hx d2" using c1(1) new
    by (auto simp: key_inv_def d2_def u_def frame tbl_ex_iff tbl_get_None_iff intro!: ur.uniq_insert)
  have lk: "entry_linked d2 x" if "entry_linked d1 x" for x
    using that by (rule_tac entry_linked_mono[of d1]) (auto simp: d2_def)
  have c3: "link_inv d2" using c1(2) lk unfolding link_inv_def by (simp add: d2_def)
  have c4: "settle_inv d2" using c1(3) by (simp add: settle_inv_def d2_def refunded_def)
  have hold: "hold_sum q d2 = hold_sum q d + (if q = le_owner e then - rs_estimated r else 0)" for q
    using hold1[of q] by (simp add: hold_sum_def d2_def)
  have rel: "g r \<in> set (reservations d2)"
    using r' by (force simp: d2_def d1_def upd_reservation_def set_tbl_upd rs_id_sel_def)
  have fresh: "(le_owner x, le_key x) \<noteq> (le_owner e, le_key e)" if "x \<in> set (ledger d2)" for x
    using that inv new link_key(3)[of d x event]
    by (auto simp: billing_inv_def e_def frame tbl_ex_iff ur_sel_def)
  have "\<exists>x \<in> set (usages d2). ur_owner x = owner \<and> ur_event x = event"
    by (intro bexI[of _ u]) (simp_all add: d2_def u_def)
  then have linked: "entry_linked d2 e" using a rel r'(2)
    by (auto simp: entry_linked_def e_def has_account_get frame g_def intro!: bexI[OF _ rel])
  have "d' = upd_account (le_owner e) f (d2\<lparr>ledger := ledger d2 @ [e]\<rparr>)"
    unfolding d' using insert_after_upd[OF hx c2 _ _ fresh f(1), of owner] nul by (simp add: e_def)
  then show ?thesis
    using post_inv[OF c2 c3 c4 _ frame(1,2) hold fresh _ _ linked _ f] inv a nul by (auto simp: billing_inv_def e_def)
qed

subsection \<open>Refunds and grants\<close>

text \<open>Keys that callers choose freely must stay out of the name spaces the ledger uses itself.\<close>

definition external_key :: "string \<Rightarrow> bool" where
  "external_key k \<longleftrightarrow> list_all (\<lambda>p. \<not> starts_with p k) [''reserve:'', ''release:'', ''settle:'', ''stripe:'']"

lemma external_keyD:
  assumes "external_key k"
  shows "k \<noteq> ''reserve:'' @ x" "k \<noteq> ''release:'' @ x" "k \<noteq> ''settle:'' @ x" "k \<noteq> ''stripe:'' @ x"
  using assms by (auto simp: external_key_def starts_with_def)

lemma external_linked:
  assumes "external_key (le_key e)" and "has_account d (le_owner e)"
    and "\<And>i. le_reservation e = Some i \<Longrightarrow> \<exists>r \<in> set (reservations d). rs_owner r = le_owner e \<and> rs_id r = i"
  shows "entry_linked d e"
  using assms(2,3) external_keyD[OF assms(1)] unfolding entry_linked_def by blast

lemma refund_objective_inv:
  assumes hx: "inj hx" and inv: "billing_inv hx d" and ext: "external_key key"
    and res: "refund_objective hx owner objective amount key reason now d = Inr (d', b)"
  shows "billing_inv hx d'"
proof (cases b)
  case False
  with res inv show ?thesis
    by (auto simp: refund_objective_def Let_def split: option.splits if_splits prod.splits)
next
  case True
  obtain r a actual where r: "tbl_get (\<lambda>r. rs_sel (owner, objective) r \<and> rs_status r = Settled) (reservations d) = Some r"
      "rs_actual r = Some actual"
    and none: "tbl_get (le_sel (owner, key)) (ledger d) = None"
    and cap: "refunded owner (rs_id r) d + amount \<le> actual" "0 < amount"
    and a: "tbl_get (acc_sel owner) (accounts d) = Some a"
    using res True by (auto simp: refund_objective_def not_less split: option.splits if_splits)
  have r': "r \<in> set (reservations d)" "rs_owner r = owner"
    using tbl_get_Some_iff[OF r(1)] by (auto simp: rs_sel_def)
  note nul = acc_nul[OF inv a]
  define e where "e = new_entry hx owner key ''refund'' amount (available a + amount) ''execution'' now
     (Some (rs_id r)) (Some objective) (JObj [(''reason'', JStr (take 128 reason))])"
  define f where "f = (\<lambda>x::account. x\<lparr>available := available a + amount,
     period_spend := (if amount < period_spend x then period_spend x - amount else 0), acc_updated_at := now\<rparr>)"
  have f: "\<And>x. acc_owner (f x) = acc_owner x" "available (f a) = available a + le_amount e"
    "reserved (f a) = reserved a + 0" by (simp_all add: f_def e_def)
  have fresh: "(le_owner x, le_key x) \<noteq> (le_owner e, le_key e)" if "x \<in> set (ledger d)" for x
    using that none by (auto simp: e_def tbl_get_None_iff le_sel_def)
  have linked: "entry_linked d e"
    using a ext r' by (intro external_linked) (auto simp: e_def has_account_get)
  have ki: "key_inv hx d" and uq: "ri.uniq (reservations d)" using inv by (simp_all add: billing_inv_defs)
  have "insert_ledger e d = (d\<lparr>ledger := ledger d @ [e]\<rparr>, True)"
    by (rule insert_ledger_fresh[OF hx ki]) (use fresh nul in \<open>auto simp: e_def\<close>)
  then have d': "d' = upd_account (le_owner e) f (d\<lparr>ledger := ledger d @ [e]\<rparr>)"
    using res r a none cap True by (auto simp: refund_objective_def Let_def e_def f_def split: if_splits)
  have ref: "refunded (rs_owner q) (rs_id q) d + le_amount e \<le> refund_cap q"
    if "q \<in> set (reservations d)" "le_reservation e = Some (rs_id q)" "rs_owner q = le_owner e" for q
    using ri.uniq_same[OF uq that(1) r'(1)] that cap r by (simp add: e_def refund_cap_def)
  show ?thesis unfolding d'
    by (rule post_inv[where d = d and ?d1.0 = d and y = 0 and a = a])
      (use inv fresh nul linked a f ref in \<open>auto simp: billing_inv_def e_def\<close>)
qed

lemma add_credits_inv:
  assumes hx: "inj hx" and inv: "billing_inv hx d" and ext: "external_key key"
    and res: "add_credits hx cat owner credits key src now d = Inr (d', b)"
  shows "billing_inv hx d'"
proof -
  obtain d1 a where la: "ledger_account hx cat owner now d = Inr (d1, a)"
    using res by (auto simp: add_credits_def split: if_splits sum.splits)
  note l = ledger_account_inv[OF inv la]
  note nul = acc_nul[OF l]
  show ?thesis
  proof (cases "tbl_get (le_sel (owner, key)) (ledger d1)")
    case (Some x)
    with res la l show ?thesis by (auto simp: add_credits_def Let_def split: if_splits)
  next
    case None
    define amount where "amount = microcredits credits"
    define e where "e = new_entry hx owner key ''topup'' amount (available a + amount) src now None None (JObj [])"
    define f where "f = (\<lambda>x::account. x\<lparr>available := available a + amount, acc_updated_at := now\<rparr>)"
    have f: "\<And>x. acc_owner (f x) = acc_owner x" "available (f a) = available a + le_amount e"
      "reserved (f a) = reserved a + 0" by (simp_all add: f_def e_def)
    have fresh: "(le_owner x, le_key x) \<noteq> (le_owner e, le_key e)" if "x \<in> set (ledger d1)" for x
      using that None by (auto simp: e_def tbl_get_None_iff le_sel_def)
    have linked: "entry_linked d1 e"
      using l ext by (intro external_linked) (auto simp: e_def has_account_get)
    have ki: "key_inv hx d1" using l by (simp add: billing_inv_def)
    have "insert_ledger e d1 = (d1\<lparr>ledger := ledger d1 @ [e]\<rparr>, True)"
      by (rule insert_ledger_fresh[OF hx ki]) (use fresh nul in \<open>auto simp: e_def\<close>)
    then have d': "d' = upd_account (le_owner e) f (d1\<lparr>ledger := ledger d1 @ [e]\<rparr>)"
      using res la None by (auto simp: add_credits_def Let_def e_def f_def amount_def split: if_splits)
    show ?thesis unfolding d'
      by (rule post_inv[where d = d1 and ?d1.0 = d1 and y = 0 and a = a])
        (use l fresh nul linked f in \<open>auto simp: billing_inv_def e_def\<close>)
  qed
qed

subsection \<open>The public operations\<close>

lemma plan_of_ok:
  assumes "catalog_ok cat" and "plan_of cat a = Inr p"
  shows "plan_ok p"
  using assms map_of_SomeD[of "plans cat" _ p]
  by (fastforce simp: plan_of_def account_plan_def catalog_ok_def split: option.splits)

lemma check_usage_ok:
  assumes cat: "catalog_ok cat" and cu: "check_usage cat u = Inr (us, rt)"
  shows "rate_ok rt" and "0 \<le> us_input us" "0 \<le> us_output us" "0 \<le> us_compute us"
proof -
  have "\<exists>pr mo. map_of (rates cat) (pr, mo) = Some rt" and
    m: "0 \<le> us_input us" "0 \<le> us_output us" "0 \<le> us_compute us"
    using cu by (auto simp: check_usage_def split: if_splits json.splits option.splits dest: nonneg_int_Some)
  then show "rate_ok rt" using cat map_of_SomeD[of "rates cat" _ rt] by (fastforce simp: catalog_ok_def)
  show "0 \<le> us_input us" "0 \<le> us_output us" "0 \<le> us_compute us" using m by simp_all
qed

lemma ceil_res_nonneg: "ceil_res a b = Inr c \<Longrightarrow> 0 \<le> a \<Longrightarrow> 0 < b \<Longrightarrow> 0 \<le> c"
  using ceil_truediv_nonneg by (auto simp: ceil_res_def split: option.splits)

lemma usage_cost_nonneg:
  assumes "rate_ok rt" and "0 \<le> us_input us" "0 \<le> us_output us" "0 \<le> us_compute us"
    and "0 < usd_micros_per_credit cat" and cost: "usage_cost cat us rt = Inr c"
  shows "0 \<le> c"
proof -
  obtain t m b where t: "ceil_res (us_input us * input_usd_micros_per_million rt
        + us_output us * output_usd_micros_per_million rt) 1000000 = Inr t"
    and m: "ceil_res (us_compute us * compute_usd_micros_per_hour rt) 3600000 = Inr m"
    and b: "ceil_res ((t + m) * (10000 + margin_bps rt)) 10000 = Inr b"
    and c: "ceil_res (b * MICROCREDITS_PER_CREDIT) (usd_micros_per_credit cat) = Inr c"
    using cost by (auto simp: usage_cost_def Let_def split: sum.splits)
  have "0 \<le> t" using ceil_res_nonneg[OF t] assms by (simp add: rate_ok_def)
  moreover have "0 \<le> m" using ceil_res_nonneg[OF m] assms by (simp add: rate_ok_def)
  ultimately have "0 \<le> b" using ceil_res_nonneg[OF b] assms by (simp add: rate_ok_def)
  then show ?thesis using ceil_res_nonneg[OF c] assms by (simp add: MICROCREDITS_PER_CREDIT_def)
qed

lemma reserve_objective_inv:
  assumes hx: "inj hx" and cat: "catalog_ok cat" and inv: "billing_inv hx d"
    and res: "reserve_objective hx cat owner objective key now d = Inr (d', r)"
  shows "billing_inv hx d'"
proof -
  obtain d1 a p where la: "ledger_account hx cat owner now d = Inr (d1, a)" and p: "plan_of cat a = Inr p"
    using res by (auto simp: reserve_objective_def split: sum.splits)
  note l = ledger_account_inv[OF inv la]
  show ?thesis
  proof (cases "tbl_get (rs_key_sel (owner, key)) (reservations d1)")
    case (Some x)
    with res la p l show ?thesis by (auto simp: reserve_objective_def split: if_splits)
  next
    case None
    with res la p have "reserve_new hx owner objective key now a p d1 = Inr (d', r)"
      by (simp add: reserve_objective_def)
    then show ?thesis using reserve_new_inv[OF hx l None] plan_of_ok[OF cat p]
      unfolding plan_ok_def by blast
  qed
qed

lemma settle_objective_inv:
  assumes hx: "inj hx" and cat: "catalog_ok cat" and inv: "billing_inv hx d"
    and res: "settle_objective hx cat owner objective u event now d = Inr (d', r)"
  shows "billing_inv hx d'"
proof -
  obtain us rt actual r0 where cu: "check_usage cat u = Inr (us, rt)" and cost: "usage_cost cat us rt = Inr actual"
    and r0: "tbl_get (rs_sel (owner, objective)) (reservations d) = Some r0"
    using res by (auto simp: settle_objective_def split: sum.splits option.splits)
  have act: "0 \<le> actual"
    using usage_cost_nonneg[OF check_usage_ok[OF cat cu] _ cost] cat by (simp add: catalog_ok_def)
  show ?thesis
  proof (cases "rs_status r0")
    case Reserved
    then obtain a where "tbl_get (acc_sel owner) (accounts d) = Some a"
      "settle_new hx owner objective us actual event now r0 a d = Inr (d', r)"
      using res cu cost r0 by (auto simp: settle_objective_def split: option.splits)
    then show ?thesis using settle_new_inv[OF hx inv r0 Reserved _ act] by blast
  next
    case Settled
    then show ?thesis using res cu cost r0 inv
      by (auto simp: settle_objective_def Let_def split: option.splits if_splits)
  next
    case Released
    then show ?thesis using res cu cost r0 by (simp add: settle_objective_def)
  qed
qed

lemma summary_inv:
  assumes "billing_inv hx d" and "summary hx cat owner now n d = Inr (d', v)"
  shows "billing_inv hx d'"
  using assms ledger_account_inv[OF assms(1)] by (auto simp: summary_def split: sum.splits)

end
