(* ===== verification/Stripe_Webhook.thy ===== *)
theory Stripe_Webhook
  imports Credit_Ledger_Inv
begin

text \<open>
  \<open>app/billing.py\<close>, class \<open>StripeWebhookProcessor\<close> and the legacy \<open>accept_webhook\<close>: the only
  code that turns provider events into subscriptions and purchased credits.

  Parameters: \<open>mac secret message\<close> stands for \<open>hmac.new(...).hexdigest()\<close>, \<open>sha\<close> for the payload
  digest, \<open>loads\<close> for \<open>json.loads\<close> (\<open>None\<close> where it raises), \<open>hx\<close> as in \<open>Credit_Ledger\<close>. A
  payload is its byte string. A value bound to a SQL parameter must be a scalar (\<open>bindable\<close>);
  integer columns hold unbounded integers. A handler that raises rolls its transaction back.
\<close>

definition MAX_WEBHOOK_BYTES :: int where
  "MAX_WEBHOOK_BYTES = 256 * 1024"

subsection \<open>Signatures\<close>

text \<open>\<open>fields\<close>: the values of a key in the order of the header's parts.\<close>

definition header_values :: "string \<Rightarrow> string \<Rightarrow> string list" where
  "header_values k signature =
     map (\<lambda>(_, _, v). v)
       (filter (\<lambda>(key, sep, _). sep \<and> key = k) (map (py_partition CHR ''='') (py_split CHR '','' signature)))"

definition signature_timestamp :: "string \<Rightarrow> int" where
  "signature_timestamp signature =
     (case header_values ''t'' signature of
        [] \<Rightarrow> 0
      | t # _ \<Rightarrow> (case py_int t of None \<Rightarrow> 0 | Some n \<Rightarrow> n))"

definition verify :: "(string \<Rightarrow> string \<Rightarrow> string) \<Rightarrow> string \<Rightarrow> string \<Rightarrow> string \<Rightarrow> int \<Rightarrow> billing_error + unit" where
  "verify mac payload signature secret now =
     (if MAX_WEBHOOK_BYTES < int (length payload) then Inl (BillingError ''webhook_too_large'' 413)
      else
        let timestamp = signature_timestamp signature in
        if 300 < abs (now - timestamp) then Inl (BillingError ''webhook_signature_invalid'' 400)
        else
          let expected = mac secret (int_str timestamp @ ''.'' @ payload) in
          if expected \<notin> set (header_values ''v1'' signature)
          then Inl (BillingError ''webhook_signature_invalid'' 400)
          else Inr ())"

subsection \<open>Envelopes\<close>

record envelope =
  ev_id :: string
  ev_type :: string
  ev_created :: int
  ev_object :: json

definition webhook_invalid :: billing_error where
  "webhook_invalid = BillingError ''webhook_invalid'' 400"

definition parse_envelope :: "(string \<Rightarrow> json option) \<Rightarrow> string \<Rightarrow> billing_error + envelope" where
  "parse_envelope loads payload =
     (case loads payload of
        None \<Rightarrow> Inl webhook_invalid
      | Some ev \<Rightarrow>
          (case (jget ev ''id'', jget ev ''type'', jget ev ''created'') of
             (JStr i, JStr t, JInt c) \<Rightarrow>
               if c \<le> 0 then Inl webhook_invalid
               else
                 let obj = jget (jget ev ''data'') ''object'' in
                 if is_JObj obj then Inr \<lparr>ev_id = i, ev_type = t, ev_created = c, ev_object = obj\<rparr>
                 else Inl webhook_invalid
           | _ \<Rightarrow> Inl webhook_invalid))"

definition metadata_of :: "json \<Rightarrow> string option \<times> string option" where
  "metadata_of obj =
     (let m = jget obj ''metadata'';
          str = (\<lambda>v. case v of JStr s \<Rightarrow> Some s | _ \<Rightarrow> None)
      in (str (jget m ''magistrate_owner''), str (jget m ''catalog_id'')))"

definition bindable :: "json \<Rightarrow> bool" where
  "bindable v = hashable v"

text \<open>A scalar compared with a \<open>TEXT\<close> column.\<close>

definition sql_text :: "json \<Rightarrow> billing_error + string option" where
  "sql_text v =
     (case v of
        JNull \<Rightarrow> Inr None
      | JStr s \<Rightarrow> Inr (Some s)
      | JInt n \<Rightarrow> Inr (Some (int_str n))
      | JBool b \<Rightarrow> Inr (Some (if b then ''1'' else ''0''))
      | JFloat r \<Rightarrow> Inr (Some r)
      | _ \<Rightarrow> Inl SqlBindingError)"

subsection \<open>Purchased credits\<close>

definition purchase_entry :: "(string \<Rightarrow> string) \<Rightarrow> string \<Rightarrow> json \<Rightarrow> int \<Rightarrow> pack \<Rightarrow> string \<Rightarrow> int \<Rightarrow> ledger_entry" where
  "purchase_entry hx event_id obj now p owner balance =
     new_entry hx owner (''stripe:'' @ event_id) ''topup'' (microcredits (pack_credits p)) balance ''stripe'' now None None
       (JObj [(''catalog_id'', pack_id p), (''stripe_session_id'', jget obj ''id'')])"

definition purchase_row :: "int \<Rightarrow> int \<Rightarrow> account \<Rightarrow> account" where
  "purchase_row balance now x = x\<lparr>available := balance, acc_updated_at := now\<rparr>"

text \<open>The branch for a paid one-off checkout.\<close>

definition checkout_paid :: "(string \<Rightarrow> string) \<Rightarrow> catalog \<Rightarrow> string \<Rightarrow> json \<Rightarrow> int \<Rightarrow> billing_db \<Rightarrow> billing_error + billing_db" where
  "checkout_paid hx cat event_id obj now d =
     (case sql_text (jget obj ''id'') of
        Inl e \<Rightarrow> Inl e
      | Inr sid \<Rightarrow>
         (case tbl_get (\<lambda>s. Some (cs_id s) = sid \<and> sid \<noteq> None) (checkouts d) of
            None \<Rightarrow> Inl (BillingError ''checkout_unknown'' 409)
          | Some s \<Rightarrow>
              if cs_kind s \<noteq> ''credit_pack'' then Inl (BillingError ''checkout_unknown'' 409)
              else (case map_of (packs cat) (JStr (cs_catalog s)) of
                None \<Rightarrow> Inl (BillingError ''catalog_item_not_found'' 409)
              | Some p \<Rightarrow>
                 (case ledger_account hx cat (cs_owner s) now d of
                    Inl e \<Rightarrow> Inl e
                  | Inr (d1, a) \<Rightarrow>
                      let balance = available a + microcredits (pack_credits p);
                          (d2, _) = insert_ledger (purchase_entry hx event_id obj now p (cs_owner s) balance) d1
                      in Inr (upd_account (cs_owner s) (purchase_row balance now) d2)))))"

subsection \<open>Subscriptions\<close>

definition first_price :: "json \<Rightarrow> billing_error + json" where
  "first_price obj =
     (let items = jget (jget obj ''items'') ''data'' in
      if \<not> truthy items then Inr JNull
      else case items of
        JList (x # _) \<Rightarrow> Inr (jget (jget x ''price'') ''id'')
      | JStr _ \<Rightarrow> Inr JNull
      | JObj _ \<Rightarrow> Inl PyKeyError
      | _ \<Rightarrow> Inl PyTypeError)"

text \<open>The owner a subscription event is bound to: the account of the customer, which the
  metadata may not contradict.\<close>

definition subscription_owner :: "json \<Rightarrow> billing_db \<Rightarrow> billing_error + string" where
  "subscription_owner obj d =
     (let owner = fst (metadata_of obj);
          customer_owner = (case jget obj ''customer'' of
             JStr c \<Rightarrow> map_option acc_owner (tbl_get (\<lambda>a. acc_customer a = Some c) (accounts d))
           | _ \<Rightarrow> None);
          given = (\<lambda>x. x \<noteq> None \<and> x \<noteq> Some [])
      in
      if given owner \<and> given customer_owner \<and> owner \<noteq> customer_owner
      then Inl (BillingError ''subscription_owner_conflict'' 409)
      else
        let who = (if given owner then owner else customer_owner) in
        if \<not> given who \<or> customer_owner \<noteq> who \<or> \<not> is_JStr (jget obj ''id'')
        then Inl (BillingError ''subscription_unknown'' 409)
        else Inr (the who))"

text \<open>The plan a subscription event selects: the plan of its price, which the metadata may not
  contradict.\<close>

definition subscription_plan :: "catalog \<Rightarrow> json \<Rightarrow> billing_error + plan" where
  "subscription_plan cat obj =
     (case first_price obj of
        Inl e \<Rightarrow> Inl e
      | Inr pr \<Rightarrow>
          let found = (case pr of JStr s \<Rightarrow> price_item cat s | _ \<Rightarrow> None);
              named = snd (metadata_of obj)
          in (case found of
                Some (SubscriptionItem p) \<Rightarrow>
                  if named \<noteq> None \<and> named \<noteq> Some [] \<and> truthy (plan_id p) \<and> JStr (the named) \<noteq> plan_id p
                  then Inl (BillingError ''subscription_price_conflict'' 409)
                  else (case map_of (plans cat) (plan_id p) of
                    None \<Rightarrow> Inl (BillingError ''subscription_price_unknown'' 409)
                  | Some q \<Rightarrow>
                      if plan_kind q \<noteq> ''subscription'' then Inl (BillingError ''subscription_price_unknown'' 409)
                      else Inr q)
              | _ \<Rightarrow> Inl (BillingError ''subscription_price_unknown'' 409)))"

definition stale :: "account \<Rightarrow> int \<Rightarrow> bool" where
  "stale a created \<longleftrightarrow> (case provider_event_created a of None \<Rightarrow> False | Some c \<Rightarrow> created < c)"

definition grace_of :: "account \<Rightarrow> plan \<Rightarrow> int \<Rightarrow> int" where
  "grace_of a p now = (case acc_grace_ends_at a of Some g \<Rightarrow> g | None \<Rightarrow> now + grace_days p * 86400)"

definition subscription_status :: "string \<Rightarrow> json \<Rightarrow> string" where
  "subscription_status event_type obj =
     (if event_type = ''customer.subscription.deleted'' then ''canceled''
      else case jget obj ''status'' of JStr s \<Rightarrow> s | _ \<Rightarrow> ''canceled'')"

text \<open>The columns the event writes: \<open>a\<close> is the account as read, \<open>x\<close> the row updated.\<close>

definition subscription_row :: "catalog \<Rightarrow> plan \<Rightarrow> string \<Rightarrow> json \<Rightarrow> int \<Rightarrow> int \<Rightarrow> account \<Rightarrow> account \<Rightarrow> account" where
  "subscription_row cat p event_type obj now created a x =
     (let status = subscription_status event_type obj;
          canceled = (status = ''canceled'')
      in x\<lparr>acc_catalog_id := db_text (if canceled then default_plan cat else plan_id p),
           acc_status := (if canceled then ''active'' else status),
           acc_subscription := (if canceled then None else db_text (jget obj ''id'')),
           acc_period_start := jget obj ''current_period_start'', acc_period_end := jget obj ''current_period_end'',
           acc_cancel_at_period_end := (jget obj ''cancel_at_period_end'' = JBool True),
           acc_grace_ends_at := (if status \<in> {''past_due'', ''unpaid''} then Some (grace_of a p now) else None),
           provider_event_created := Some created, acc_updated_at := now\<rparr>)"

definition on_subscription :: "(string \<Rightarrow> string) \<Rightarrow> catalog \<Rightarrow> string \<Rightarrow> json \<Rightarrow> int \<Rightarrow> int \<Rightarrow> billing_db
    \<Rightarrow> billing_error + billing_db" where
  "on_subscription hx cat event_type obj now created d =
     (case subscription_owner obj d of Inl e \<Rightarrow> Inl e | Inr owner \<Rightarrow>
      (case subscription_plan cat obj of Inl e \<Rightarrow> Inl e | Inr p \<Rightarrow>
       (case ledger_account hx cat owner now d of Inl e \<Rightarrow> Inl e | Inr (d1, a) \<Rightarrow>
          if stale a created then Inr d1
          else if \<not> bindable (jget obj ''current_period_start'') \<or> \<not> bindable (jget obj ''current_period_end'')
          then Inl SqlBindingError
          else
            let row = subscription_row cat p event_type obj now created a in
            if acc_subscription (row a) \<noteq> None
               \<and> tbl_ex (\<lambda>x. acc_owner x \<noteq> owner \<and> acc_subscription x = acc_subscription (row a)) (accounts d1)
            then Inl IntegrityError
            else Inr (upd_account owner row d1))))"

subsection \<open>Invoices\<close>

definition invoice_subscription :: "json \<Rightarrow> string option" where
  "invoice_subscription obj =
     (let v = jget obj ''subscription'';
          w = (if is_JObj v then jget v ''id'' else v)
      in case w of JStr s \<Rightarrow> Some s | _ \<Rightarrow> None)"

definition invoice_grant_key :: "string \<Rightarrow> int \<Rightarrow> string" where
  "invoice_grant_key sub period_start = ''included:'' @ sub @ '':'' @ int_str period_start"

definition failed_row :: "plan \<Rightarrow> int \<Rightarrow> int \<Rightarrow> account \<Rightarrow> account \<Rightarrow> account" where
  "failed_row p now created a x = x\<lparr>acc_status := ''past_due'', acc_grace_ends_at := Some (grace_of a p now),
     provider_event_created := Some created, acc_updated_at := now\<rparr>"

definition paid_row :: "int \<Rightarrow> json \<Rightarrow> int \<Rightarrow> int \<Rightarrow> int \<Rightarrow> account \<Rightarrow> account" where
  "paid_row period_start period_end grant now created x = x\<lparr>acc_status := ''active'', acc_grace_ends_at := None,
     acc_period_start := JInt period_start, acc_period_end := period_end,
     period_key := Some (int_str period_start), period_spend := 0, available := available x + grant,
     provider_event_created := Some created, acc_updated_at := now\<rparr>"

definition invoice_grant :: "(string \<Rightarrow> string) \<Rightarrow> string \<Rightarrow> string \<Rightarrow> int \<Rightarrow> json \<Rightarrow> int \<Rightarrow> plan \<Rightarrow> account \<Rightarrow> ledger_entry" where
  "invoice_grant hx event_id sub period_start obj now p a =
     (let grant = microcredits (monthly_included_credits p) in
      new_entry hx (acc_owner a) (invoice_grant_key sub period_start) ''included_grant'' grant (available a + grant)
        ''stripe'' now None None
        (JObj [(''catalog_id'', plan_id p), (''invoice_id'', jget obj ''id''), (''event_id'', JStr event_id)]))"

definition on_invoice :: "(string \<Rightarrow> string) \<Rightarrow> catalog \<Rightarrow> string \<Rightarrow> string \<Rightarrow> json \<Rightarrow> int \<Rightarrow> int \<Rightarrow> billing_db
    \<Rightarrow> billing_error + billing_db" where
  "on_invoice hx cat event_id event_type obj now created d =
     (case invoice_subscription obj of
        None \<Rightarrow> Inr d
      | Some sub \<Rightarrow>
         (case tbl_get (\<lambda>a. acc_subscription a = Some sub) (accounts d) of
            None \<Rightarrow> Inl (BillingError ''subscription_unknown'' 409)
          | Some a \<Rightarrow>
              if stale a created then Inr d
              else (case account_plan cat a of
                None \<Rightarrow> Inl (BillingError ''subscription_price_unknown'' 409)
              | Some p \<Rightarrow>
                  if plan_kind p \<noteq> ''subscription'' then Inl (BillingError ''subscription_price_unknown'' 409)
                  else if event_type = ''invoice.payment_failed''
                  then Inr (upd_account (acc_owner a) (failed_row p now created a) d)
                  else
                    let period_start = (case jget obj ''period_start'' of JInt n \<Rightarrow> n | _ \<Rightarrow> now);
                        period_end = (case jget obj ''period_end'' of JInt n \<Rightarrow> JInt n | _ \<Rightarrow> acc_period_end a);
                        (d1, inserted) = insert_ledger (invoice_grant hx event_id sub period_start obj now p a) d;
                        grant = (if inserted then microcredits (monthly_included_credits p) else 0)
                    in Inr (upd_account (acc_owner a) (paid_row period_start period_end grant now created) d1))))"

subsection \<open>The webhook endpoint\<close>

datatype webhook_status = Duplicate | Processed

text \<open>The dispatch inside the transaction, after the event row is inserted.\<close>

definition dispatch_event :: "(string \<Rightarrow> string) \<Rightarrow> catalog \<Rightarrow> envelope \<Rightarrow> int \<Rightarrow> billing_db \<Rightarrow> billing_error + billing_db" where
  "dispatch_event hx cat ev now d =
     (let obj = ev_object ev in
      if ev_type ev = ''checkout.session.completed'' \<and> jget obj ''mode'' = JStr ''payment''
         \<and> jget obj ''payment_status'' = JStr ''paid''
      then checkout_paid hx cat (ev_id ev) obj now d
      else if starts_with ''customer.subscription.'' (ev_type ev)
      then on_subscription hx cat (ev_type ev) obj now (ev_created ev) d
      else if ev_type ev \<in> {''invoice.paid'', ''invoice.payment_failed''}
      then on_invoice hx cat (ev_id ev) (ev_type ev) obj now (ev_created ev) d
      else Inr d)"

text \<open>The transaction of \<open>process\<close>.\<close>

definition consume_event :: "(string \<Rightarrow> string) \<Rightarrow> catalog \<Rightarrow> envelope \<Rightarrow> string \<Rightarrow> int \<Rightarrow> billing_db
    \<Rightarrow> (billing_error, billing_db, webhook_status) outcome" where
  "consume_event hx cat ev digest now d =
     (case tbl_get (\<lambda>w. we_id w = ev_id ev) (webhooks d) of
        Some w \<Rightarrow>
          if we_digest w \<noteq> None \<and> we_digest w \<noteq> Some digest then Inl (BillingError ''webhook_conflict'' 409)
          else Inr (d, Duplicate)
      | None \<Rightarrow>
          let row = \<lparr>we_id = ev_id ev, we_type = ev_type ev, we_received_at = now, we_digest = Some digest\<rparr> in
          (case dispatch_event hx cat ev now (d\<lparr>webhooks := webhooks d @ [row]\<rparr>) of
             Inl e \<Rightarrow> Inl e
           | Inr d' \<Rightarrow> Inr (d', Processed)))"

definition process_webhook :: "(string \<Rightarrow> string \<Rightarrow> string) \<Rightarrow> (string \<Rightarrow> string) \<Rightarrow> (string \<Rightarrow> json option) \<Rightarrow> (string \<Rightarrow> string)
    \<Rightarrow> catalog \<Rightarrow> string \<Rightarrow> string \<Rightarrow> string \<Rightarrow> int \<Rightarrow> billing_db \<Rightarrow> (billing_error, billing_db, webhook_status) outcome" where
  "process_webhook mac sha loads hx cat secret_env payload signature now d =
     (let secret = py_strip secret_env in
      if secret = [] then Inl (BillingError ''stripe_not_configured'' 503)
      else case verify mac payload signature secret now of
        Inl e \<Rightarrow> Inl e
      | Inr _ \<Rightarrow>
         (case parse_envelope loads payload of
            Inl e \<Rightarrow> Inl e
          | Inr ev \<Rightarrow> consume_event hx cat ev (sha payload) now d))"

subsection \<open>The legacy endpoint\<close>

record legacy_change =
  lc_owner :: string
  lc_customer :: "string option"
  lc_subscription :: "string option"
  lc_status :: string
  lc_period_end :: json
  lc_created :: int

definition legacy_owner :: "json \<Rightarrow> billing_db \<Rightarrow> string option" where
  "legacy_owner obj d =
     (let m = jget (jget obj ''metadata'') ''magistrate_user_id'';
          named = (if truthy m then m else jget obj ''client_reference_id'')
      in case named of
           JStr s \<Rightarrow> Some s
         | _ \<Rightarrow> (case jget obj ''customer'' of
              JStr c \<Rightarrow> map_option acc_owner (tbl_get (\<lambda>a. acc_customer a = Some c) (accounts d))
            | _ \<Rightarrow> None))"

text \<open>The upsert of a legacy event, on an inserted row and on a conflicting one.\<close>

definition legacy_insert :: "legacy_change \<Rightarrow> int \<Rightarrow> account" where
  "legacy_insert c now =
     \<lparr>acc_owner = lc_owner c, acc_status = lc_status c, acc_customer = lc_customer c,
      acc_subscription = lc_subscription c, acc_catalog_id = Some ''free'', acc_period_start = JNull,
      acc_period_end = lc_period_end c, acc_cancel_at_period_end = False, acc_grace_ends_at = None,
      available = 0, reserved = 0, period_spend = 0, period_key = None,
      provider_event_created = Some (lc_created c), acc_created_at = now, acc_updated_at = now\<rparr>"

definition coalesce :: "'a option \<Rightarrow> 'a option \<Rightarrow> 'a option" where
  "coalesce x y = (case x of None \<Rightarrow> y | Some _ \<Rightarrow> x)"

definition legacy_update :: "legacy_change \<Rightarrow> int \<Rightarrow> account \<Rightarrow> account" where
  "legacy_update c now a = a\<lparr>acc_customer := coalesce (lc_customer c) (acc_customer a),
      acc_subscription := coalesce (lc_subscription c) (acc_subscription a), acc_status := lc_status c,
      acc_period_end := lc_period_end c,
      provider_event_created := (if lc_created c < the (coalesce (provider_event_created a) (Some 0))
         then provider_event_created a else Some (lc_created c)),
      acc_updated_at := now\<rparr>"

definition legacy_upsert :: "legacy_change \<Rightarrow> int \<Rightarrow> billing_db \<Rightarrow> billing_error + billing_db" where
  "legacy_upsert c now d =
     (if tbl_ex (\<lambda>x. acc_owner x \<noteq> lc_owner c \<and>
           ((lc_customer c \<noteq> None \<and> acc_customer x = lc_customer c)
            \<or> (lc_subscription c \<noteq> None \<and> acc_subscription x = lc_subscription c))) (accounts d)
      then Inl IntegrityError
      else if tbl_ex (acc_sel (lc_owner c)) (accounts d) then Inr (upd_account (lc_owner c) (legacy_update c now) d)
      else Inr (d\<lparr>accounts := accounts d @ [legacy_insert c now]\<rparr>))"

definition legacy_applies :: "envelope \<Rightarrow> account option \<Rightarrow> bool" where
  "legacy_applies ev existing \<longleftrightarrow>
     (starts_with ''customer.subscription.'' (ev_type ev)
       \<and> (case existing of None \<Rightarrow> True | Some a \<Rightarrow> \<not> stale a (ev_created ev)))
     \<or> (ev_type ev = ''checkout.session.completed''
       \<and> (case existing of None \<Rightarrow> True | Some a \<Rightarrow> acc_status a \<in> {''none'', ''pending''}))"

definition legacy_change_of :: "envelope \<Rightarrow> string \<Rightarrow> legacy_change" where
  "legacy_change_of ev owner =
     (let obj = ev_object ev;
          sub = starts_with ''customer.subscription.'' (ev_type ev);
          str = (\<lambda>v. case v of JStr s \<Rightarrow> Some s | _ \<Rightarrow> None);
          status = (if sub then (case jget obj ''status'' of JStr s \<Rightarrow> s | _ \<Rightarrow> ''none'')
                    else if ev_type ev = ''checkout.session.completed'' then ''pending'' else [])
      in \<lparr>lc_owner = owner, lc_customer = str (jget obj ''customer''),
          lc_subscription = str (jget obj (if sub then ''id'' else ''subscription'')),
          lc_status = (if status = [] then ''none'' else status),
          lc_period_end = (if sub then (case jget obj ''current_period_end'' of JInt n \<Rightarrow> JInt n | _ \<Rightarrow> JNull) else JNull),
          lc_created = ev_created ev\<rparr>)"

definition consume_legacy :: "envelope \<Rightarrow> string \<Rightarrow> int \<Rightarrow> billing_db \<Rightarrow> (billing_error, billing_db, webhook_status) outcome" where
  "consume_legacy ev digest now d =
     (case tbl_get (\<lambda>w. we_id w = ev_id ev) (webhooks d) of
        Some w \<Rightarrow>
          if we_digest w \<noteq> None \<and> we_digest w \<noteq> Some digest then Inl (BillingError ''webhook_conflict'' 409)
          else Inr (d, Duplicate)
      | None \<Rightarrow>
          let row = \<lparr>we_id = ev_id ev, we_type = ev_type ev, we_received_at = now, we_digest = Some digest\<rparr>;
              applied = (case legacy_owner (ev_object ev) d of
                 None \<Rightarrow> Inr d
               | Some owner \<Rightarrow>
                   if owner \<in> set (profiles d) \<and> legacy_applies ev (tbl_get (acc_sel owner) (accounts d))
                   then legacy_upsert (legacy_change_of ev owner) now d else Inr d)
          in (case applied of
                Inl e \<Rightarrow> Inl e
              | Inr d1 \<Rightarrow> Inr (d1\<lparr>webhooks := webhooks d1 @ [row]\<rparr>, Processed)))"

definition accept_webhook :: "(string \<Rightarrow> string \<Rightarrow> string) \<Rightarrow> (string \<Rightarrow> string) \<Rightarrow> (string \<Rightarrow> json option)
    \<Rightarrow> string \<Rightarrow> string \<Rightarrow> string \<Rightarrow> int \<Rightarrow> billing_db \<Rightarrow> (billing_error, billing_db, webhook_status) outcome" where
  "accept_webhook mac sha loads secret_env payload signature now d =
     (let secret = py_strip secret_env in
      if secret = [] then Inl (BillingError ''stripe_not_configured'' 503)
      else case verify mac payload signature secret now of
        Inl e \<Rightarrow> Inl e
      | Inr _ \<Rightarrow>
         (case parse_envelope loads payload of
            Inl e \<Rightarrow> Inl e
          | Inr ev \<Rightarrow> consume_legacy ev (sha payload) now d))"

subsection \<open>Preservation of the ledger invariant\<close>

lemma upd_account_frame_inv:
  assumes inv: "billing_inv hx d"
    and f: "\<And>x. acc_owner (f x) = acc_owner x" "\<And>x. available (f x) = available x" "\<And>x. reserved (f x) = reserved x"
  shows "billing_inv hx (upd_account owner f d)"
proof -
  have lk: "entry_linked (upd_account owner f d) e" if "entry_linked d e" for e
    using that by (rule entry_linked_mono) (auto simp: f)
  have "key_inv hx (upd_account owner f d)"
    using inv f by (auto simp: billing_inv_defs set_tbl_upd intro!: acc.uniq_upd)
  moreover have "link_inv (upd_account owner f d)" using inv lk f(1) by (auto simp: billing_inv_defs)
  moreover have "bal_inv (upd_account owner f d)" using inv f by (auto simp: billing_inv_defs set_tbl_upd)
  moreover have "settle_inv (upd_account owner f d)" using inv by (auto simp: billing_inv_defs)
  ultimately show ?thesis by (simp add: billing_inv_def)
qed

lemma webhook_row_inv:
  assumes inv: "billing_inv hx d"
  shows "billing_inv hx (d\<lparr>webhooks := webhooks d @ [w]\<rparr>)"
proof -
  have lk: "entry_linked (d\<lparr>webhooks := webhooks d @ [w]\<rparr>) e" if "entry_linked d e" for e
    using that by (rule entry_linked_mono) auto
  show ?thesis using inv lk
    by (auto simp: billing_inv_defs owner_sum_def hold_sum_def refunded_def)
qed

lemma ensure_account_frame:
  "ensure_account cat owner now d = Inr (d', a) \<Longrightarrow> ledger d' = ledger d \<and> webhooks d' = webhooks d \<and> reservations d' = reservations d"
  by (auto simp: ensure_account_def split: option.splits if_splits)

text \<open>\<open>_account\<close> adds at most the monthly grant.\<close>

lemma ledger_account_frame:
  assumes "ledger_account hx cat owner now d = Inr (d', a)"
  shows "webhooks d' = webhooks d" and "reservations d' = reservations d"
    and "\<And>x. x \<in> set (ledger d') \<Longrightarrow> x \<in> set (ledger d) \<or> (\<exists>s. le_key x = ''included:'' @ s)"
  using assms ensure_account_frame[of cat owner now d]
  by (auto simp: ledger_account_def Let_def insert_ledger_def grant_key_def
      split: sum.splits option.splits if_splits prod.splits)

lemma checkout_paid_inv:
  assumes hx: "inj hx" and inv: "billing_inv hx d"
    and ev: "\<exists>w \<in> set (webhooks d). we_id w = event_id"
    and new: "\<And>x. x \<in> set (ledger d) \<Longrightarrow> le_key x \<noteq> ''stripe:'' @ event_id"
    and res: "checkout_paid hx cat event_id obj now d = Inr d'"
  shows "billing_inv hx d'"
proof -
  obtain s :: checkout_session and p :: pack and d1 a d2 b
    where la: "ledger_account hx cat (cs_owner s) now d = Inr (d1, a)"
      and ins: "insert_ledger (purchase_entry hx event_id obj now p (cs_owner s)
        (available a + microcredits (pack_credits p))) d1 = (d2, b)"
      and d': "d' = upd_account (cs_owner s) (purchase_row (available a + microcredits (pack_credits p)) now) d2"
    using res by (auto simp: checkout_paid_def Let_def split: sum.splits option.splits if_splits prod.splits)
  note l = ledger_account_inv[OF inv la] and fr = ledger_account_frame[OF la]
  note nul = acc_nul[OF l]
  define amount where "amount = microcredits (pack_credits p)"
  define e where "e = purchase_entry hx event_id obj now p (cs_owner s) (available a + amount)"
  define f where "f = purchase_row (available a + amount) now"
  have f: "\<And>x. acc_owner (f x) = acc_owner x" "available (f a) = available a + le_amount e"
    "reserved (f a) = reserved a + 0" by (simp_all add: purchase_row_def f_def e_def purchase_entry_def amount_def)
  have fresh: "(le_owner x, le_key x) \<noteq> (le_owner e, le_key e)" if "x \<in> set (ledger d1)" for x
    using fr(3)[OF that] new[of x] by (auto simp: e_def purchase_entry_def)
  have linked: "entry_linked d1 e" using l ev fr by (auto simp: entry_linked_def e_def purchase_entry_def has_account_get)
  have ki: "key_inv hx d1" using l by (simp add: billing_inv_def)
  have "insert_ledger e d1 = (d1\<lparr>ledger := ledger d1 @ [e]\<rparr>, True)"
    by (rule insert_ledger_fresh[OF hx ki]) (use fresh nul in \<open>auto simp: e_def purchase_entry_def\<close>)
  then have "d' = upd_account (le_owner e) f (d1\<lparr>ledger := ledger d1 @ [e]\<rparr>)"
    using ins by (simp add: d' e_def f_def amount_def purchase_entry_def)
  then show ?thesis
    by (simp only:, intro post_inv[where d = d1 and ?d1.0 = d1 and y = 0 and a = a])
      (use l fresh nul linked f in \<open>auto simp: billing_inv_def e_def purchase_entry_def\<close>)
qed

lemma on_subscription_inv:
  assumes inv: "billing_inv hx d" and res: "on_subscription hx cat event_type obj now created d = Inr d'"
  shows "billing_inv hx d'"
  using res ledger_account_inv(1)[OF inv]
  by (auto simp: on_subscription_def Let_def subscription_row_def split: sum.splits if_splits
      intro!: upd_account_frame_inv)

lemma invoice_paid_inv:
  assumes inv: "billing_inv hx d" and a: "a \<in> set (accounts d)"
    and ins: "insert_ledger (invoice_grant hx event_id sub ps obj now p a) d = (d1, b)"
  shows "billing_inv hx (upd_account (acc_owner a)
     (paid_row ps pe (if b then microcredits (monthly_included_credits p) else 0) now created) d1)"
proof (cases b)
  case False
  with ins have "d1 = d" by (auto dest: insert_ledger_False)
  with inv False show ?thesis by (auto simp: paid_row_def intro!: upd_account_frame_inv)
next
  case True
  define e where "e = invoice_grant hx event_id sub ps obj now p a"
  define f where "f = paid_row ps pe (microcredits (monthly_included_credits p)) now created"
  have g: "tbl_get (acc_sel (acc_owner a)) (accounts d) = Some a"
    using inv a acc.uniq_get by (auto simp: billing_inv_defs)
  have fresh: "\<And>x. x \<in> set (ledger d) \<Longrightarrow> (le_owner x, le_key x) \<noteq> (le_owner e, le_key e)"
    and d1: "d1 = d\<lparr>ledger := ledger d @ [e]\<rparr>"
    using insert_ledger_True[of e d d1] ins True by (auto simp: e_def)
  have e: "le_owner e = acc_owner a" "entry_linked d e"
    using g by (auto simp: entry_linked_def e_def invoice_grant_def invoice_grant_key_def has_account_get Let_def)
  have "billing_inv hx (upd_account (le_owner e) f (d\<lparr>ledger := ledger d @ [e]\<rparr>))"
    by (rule post_inv[where d = d and ?d1.0 = d and y = 0 and a = a])
      (use inv fresh g acc_nul[OF inv g] e in \<open>auto simp: billing_inv_def e_def f_def paid_row_def invoice_grant_def Let_def\<close>)
  then show ?thesis using True by (simp add: d1 e f_def)
qed

lemma failed_row_inv: "billing_inv hx d \<Longrightarrow> billing_inv hx (upd_account owner (failed_row p now created a) d)"
  by (rule upd_account_frame_inv) (auto simp: failed_row_def)

lemma on_invoice_inv:
  assumes inv: "billing_inv hx d" and res: "on_invoice hx cat event_id event_type obj now created d = Inr d'"
  shows "billing_inv hx d'"
  using res inv
  by (auto simp: on_invoice_def Let_def failed_row_inv split: option.splits if_splits prod.splits
      dest: tbl_get_SomeD invoice_paid_inv[where b = True, simplified]
        invoice_paid_inv[where b = False, simplified])

lemma dispatch_event_inv:
  assumes hx: "inj hx" and inv: "billing_inv hx d" and ev: "\<exists>w \<in> set (webhooks d). we_id w = ev_id ev"
    and new: "\<And>x. x \<in> set (ledger d) \<Longrightarrow> le_key x \<noteq> ''stripe:'' @ ev_id ev"
    and res: "dispatch_event hx cat ev now d = Inr d'"
  shows "billing_inv hx d'"
  using res inv checkout_paid_inv[OF hx inv ev new] on_subscription_inv[OF inv] on_invoice_inv[OF inv]
  by (auto simp: dispatch_event_def Let_def split: if_splits)

lemma consume_event_inv:
  assumes hx: "inj hx" and inv: "billing_inv hx d" and res: "consume_event hx cat ev digest now d = Inr (d', s)"
  shows "billing_inv hx d'"
proof (cases "tbl_get (\<lambda>w. we_id w = ev_id ev) (webhooks d)")
  case (Some w)
  with res inv show ?thesis by (auto simp: consume_event_def split: if_splits)
next
  case None
  define d1 where "d1 = d\<lparr>webhooks := webhooks d @
     [\<lparr>we_id = ev_id ev, we_type = ev_type ev, we_received_at = now, we_digest = Some digest\<rparr>]\<rparr>"
  have "dispatch_event hx cat ev now d1 = Inr d'"
    using res None by (auto simp: consume_event_def Let_def d1_def split: sum.splits)
  moreover have "le_key x \<noteq> ''stripe:'' @ ev_id ev" if "x \<in> set (ledger d1)" for x
  proof
    assume "le_key x = ''stripe:'' @ ev_id ev"
    with that inv have "\<exists>w \<in> set (webhooks d). we_id w = ev_id ev"
      using link_key(4)[of d x "ev_id ev"] by (auto simp: d1_def billing_inv_def)
    with None show False by (auto simp: tbl_get_None_iff)
  qed
  moreover have "billing_inv hx d1" unfolding d1_def using inv by (rule webhook_row_inv)
  ultimately show ?thesis by (rule_tac dispatch_event_inv[OF hx, of d1 ev]) (auto simp: d1_def)
qed

lemma legacy_upsert_inv:
  assumes inv: "billing_inv hx d" and owner: "lc_owner c \<in> set (profiles d)" and res: "legacy_upsert c now d = Inr d'"
  shows "billing_inv hx d'"
proof (cases "tbl_ex (acc_sel (lc_owner c)) (accounts d)")
  case True
  have "billing_inv hx (upd_account (lc_owner c) (legacy_update c now) d)"
    using inv by (rule upd_account_frame_inv) (auto simp: legacy_update_def)
  with True res show ?thesis by (auto simp: legacy_upsert_def split: if_splits)
next
  case False
  have "billing_inv hx (d\<lparr>accounts := accounts d @ [legacy_insert c now]\<rparr>)"
    using inv owner False
    by (intro insert_account_inv) (auto simp: legacy_insert_def has_account_def tbl_ex_iff acc_sel_def billing_inv_defs)
  with False res show ?thesis by (auto simp: legacy_upsert_def split: if_splits)
qed

lemma consume_legacy_inv:
  assumes inv: "billing_inv hx d" and res: "consume_legacy ev digest now d = Inr (d', s)"
  shows "billing_inv hx d'"
proof (cases "tbl_get (\<lambda>w. we_id w = ev_id ev) (webhooks d)")
  case (Some w)
  with res inv show ?thesis by (auto simp: consume_legacy_def split: if_splits)
next
  case None
  have lc: "lc_owner (legacy_change_of ev owner) = owner" for owner by (simp add: legacy_change_of_def Let_def)
  show ?thesis
    using res None inv legacy_upsert_inv[OF inv, of "legacy_change_of ev _"] lc
    by (auto simp: consume_legacy_def Let_def split: sum.splits option.splits if_splits intro!: webhook_row_inv)
qed

end
