(* ===== verification/Billing_System.thy ===== *)
theory Billing_System
  imports Stripe_Webhook
begin

text \<open>
  The billing operations composed: an interleaving of ledger calls and webhooks is a list of
  \<open>billing_op\<close>, run as transactions one after the other (\<open>BEGIN IMMEDIATE\<close> serialises them); a
  call that raises leaves the database unchanged. The theorems are about every database such a
  sequence reaches from one that holds only user profiles.
\<close>

record billing_env =
  be_mac :: "string \<Rightarrow> string \<Rightarrow> string"
  be_sha :: "string \<Rightarrow> string"
  be_hx :: "string \<Rightarrow> string"
  be_loads :: "string \<Rightarrow> json option"
  be_cat :: catalog
  be_secret :: string
  be_legacy_secret :: string

datatype billing_op =
    OpReserve string string string int
  | OpRelease string string string int
  | OpSettle string string json string int
  | OpRefund string string int string string int
  | OpAddCredits string int string string int
  | OpSummary string nat int
  | OpWebhook string string int
  | OpLegacyWebhook string string int

definition no_value :: "(billing_error, billing_db, 'a) outcome \<Rightarrow> (billing_error, billing_db, unit) outcome" where
  "no_value r = (case r of Inl e \<Rightarrow> Inl e | Inr (d, _) \<Rightarrow> Inr (d, ()))"

fun exec_billing :: "billing_env \<Rightarrow> billing_op \<Rightarrow> billing_db \<Rightarrow> (billing_error, billing_db, unit) outcome" where
  "exec_billing E (OpReserve ow ob k now) d = no_value (reserve_objective (be_hx E) (be_cat E) ow ob k now d)"
| "exec_billing E (OpRelease ow ob why now) d = no_value (release_objective (be_hx E) ow ob why now d)"
| "exec_billing E (OpSettle ow ob u ev now) d = no_value (settle_objective (be_hx E) (be_cat E) ow ob u ev now d)"
| "exec_billing E (OpRefund ow ob n k why now) d = no_value (refund_objective (be_hx E) ow ob n k why now d)"
| "exec_billing E (OpAddCredits ow n k src now) d = no_value (add_credits (be_hx E) (be_cat E) ow n k src now d)"
| "exec_billing E (OpSummary ow n now) d = no_value (summary (be_hx E) (be_cat E) ow now n d)"
| "exec_billing E (OpWebhook pl sg now) d = no_value (process_webhook (be_mac E) (be_sha E) (be_loads E) (be_hx E) (be_cat E)
     (be_secret E) pl sg now d)"
| "exec_billing E (OpLegacyWebhook pl sg now) d = no_value (accept_webhook (be_mac E) (be_sha E) (be_loads E)
     (be_legacy_secret E) pl sg now d)"

text \<open>What the deployment provides: a digest without collisions and a catalog that loaded.\<close>

definition env_ok :: "billing_env \<Rightarrow> bool" where
  "env_ok E \<longleftrightarrow> inj (be_hx E) \<and> catalog_ok (be_cat E)"

text \<open>Keys chosen by callers of refunds and top-ups stay out of the ledger's own name spaces.\<close>

fun op_keys_ok :: "billing_op \<Rightarrow> bool" where
  "op_keys_ok (OpRefund ow ob n k why now) = external_key k"
| "op_keys_ok (OpAddCredits ow n k src now) = external_key k"
| "op_keys_ok _ = True"

definition empty_billing :: "string list \<Rightarrow> billing_db" where
  "empty_billing ps = \<lparr>profiles = ps, accounts = [], ledger = [], reservations = [], usages = [],
     webhooks = [], checkouts = []\<rparr>"

lemma no_value_Inr [simp]: "no_value r = Inr (d, u) \<longleftrightarrow> (\<exists>x. r = Inr (d, x))"
  by (auto simp: no_value_def split: sum.splits)

lemma process_webhook_Inr:
  assumes "process_webhook mac sha loads hx cat se pl sg now d = Inr (d', s)"
  obtains ev where "verify mac pl sg (py_strip se) now = Inr ()" "parse_envelope loads pl = Inr ev"
    "consume_event hx cat ev (sha pl) now d = Inr (d', s)"
  using assms by (auto simp: process_webhook_def Let_def split: if_splits sum.splits)

lemma accept_webhook_Inr:
  assumes "accept_webhook mac sha loads se pl sg now d = Inr (d', s)"
  obtains ev where "verify mac pl sg (py_strip se) now = Inr ()" "parse_envelope loads pl = Inr ev"
    "consume_legacy ev (sha pl) now d = Inr (d', s)"
  using assms by (auto simp: accept_webhook_def Let_def split: if_splits sum.splits)

lemma exec_billing_inv:
  assumes "env_ok E" and inv: "billing_inv (be_hx E) d" and "op_keys_ok p" and ex: "exec_billing E p d = Inr (d', u)"
  shows "billing_inv (be_hx E) d'"
proof -
  have hx: "inj (be_hx E)" and cat: "catalog_ok (be_cat E)" using assms(1) by (simp_all add: env_ok_def)
  show ?thesis
  proof (cases p)
    case (OpWebhook pl sg now)
    then show ?thesis using ex consume_event_inv[OF hx inv] by (auto elim!: process_webhook_Inr)
  next
    case (OpLegacyWebhook pl sg now)
    then show ?thesis using ex consume_legacy_inv[OF inv] by (auto elim!: accept_webhook_Inr)
  qed (use assms reserve_objective_inv[OF hx cat inv] release_objective_inv[OF hx inv]
      settle_objective_inv[OF hx cat inv] refund_objective_inv[OF hx inv] add_credits_inv[OF hx inv]
      summary_inv[OF inv] in auto)
qed

interpretation bt: transactional "exec_billing E" "\<lambda>d. env_ok E \<and> billing_inv (be_hx E) d" op_keys_ok for E
  by unfold_locales (auto intro: exec_billing_inv)

lemma empty_billing_inv: "list_all nul_free ps \<Longrightarrow> billing_inv hx (empty_billing ps)"
  by (auto simp: empty_billing_def billing_inv_defs list_all_iff acc.uniq_Nil le.uniq_Nil rs.uniq_Nil
      rk.uniq_Nil ri.uniq_Nil ur.uniq_Nil)

lemma reachable_inv:
  assumes "env_ok E" and "list_all nul_free ps" and "list_all op_keys_ok ops"
  shows "billing_inv (be_hx E) (run_ops (exec_billing E) ops (empty_billing ps))"
  using assms bt.run_inv[of E "empty_billing ps" ops] empty_billing_inv by simp

subsection \<open>History is immutable\<close>

text \<open>The ledger, the usage rows and the consumed webhook events only grow, and a reservation that
  is settled or released is never written again.\<close>

definition history_kept :: "billing_db \<Rightarrow> billing_db \<Rightarrow> bool" where
  "history_kept d d' \<longleftrightarrow> (\<exists>m. ledger d' = ledger d @ m) \<and> (\<exists>m. usages d' = usages d @ m)
     \<and> (\<exists>m. webhooks d' = webhooks d @ m)
     \<and> (\<forall>r \<in> set (reservations d). rs_status r \<noteq> Reserved \<longrightarrow> r \<in> set (reservations d'))"

lemma history_kept_refl [simp]: "history_kept d d"
  by (simp add: history_kept_def)

lemma history_kept_trans: "history_kept d d1 \<Longrightarrow> history_kept d1 d2 \<Longrightarrow> history_kept d d2"
  unfolding history_kept_def by (metis append.assoc)

lemma history_upd_account [simp]: "history_kept d (upd_account ow f d') = history_kept d d'"
  by (simp add: history_kept_def)

lemma history_insert:
  assumes "history_kept d d'" and "insert_ledger e d' = (d2, b)"
  shows "history_kept d d2"
  using assms by (auto simp: history_kept_def insert_ledger_def split: if_splits)

lemma history_ensure: "ensure_account cat ow now d = Inr (d', a) \<Longrightarrow> history_kept d d'"
  by (auto simp: history_kept_def ensure_account_def split: option.splits if_splits)

lemma history_ledger_account: "ledger_account hx cat ow now d = Inr (d', a) \<Longrightarrow> history_kept d d'"
  by (auto simp: ledger_account_def Let_def split: sum.splits option.splits if_splits prod.splits
      dest!: history_ensure elim!: history_insert[rotated])

lemma history_close:
  assumes "billing_inv hx d" and "r \<in> set (reservations d)" and "rs_status r = Reserved"
  shows "history_kept d (upd_reservation (rs_id r) g d)"
proof -
  have "x \<in> set (reservations (upd_reservation (rs_id r) g d))"
    if "x \<in> set (reservations d)" "rs_status x \<noteq> Reserved" for x
  proof -
    have "\<not> rs_id_sel (rs_id r) x"
      using assms that ri.uniq_same[of "reservations d" x r] by (auto simp: rs_id_sel_def billing_inv_defs)
    then show ?thesis using that by (force simp: upd_reservation_def set_tbl_upd)
  qed
  then show ?thesis by (simp add: history_kept_def) (simp add: upd_reservation_def)
qed

lemma history_reserve:
  "reserve_objective hx cat ow ob k now d = Inr (d', r) \<Longrightarrow> history_kept d d'"
proof -
  have grow: "history_kept d (d1\<lparr>reservations := reservations d1 @ rs\<rparr>)" if "history_kept d d1" for d1 rs
    using that by (auto simp: history_kept_def)
  assume "reserve_objective hx cat ow ob k now d = Inr (d', r)"
  then show ?thesis
    by (auto simp: reserve_objective_def reserve_new_def Let_def split: sum.splits option.splits if_splits prod.splits
        dest!: history_ledger_account intro!: grow elim!: history_insert[rotated])
qed

lemma history_release:
  assumes "billing_inv hx d" and "release_objective hx ow ob why now d = Inr (d', b)"
  shows "history_kept d d'"
  using assms history_close[OF assms(1)]
  by (auto simp: release_objective_def Let_def split: option.splits if_splits prod.splits
      elim!: history_insert[rotated] dest!: tbl_get_SomeD(1))

lemma history_settle:
  assumes "billing_inv hx d" and "settle_objective hx cat ow ob u ev now d = Inr (d', r)"
  shows "history_kept d d'"
proof -
  have grow: "history_kept d (d1\<lparr>usages := usages d1 @ us\<rparr>)" if "history_kept d d1" for d1 us
    using that by (auto simp: history_kept_def)
  show ?thesis using assms history_close[OF assms(1)]
    by (auto simp: settle_objective_def settle_new_def Let_def
        split: sum.splits option.splits if_splits prod.splits rs_status.splits
        elim!: history_insert[rotated] intro!: grow dest!: tbl_get_SomeD(1))
qed

lemma history_refund: "refund_objective hx ow ob n k why now d = Inr (d', b) \<Longrightarrow> history_kept d d'"
  by (auto simp: refund_objective_def Let_def split: option.splits if_splits prod.splits elim!: history_insert[rotated])

lemma history_add: "add_credits hx cat ow n k src now d = Inr (d', b) \<Longrightarrow> history_kept d d'"
  by (auto simp: add_credits_def Let_def split: sum.splits option.splits if_splits prod.splits
      dest!: history_ledger_account elim!: history_insert[rotated])

lemma history_subscription: "on_subscription hx cat ty obj now c d = Inr d' \<Longrightarrow> history_kept d d'"
  by (auto simp: on_subscription_def Let_def split: sum.splits if_splits dest!: history_ledger_account)

lemma history_invoice: "on_invoice hx cat i ty obj now c d = Inr d' \<Longrightarrow> history_kept d d'"
  by (auto simp: on_invoice_def Let_def split: option.splits if_splits prod.splits elim!: history_insert[rotated])

lemma history_checkout: "checkout_paid hx cat i obj now d = Inr d' \<Longrightarrow> history_kept d d'"
  by (auto simp: checkout_paid_def Let_def split: sum.splits option.splits if_splits prod.splits
      dest!: history_ledger_account elim!: history_insert[rotated])

lemma history_refl: "history_kept d d"
  by (simp add: history_kept_def)

lemma history_dispatch: "dispatch_event hx cat ev now d = Inr d' \<Longrightarrow> history_kept d d'"
  unfolding dispatch_event_def Let_def
  by (auto split: if_splits intro: history_checkout history_subscription history_invoice history_refl)

lemma history_event:
  assumes "consume_event hx cat ev digest now d = Inr (d', s)"
  shows "history_kept d d'"
proof -
  have grow: "history_kept d d2" if "history_kept (d\<lparr>webhooks := webhooks d @ ws\<rparr>) d2" for ws d2
    using that by (auto simp: history_kept_def)
  show ?thesis using assms
    by (auto simp: history_refl consume_event_def Let_def split: option.splits if_splits sum.splits dest!: history_dispatch intro: grow)
qed

lemma history_legacy: "consume_legacy ev digest now d = Inr (d', s) \<Longrightarrow> history_kept d d'"
  by (auto simp: consume_legacy_def legacy_upsert_def history_kept_def Let_def
      split: option.splits if_splits sum.splits)

lemma exec_billing_history:
  assumes inv: "billing_inv (be_hx E) d" and ex: "exec_billing E p d = Inr (d', u)"
  shows "history_kept d d'"
  using ex history_release[OF inv] history_settle[OF inv]
  by (cases p) (auto dest: history_reserve history_refund history_add history_ledger_account history_event history_legacy
      elim!: process_webhook_Inr accept_webhook_Inr simp: summary_def split: sum.splits)

interpretation bh: audited "exec_billing E" "\<lambda>d. env_ok E \<and> billing_inv (be_hx E) d" op_keys_ok history_kept for E
  by unfold_locales (auto intro: history_kept_trans exec_billing_history)

subsection \<open>Sample runs\<close>

definition sample_env :: billing_env where
  "sample_env = \<lparr>be_mac = (\<lambda>k m. ''ok''), be_sha = (\<lambda>p. p), be_hx = (\<lambda>s. s), be_loads = (\<lambda>p. None),
     be_cat = sample_catalog, be_secret = ''whsec_a'', be_legacy_secret = []\<rparr>"

definition sample_usage :: json where
  "sample_usage = JObj [(''provider'', JStr ''anthropic''), (''model'', JStr ''m''), (''input_tokens'', JInt 2000000),
     (''output_tokens'', JInt 1000000), (''compute_milliseconds'', JInt 3600000)]"

definition sample_ops :: "billing_op list" where
  "sample_ops = [OpReserve ''u'' ''o1'' ''k1'' 1735689600, OpSettle ''u'' ''o1'' sample_usage ''e1'' 1735689601,
     OpRefund ''u'' ''o1'' 5 ''refund:1'' ''adj'' 1735689602, OpAddCredits ''u'' 3 ''manual:1'' ''test'' 1735689603,
     OpReserve ''u'' ''o2'' ''k2'' 1735689604]"

lemma sample_env_ok: "env_ok sample_env"
  using sample_catalog_ok by (simp add: env_ok_def sample_env_def)

lemma sample_run:
  "let d = run_ops (exec_billing sample_env) sample_ops (empty_billing [''u'']) in
   map available (accounts d) = [103000005] \<and> map reserved (accounts d) = [100000000]
   \<and> map le_amount (ledger d) = [500000000, - 100000000, - 200000000, 5, 3000000, - 100000000]
   \<and> map rs_status (reservations d) = [Settled, Reserved]"
  by code_simp

lemma sample_ok: "list_all op_keys_ok sample_ops" "list_all nul_free [''u'']"
  by code_simp+

subsection \<open>Theorems\<close>





text \<open>Refunds never exceed what was charged: in every database the system reaches, the refunds
  posted against a reservation sum to at most its settled cost, and only a settled reservation
  has one.\<close>

theorem refunds_bounded:
  assumes "env_ok E" and "list_all nul_free ps" and "list_all op_keys_ok ops"
    and "d = run_ops (exec_billing E) ops (empty_billing ps)" and "r \<in> set (reservations d)"
  shows "refunded (rs_owner r) (rs_id r) d \<le> (case rs_actual r of None \<Rightarrow> 0 | Some c \<Rightarrow> c)
    \<and> (rs_status r = Settled \<longleftrightarrow> rs_actual r \<noteq> None)"
  using reachable_inv[OF assms(1-3)] assms(4,5) unfolding billing_inv_def settle_inv_def refund_cap_def by blast

theorem refunds_bounded_witness:
  "let d = run_ops (exec_billing sample_env) sample_ops (empty_billing [''u'']); r = hd (reservations d) in
   reservations d \<noteq> [] \<and> refunded (rs_owner r) (rs_id r) d \<le> (case rs_actual r of None \<Rightarrow> 0 | Some c \<Rightarrow> c)"
proof -
  let ?d = "run_ops (exec_billing sample_env) sample_ops (empty_billing [''u''])"
  have "reservations ?d \<noteq> []" using sample_run by (auto simp: Let_def)
  then show ?thesis
    using refunds_bounded[OF sample_env_ok sample_ok(2,1) refl, of "hd (reservations ?d)"] by (simp add: Let_def)
qed

end
