(* ===== verification/Billing_Properties.thy ===== *)
theory Billing_Properties
  imports Billing_System
begin

text \<open>
  What each billing operation promises: admission of a reservation, idempotent replays, exact
  settlement, exact cost, authenticity and at-most-once effect of webhooks.
\<close>

subsection \<open>The monthly grant is posted once\<close>

definition month_granted :: "(string \<Rightarrow> string) \<Rightarrow> catalog \<Rightarrow> string \<Rightarrow> int \<Rightarrow> account \<Rightarrow> billing_db \<Rightarrow> bool" where
  "month_granted hx cat ow now a d \<longleftrightarrow> (\<exists>p. account_plan cat a = Some p
     \<and> (plan_kind p \<in> {''free'', ''demo''} \<longrightarrow> period_key a = Some (period_key_of now)
        \<or> tbl_ex (\<lambda>x. le_id x = ledger_id hx ow (grant_key p (period_key_of now))
              \<or> le_sel (ow, grant_key p (period_key_of now)) x) (ledger d)))"

lemma ledger_account_granted:
  assumes inv: "billing_inv hx d" and la: "ledger_account hx cat ow now d = Inr (d1, a)"
  shows "month_granted hx cat ow now a d1"
proof -
  obtain d0 a0 p where ea: "ensure_account cat ow now d = Inr (d0, a0)" and p: "account_plan cat a0 = Some p"
    using la by (auto simp: ledger_account_def split: sum.splits option.splits)
  have e0: "tbl_get (acc_sel ow) (accounts d0) = Some a0" using ensure_account_inv[OF inv ea] by simp
  show ?thesis
    using la ea p e0
    by (auto simp: ledger_account_def month_granted_def Let_def insert_ledger_def account_plan_def acc.get_upd_row
        split: option.splits if_splits)
qed

lemma month_granted_stable:
  assumes "tbl_get (acc_sel ow) (accounts d) = Some a" and "month_granted hx cat ow now a d"
  shows "ledger_account hx cat ow now d = Inr (d, a)"
  using assms by (auto simp: ledger_account_def ensure_account_def month_granted_def insert_ledger_def Let_def)

lemma month_granted_mono:
  assumes "month_granted hx cat ow now a d" and "set (ledger d) \<subseteq> set (ledger d')"
    and "acc_catalog_id a' = acc_catalog_id a" "period_key a' = period_key a"
  shows "month_granted hx cat ow now a' d'"
  using assms by (auto simp: month_granted_def account_plan_def tbl_ex_iff)

subsection \<open>Reservations\<close>

text \<open>The rows after a first-time reservation.\<close>

lemma reserve_new_result:
  assumes a: "tbl_get (acc_sel ow) (accounts d) = Some a"
    and res: "reserve_new hx ow ob k now a p d = Inr (d', r)"
  defines "est \<equiv> microcredits (objective_reserve_credits p)"
  shows "tbl_get (acc_sel ow) (accounts d') = Some (a\<lparr>available := available a - est,
           reserved := reserved a + est, acc_updated_at := now\<rparr>)"
    and "reservations d' = reservations d @ [r]" and "set (ledger d) \<subseteq> set (ledger d')"
    and "rs_owner r = ow" "rs_objective r = ob" "rs_key r = k" "rs_estimated r = est" "rs_status r = Reserved"
    and "execution_entitled p a now" "int (active_count ow d) < concurrency_limit p" "est \<le> available a"
      "period_spend a + reserved a + est \<le> microcredits (monthly_spend_limit_credits p)"
  using res a unfolding est_def
  by (auto simp: reserve_new_def Let_def insert_ledger_def acc.get_upd_row split: if_splits)

lemma reserve_objective_cases:
  assumes "reserve_objective hx cat ow ob k now d = Inr (d', r)"
  obtains d1 a p where "ledger_account hx cat ow now d = Inr (d1, a)" "plan_of cat a = Inr p"
    "tbl_get (rs_key_sel (ow, k)) (reservations d1) = Some r \<and> rs_objective r = ob \<and> d' = d1
     \<or> tbl_get (rs_key_sel (ow, k)) (reservations d1) = None \<and> reserve_new hx ow ob k now a p d1 = Inr (d', r)"
  using assms by (auto simp: reserve_objective_def split: sum.splits option.splits if_splits)

lemma reserve_replay:
  assumes inv: "billing_inv hx d" and res: "reserve_objective hx cat ow ob k now d = Inr (d', r)"
  obtains a p where "ledger_account hx cat ow now d' = Inr (d', a)" "plan_of cat a = Inr p"
    "tbl_get (rs_key_sel (ow, k)) (reservations d') = Some r" "rs_objective r = ob"
proof -
  obtain d1 a p where la: "ledger_account hx cat ow now d = Inr (d1, a)" and p: "plan_of cat a = Inr p"
    and c: "tbl_get (rs_key_sel (ow, k)) (reservations d1) = Some r \<and> rs_objective r = ob \<and> d' = d1
     \<or> tbl_get (rs_key_sel (ow, k)) (reservations d1) = None \<and> reserve_new hx ow ob k now a p d1 = Inr (d', r)"
    using res by (rule reserve_objective_cases)
  note l = ledger_account_inv[OF inv la] and g = ledger_account_granted[OF inv la]
  from c show ?thesis
  proof (elim disjE conjE)
    assume "tbl_get (rs_key_sel (ow, k)) (reservations d1) = Some r" "rs_objective r = ob" "d' = d1"
    then show ?thesis using that month_granted_stable[OF l(2) g] p by blast
  next
    assume none: "tbl_get (rs_key_sel (ow, k)) (reservations d1) = None"
      and new: "reserve_new hx ow ob k now a p d1 = Inr (d', r)"
    note rr = reserve_new_result[OF l(2) new]
    define a' where "a' = a\<lparr>available := available a - microcredits (objective_reserve_credits p),
       reserved := reserved a + microcredits (objective_reserve_credits p), acc_updated_at := now\<rparr>"
    have "month_granted hx cat ow now a' d'" using month_granted_mono[OF g rr(3)] by (simp add: a'_def)
    then have "ledger_account hx cat ow now d' = Inr (d', a')"
      using month_granted_stable rr(1) by (simp add: a'_def)
    moreover have "plan_of cat a' = Inr p" using p by (simp add: a'_def plan_of_def account_plan_def)
    moreover have "tbl_get (rs_key_sel (ow, k)) (reservations d') = Some r"
      using none rr(2,4,6) by (simp add: tbl_get_append rs_key_sel_def)
    ultimately show ?thesis using that rr(5) by blast
  qed
qed

text \<open>A first-time reservation never overdraws: when it succeeds, the plan grants execution, and
  afterwards the balance is non-negative, the owner's open reservations are within the plan's
  concurrency limit, spend plus holds are within its monthly limit, and the hold moved exactly
  the plan's reserve from available to reserved.\<close>

theorem reserve_within_limits:
  assumes "billing_inv hx d" and "ledger_account hx cat ow now d = Inr (d1, a)" and "plan_of cat a = Inr p"
    and "tbl_get (rs_key_sel (ow, k)) (reservations d) = None"
    and "reserve_objective hx cat ow ob k now d = Inr (d', r)"
  shows "\<exists>a'. tbl_get (acc_sel ow) (accounts d') = Some a' \<and> execution_entitled p a now
     \<and> 0 \<le> available a' \<and> int (active_count ow d') \<le> concurrency_limit p
     \<and> period_spend a' + reserved a' \<le> microcredits (monthly_spend_limit_credits p)
     \<and> available a' = available a - rs_estimated r \<and> reserved a' = reserved a + rs_estimated r
     \<and> rs_estimated r = microcredits (objective_reserve_credits p) \<and> rs_status r = Reserved"
proof -
  have "reserve_new hx ow ob k now a p d1 = Inr (d', r)"
    using assms ledger_account_frame(2)[OF assms(2)] by (simp add: reserve_objective_def)
  note rr = reserve_new_result[OF ledger_account_inv(2)[OF assms(1,2)] this]
  have ac: "int (active_count ow d') \<le> concurrency_limit p"
    using rr(2,4,8,10) by (simp add: active_count_def tbl_count_append)
  show ?thesis by (intro exI conjI, rule rr(1)) (use rr ac in simp_all)
qed

lemma sample_reserve:
  obtains d1 a d' r where
    "ledger_account (\<lambda>s. s) sample_catalog ''u'' 1735689600 (empty_billing [''u'']) = Inr (d1, a)"
    "plan_of sample_catalog a = Inr free_plan"
    "reserve_objective (\<lambda>s. s) sample_catalog ''u'' ''o1'' ''k1'' 1735689600 (empty_billing [''u'']) = Inr (d', r)"
proof -
  have "case ledger_account (\<lambda>s. s) sample_catalog ''u'' 1735689600 (empty_billing [''u'']) of
      Inl _ \<Rightarrow> False | Inr (d1, a) \<Rightarrow> plan_of sample_catalog a = Inr free_plan" by code_simp
  moreover have "case reserve_objective (\<lambda>s. s) sample_catalog ''u'' ''o1'' ''k1'' 1735689600 (empty_billing [''u'']) of
      Inl _ \<Rightarrow> False | Inr _ \<Rightarrow> True" by code_simp
  ultimately show ?thesis using that by (auto split: sum.splits)
qed

theorem reserve_within_limits_witness:
  "\<exists>d' r a'. reserve_objective (\<lambda>s. s) sample_catalog ''u'' ''o1'' ''k1'' 1735689600 (empty_billing [''u'']) = Inr (d', r)
     \<and> tbl_get (acc_sel ''u'') (accounts d') = Some a' \<and> 0 \<le> available a'
     \<and> int (active_count ''u'' d') \<le> concurrency_limit free_plan"
proof -
  obtain d1 a d' r where s: "ledger_account (\<lambda>s. s) sample_catalog ''u'' 1735689600 (empty_billing [''u'']) = Inr (d1, a)"
    "plan_of sample_catalog a = Inr free_plan"
    "reserve_objective (\<lambda>s. s) sample_catalog ''u'' ''o1'' ''k1'' 1735689600 (empty_billing [''u'']) = Inr (d', r)"
    by (rule sample_reserve)
  have "tbl_get (rs_key_sel (''u'', ''k1'')) (reservations (empty_billing [''u''])) = None"
    by (simp add: empty_billing_def)
  from reserve_within_limits[OF empty_billing_inv[OF sample_ok(2)] s(1,2) this s(3)] s(3) show ?thesis by blast
qed

text \<open>Reserving is idempotent in its key: repeating a successful reservation returns the same
  reservation and changes nothing, and the same key for another objective is refused.\<close>

theorem reserve_idempotent:
  assumes "billing_inv hx d" and "reserve_objective hx cat ow ob k now d = Inr (d', r)"
  shows "reserve_objective hx cat ow ob2 k now d' =
    (if ob2 = ob then Inr (d', r) else Inl (BillingError ''idempotency_conflict'' 409))"
  by (rule reserve_replay[OF assms]) (simp add: reserve_objective_def)

theorem reserve_idempotent_witness:
  "\<exists>d' r. reserve_objective (\<lambda>s. s) sample_catalog ''u'' ''o1'' ''k1'' 1735689600 (empty_billing [''u'']) = Inr (d', r)
     \<and> reserve_objective (\<lambda>s. s) sample_catalog ''u'' ''o1'' ''k1'' 1735689600 d' = Inr (d', r)
     \<and> reserve_objective (\<lambda>s. s) sample_catalog ''u'' ''o2'' ''k1'' 1735689600 d' = Inl (BillingError ''idempotency_conflict'' 409)"
proof -
  obtain d' r where s: "reserve_objective (\<lambda>s. s) sample_catalog ''u'' ''o1'' ''k1'' 1735689600 (empty_billing [''u'']) = Inr (d', r)"
    by (rule sample_reserve)
  note i = reserve_idempotent[OF empty_billing_inv[OF sample_ok(2)] s]
  show ?thesis using s i[of "''o1''"] i[of "''o2''"] by (intro exI[of _ d'] exI[of _ r]) simp
qed

subsection \<open>Settlement\<close>

lemma settle_new_result:
  assumes r0: "tbl_get (rs_sel (ow, ob)) (reservations d) = Some r0" and a: "tbl_get (acc_sel ow) (accounts d) = Some a"
    and res: "settle_new hx ow ob us actual ev now r0 a d = Inr (d', r)"
  shows "r = r0\<lparr>rs_status := Settled, rs_actual := Some actual, rs_usage := Some us, rs_updated_at := now\<rparr>"
    and "tbl_get (rs_sel (ow, ob)) (reservations d') = Some r"
    and "tbl_get (acc_sel ow) (accounts d') = Some (a\<lparr>available := available a + (rs_estimated r0 - actual),
       reserved := reserved a - rs_estimated r0, period_spend := period_spend a + actual, acc_updated_at := now\<rparr>)"
    and "\<exists>x. tbl_get (\<lambda>x. ur_owner x = ow \<and> ur_objective x = ob) (usages d') = Some x \<and> ur_event x = ev"
proof -
  have none: "tbl_get (\<lambda>x. ur_owner x = ow \<and> ur_objective x = ob) (usages d) = None"
    using res by (auto simp: settle_new_def Let_def tbl_ex_iff tbl_get_None_iff split: if_splits)
  show "r = r0\<lparr>rs_status := Settled, rs_actual := Some actual, rs_usage := Some us, rs_updated_at := now\<rparr>"
    using res by (auto simp: settle_new_def Let_def split: if_splits prod.splits)
  then show "tbl_get (rs_sel (ow, ob)) (reservations d') = Some r"
    using res r0 by (auto simp: settle_new_def Let_def insert_ledger_def upd_reservation_def tbl_get_upd rs_sel_def rs_id_sel_def
        split: if_splits)
  show "tbl_get (acc_sel ow) (accounts d') = Some (a\<lparr>available := available a + (rs_estimated r0 - actual),
       reserved := reserved a - rs_estimated r0, period_spend := period_spend a + actual, acc_updated_at := now\<rparr>)"
    using res a by (auto simp: settle_new_def Let_def insert_ledger_def upd_reservation_def acc.get_upd_row split: if_splits)
  show "\<exists>x. tbl_get (\<lambda>x. ur_owner x = ow \<and> ur_objective x = ob) (usages d') = Some x \<and> ur_event x = ev"
    using res none by (auto simp: settle_new_def Let_def insert_ledger_def upd_reservation_def tbl_get_append split: if_splits)
qed


text \<open>A reserved objective and its settlement.\<close>

definition sample_reserved :: billing_db where
  "sample_reserved = run_ops (exec_billing sample_env) [OpReserve ''u'' ''o1'' ''k1'' 1735689600] (empty_billing [''u''])"

lemma sample_settle:
  obtains r0 a d' r where "tbl_get (rs_sel (''u'', ''o1'')) (reservations sample_reserved) = Some r0" "rs_status r0 = Reserved"
    "tbl_get (acc_sel ''u'') (accounts sample_reserved) = Some a"
    "settle_objective (\<lambda>s. s) sample_catalog ''u'' ''o1'' sample_usage ''e1'' 1735689601 sample_reserved = Inr (d', r)"
proof -
  have "case (tbl_get (rs_sel (''u'', ''o1'')) (reservations sample_reserved), tbl_get (acc_sel ''u'') (accounts sample_reserved),
     settle_objective (\<lambda>s. s) sample_catalog ''u'' ''o1'' sample_usage ''e1'' 1735689601 sample_reserved) of
     (Some r0, Some a, Inr _) \<Rightarrow> rs_status r0 = Reserved | _ \<Rightarrow> False" by code_simp
  then show ?thesis using that by (auto split: option.splits sum.splits prod.splits)
qed


text \<open>A settlement is final: repeating it returns the same reservation and changes nothing, a
  different settlement event for the objective is refused, and releasing it does nothing.\<close>

theorem settle_final:
  assumes "settle_objective hx cat ow ob u ev now d = Inr (d', r)"
  shows "settle_objective hx cat ow ob u ev2 now2 d' =
      (if ev2 = ev then Inr (d', r) else Inl (BillingError ''settlement_conflict'' 409))
    \<and> release_objective hx ow ob why now2 d' = Inr (d', False)"
proof -
  obtain us rt actual r0 where cu: "check_usage cat u = Inr (us, rt)" "usage_cost cat us rt = Inr actual"
    and r0: "tbl_get (rs_sel (ow, ob)) (reservations d) = Some r0"
    using assms by (auto simp: settle_objective_def split: sum.splits option.splits)
  have "tbl_get (rs_sel (ow, ob)) (reservations d') = Some r \<and> rs_status r = Settled \<and> rs_actual r = Some actual
    \<and> rs_usage r = Some us \<and> (\<exists>x. tbl_get (\<lambda>x. ur_owner x = ow \<and> ur_objective x = ob) (usages d') = Some x \<and> ur_event x = ev)"
  proof (cases "rs_status r0")
    case Reserved
    then obtain a where a: "tbl_get (acc_sel ow) (accounts d) = Some a"
      and new: "settle_new hx ow ob us actual ev now r0 a d = Inr (d', r)"
      using assms cu r0 by (auto simp: settle_objective_def split: option.splits)
    show ?thesis using settle_new_result[OF r0 a new] by simp
  next
    case Settled
    then show ?thesis using assms cu r0
      by (auto simp: settle_objective_def Let_def split: option.splits if_splits)
  next
    case Released
    then show ?thesis using assms cu r0 by (simp add: settle_objective_def)
  qed
  then show ?thesis using cu by (auto simp: settle_objective_def release_objective_def Let_def)
qed

theorem settle_final_witness:
  "\<exists>d' r. settle_objective (\<lambda>s. s) sample_catalog ''u'' ''o1'' sample_usage ''e1'' 1735689601 sample_reserved = Inr (d', r)
     \<and> settle_objective (\<lambda>s. s) sample_catalog ''u'' ''o1'' sample_usage ''e1'' 1735689700 d' = Inr (d', r)
     \<and> settle_objective (\<lambda>s. s) sample_catalog ''u'' ''o1'' sample_usage ''e2'' 1735689700 d'
         = Inl (BillingError ''settlement_conflict'' 409)"
proof -
  obtain d' r where s: "settle_objective (\<lambda>s. s) sample_catalog ''u'' ''o1'' sample_usage ''e1'' 1735689601 sample_reserved = Inr (d', r)"
    by (rule sample_settle)
  show ?thesis using s settle_final[OF s, of "''e1''"] settle_final[OF s, of "''e2''"]
    by (intro exI[of _ d'] exI[of _ r]) simp
qed

subsection \<open>Measured cost\<close>

definition exact_cost :: "catalog \<Rightarrow> usage \<Rightarrow> rate \<Rightarrow> int" where
  "exact_cost cat u r =
     (let tokens = ceil_div (us_input u * input_usd_micros_per_million r + us_output u * output_usd_micros_per_million r) 1000000;
          compute = ceil_div (us_compute u * compute_usd_micros_per_hour r) 3600000;
          billable = ceil_div ((tokens + compute) * (10000 + margin_bps r)) 10000
      in ceil_div (billable * MICROCREDITS_PER_CREDIT) (usd_micros_per_credit cat))"

text \<open>Every numerator of the calculation stays below \<open>2 ^ 53\<close>.\<close>

definition cost_in_range :: "catalog \<Rightarrow> usage \<Rightarrow> rate \<Rightarrow> bool" where
  "cost_in_range cat u r \<longleftrightarrow>
     (let n1 = us_input u * input_usd_micros_per_million r + us_output u * output_usd_micros_per_million r;
          n2 = us_compute u * compute_usd_micros_per_hour r;
          n3 = (ceil_div n1 1000000 + ceil_div n2 3600000) * (10000 + margin_bps r);
          n4 = ceil_div n3 10000 * MICROCREDITS_PER_CREDIT
      in n1 < 2 ^ 53 \<and> n2 < 2 ^ 53 \<and> n3 < 2 ^ 53 \<and> n4 < 2 ^ 53 \<and> usd_micros_per_credit cat < 2 ^ 1000)"

lemma ceil_div_nonneg: "0 \<le> a \<Longrightarrow> 0 < b \<Longrightarrow> 0 \<le> ceil_div a b"
  by (simp add: ceil_div_def div_nonpos_pos_le0)

lemma ceil_res_exact: "0 \<le> a \<Longrightarrow> a < 2 ^ 53 \<Longrightarrow> 0 < b \<Longrightarrow> b < 2 ^ 1000 \<Longrightarrow> ceil_res a b = Inr (ceil_div a b)"
  using ceil_truediv_exact[of a b] by (simp add: ceil_res_def)

text \<open>C0. The metered price is exact where it matters: for a catalog that loaded and a usage report
  whose numerators stay below \<open>2 ^ 53\<close>, the cost computed through floating-point division is the
  integer formula with each quotient rounded up, and no call overflows.\<close>

theorem measured_cost_exact:
  assumes cat: "catalog_ok cat" and cu: "check_usage cat u = Inr (us, rt)" and range: "cost_in_range cat us rt"
  shows "measured_cost cat u = Inr (exact_cost cat us rt)"
proof -
  define n1 where "n1 = us_input us * input_usd_micros_per_million rt + us_output us * output_usd_micros_per_million rt"
  define n2 where "n2 = us_compute us * compute_usd_micros_per_hour rt"
  define n3 where "n3 = (ceil_div n1 1000000 + ceil_div n2 3600000) * (10000 + margin_bps rt)"
  define n4 where "n4 = ceil_div n3 10000 * MICROCREDITS_PER_CREDIT"
  note ok = check_usage_ok[OF cat cu]
  have usd: "0 < usd_micros_per_credit cat" using cat by (simp add: catalog_ok_def)
  have lt: "n1 < 2 ^ 53" "n2 < 2 ^ 53" "n3 < 2 ^ 53" "n4 < 2 ^ 53" "usd_micros_per_credit cat < 2 ^ 1000"
    using range by (simp_all add: cost_in_range_def Let_def n1_def n2_def n3_def n4_def)
  have p1: "0 \<le> n1" and p2: "0 \<le> n2" using ok by (simp_all add: n1_def n2_def rate_ok_def)
  have p3: "0 \<le> n3" using p1 p2 ok by (simp add: n3_def rate_ok_def ceil_div_nonneg)
  have p4: "0 \<le> n4" using p3 by (simp add: n4_def MICROCREDITS_PER_CREDIT_def ceil_div_nonneg)
  have q: "ceil_res n1 1000000 = Inr (ceil_div n1 1000000)" "ceil_res n2 3600000 = Inr (ceil_div n2 3600000)"
    "ceil_res n3 10000 = Inr (ceil_div n3 10000)"
    "ceil_res n4 (usd_micros_per_credit cat) = Inr (ceil_div n4 (usd_micros_per_credit cat))"
    by (rule ceil_res_exact; use p1 p2 p3 p4 lt usd in simp)+
  show ?thesis using q cu
    by (simp add: measured_cost_def usage_cost_def exact_cost_def Let_def n1_def n2_def n3_def n4_def)
qed

theorem measured_cost_exact_witness: "measured_cost sample_catalog sample_usage = Inr 300000000"
proof -
  let ?us = "\<lparr>us_provider = ''anthropic'', us_model = ''m'', us_input = 2000000, us_output = 1000000, us_compute = 3600000\<rparr>"
  have "check_usage sample_catalog sample_usage = Inr (?us, sample_rate)" by code_simp
  moreover have "cost_in_range sample_catalog ?us sample_rate" by code_simp
  moreover have "exact_cost sample_catalog ?us sample_rate = 300000000" by code_simp
  ultimately show ?thesis using measured_cost_exact[OF sample_catalog_ok] by metis
qed

text \<open>C0. Beyond that range the float division is not the integer ceiling: a report of
  \<open>10 ^ 6 * 2 ^ 54 + 1\<close> input tokens at one micro-dollar per million is rounded down.\<close>

theorem cost_float_rounding:
  "let r = \<lparr>input_usd_micros_per_million = 1, output_usd_micros_per_million = 0, compute_usd_micros_per_hour = 0, margin_bps = 0\<rparr>;
       u = \<lparr>us_provider = ''p'', us_model = ''m'', us_input = 10 ^ 6 * 2 ^ 54 + 1, us_output = 0, us_compute = 0\<rparr>;
       cat = sample_catalog\<lparr>usd_micros_per_credit := 10 ^ 6\<rparr>
   in \<exists>c. usage_cost cat u r = Inr c \<and> c < exact_cost cat u r"
proof -
  have "case usage_cost (sample_catalog\<lparr>usd_micros_per_credit := 10 ^ 6\<rparr>)
      \<lparr>us_provider = ''p'', us_model = ''m'', us_input = 10 ^ 6 * 2 ^ 54 + 1, us_output = 0, us_compute = 0\<rparr>
      \<lparr>input_usd_micros_per_million = 1, output_usd_micros_per_million = 0, compute_usd_micros_per_hour = 0, margin_bps = 0\<rparr> of
      Inl _ \<Rightarrow> False | Inr c \<Rightarrow> c < exact_cost (sample_catalog\<lparr>usd_micros_per_credit := 10 ^ 6\<rparr>)
      \<lparr>us_provider = ''p'', us_model = ''m'', us_input = 10 ^ 6 * 2 ^ 54 + 1, us_output = 0, us_compute = 0\<rparr>
      \<lparr>input_usd_micros_per_million = 1, output_usd_micros_per_million = 0, compute_usd_micros_per_hour = 0, margin_bps = 0\<rparr>"
    by code_simp
  then show ?thesis by (auto simp: Let_def split: sum.splits)
qed

end
