(* ===== verification/Webhook_Properties.thy ===== *)
theory Webhook_Properties
  imports Billing_System
begin

text \<open>
  What the webhook endpoints promise (only authentic events change anything, at most once, in
  provider order, only for the account of their customer) and the isolation of tenants from each
  other's ledger calls.
\<close>

subsection \<open>Sample deliveries\<close>

definition sample_event :: "string \<Rightarrow> string \<Rightarrow> int \<Rightarrow> (string \<times> json) list \<Rightarrow> json" where
  "sample_event i ty c obj = JObj [(''id'', JStr i), (''type'', JStr ty), (''created'', JInt c),
     (''data'', JObj [(''object'', JObj obj)])]"

text \<open>A paid credit pack (\<open>A\<close>) and two paid invoices of one period (\<open>B\<close>, \<open>C\<close>).\<close>

definition hook_loads :: "string \<Rightarrow> json option" where
  "hook_loads pl =
     (if pl = ''A'' then Some (sample_event ''evt_a'' ''checkout.session.completed'' 20
          [(''id'', JStr ''cs_1''), (''mode'', JStr ''payment''), (''payment_status'', JStr ''paid'')])
      else if pl = ''B'' then Some (sample_event ''evt_b'' ''invoice.paid'' 20
          [(''id'', JStr ''in_1''), (''subscription'', JStr ''sub_1''), (''period_start'', JInt 5)])
      else if pl = ''C'' then Some (sample_event ''evt_c'' ''invoice.paid'' 21
          [(''id'', JStr ''in_2''), (''subscription'', JStr ''sub_1''), (''period_start'', JInt 5)])
      else None)"

definition hook_env :: billing_env where
  "hook_env = sample_env\<lparr>be_loads := hook_loads\<rparr>"

definition hook_sig :: string where
  "hook_sig = ''t=1735689600,v1=ok''"

definition pro_account :: account where
  "pro_account = (fresh_account sample_catalog ''u'' 0)\<lparr>acc_customer := Some ''cus_1'', acc_subscription := Some ''sub_1'',
     acc_catalog_id := Some ''pro'', provider_event_created := Some 10\<rparr>"

definition hook_db :: billing_db where
  "hook_db = (empty_billing [''u''])\<lparr>accounts := [pro_account],
     checkouts := [\<lparr>cs_id = ''cs_1'', cs_owner = ''u'', cs_catalog = ''credits-10k'', cs_kind = ''credit_pack'',
        cs_key = ''checkout-1'', cs_created_at = 0\<rparr>]\<rparr>"

lemma hook_env_ok: "env_ok hook_env" and hook_env_hx: "be_hx hook_env = (\<lambda>s. s)"
  using sample_env_ok by (simp_all add: env_ok_def hook_env_def sample_env_def)

lemma hook_db_inv: "billing_inv hx hook_db"
proof -
  have "billing_inv hx ((empty_billing [''u''])\<lparr>accounts := accounts (empty_billing [''u'']) @ [pro_account]\<rparr>)"
    by (rule insert_account_inv[OF empty_billing_inv[OF sample_ok(2)]])
      (use sample_ok(2) in \<open>simp_all add: has_account_def empty_billing_def pro_account_def fresh_account_def\<close>)
  then show ?thesis
    by (simp add: hook_db_def empty_billing_def billing_inv_defs bal_inv_def owner_sum_def hold_sum_def)
qed

lemma hook_delivery:
  obtains d1 where "exec_billing hook_env (OpWebhook ''A'' hook_sig 1735689600) hook_db = Inr (d1, ())"
    "map available (accounts d1) = [10000000000]"
proof -
  have "case exec_billing hook_env (OpWebhook ''A'' hook_sig 1735689600) hook_db of
    Inl _ \<Rightarrow> False | Inr (d1, _) \<Rightarrow> map available (accounts d1) = [10000000000]" by code_simp
  then show ?thesis using that by (auto split: sum.splits)
qed

subsection \<open>Authenticity\<close>

lemma verify_authentic:
  "verify mac pl sg secret now = Inr () \<Longrightarrow> int (length pl) \<le> MAX_WEBHOOK_BYTES
     \<and> \<bar>now - signature_timestamp sg\<bar> \<le> 300
     \<and> mac secret (int_str (signature_timestamp sg) @ ''.'' @ pl) \<in> set (header_values ''v1'' sg)"
  by (auto simp: verify_def Let_def split: if_splits)

text \<open>C0. Only an authentic delivery changes anything: if either endpoint changes the database, its
  secret is configured, the payload is at most 256 KiB, the signed timestamp is within five
  minutes, and some \<open>v1\<close> signature is the keyed digest of timestamp and payload.\<close>

theorem webhook_authentic:
  assumes "(secret, op) = (py_strip (be_secret E), OpWebhook pl sg now)
      \<or> (secret, op) = (py_strip (be_legacy_secret E), OpLegacyWebhook pl sg now)"
    and "commit d (exec_billing E op d) \<noteq> d"
  shows "secret \<noteq> [] \<and> int (length pl) \<le> MAX_WEBHOOK_BYTES \<and> \<bar>now - signature_timestamp sg\<bar> \<le> 300
    \<and> be_mac E secret (int_str (signature_timestamp sg) @ ''.'' @ pl) \<in> set (header_values ''v1'' sg)"
proof -
  have "secret \<noteq> [] \<and> verify (be_mac E) pl sg secret now = Inr ()"
    using assms by (auto simp: no_value_def process_webhook_def accept_webhook_def Let_def split: sum.splits if_splits)
  then show ?thesis using verify_authentic by blast
qed

theorem webhook_authentic_witness:
  "commit hook_db (exec_billing hook_env (OpWebhook ''A'' hook_sig 1735689600) hook_db) \<noteq> hook_db
   \<and> be_mac hook_env ''whsec_a'' (int_str (signature_timestamp hook_sig) @ ''.'' @ ''A'') \<in> set (header_values ''v1'' hook_sig)"
proof -
  obtain d1 where d1: "exec_billing hook_env (OpWebhook ''A'' hook_sig 1735689600) hook_db = Inr (d1, ())"
    "map available (accounts d1) = [10000000000]" by (rule hook_delivery)
  moreover have "map available (accounts hook_db) = [0]"
    by (simp add: hook_db_def pro_account_def fresh_account_def)
  ultimately have ne: "commit hook_db (exec_billing hook_env (OpWebhook ''A'' hook_sig 1735689600) hook_db) \<noteq> hook_db"
    by (auto simp del: exec_billing.simps)
  have s: "py_strip (be_secret hook_env) = ''whsec_a''" by code_simp
  show ?thesis using webhook_authentic[of "''whsec_a''" "OpWebhook ''A'' hook_sig 1735689600" hook_env "''A''" hook_sig 1735689600 hook_db]
    s ne by (simp del: exec_billing.simps)
qed

subsection \<open>At most once\<close>

lemma event_recorded:
  assumes "consume_event hx cat ev digest now d = Inr (d', s) \<or> consume_legacy ev digest now d = Inr (d', s)"
  shows "\<exists>w. tbl_get (\<lambda>w. we_id w = ev_id ev) (webhooks d') = Some w \<and> (we_digest w = None \<or> we_digest w = Some digest)"
proof (cases "tbl_get (\<lambda>w. we_id w = ev_id ev) (webhooks d)")
  case (Some w)
  with assms show ?thesis by (auto simp: consume_event_def consume_legacy_def split: if_splits)
next
  case None
  let ?w = "\<lparr>we_id = ev_id ev, we_type = ev_type ev, we_received_at = now, we_digest = Some digest\<rparr>"
  have new: "tbl_get (\<lambda>w. we_id w = ev_id ev) (webhooks d @ ?w # ws) = Some ?w" for ws
    using None by (simp add: tbl_get_append)
  from assms show ?thesis
  proof
    assume c: "consume_event hx cat ev digest now d = Inr (d', s)"
    have "dispatch_event hx cat ev now (d\<lparr>webhooks := webhooks d @ [?w]\<rparr>) = Inr d'"
      using c None by (auto simp: consume_event_def Let_def split: sum.splits)
    then have "\<exists>ws. webhooks d' = (webhooks d @ [?w]) @ ws" by (auto dest!: history_dispatch simp: history_kept_def)
    then show ?thesis using new by auto
  next
    assume c: "consume_legacy ev digest now d = Inr (d', s)"
    have "webhooks d' = webhooks d @ [?w]"
      using c None by (auto simp: consume_legacy_def legacy_upsert_def Let_def split: sum.splits option.splits if_splits)
    then show ?thesis using new[of "[]"] by simp
  qed
qed

lemma event_known_duplicate:
  assumes "tbl_get (\<lambda>w. we_id w = ev_id ev) (webhooks d) = Some w" and "we_digest w = None \<or> we_digest w = Some digest"
  shows "consume_event hx cat ev digest now d = Inr (d, Duplicate)" "consume_legacy ev digest now d = Inr (d, Duplicate)"
  using assms by (auto simp: consume_event_def consume_legacy_def)

text \<open>C26. Webhooks take effect at most once: after a delivery has been consumed, whatever other
  operations follow, delivering the same payload again changes nothing, at any time, under any
  signature and through either endpoint.\<close>

theorem webhook_once:
  assumes "env_ok E" and "billing_inv (be_hx E) d" and "list_all op_keys_ok later"
    and "exec_billing E (OpWebhook pl sg now) d = Inr (d1, u)" and "d2 = run_ops (exec_billing E) later d1"
  shows "commit d2 (exec_billing E (OpWebhook pl sg2 now2) d2) = d2
    \<and> commit d2 (exec_billing E (OpLegacyWebhook pl sg2 now2) d2) = d2"
proof -
  obtain s where "process_webhook (be_mac E) (be_sha E) (be_loads E) (be_hx E) (be_cat E) (be_secret E) pl sg now d = Inr (d1, s)"
    using assms(4) by auto
  then obtain ev where pe: "parse_envelope (be_loads E) pl = Inr ev"
    and ce: "consume_event (be_hx E) (be_cat E) ev (be_sha E pl) now d = Inr (d1, s)"
    by (rule process_webhook_Inr)
  obtain w where w: "tbl_get (\<lambda>w. we_id w = ev_id ev) (webhooks d1) = Some w"
    "we_digest w = None \<or> we_digest w = Some (be_sha E pl)"
    using event_recorded ce by blast
  have "billing_inv (be_hx E) d1" using consume_event_inv[OF _ assms(2) ce] assms(1) by (simp add: env_ok_def)
  then have "history_kept d1 d2" using bh.run_older[of E d1 later] assms(1,3,5) by simp
  then have w2: "tbl_get (\<lambda>w. we_id w = ev_id ev) (webhooks d2) = Some w"
    using w by (auto simp: history_kept_def tbl_get_append)
  note dup = event_known_duplicate[OF w2 w(2)]
  show ?thesis using dup pe
    by (auto simp: no_value_def process_webhook_def accept_webhook_def Let_def split: sum.splits)
qed

theorem webhook_once_witness:
  "\<exists>d1. exec_billing hook_env (OpWebhook ''A'' hook_sig 1735689600) hook_db = Inr (d1, ())
     \<and> (let d2 = run_ops (exec_billing hook_env) sample_ops d1 in
         commit d2 (exec_billing hook_env (OpWebhook ''A'' hook_sig 1735689700) d2) = d2)"
proof -
  obtain d1 where d1: "exec_billing hook_env (OpWebhook ''A'' hook_sig 1735689600) hook_db = Inr (d1, ())"
    by (rule hook_delivery)
  show ?thesis using d1 webhook_once[OF hook_env_ok hook_db_inv sample_ok(1) d1 refl]
    by (simp del: exec_billing.simps add: Let_def)
qed

subsection \<open>Provider order\<close>

text \<open>The provider time of every account only moves forward.\<close>

definition provider_forward :: "billing_db \<Rightarrow> billing_db \<Rightarrow> bool" where
  "provider_forward d d' \<longleftrightarrow> (\<forall>a \<in> set (accounts d). \<forall>t. provider_event_created a = Some t \<longrightarrow>
     (\<exists>a' \<in> set (accounts d'). \<exists>t'. acc_owner a' = acc_owner a \<and> provider_event_created a' = Some t' \<and> t \<le> t'))"

lemma provider_forward_trans: "provider_forward d d1 \<Longrightarrow> provider_forward d1 d2 \<Longrightarrow> provider_forward d d2"
  unfolding provider_forward_def
proof (intro ballI allI impI)
  fix a t
  assume fw: "\<forall>a \<in> set (accounts d). \<forall>t. provider_event_created a = Some t \<longrightarrow>
       (\<exists>a' \<in> set (accounts d1). \<exists>t'. acc_owner a' = acc_owner a \<and> provider_event_created a' = Some t' \<and> t \<le> t')"
    "\<forall>a \<in> set (accounts d1). \<forall>t. provider_event_created a = Some t \<longrightarrow>
       (\<exists>a' \<in> set (accounts d2). \<exists>t'. acc_owner a' = acc_owner a \<and> provider_event_created a' = Some t' \<and> t \<le> t')"
    and a: "a \<in> set (accounts d)" "provider_event_created a = Some t"
  obtain b s where b: "b \<in> set (accounts d1)" "acc_owner b = acc_owner a" "provider_event_created b = Some s" "t \<le> s"
    using fw(1) a by blast
  obtain c u where "c \<in> set (accounts d2)" "acc_owner c = acc_owner b" "provider_event_created c = Some u" "s \<le> u"
    using fw(2) b by blast
  with b show "\<exists>a' \<in> set (accounts d2). \<exists>t'. acc_owner a' = acc_owner a \<and> provider_event_created a' = Some t' \<and> t \<le> t'"
    by (intro bexI[of _ c]) auto
qed

lemma provider_forward_refl [simp]: "provider_forward d d"
  by (auto simp: provider_forward_def)

lemma provider_frame:
  "(\<And>a. a \<in> set (accounts d) \<Longrightarrow> a \<in> set (accounts d')) \<Longrightarrow> provider_forward d d'"
  by (auto simp: provider_forward_def)

lemma provider_upd:
  assumes "provider_forward d d'"
    and "\<And>a. a \<in> set (accounts d') \<Longrightarrow> acc_owner a = ow \<Longrightarrow> acc_owner (f a) = ow \<and>
      (provider_event_created (f a) = provider_event_created a
       \<or> (\<exists>t. provider_event_created (f a) = Some t \<and> \<not> stale a t))"
  shows "provider_forward d (upd_account ow f d')"
proof (rule provider_forward_trans[OF assms(1)], unfold provider_forward_def, intro ballI allI impI)
  fix a t assume a: "a \<in> set (accounts d')" "provider_event_created a = Some t"
  show "\<exists>a' \<in> set (accounts (upd_account ow f d')). \<exists>t'. acc_owner a' = acc_owner a
      \<and> provider_event_created a' = Some t' \<and> t \<le> t'"
    using a assms(2)[OF a(1)]
    by (intro bexI[of _ "if acc_sel ow a then f a else a"]) (auto simp: acc_sel_def stale_def set_tbl_upd split: option.splits)
qed

lemma provider_insert: "provider_forward d d' \<Longrightarrow> insert_ledger e d' = (d2, b) \<Longrightarrow> provider_forward d d2"
  by (auto simp: insert_ledger_def provider_forward_def split: if_splits)

lemma provider_ensure: "ensure_account cat ow now d = Inr (d', a) \<Longrightarrow> provider_forward d d'"
  by (auto simp: ensure_account_def split: option.splits if_splits intro!: provider_frame)

lemma provider_account: "ledger_account hx cat ow now d = Inr (d', a) \<Longrightarrow> provider_forward d d'"
  by (auto simp: ledger_account_def Let_def split: sum.splits option.splits if_splits prod.splits
      dest!: provider_ensure elim!: provider_insert[rotated] intro!: provider_upd)

lemma provider_subscription:
  assumes inv: "billing_inv hx d" and "on_subscription hx cat ty obj now c d = Inr d'"
  shows "provider_forward d d'"
proof -
  obtain ow d1 a and p :: plan where so: "subscription_owner obj d = Inr ow" "subscription_plan cat obj = Inr p"
    and la: "ledger_account hx cat ow now d = Inr (d1, a)"
    using assms(2) by (auto simp: on_subscription_def split: sum.splits)
  have d': "d' = d1 \<or> (\<not> stale a c \<and> d' = upd_account ow (subscription_row cat p ty obj now c a) d1)"
    using assms(2) so la by (auto simp: on_subscription_def Let_def split: if_splits)
  note l = ledger_account_inv[OF inv la]
  have row: "x = a" if "x \<in> set (accounts d1)" "acc_owner x = ow" for x
    using acc.uniq_same[of "accounts d1" x a] that l tbl_get_Some_iff[OF l(2)] by (auto simp: billing_inv_defs acc_sel_def)
  show ?thesis using d' provider_account[OF la]
    by (auto intro!: provider_upd simp: subscription_row_def Let_def dest!: row)
qed

lemma provider_invoice:
  assumes inv: "billing_inv hx d" and res: "on_invoice hx cat i ty obj now c d = Inr d'"
  shows "provider_forward d d'"
proof -
  have row: "x = a" if "x \<in> set (accounts d)" "a \<in> set (accounts d)" "acc_owner x = acc_owner a" for x a
    using acc.uniq_same[of "accounts d" x a] that inv by (auto simp: billing_inv_defs)
  have same: "accounts d1 = accounts d" if "insert_ledger e d = (d1, b)" for e d1 b
    using that by (auto simp: insert_ledger_def split: if_splits)
  have upd: "provider_forward d (upd_account (acc_owner a) f d1)"
    if "accounts d1 = accounts d" "a \<in> set (accounts d)" "\<not> stale a c" "\<And>x. acc_owner (f x) = acc_owner x"
      "\<And>x. provider_event_created (f x) = Some c" for a f d1
  proof (rule provider_upd)
    show "provider_forward d d1" by (rule provider_frame) (simp add: that)
  qed (use that row in auto)
  show ?thesis using res
    by (auto simp: on_invoice_def Let_def failed_row_def paid_row_def split: option.splits if_splits prod.splits
        dest: same intro!: upd)
qed

lemma provider_event:
  assumes inv: "billing_inv hx d" and c: "consume_event hx cat ev digest now d = Inr (d', s)"
  shows "provider_forward d d'"
proof -
  define d1 where "d1 = d\<lparr>webhooks := webhooks d @
     [\<lparr>we_id = ev_id ev, we_type = ev_type ev, we_received_at = now, we_digest = Some digest\<rparr>]\<rparr>"
  have inv1: "billing_inv hx d1" unfolding d1_def using inv by (rule webhook_row_inv)
  have "d' = d \<or> dispatch_event hx cat ev now d1 = Inr d'"
    using c by (auto simp: consume_event_def Let_def d1_def split: option.splits sum.splits if_splits)
  moreover have "provider_forward d1 d2" if "checkout_paid hx cat i obj now d1 = Inr d2" for i obj d2
    using that by (auto simp: checkout_paid_def Let_def purchase_row_def
        split: sum.splits option.splits if_splits prod.splits
        dest!: provider_account elim!: provider_insert[rotated] intro!: provider_upd)
  ultimately have "d' = d \<or> provider_forward d1 d'"
    using provider_subscription[OF inv1] provider_invoice[OF inv1] provider_frame[of d1 d1]
    by (auto simp: dispatch_event_def Let_def split: if_splits)
  then show ?thesis using provider_frame[of d d] by (auto simp: provider_forward_def d1_def)
qed

lemma provider_legacy:
  assumes inv: "billing_inv hx d" and c: "consume_legacy ev digest now d = Inr (d', s)"
  shows "provider_forward d d'"
proof -
  have "provider_forward d d1" if "legacy_upsert lc now d = Inr d1" for lc d1
  proof -
    have "provider_forward d (upd_account (lc_owner lc) (legacy_update lc now) d)"
      by (rule provider_upd, rule provider_frame)
        (auto simp: legacy_update_def stale_def coalesce_def split: option.splits)
    then show ?thesis using that by (auto simp: legacy_upsert_def split: if_splits intro!: provider_frame)
  qed
  moreover have "provider_forward d (d1\<lparr>webhooks := w\<rparr>) = provider_forward d d1" for d1 w
    by (simp add: provider_forward_def)
  ultimately show ?thesis using c
    by (auto simp: consume_legacy_def Let_def split: option.splits sum.splits if_splits intro: provider_frame)
qed

lemma exec_billing_provider:
  assumes inv: "billing_inv (be_hx E) d" and ex: "exec_billing E p d = Inr (d', u)"
  shows "provider_forward d d'"
proof -
  have [simp]: "provider_forward d (d1\<lparr>reservations := x\<rparr>) = provider_forward d d1"
    "provider_forward d (d1\<lparr>usages := y\<rparr>) = provider_forward d d1"
    "provider_forward d (upd_reservation i g d1) = provider_forward d d1" for d1 x y i g
    by (simp_all add: provider_forward_def upd_reservation_def)
  show ?thesis
  proof (cases p)
    case (OpWebhook pl sg now)
    then show ?thesis using ex provider_event[OF inv] by (auto elim!: process_webhook_Inr)
  next
    case (OpLegacyWebhook pl sg now)
    then show ?thesis using ex provider_legacy[OF inv] by (auto elim!: accept_webhook_Inr)
  next
    case (OpReserve ow ob k now)
    then show ?thesis using ex
      by (auto simp: reserve_objective_def reserve_new_def Let_def split: sum.splits option.splits if_splits prod.splits
          dest!: provider_account elim!: provider_insert[rotated] intro!: provider_upd)
  next
    case (OpSettle ow ob us ev now)
    then show ?thesis using ex
      by (auto simp: settle_objective_def settle_new_def Let_def
          split: sum.splits option.splits if_splits prod.splits rs_status.splits
          elim!: provider_insert[rotated] intro!: provider_upd)
  qed (use ex in \<open>auto simp: release_objective_def refund_objective_def add_credits_def summary_def Let_def
        split: sum.splits option.splits if_splits prod.splits
        dest!: provider_account elim!: provider_insert[rotated] intro!: provider_upd\<close>)
qed

interpretation bp: audited "exec_billing E" "\<lambda>d. env_ok E \<and> billing_inv (be_hx E) d" op_keys_ok provider_forward for E
  by unfold_locales (auto intro: provider_frame provider_forward_trans exec_billing_provider)

text \<open>Out-of-order provider events cannot roll an account back: along every sequence of
  operations the provider time an account carries never decreases.\<close>

theorem provider_time_monotone:
  assumes "env_ok E" and "billing_inv (be_hx E) d" and "list_all op_keys_ok ops"
  shows "provider_forward d (run_ops (exec_billing E) ops d)"
  using assms bp.run_older by blast

theorem provider_time_monotone_witness:
  "provider_forward hook_db (run_ops (exec_billing hook_env) [OpWebhook ''B'' hook_sig 1735689600] hook_db)"
  using provider_time_monotone[OF hook_env_ok hook_db_inv, of "[OpWebhook ''B'' hook_sig 1735689600]"]
  by (simp del: run_ops.simps)

subsection \<open>Paid invoices\<close>

text \<open>A second paid invoice of one period grants nothing but clears the spend: when the included
  grant of the period is already posted, the event leaves the ledger and every balance as they
  are, yet sets the account's period spend to zero, which reopens its monthly limit.\<close>

theorem repeated_invoice_resets_spend:
  assumes "billing_inv hx d" and "invoice_subscription obj = Some sub"
    and "tbl_get (\<lambda>a. acc_subscription a = Some sub) (accounts d) = Some a" and "\<not> stale a created"
    and "account_plan cat a = Some p" and "plan_kind p = ''subscription''"
    and "jget obj ''period_start'' = JInt ps"
    and "tbl_get (le_sel (acc_owner a, invoice_grant_key sub ps)) (ledger d) \<noteq> None"
    and "on_invoice hx cat event_id ''invoice.paid'' obj now created d = Inr d'"
  shows "ledger d' = ledger d \<and> map available (accounts d') = map available (accounts d)
    \<and> (\<exists>a'. tbl_get (acc_sel (acc_owner a)) (accounts d') = Some a' \<and> period_spend a' = 0)"
proof -
  let ?e = "invoice_grant hx event_id sub ps obj now p a"
  have "le_owner ?e = acc_owner a" "le_key ?e = invoice_grant_key sub ps" by (simp_all add: invoice_grant_def Let_def)
  then have dup: "insert_ledger ?e d = (d, False)"
    using assms(8) by (auto simp: insert_ledger_def tbl_ex_iff tbl_get_None_iff)
  define f where "f = paid_row ps (case jget obj ''period_end'' of JInt n \<Rightarrow> JInt n | _ \<Rightarrow> acc_period_end a) 0 now created"
  have d': "d' = upd_account (acc_owner a) f d"
    using assms(2-7,9) dup by (simp add: on_invoice_def Let_def f_def)
  have "tbl_get (acc_sel (acc_owner a)) (accounts d) = Some a"
    using acc.uniq_get[of "accounts d" a] assms(1,3) by (auto simp: billing_inv_defs)
  then have "tbl_get (acc_sel (acc_owner a)) (accounts d') = Some (f a)"
    unfolding d' by (simp add: acc.get_upd_row f_def paid_row_def)
  moreover have "map available (accounts d') = map available (accounts d)"
    by (simp add: d' map_tbl_upd f_def paid_row_def)
  ultimately show ?thesis by (simp add: d' f_def paid_row_def)
qed

text \<open>The account after invoice \<open>B\<close> and some spending.\<close>

definition hook_spent :: billing_db where
  "hook_spent = upd_account ''u'' (\<lambda>a. a\<lparr>period_spend := 70\<rparr>)
     (run_ops (exec_billing hook_env) [OpWebhook ''B'' hook_sig 1735689600] hook_db)"

lemma hook_spent_inv: "billing_inv (\<lambda>s. s) hook_spent"
  unfolding hook_spent_def
  using bt.run_inv[of hook_env hook_db "[OpWebhook ''B'' hook_sig 1735689600]"] hook_env_ok hook_db_inv
  by (intro upd_account_frame_inv) (simp_all add: hook_env_hx del: run_ops.simps)

definition invoice_c :: json where
  "invoice_c = JObj [(''id'', JStr ''in_2''), (''subscription'', JStr ''sub_1''), (''period_start'', JInt 5)]"

theorem repeated_invoice_resets_spend_witness:
  "\<exists>d'. on_invoice (\<lambda>s. s) sample_catalog ''evt_c'' ''invoice.paid'' invoice_c 1735689700 21 hook_spent = Inr d'
     \<and> ledger d' = ledger hook_spent \<and> map period_spend (accounts hook_spent) = [70]
     \<and> (\<exists>a'. tbl_get (acc_sel ''u'') (accounts d') = Some a' \<and> period_spend a' = 0)"
proof -
  have "case (tbl_get (\<lambda>a. acc_subscription a = Some ''sub_1'') (accounts hook_spent),
      on_invoice (\<lambda>s. s) sample_catalog ''evt_c'' ''invoice.paid'' invoice_c 1735689700 21 hook_spent,
      tbl_get (le_sel (''u'', invoice_grant_key ''sub_1'' 5)) (ledger hook_spent)) of
      (Some a, Inr d', Some e) \<Rightarrow> acc_owner a = ''u'' \<and> \<not> stale a 21 \<and> account_plan sample_catalog a = Some pro_plan
    | _ \<Rightarrow> False" by code_simp
  then obtain a d' e where s: "tbl_get (\<lambda>a. acc_subscription a = Some ''sub_1'') (accounts hook_spent) = Some a"
    "on_invoice (\<lambda>s. s) sample_catalog ''evt_c'' ''invoice.paid'' invoice_c 1735689700 21 hook_spent = Inr d'"
    "tbl_get (le_sel (''u'', invoice_grant_key ''sub_1'' 5)) (ledger hook_spent) = Some e"
    "acc_owner a = ''u''" "\<not> stale a 21" "account_plan sample_catalog a = Some pro_plan"
    by (auto split: option.splits sum.splits)
  have "invoice_subscription invoice_c = Some ''sub_1''" "jget invoice_c ''period_start'' = JInt 5"
    "plan_kind pro_plan = ''subscription''" "map period_spend (accounts hook_spent) = [70]" by code_simp+
  then show ?thesis
    using repeated_invoice_resets_spend[OF hook_spent_inv _ s(1,5,6) _ _ _ s(2)] s(2-4) by auto
qed

subsection \<open>Tenant isolation\<close>

text \<open>Nothing of the other owners' accounts, ledger entries, reservations and usage changes.\<close>

definition others_same :: "string \<Rightarrow> billing_db \<Rightarrow> billing_db \<Rightarrow> bool" where
  "others_same ow d d' \<longleftrightarrow>
     filter (\<lambda>a. acc_owner a \<noteq> ow) (accounts d') = filter (\<lambda>a. acc_owner a \<noteq> ow) (accounts d)
     \<and> filter (\<lambda>e. le_owner e \<noteq> ow) (ledger d') = filter (\<lambda>e. le_owner e \<noteq> ow) (ledger d)
     \<and> filter (\<lambda>r. rs_owner r \<noteq> ow) (reservations d') = filter (\<lambda>r. rs_owner r \<noteq> ow) (reservations d)
     \<and> filter (\<lambda>u. ur_owner u \<noteq> ow) (usages d') = filter (\<lambda>u. ur_owner u \<noteq> ow) (usages d)"

lemma others_refl [simp]: "others_same ow d d"
  by (simp add: others_same_def)

lemma others_upd:
  assumes "others_same ow d d'" and "\<And>a. acc_owner (f a) = acc_owner a"
  shows "others_same ow d (upd_account ow f d')"
  using assms filter_upd_other[of "accounts d'" "acc_sel ow" "\<lambda>a. acc_owner a \<noteq> ow" f]
  by (simp add: others_same_def acc_sel_def)

lemma others_insert:
  assumes "others_same ow d d'" and "insert_ledger e d' = (d2, b)" and "le_owner e = ow"
  shows "others_same ow d d2"
  using assms by (auto simp: others_same_def insert_ledger_def split: if_splits)

lemma others_account: "ledger_account hx cat ow now d = Inr (d', a) \<Longrightarrow> others_same ow d d'"
proof -
  have ens: "others_same ow d d1" if "ensure_account cat ow now d = Inr (d1, x)" for d1 x
    using that by (auto simp: ensure_account_def others_same_def fresh_account_def split: option.splits if_splits)
  assume "ledger_account hx cat ow now d = Inr (d', a)"
  then show ?thesis
    by (auto simp: ledger_account_def Let_def split: sum.splits option.splits if_splits prod.splits
        dest!: ens elim!: others_insert[rotated] intro!: others_upd)
qed

lemma others_close:
  assumes "billing_inv hx d" and "tbl_get (rs_sel (ow, ob)) (reservations d) = Some r"
    and "\<And>x. rs_owner (g x) = rs_owner x"
  shows "others_same ow d (upd_reservation (rs_id r) g d)"
proof -
  note r = rs_get_Some[OF assms(2)]
  have "rs_owner x = ow" if "x \<in> set (reservations d)" "rs_id x = rs_id r" for x
    using ri.uniq_same[of "reservations d" x r] that r assms(1) by (auto simp: billing_inv_defs)
  then have "filter (\<lambda>r. rs_owner r \<noteq> ow) (tbl_upd (rs_id_sel (rs_id r)) g (reservations d))
      = filter (\<lambda>r. rs_owner r \<noteq> ow) (reservations d)"
    by (intro filter_upd_other) (auto simp: rs_id_sel_def assms(3))
  then show ?thesis by (simp add: others_same_def upd_reservation_def)
qed

fun op_owner :: "billing_op \<Rightarrow> string option" where
  "op_owner (OpReserve ow ob k now) = Some ow"
| "op_owner (OpRelease ow ob why now) = Some ow"
| "op_owner (OpSettle ow ob u ev now) = Some ow"
| "op_owner (OpRefund ow ob n k why now) = Some ow"
| "op_owner (OpAddCredits ow n k src now) = Some ow"
| "op_owner (OpSummary ow n now) = Some ow"
| "op_owner _ = None"

text \<open>Tenants are isolated: a ledger call on behalf of one owner changes no account, ledger
  entry, reservation or usage row of any other owner.\<close>

theorem tenant_isolation:
  assumes inv: "billing_inv (be_hx E) d" and ow: "op_owner op = Some ow"
  shows "others_same ow d (commit d (exec_billing E op d))"
proof (cases "exec_billing E op d")
  case (Inr x)
  then obtain d' where ex: "exec_billing E op d = Inr (d', ())" by (cases x) auto
  have res: "others_same ow d (d1\<lparr>reservations := reservations d1 @ [r]\<rparr>)" if "others_same ow d d1" "rs_owner r = ow" for d1 r
    using that by (simp add: others_same_def)
  have usg: "others_same ow d (d1\<lparr>usages := usages d1 @ [u]\<rparr>)" if "others_same ow d d1" "ur_owner u = ow" for d1 u
    using that by (simp add: others_same_def)
  note step = others_account others_close[OF inv]
  have "others_same ow d d'"
  proof (cases op)
    case (OpReserve o1 ob k now)
    then show ?thesis using ex ow
      by (auto simp: reserve_objective_def reserve_new_def Let_def split: sum.splits option.splits if_splits prod.splits
          dest!: others_account elim!: others_insert[rotated] intro!: others_upd res)
  next
    case (OpSettle o1 ob us ev now)
    then show ?thesis using ex ow
      by (auto simp: settle_objective_def settle_new_def Let_def
          split: sum.splits option.splits if_splits prod.splits rs_status.splits
          elim!: others_insert[rotated] intro!: others_upd usg others_close[OF inv])
  qed (use ex ow in \<open>auto simp: release_objective_def refund_objective_def add_credits_def summary_def Let_def
        split: sum.splits option.splits if_splits prod.splits
        dest!: others_account elim!: others_insert[rotated] intro!: others_upd others_close[OF inv]\<close>)
  then show ?thesis by (simp add: ex del: exec_billing.simps)
qed simp

theorem tenant_isolation_witness:
  "let d = run_ops (exec_billing sample_env) sample_ops (empty_billing [''u'', ''v'']);
       d' = commit d (exec_billing sample_env (OpAddCredits ''v'' 3 ''manual:1'' ''test'' 1735689600) d)
   in map acc_owner (accounts d') = [''u'', ''v''] \<and> others_same ''v'' d d'"
proof -
  have "list_all nul_free [''u'', ''v'']" by code_simp
  from reachable_inv[OF sample_env_ok this sample_ok(1)]
  have i: "billing_inv (be_hx sample_env) (run_ops (exec_billing sample_env) sample_ops (empty_billing [''u'', ''v'']))" .
  have "let d = run_ops (exec_billing sample_env) sample_ops (empty_billing [''u'', ''v'']);
       d' = commit d (exec_billing sample_env (OpAddCredits ''v'' 3 ''manual:1'' ''test'' 1735689600) d)
   in map acc_owner (accounts d') = [''u'', ''v'']" by code_simp
  then show ?thesis
    using tenant_isolation[OF i, of "OpAddCredits ''v'' 3 ''manual:1'' ''test'' 1735689600" "''v''"]
    by (simp add: Let_def del: exec_billing.simps)
qed

end
