(* ===== verification/Deployment_Mode.thy ===== *)
theory Deployment_Mode
  imports Py_Values
begin

text \<open>
  \<open>app/deployment_mode.py\<close>, class \<open>DeploymentMode\<close>, with its configuration contract
  \<open>PersonalDeploymentContract\<close> of \<open>app/contracts.py\<close>: which deployment mode the environment
  selects, who may act in it, and when a new objective may be admitted in personal mode.

  The environment is a partial map from names to strings, \<open>now\<close> is \<open>int(time.time())\<close>. A pydantic
  contract is a record with its validator as a predicate; construction with invalid values
  raises \<open>ValidationError\<close>.
\<close>

datatype mode_error =
    DeploymentModeError string nat
  | ValidationError

definition MAX_CONTRACT_INTEGER :: int where
  "MAX_CONTRACT_INTEGER = 9007199254740991"

definition principal_id_ok :: "string \<Rightarrow> bool" where
  "principal_id_ok = full_class is_alnum (\<lambda>c. is_alnum c \<or> c \<in> {CHR ''.'', CHR ''_'', CHR ''-''}) 0 127"

datatype mode = PublicSaas | Personal

record personal_deployment =
  pd_mode :: mode
  pd_owner :: "string option"
  pd_workers :: int
  pd_objective_limit :: "int option"
  pd_monthly_limit :: "int option"

definition contract_int :: "int \<Rightarrow> int option \<Rightarrow> bool" where
  "contract_int lo v \<longleftrightarrow> (case v of None \<Rightarrow> True | Some n \<Rightarrow> lo \<le> n \<and> n \<le> MAX_CONTRACT_INTEGER)"

text \<open>The field constraints and \<open>validate_personal_settings\<close>.\<close>

definition personal_deployment_valid :: "personal_deployment \<Rightarrow> bool" where
  "personal_deployment_valid c \<longleftrightarrow>
     (case pd_owner c of None \<Rightarrow> True | Some o1 \<Rightarrow> principal_id_ok o1)
     \<and> 1 \<le> pd_workers c \<and> pd_workers c \<le> 2
     \<and> contract_int 1 (pd_objective_limit c) \<and> contract_int 1 (pd_monthly_limit c)
     \<and> (case pd_mode c of
          Personal \<Rightarrow> (case (pd_owner c, pd_objective_limit c, pd_monthly_limit c) of
             (Some _, Some x, Some y) \<Rightarrow> x \<le> y | _ \<Rightarrow> False)
        | PublicSaas \<Rightarrow> pd_owner c = None \<and> pd_objective_limit c = None \<and> pd_monthly_limit c = None)"

definition public_deployment :: personal_deployment where
  "public_deployment = \<lparr>pd_mode = PublicSaas, pd_owner = None, pd_workers = 1, pd_objective_limit = None, pd_monthly_limit = None\<rparr>"

text \<open>\<open>integer(name, default)\<close> inside \<open>from_env\<close>; \<open>None\<close> is \<open>ValueError\<close>.\<close>

definition env_integer :: "(string \<rightharpoonup> string) \<Rightarrow> string \<Rightarrow> string option \<Rightarrow> int option" where
  "env_integer env name dflt =
     (case (case env name of None \<Rightarrow> dflt | Some v \<Rightarrow> Some v) of
        None \<Rightarrow> None
      | Some raw \<Rightarrow> if full_class is_digit is_digit 0 15 raw then py_int raw else None)"

definition from_env :: "(string \<rightharpoonup> string) \<Rightarrow> mode_error + personal_deployment" where
  "from_env env =
     (let m = (case env ''MAGISTRATE_DEPLOYMENT_MODE'' of None \<Rightarrow> ''public-saas'' | Some v \<Rightarrow> v) in
      if m = ''public-saas'' then Inr public_deployment
      else if m \<noteq> ''personal'' then Inl (DeploymentModeError ''deployment_mode_invalid'' 503)
      else case (env_integer env ''MAGISTRATE_PERSONAL_MAX_IMPLEMENTATION_WORKERS'' (Some ''1''),
                 env_integer env ''MAGISTRATE_PERSONAL_OBJECTIVE_SPEND_LIMIT_MICRO_USD'' None,
                 env_integer env ''MAGISTRATE_PERSONAL_MONTHLY_SPEND_LIMIT_MICRO_USD'' None) of
        (Some w, Some x, Some y) \<Rightarrow>
          let c = \<lparr>pd_mode = Personal, pd_owner = env ''MAGISTRATE_PERSONAL_OWNER_PRINCIPAL_ID'', pd_workers = w,
                   pd_objective_limit = Some x, pd_monthly_limit = Some y\<rparr>
          in if personal_deployment_valid c then Inr c else Inl (DeploymentModeError ''personal_configuration_invalid'' 503)
      | _ \<Rightarrow> Inl (DeploymentModeError ''personal_configuration_invalid'' 503))"

subsection \<open>Principals\<close>

record principal =
  pr_user :: string
  pr_scopes :: "string list"
  pr_session :: string
  pr_expires :: int

definition personal :: "personal_deployment \<Rightarrow> bool" where
  "personal c \<longleftrightarrow> pd_mode c = Personal"

definition require_principal :: "personal_deployment \<Rightarrow> principal \<Rightarrow> string option \<Rightarrow> int \<Rightarrow> mode_error + principal" where
  "require_principal c p scope now =
     (if pr_session p = [] \<or> pr_expires p \<le> now then Inl (DeploymentModeError ''authentication_required'' 401)
      else if personal c \<and> Some (pr_user p) \<noteq> pd_owner c then Inl (DeploymentModeError ''personal_owner_required'' 403)
      else if (case scope of None \<Rightarrow> False | Some s \<Rightarrow> s \<notin> set (pr_scopes p))
      then Inl (DeploymentModeError ''scope_required'' 403)
      else Inr p)"

definition requires_commercial_entitlement :: "personal_deployment \<Rightarrow> principal \<Rightarrow> int \<Rightarrow> mode_error + bool" where
  "requires_commercial_entitlement c p now =
     (case require_principal c p None now of Inl e \<Rightarrow> Inl e | Inr _ \<Rightarrow> Inr (\<not> personal c))"

definition checkout_allowed :: "personal_deployment \<Rightarrow> principal \<Rightarrow> int \<Rightarrow> mode_error + bool" where
  "checkout_allowed c p now =
     (case require_principal c p (Some ''account'') now of Inl e \<Rightarrow> Inl e | Inr _ \<Rightarrow> Inr (\<not> personal c))"

subsection \<open>Admission\<close>

record personal_usage =
  pu_owner :: string
  pu_objectives :: int
  pu_workers :: int
  pu_spent :: int
  pu_reserved :: int

text \<open>\<open>PersonalResourceUsage\<close>: field constraints (an incomplete observation is no value).\<close>

definition personal_usage_valid :: "personal_usage \<Rightarrow> bool" where
  "personal_usage_valid u \<longleftrightarrow> principal_id_ok (pu_owner u)
     \<and> contract_int 0 (Some (pu_objectives u)) \<and> contract_int 0 (Some (pu_workers u))
     \<and> contract_int 0 (Some (pu_spent u)) \<and> contract_int 0 (Some (pu_reserved u))"

definition check_personal_admission :: "personal_deployment \<Rightarrow> principal \<Rightarrow> personal_usage option \<Rightarrow> int \<Rightarrow> int
    \<Rightarrow> mode_error + int" where
  "check_personal_admission c p usage workers now =
     (case require_principal c p (Some ''command'') now of Inl e \<Rightarrow> Inl e | Inr _ \<Rightarrow>
      if \<not> personal c then Inl (DeploymentModeError ''personal_mode_required'' 403)
      else case usage of
        None \<Rightarrow> Inl (DeploymentModeError ''resource_observation_required'' 503)
      | Some u \<Rightarrow>
          if pu_owner u \<noteq> pr_user p then Inl (DeploymentModeError ''resource_owner_mismatch'' 403)
          else if \<not> (1 \<le> workers \<and> workers \<le> pd_workers c)
          then Inl (DeploymentModeError ''implementation_capacity_exceeded'' 409)
          else if pd_workers c \<le> pu_objectives u \<or> pd_workers c < max (pu_objectives u) (pu_workers u) + workers
          then Inl (DeploymentModeError ''implementation_capacity_exceeded'' 409)
          else
            let ceiling = the (pd_objective_limit c); monthly = the (pd_monthly_limit c) in
            if monthly < pu_spent u + pu_reserved u + ceiling
            then Inl (DeploymentModeError ''personal_spend_limit_exceeded'' 409)
            else Inr ceiling)"

subsection \<open>Theorems\<close>

lemma public_deployment_valid: "personal_deployment_valid public_deployment"
  by (simp add: public_deployment_def personal_deployment_valid_def contract_int_def)

lemma from_env_valid: "from_env env = Inr c \<Longrightarrow> personal_deployment_valid c"
  by (auto simp: from_env_def Let_def public_deployment_valid split: if_splits option.splits)

lemma require_principal_owner:
  "require_principal c p s now = Inr q \<Longrightarrow> q = p \<and> pr_session p \<noteq> [] \<and> now < pr_expires p
     \<and> (personal c \<longrightarrow> pd_owner c = Some (pr_user p)) \<and> (\<forall>x. s = Some x \<longrightarrow> x \<in> set (pr_scopes p))"
  by (auto simp: require_principal_def split: if_splits option.splits)

text \<open>The environment selects personal mode only completely: a configuration that loads is
  valid, and in personal mode it names one owner, allows one or two workers and has positive
  spend ceilings, the objective's inside the month's.\<close>

theorem from_env_closed:
  assumes "from_env env = Inr c"
  shows "pd_mode c = PublicSaas \<and> pd_owner c = None
    \<or> env ''MAGISTRATE_DEPLOYMENT_MODE'' = Some ''personal''
      \<and> (\<exists>ow x y. pd_owner c = Some ow \<and> env ''MAGISTRATE_PERSONAL_OWNER_PRINCIPAL_ID'' = Some ow \<and> principal_id_ok ow
        \<and> pd_workers c \<in> {1, 2} \<and> pd_objective_limit c = Some x \<and> pd_monthly_limit c = Some y
        \<and> 1 \<le> x \<and> x \<le> y \<and> y \<le> MAX_CONTRACT_INTEGER)"
  using assms
  by (auto simp: from_env_def Let_def public_deployment_def personal_deployment_valid_def contract_int_def
      split: if_splits option.splits)

definition sample_personal_env :: "string \<rightharpoonup> string" where
  "sample_personal_env = map_of [(''MAGISTRATE_DEPLOYMENT_MODE'', ''personal''),
     (''MAGISTRATE_PERSONAL_OWNER_PRINCIPAL_ID'', ''captain''),
     (''MAGISTRATE_PERSONAL_MAX_IMPLEMENTATION_WORKERS'', ''2''),
     (''MAGISTRATE_PERSONAL_OBJECTIVE_SPEND_LIMIT_MICRO_USD'', ''500''),
     (''MAGISTRATE_PERSONAL_MONTHLY_SPEND_LIMIT_MICRO_USD'', ''2000'')]"

definition sample_personal :: personal_deployment where
  "sample_personal = \<lparr>pd_mode = Personal, pd_owner = Some ''captain'', pd_workers = 2, pd_objective_limit = Some 500, pd_monthly_limit = Some 2000\<rparr>"

lemma sample_personal_loads: "from_env sample_personal_env = Inr sample_personal"
  by code_simp

theorem from_env_closed_witness: "pd_mode sample_personal = Personal \<and> pd_owner sample_personal = Some ''captain''
    \<and> sample_personal_env ''MAGISTRATE_DEPLOYMENT_MODE'' = Some ''personal''"
  using from_env_closed[OF sample_personal_loads] by (simp add: sample_personal_def)

text \<open>Personal admission is safe: it admits only the configured owner with a live session and
  the command scope, and after adding the new objective's workers and its full spend ceiling to
  the observed usage, both the worker capacity and the monthly ceiling still hold.\<close>

theorem admission_safe:
  assumes "from_env env = Inr c" and "check_personal_admission c p (Some u) workers now = Inr hold"
  shows "pd_owner c = Some (pr_user p) \<and> pu_owner u = pr_user p \<and> ''command'' \<in> set (pr_scopes p) \<and> now < pr_expires p
    \<and> Some hold = pd_objective_limit c \<and> 0 < hold
    \<and> pu_objectives u + 1 \<le> pd_workers c \<and> pu_workers u + workers \<le> pd_workers c
    \<and> (\<exists>m. pd_monthly_limit c = Some m \<and> pu_spent u + (pu_reserved u + hold) \<le> m)"
proof -
  have v: "personal_deployment_valid c" using assms(1) by (rule from_env_valid)
  have "require_principal c p (Some ''command'') now = Inr p" "personal c"
    using assms(2) require_principal_owner
    by (auto simp: check_personal_admission_def split: sum.splits if_splits)
  with require_principal_owner[OF this(1)] v assms(2) show ?thesis
    by (auto simp: check_personal_admission_def personal_deployment_valid_def personal_def contract_int_def Let_def
        split: if_splits option.splits)
qed

theorem admission_safe_witness:
  "check_personal_admission sample_personal \<lparr>pr_user = ''captain'', pr_scopes = [''command''], pr_session = ''s'', pr_expires = 100\<rparr>
     (Some \<lparr>pu_owner = ''captain'', pu_objectives = 1, pu_workers = 1, pu_spent = 1000, pu_reserved = 500\<rparr>) 1 50 = Inr 500
   \<and> (\<exists>m. pd_monthly_limit sample_personal = Some m \<and> 1000 + (500 + 500) \<le> m)"
proof -
  have a: "check_personal_admission sample_personal \<lparr>pr_user = ''captain'', pr_scopes = [''command''], pr_session = ''s'', pr_expires = 100\<rparr>
     (Some \<lparr>pu_owner = ''captain'', pu_objectives = 1, pu_workers = 1, pu_spent = 1000, pu_reserved = 500\<rparr>) 1 50 = Inr 500"
    by code_simp
  show ?thesis using admission_safe[OF sample_personal_loads a] a by simp
qed

end
