(* ===== verification/Objective_State.thy ===== *)
theory Objective_State
  imports Deployment_Mode
begin

text \<open>
  The durable state of an objective: \<open>ObjectiveStateContract\<close> (\<open>app/contracts.py\<close>),
  \<open>project_objective_state\<close> and \<open>advance_objective_state\<close> (\<open>app/deployment_mode.py\<close>), and
  \<open>persist_objective_state\<close> (\<open>app/structured_runtime.py\<close>), which projects the persisted facts and
  replaces the stored record. The facts a transaction reads are the record \<open>facts\<close>.
\<close>

datatype obj_state = Unknown | Submitting | Queued | Accepted | Running | WaitingForInput | Recovering
  | Succeeded | Failed | Cancelled

datatype stage = SUnobserved | SSubmitting | SQueued | SAccepted | SRunning | STerminal

datatype cancellation = NoCancel | CancelRequested | CancelObserved

record objective_contract =
  oc_objective :: string
  oc_owner :: string
  oc_revision :: int
  oc_state :: obj_state
  oc_stage :: stage
  oc_cancel :: cancellation

definition terminal_state :: "obj_state \<Rightarrow> bool" where
  "terminal_state s \<longleftrightarrow> s \<in> {Succeeded, Failed, Cancelled}"

definition oc_terminal :: "objective_contract \<Rightarrow> bool" where
  "oc_terminal c = terminal_state (oc_state c)"

definition objective_id_ok :: "string \<Rightarrow> bool" where
  "objective_id_ok = full_class is_alnum (\<lambda>c. is_alnum c \<or> c \<in> {CHR ''.'', CHR ''_'', CHR '':'', CHR ''-''}) 0 127"

text \<open>The stage a state of observed progress must agree with.\<close>

fun state_stage :: "obj_state \<Rightarrow> stage option" where
  "state_stage Submitting = Some SSubmitting"
| "state_stage Queued = Some SQueued"
| "state_stage Accepted = Some SAccepted"
| "state_stage Running = Some SRunning"
| "state_stage _ = None"

definition contract_valid :: "objective_contract \<Rightarrow> bool" where
  "contract_valid c \<longleftrightarrow> objective_id_ok (oc_objective c) \<and> principal_id_ok (oc_owner c)
     \<and> contract_int 0 (Some (oc_revision c))
     \<and> (oc_cancel c = CancelObserved) = (oc_state c = Cancelled)
     \<and> oc_terminal c = (oc_stage c = STerminal)
     \<and> (case state_stage (oc_state c) of None \<Rightarrow> True | Some s \<Rightarrow> oc_stage c = s)"

definition ObjectiveStateContract :: "objective_contract \<Rightarrow> mode_error + objective_contract" where
  "ObjectiveStateContract c = (if contract_valid c then Inr c else Inl ValidationError)"

subsection \<open>Projection\<close>

definition TERMINAL_STATES :: "string \<rightharpoonup> obj_state" where
  "TERMINAL_STATES = map_of [(''objective.completed'', Succeeded), (''objective.failed'', Failed), (''objective.cancelled'', Cancelled)]"

definition RUNNING_PHASES :: "string list" where
  "RUNNING_PHASES = [''worker.started'', ''implementation.started'', ''tests.started'', ''tests.passed'', ''tests.failed'', ''review.started'']"

definition running_phase :: "string option \<Rightarrow> bool" where
  "running_phase ph \<longleftrightarrow> (case ph of None \<Rightarrow> False | Some x \<Rightarrow> x \<in> set RUNNING_PHASES)"

definition terminal_of :: "string option \<Rightarrow> string option \<Rightarrow> string option" where
  "terminal_of tp ph = (case tp of Some t \<Rightarrow> Some t
     | None \<Rightarrow> (case ph of None \<Rightarrow> None | Some x \<Rightarrow> if TERMINAL_STATES x \<noteq> None then Some x else None))"

definition open_state :: "string option \<Rightarrow> string option \<Rightarrow> bool \<Rightarrow> bool \<Rightarrow> obj_state" where
  "open_state sub ph waiting recovering =
     (if recovering then Recovering
      else if ph \<noteq> None \<and> \<not> running_phase ph \<and> ph \<noteq> Some ''objective.accepted'' then Unknown
      else if waiting then WaitingForInput
      else if running_phase ph then Running
      else if ph = Some ''objective.accepted'' then Accepted
      else if sub = Some ''accepted'' then Queued
      else if sub = Some ''submitting'' then Submitting
      else Unknown)"

definition projected_state :: "string option \<Rightarrow> string option \<Rightarrow> string option \<Rightarrow> bool \<Rightarrow> bool \<Rightarrow> bool \<Rightarrow> obj_state" where
  "projected_state sub ph tp waiting recovering observed =
     (case terminal_of tp ph of
        Some t \<Rightarrow> (case TERMINAL_STATES t of Some s \<Rightarrow> s | None \<Rightarrow> Unknown)
      | None \<Rightarrow> if \<not> observed then Unknown else open_state sub ph waiting recovering)"

definition projected_stage :: "obj_state \<Rightarrow> string option \<Rightarrow> string option \<Rightarrow> stage" where
  "projected_stage s sub ph =
     (if terminal_state s then STerminal
      else if running_phase ph then SRunning
      else if ph = Some ''objective.accepted'' then SAccepted
      else if sub = Some ''accepted'' then SQueued
      else if sub = Some ''submitting'' then SSubmitting
      else SUnobserved)"

definition project_objective_state :: "string \<Rightarrow> string \<Rightarrow> int \<Rightarrow> string option \<Rightarrow> string option \<Rightarrow> string option
    \<Rightarrow> bool \<Rightarrow> bool \<Rightarrow> bool \<Rightarrow> bool \<Rightarrow> mode_error + objective_contract" where
  "project_objective_state ob ow rv sub ph tp waiting recovering observed cancel =
     (let s = projected_state sub ph tp waiting recovering observed in
      ObjectiveStateContract \<lparr>oc_objective = ob, oc_owner = ow, oc_revision = rv, oc_state = s,
        oc_stage = projected_stage s sub ph,
        oc_cancel = (if s = Cancelled then CancelObserved else if cancel then CancelRequested else NoCancel)\<rparr>)"

subsection \<open>Replacement\<close>

fun stage_rank :: "stage \<Rightarrow> nat" where
  "stage_rank SUnobserved = 0" | "stage_rank SSubmitting = 1" | "stage_rank SQueued = 2"
| "stage_rank SAccepted = 3" | "stage_rank SRunning = 4" | "stage_rank STerminal = 5"

definition uncertain :: "obj_state \<Rightarrow> bool" where
  "uncertain s \<longleftrightarrow> s \<in> {Unknown, Recovering, WaitingForInput}"

fun allowed :: "obj_state \<Rightarrow> obj_state \<Rightarrow> bool" where
  "allowed Submitting t = (t \<in> {Submitting, Queued, Accepted, Running} \<or> uncertain t \<or> terminal_state t)"
| "allowed Queued t = (t \<in> {Queued, Accepted, Running} \<or> uncertain t \<or> terminal_state t)"
| "allowed Accepted t = (t \<in> {Accepted, Running} \<or> uncertain t \<or> terminal_state t)"
| "allowed Running t = (t = Running \<or> uncertain t \<or> terminal_state t)"
| "allowed Succeeded t = (t = Succeeded)"
| "allowed Failed t = (t = Failed)"
| "allowed Cancelled t = (t = Cancelled)"
| "allowed _ t = (t \<in> {Submitting, Queued, Accepted, Running} \<or> uncertain t \<or> terminal_state t)"

text \<open>The normalisation of an uncertain update, which keeps the progress high-water mark.\<close>

definition normalize :: "objective_contract \<Rightarrow> objective_contract \<Rightarrow> mode_error + objective_contract" where
  "normalize current incoming =
     (if \<not> oc_terminal current \<and> uncertain (oc_state incoming)
         \<and> stage_rank (oc_stage incoming) < stage_rank (oc_stage current)
      then ObjectiveStateContract (incoming\<lparr>oc_stage := oc_stage current\<rparr>) else Inr incoming)"

definition advance_objective_state :: "objective_contract \<Rightarrow> objective_contract \<Rightarrow> mode_error + objective_contract" where
  "advance_objective_state current incoming0 =
     (if (oc_owner current, oc_objective current) \<noteq> (oc_owner incoming0, oc_objective incoming0)
      then Inl (DeploymentModeError ''objective_identity_conflict'' 409)
      else if oc_revision incoming0 < oc_revision current then Inl (DeploymentModeError ''objective_revision_stale'' 409)
      else case normalize current incoming0 of Inl e \<Rightarrow> Inl e | Inr incoming \<Rightarrow>
        if oc_revision incoming = oc_revision current then
          (if incoming \<noteq> current then Inl (DeploymentModeError ''objective_revision_conflict'' 409) else Inr current)
        else if oc_terminal current \<and> oc_state incoming \<noteq> oc_state current
        then Inl (DeploymentModeError ''objective_terminal_conflict'' 409)
        else if \<not> allowed (oc_state current) (oc_state incoming)
          \<or> stage_rank (oc_stage incoming) < stage_rank (oc_stage current)
        then Inl (DeploymentModeError ''objective_transition_invalid'' 409)
        else if oc_cancel current \<noteq> NoCancel \<and> oc_cancel incoming = NoCancel
        then Inl (DeploymentModeError ''objective_cancellation_conflict'' 409)
        else Inr incoming)"

subsection \<open>Persistence\<close>

text \<open>What the transaction of \<open>persist_objective_state\<close> reads: the submission status, the terminal
  phase of the execution row, the set of event phases, whether a decision waits, whether
  cancellation was requested.\<close>

record facts =
  fc_submission :: "string option"
  fc_execution :: bool
  fc_terminal :: "string option"
  fc_phases :: "string list"
  fc_waiting :: bool
  fc_cancel :: bool

definition fact_phase :: "facts \<Rightarrow> string option" where
  "fact_phase f =
     (if list_ex (\<lambda>p. p \<in> set RUNNING_PHASES) (fc_phases f) then Some ''worker.started''
      else if ''objective.accepted'' \<in> set (fc_phases f) then Some ''objective.accepted'' else None)"

definition persist_objective_state :: "string \<Rightarrow> string \<Rightarrow> facts \<Rightarrow> bool \<Rightarrow> objective_contract option
    \<Rightarrow> mode_error + objective_contract option" where
  "persist_objective_state ow ob f recovering stored =
     (if fc_submission f = None \<and> \<not> fc_execution f then Inr stored
      else case project_objective_state ob ow (case stored of None \<Rightarrow> 1 | Some c \<Rightarrow> oc_revision c + 1)
             (fc_submission f) (fact_phase f) (if fc_execution f then fc_terminal f else None)
             (fc_waiting f) recovering True (fc_cancel f) of
        Inl e \<Rightarrow> Inl e
      | Inr incoming \<Rightarrow>
         (case stored of
            None \<Rightarrow> Inr (Some incoming)
          | Some current \<Rightarrow>
             (case advance_objective_state current incoming of
                Inl e \<Rightarrow> Inl e
              | Inr next \<Rightarrow>
                  if next\<lparr>oc_revision := oc_revision current\<rparr> = current then Inr (Some current)
                  else Inr (Some next))))"

subsection \<open>Projection is total and honest\<close>

lemma terminal_states_terminal: "TERMINAL_STATES t = Some s \<Longrightarrow> terminal_state s"
  by (auto simp: TERMINAL_STATES_def terminal_state_def split: if_splits)

lemma running_not_accepted: "\<not> running_phase (Some ''objective.accepted'')" "\<not> running_phase None"
  by (simp_all add: running_phase_def RUNNING_PHASES_def)

lemma open_not_terminal: "\<not> terminal_state (open_state sub ph waiting recovering)"
  by (simp add: open_state_def terminal_state_def)

lemma projected_terminal:
  "terminal_state (projected_state sub ph tp waiting recovering observed) \<longleftrightarrow>
     (case tp of Some t \<Rightarrow> TERMINAL_STATES t \<noteq> None
      | None \<Rightarrow> (case ph of None \<Rightarrow> False | Some x \<Rightarrow> TERMINAL_STATES x \<noteq> None))"
  using terminal_states_terminal open_not_terminal
  by (auto simp: projected_state_def terminal_of_def terminal_state_def[of Unknown] split: option.splits)

lemma open_stage_agrees:
  "state_stage (open_state sub ph waiting recovering) = Some s \<Longrightarrow> projected_stage (open_state sub ph waiting recovering) sub ph = s"
  by (cases ph) (auto simp: open_state_def projected_stage_def terminal_state_def running_not_accepted split: if_split_asm)

lemma state_stage_certain: "state_stage s = Some st \<Longrightarrow> \<not> terminal_state s \<and> \<not> uncertain s"
  by (cases s) (auto simp: terminal_state_def uncertain_def)

lemma projected_certain:
  assumes "state_stage (projected_state sub ph tp waiting recovering observed) = Some s"
  shows "projected_state sub ph tp waiting recovering observed = open_state sub ph waiting recovering"
  using assms state_stage_certain[OF assms] terminal_states_terminal
  by (auto simp: projected_state_def uncertain_def split: option.splits if_split_asm)

lemma projected_stage_agrees:
  "state_stage (projected_state sub ph tp waiting recovering observed) = Some s \<Longrightarrow>
     projected_stage (projected_state sub ph tp waiting recovering observed) sub ph = s"
  using projected_certain open_stage_agrees by metis

lemma projected_stage_terminal:
  "projected_stage s sub ph = STerminal \<longleftrightarrow> terminal_state s"
  by (simp add: projected_stage_def)

lemma project_valid:
  assumes "objective_id_ok ob" and "principal_id_ok ow" and "contract_int 0 (Some rv)"
  shows "\<exists>c. project_objective_state ob ow rv sub ph tp waiting recovering observed cancel = Inr c \<and> contract_valid c"
  using assms projected_stage_agrees[of sub ph tp waiting recovering observed]
  by (auto simp: project_objective_state_def ObjectiveStateContract_def Let_def contract_valid_def oc_terminal_def
      projected_stage_terminal split: option.splits)

text \<open>C27. The projection of persisted facts always is a valid contract, and it is terminal exactly when
  a terminal phase was recorded: neither recovery, waiting, incomplete observation nor a
  cancellation request can end an objective or hide that it ended.\<close>

theorem projection_sound:
  assumes "objective_id_ok ob" and "principal_id_ok ow" and "0 \<le> rv" and "rv \<le> MAX_CONTRACT_INTEGER"
  shows "\<exists>c. project_objective_state ob ow rv sub ph tp waiting recovering observed cancel = Inr c \<and> contract_valid c
    \<and> (oc_terminal c \<longleftrightarrow> (case tp of Some t \<Rightarrow> TERMINAL_STATES t \<noteq> None
         | None \<Rightarrow> (case ph of None \<Rightarrow> False | Some x \<Rightarrow> TERMINAL_STATES x \<noteq> None)))"
proof -
  obtain c where c: "project_objective_state ob ow rv sub ph tp waiting recovering observed cancel = Inr c" "contract_valid c"
    using project_valid[of ob ow rv sub ph tp waiting recovering observed cancel] assms by (auto simp: contract_int_def)
  then have "oc_state c = projected_state sub ph tp waiting recovering observed"
    by (auto simp: project_objective_state_def ObjectiveStateContract_def Let_def split: if_splits)
  with c show ?thesis by (auto simp: oc_terminal_def projected_terminal)
qed

theorem projection_sound_witness:
  "\<exists>c. project_objective_state ''obj1'' ''captain'' 1 (Some ''accepted'') (Some ''tests.started'')
       (Some ''objective.failed'') True True False True = Inr c \<and> oc_terminal c"
  using projection_sound[of "''obj1''" "''captain''" 1 "Some ''accepted''" "Some ''tests.started''"
      "Some ''objective.failed''" True True False True]
  by (auto simp: objective_id_ok_def principal_id_ok_def full_class_def MAX_CONTRACT_INTEGER_def TERMINAL_STATES_def
      is_alnum_def is_lower_def is_upper_def is_digit_def code_def)

subsection \<open>Replacement only moves forward\<close>

definition forward :: "objective_contract \<Rightarrow> objective_contract \<Rightarrow> bool" where
  "forward c n \<longleftrightarrow> (oc_owner n, oc_objective n) = (oc_owner c, oc_objective c) \<and> oc_revision c \<le> oc_revision n
     \<and> stage_rank (oc_stage c) \<le> stage_rank (oc_stage n)
     \<and> (oc_terminal c \<longrightarrow> oc_state n = oc_state c) \<and> (oc_cancel c \<noteq> NoCancel \<longrightarrow> oc_cancel n \<noteq> NoCancel)"

lemma forward_refl: "forward c c"
  by (simp add: forward_def)

lemma forward_trans: "forward a b \<Longrightarrow> forward b c \<Longrightarrow> forward a c"
  by (auto simp: forward_def oc_terminal_def)

lemma advance_forward:
  assumes "contract_valid current" and "contract_valid incoming" and "advance_objective_state current incoming = Inr n"
  shows "contract_valid n \<and> forward current n"
  using assms
  by (auto simp: advance_objective_state_def normalize_def ObjectiveStateContract_def forward_def split: if_splits sum.splits)

text \<open>Replacing a stored projection never moves it back: whatever valid update is accepted, the
  result is valid, keeps the identity, raises the revision, never lowers the progress
  high-water mark, never changes a terminal state and never forgets a cancellation.\<close>

theorem advance_monotone:
  assumes "contract_valid current" and "contract_valid incoming" and "advance_objective_state current incoming = Inr n"
  shows "contract_valid n \<and> forward current n"
  using assms by (rule advance_forward)

definition sample_contract :: "int \<Rightarrow> obj_state \<Rightarrow> stage \<Rightarrow> objective_contract" where
  "sample_contract rv s st = \<lparr>oc_objective = ''obj1'', oc_owner = ''captain'', oc_revision = rv, oc_state = s,
     oc_stage = st, oc_cancel = CancelRequested\<rparr>"

theorem advance_monotone_witness:
  "advance_objective_state (sample_contract 3 Running SRunning) ((sample_contract 4 Unknown SUnobserved))
     = Inr (sample_contract 4 Unknown SRunning)
   \<and> forward (sample_contract 3 Running SRunning) (sample_contract 4 Unknown SRunning)"
proof -
  have v: "contract_valid (sample_contract 3 Running SRunning)" "contract_valid (sample_contract 4 Unknown SUnobserved)"
    and a: "advance_objective_state (sample_contract 3 Running SRunning) (sample_contract 4 Unknown SUnobserved)
     = Inr (sample_contract 4 Unknown SRunning)" by code_simp+
  show ?thesis using advance_monotone[OF v a] a by simp
qed

subsection \<open>Persisting never conflicts\<close>

text \<open>How the persisted facts of one objective evolve: event phases and cancellation requests are
  only added, an accepted submission stays accepted, an execution row and its terminal phase
  stay, and a recorded terminal phase is one of the three the execution store writes.\<close>

definition facts_ok :: "facts \<Rightarrow> bool" where
  "facts_ok f \<longleftrightarrow> (case fc_terminal f of None \<Rightarrow> True | Some t \<Rightarrow> fc_execution f \<and> TERMINAL_STATES t \<noteq> None)"

definition facts_grow :: "facts \<Rightarrow> facts \<Rightarrow> bool" where
  "facts_grow f g \<longleftrightarrow> set (fc_phases f) \<subseteq> set (fc_phases g) \<and> (fc_cancel f \<longrightarrow> fc_cancel g)
     \<and> (fc_submission f = Some ''accepted'' \<longrightarrow> fc_submission g = Some ''accepted'')
     \<and> (fc_execution f \<longrightarrow> fc_execution g) \<and> (fc_terminal f \<noteq> None \<longrightarrow> fc_terminal g = fc_terminal f)"

fun persist_all :: "string \<Rightarrow> string \<Rightarrow> (facts \<times> bool) list \<Rightarrow> objective_contract option \<Rightarrow> mode_error + objective_contract option" where
  "persist_all ow ob [] stored = Inr stored"
| "persist_all ow ob ((f, rc) # fs) stored =
     (case persist_objective_state ow ob f rc stored of Inl e \<Rightarrow> Inl e | Inr c \<Rightarrow> persist_all ow ob fs c)"

text \<open>What a stored record owes to the facts it was written from.\<close>

definition explained :: "facts \<Rightarrow> objective_contract \<Rightarrow> bool" where
  "explained f c \<longleftrightarrow>
     (stage_rank (oc_stage c) \<in> {2, 3, 4} \<longrightarrow> fc_submission f = Some ''accepted'' \<or> fact_phase f \<noteq> None)
     \<and> (stage_rank (oc_stage c) \<in> {3, 4} \<longrightarrow> fact_phase f \<noteq> None)
     \<and> (stage_rank (oc_stage c) = 4 \<longrightarrow> running_phase (fact_phase f))
     \<and> (oc_terminal c \<longrightarrow> (\<exists>t. fc_terminal f = Some t \<and> TERMINAL_STATES t = Some (oc_state c)))
     \<and> (oc_cancel c = CancelRequested \<longrightarrow> fc_cancel f)"

lemma fact_phase_cases: "fact_phase f = None \<or> fact_phase f = Some ''objective.accepted'' \<or> fact_phase f = Some ''worker.started''"
  by (simp add: fact_phase_def)

lemma running_worker: "running_phase (Some ''worker.started'')" "TERMINAL_STATES ''worker.started'' = None"
  "TERMINAL_STATES ''objective.accepted'' = None"
  by (simp_all add: running_phase_def RUNNING_PHASES_def TERMINAL_STATES_def)

lemma fact_phase_grow:
  assumes "set (fc_phases f) \<subseteq> set (fc_phases g)"
  shows "fact_phase f \<noteq> None \<Longrightarrow> fact_phase g \<noteq> None"
    and "running_phase (fact_phase f) \<Longrightarrow> running_phase (fact_phase g)"
proof -
  show "fact_phase f \<noteq> None \<Longrightarrow> fact_phase g \<noteq> None"
    using assms unfolding fact_phase_def by (auto simp: list_ex_iff split: if_splits)
  assume "running_phase (fact_phase f)"
  then have "list_ex (\<lambda>p. p \<in> set RUNNING_PHASES) (fc_phases f)"
    unfolding fact_phase_def by (auto simp: running_not_accepted split: if_split_asm)
  then have "list_ex (\<lambda>p. p \<in> set RUNNING_PHASES) (fc_phases g)" using assms by (auto simp: list_ex_iff)
  then show "running_phase (fact_phase g)" by (simp add: fact_phase_def running_worker)
qed

lemma explained_grow: "explained f c \<Longrightarrow> facts_grow f g \<Longrightarrow> explained g c"
  using fact_phase_grow[of f g] unfolding explained_def facts_grow_def by (metis option.distinct(1))

lemma allowed_by_rank:
  assumes "contract_valid c" and "contract_valid i" and "\<not> oc_terminal c" and "stage_rank (oc_stage c) \<le> stage_rank (oc_stage i)"
  shows "allowed (oc_state c) (oc_state i)"
  using assms
  by (cases "oc_state c"; cases "oc_state i")
    (auto simp: contract_valid_def oc_terminal_def terminal_state_def uncertain_def)

lemma normalize_ok:
  assumes c: "contract_valid c" and i: "contract_valid i"
    and up: "uncertain (oc_state i) \<or> oc_terminal c \<or> stage_rank (oc_stage c) \<le> stage_rank (oc_stage i)"
    and tm: "oc_terminal c \<Longrightarrow> oc_state i = oc_state c"
  shows "\<exists>n. normalize c i = Inr n \<and> (n = i \<or> n = i\<lparr>oc_stage := oc_stage c\<rparr> \<and> uncertain (oc_state i))
    \<and> contract_valid n \<and> stage_rank (oc_stage c) \<le> stage_rank (oc_stage n)"
proof (cases "\<not> oc_terminal c \<and> uncertain (oc_state i) \<and> stage_rank (oc_stage i) < stage_rank (oc_stage c)")
  case True
  then have "contract_valid (i\<lparr>oc_stage := oc_stage c\<rparr>)"
    using c i by (auto simp: contract_valid_def oc_terminal_def uncertain_def terminal_state_def)
  with True show ?thesis by (simp add: normalize_def ObjectiveStateContract_def)
next
  case False
  then have "stage_rank (oc_stage c) \<le> stage_rank (oc_stage i)"
    using up tm c i by (cases "oc_terminal c") (auto simp: contract_valid_def oc_terminal_def)
  with False i show ?thesis by (auto simp: normalize_def)
qed

lemma advance_succeeds:
  assumes c: "contract_valid c" and i: "contract_valid i" and same: "(oc_owner c, oc_objective c) = (oc_owner i, oc_objective i)"
    and rv: "oc_revision c < oc_revision i"
    and up: "uncertain (oc_state i) \<or> oc_terminal c \<or> stage_rank (oc_stage c) \<le> stage_rank (oc_stage i)"
    and tm: "oc_terminal c \<Longrightarrow> oc_state i = oc_state c"
    and can: "oc_cancel c \<noteq> NoCancel \<Longrightarrow> oc_cancel i \<noteq> NoCancel"
  shows "\<exists>n. advance_objective_state c i = Inr n \<and> (n = i \<or> n = i\<lparr>oc_stage := oc_stage c\<rparr> \<and> uncertain (oc_state i))"
proof -
  obtain n where n: "normalize c i = Inr n" "n = i \<or> n = i\<lparr>oc_stage := oc_stage c\<rparr> \<and> uncertain (oc_state i)"
    "contract_valid n" "stage_rank (oc_stage c) \<le> stage_rank (oc_stage n)"
    using normalize_ok[OF c i up tm] by blast
  have eq: "oc_state n = oc_state i" "oc_revision n = oc_revision i" "oc_cancel n = oc_cancel i" using n(2) by auto
  have "allowed (oc_state c) (oc_state n)"
  proof (cases "oc_terminal c")
    case True
    then show ?thesis using tm eq by (cases "oc_state c") (auto simp: oc_terminal_def terminal_state_def)
  qed (use allowed_by_rank c n in blast)
  then have "advance_objective_state c i = Inr n"
    using n(1,4) eq same rv tm can by (auto simp: advance_objective_state_def)
  with n(2) show ?thesis by blast
qed

text \<open>The projection of facts explains itself and is at least as far as any record explained by them.\<close>

lemma incoming_explained:
  assumes fo: "facts_ok f" and i: "project_objective_state ob ow rv (fc_submission f) (fact_phase f)
     (if fc_execution f then fc_terminal f else None) w rc True (fc_cancel f) = Inr i"
  shows "explained f i" and "(oc_owner i, oc_objective i) = (ow, ob)" and "oc_revision i = rv" and "contract_valid i"
    and "oc_terminal i \<longleftrightarrow> fc_terminal f \<noteq> None"
    and "oc_cancel i = (if oc_state i = Cancelled then CancelObserved else if fc_cancel f then CancelRequested else NoCancel)"
    and "oc_stage i = projected_stage (oc_state i) (fc_submission f) (fact_phase f)"
    and "\<not> uncertain (oc_state i) \<Longrightarrow> stage_rank (oc_stage i) \<noteq> 0"
proof -
  let ?tp = "if fc_execution f then fc_terminal f else None"
  have tp: "?tp = fc_terminal f" using fo by (auto simp: facts_ok_def split: option.splits)
  define s where "s = projected_state (fc_submission f) (fact_phase f) (fc_terminal f) w rc True"
  have iv: "i = \<lparr>oc_objective = ob, oc_owner = ow, oc_revision = rv, oc_state = s,
        oc_stage = projected_stage s (fc_submission f) (fact_phase f),
        oc_cancel = (if s = Cancelled then CancelObserved else if fc_cancel f then CancelRequested else NoCancel)\<rparr>"
    and v: "contract_valid i"
    using i unfolding tp by (auto simp: project_objective_state_def ObjectiveStateContract_def Let_def s_def split: if_splits)
  have nt: "(case fact_phase f of None \<Rightarrow> False | Some x \<Rightarrow> TERMINAL_STATES x \<noteq> None) = False"
    using fact_phase_cases[of f] by (auto simp: running_worker)
  show t: "oc_terminal i \<longleftrightarrow> fc_terminal f \<noteq> None"
    using fo nt by (auto simp: iv oc_terminal_def s_def projected_terminal facts_ok_def split: option.splits)
  have "TERMINAL_STATES t = Some s" if "fc_terminal f = Some t" for t
    using that fo by (auto simp: s_def projected_state_def terminal_of_def facts_ok_def split: option.splits)
  then show "explained f i" using t fact_phase_cases[of f]
    by (auto simp: explained_def iv oc_terminal_def projected_stage_def running_worker running_not_accepted split: if_split_asm)
  show "contract_valid i" by (rule v)
  show "(oc_owner i, oc_objective i) = (ow, ob)" "oc_revision i = rv"
    "oc_cancel i = (if oc_state i = Cancelled then CancelObserved else if fc_cancel f then CancelRequested else NoCancel)"
    "oc_stage i = projected_stage (oc_state i) (fc_submission f) (fact_phase f)" by (simp_all add: iv)
  assume nu: "\<not> uncertain (oc_state i)"
  show "stage_rank (oc_stage i) \<noteq> 0"
    using v nu by (cases "oc_state i") (auto simp: contract_valid_def uncertain_def oc_terminal_def terminal_state_def)
qed

lemma explained_rank:
  assumes "explained f c" and "\<not> oc_terminal c" and "contract_valid c"
  shows "stage_rank (oc_stage c) \<le> max 1 (stage_rank (projected_stage s (fc_submission f) (fact_phase f)))"
  using assms fact_phase_cases[of f]
  by (cases "oc_stage c")
    (auto simp: explained_def projected_stage_def contract_valid_def running_worker running_not_accepted)

lemma explainedD:
  assumes "explained f c"
  shows "oc_terminal c \<Longrightarrow> \<exists>t. fc_terminal f = Some t \<and> TERMINAL_STATES t = Some (oc_state c)"
    and "oc_cancel c = CancelRequested \<Longrightarrow> fc_cancel f"
  using assms unfolding explained_def by blast+

lemma explained_stage:
  assumes "explained f i" and "explained f c" and "\<not> oc_terminal i"
  shows "explained f (i\<lparr>oc_stage := oc_stage c\<rparr>)"
proof -
  have "oc_terminal (i\<lparr>oc_stage := oc_stage c\<rparr>) = oc_terminal i" by (simp add: oc_terminal_def)
  then show ?thesis using assms unfolding explained_def by simp
qed

lemma persist_step:
  assumes fo: "facts_ok f" and ids: "objective_id_ok ob" "principal_id_ok ow"
    and c: "contract_valid c" "explained f c" "(oc_owner c, oc_objective c) = (ow, ob)"
    and lt: "oc_revision c < MAX_CONTRACT_INTEGER"
  shows "\<exists>n. persist_objective_state ow ob f rc (Some c) = Inr (Some n) \<and> contract_valid n \<and> explained f n
    \<and> forward c n \<and> oc_revision n \<le> oc_revision c + 1"
proof (cases "fc_submission f = None \<and> \<not> fc_execution f")
  case True
  then show ?thesis using c by (simp add: persist_objective_state_def forward_refl)
next
  case False
  have "contract_int 0 (Some (oc_revision c + 1))" using c(1) lt by (auto simp: contract_valid_def contract_int_def)
  from project_valid[OF ids this] obtain i where i: "project_objective_state ob ow (oc_revision c + 1) (fc_submission f)
     (fact_phase f) (if fc_execution f then fc_terminal f else None) (fc_waiting f) rc True (fc_cancel f) = Inr i"
    by blast
  note x = incoming_explained[OF fo i]
  have tm: "oc_state i = oc_state c" if "oc_terminal c"
    using explainedD(1)[OF c(2) that] explainedD(1)[OF x(1)] x(5) by auto
  have up: "uncertain (oc_state i) \<or> oc_terminal c \<or> stage_rank (oc_stage c) \<le> stage_rank (oc_stage i)"
    using explained_rank[OF c(2) _ c(1), of "oc_state i"] x(7,8)
    by (cases "oc_terminal c"; cases "uncertain (oc_state i)") (simp_all add: max_def split: if_split_asm)
  have can: "oc_cancel i \<noteq> NoCancel" if "oc_cancel c \<noteq> NoCancel"
  proof (cases "oc_cancel c")
    case CancelRequested
    then show ?thesis using explainedD(2)[OF c(2)] x(6) by simp
  next
    case CancelObserved
    then have "oc_state c = Cancelled" using c(1) by (simp add: contract_valid_def)
    then show ?thesis using tm x(6) by (simp add: oc_terminal_def terminal_state_def)
  qed (use that in simp)
  obtain n where n: "advance_objective_state c i = Inr n" "n = i \<or> n = i\<lparr>oc_stage := oc_stage c\<rparr> \<and> uncertain (oc_state i)"
    using advance_succeeds[OF c(1) x(4) _ _ up tm can] c(3) x(2,3) by auto
  have vn: "contract_valid n" "forward c n" using advance_forward[OF c(1) x(4) n(1)] by simp_all
  have en: "explained f n"
  proof (cases "n = i")
    case False
    then have "uncertain (oc_state i)" "n = i\<lparr>oc_stage := oc_stage c\<rparr>" using n(2) by auto
    moreover from this(1) have "\<not> oc_terminal i" by (auto simp: oc_terminal_def uncertain_def terminal_state_def)
    ultimately show ?thesis using explained_stage[OF x(1) c(2)] by simp
  qed (use x in simp)
  show ?thesis using False i n(1) vn en c x(3) n(2)
    by (auto simp: persist_objective_state_def forward_refl split: if_splits)
qed

lemma persist_first:
  assumes fo: "facts_ok f" and ids: "objective_id_ok ob" "principal_id_ok ow"
  shows "\<exists>n. persist_objective_state ow ob f rc None = Inr n \<and> (\<forall>c. n = Some c \<longrightarrow> contract_valid c \<and> explained f c
    \<and> (oc_owner c, oc_objective c) = (ow, ob) \<and> oc_revision c = 1)"
proof (cases "fc_submission f = None \<and> \<not> fc_execution f")
  case False
  have "contract_int 0 (Some 1)" by (simp add: contract_int_def MAX_CONTRACT_INTEGER_def)
  from project_valid[OF ids this] obtain i where i: "project_objective_state ob ow 1 (fc_submission f)
     (fact_phase f) (if fc_execution f then fc_terminal f else None) (fc_waiting f) rc True (fc_cancel f) = Inr i"
    by blast
  show ?thesis using False i incoming_explained[OF fo i] by (simp add: persist_objective_state_def)
qed (simp add: persist_objective_state_def)

lemma persist_all_ok:
  assumes "objective_id_ok ob" "principal_id_ok ow"
    and "list_all (\<lambda>(f, rc). facts_ok f) ((f0, rc0) # fs)" and "successively (\<lambda>(f, _) (g, _). facts_grow f g) ((f0, rc0) # fs)"
    and "\<And>c. stored = Some c \<Longrightarrow> contract_valid c \<and> explained f0 c \<and> (oc_owner c, oc_objective c) = (ow, ob)
      \<and> oc_revision c + int (length fs) < MAX_CONTRACT_INTEGER"
    and "int (length fs) < MAX_CONTRACT_INTEGER"
  shows "\<exists>n. persist_all ow ob ((f0, rc0) # fs) stored = Inr n"
  using assms(3-)
proof (induction fs arbitrary: f0 rc0 stored)
  case Nil
  then have fo: "facts_ok f0" by simp
  show ?case
  proof (cases stored)
    case None
    then show ?thesis using persist_first[OF fo assms(1,2), of rc0] by auto
  next
    case (Some c)
    have "contract_valid c" "explained f0 c" "(oc_owner c, oc_objective c) = (ow, ob)" "oc_revision c < MAX_CONTRACT_INTEGER"
      using Nil.prems(3)[OF Some] by simp_all
    from persist_step[OF fo assms(1,2) this, of rc0] Some show ?thesis by auto
  qed
next
  case (Cons p fs)
  obtain f1 rc1 where p: "p = (f1, rc1)" by fastforce
  have fo: "facts_ok f0" and gr: "facts_grow f0 f1" using Cons.prems(1,2) p by simp_all
  obtain n where n: "persist_objective_state ow ob f0 rc0 stored = Inr n"
    and nc: "\<And>c. n = Some c \<Longrightarrow> contract_valid c \<and> explained f0 c \<and> (oc_owner c, oc_objective c) = (ow, ob)
      \<and> oc_revision c + int (length fs) < MAX_CONTRACT_INTEGER"
  proof (cases stored)
    case None
    obtain n where n: "persist_objective_state ow ob f0 rc0 None = Inr n"
      and nn: "\<And>c. n = Some c \<Longrightarrow> contract_valid c \<and> explained f0 c \<and> (oc_owner c, oc_objective c) = (ow, ob) \<and> oc_revision c = 1"
      using persist_first[OF fo assms(1,2), of rc0] by blast
    show ?thesis
    proof (rule that[of n])
      show "persist_objective_state ow ob f0 rc0 stored = Inr n" using n None by simp
    qed (use nn Cons.prems(4) in auto)
  next
    case (Some c)
    have cc: "contract_valid c" "explained f0 c" "(oc_owner c, oc_objective c) = (ow, ob)"
      "oc_revision c + int (length (p # fs)) < MAX_CONTRACT_INTEGER" using Cons.prems(3)[OF Some] by blast+
    have lt: "oc_revision c < MAX_CONTRACT_INTEGER" using cc(4) by simp
    obtain m where m: "persist_objective_state ow ob f0 rc0 (Some c) = Inr (Some m)" "contract_valid m" "explained f0 m"
      "forward c m" "oc_revision m \<le> oc_revision c + 1" using persist_step[OF fo assms(1,2) cc(1-3) lt] by blast
    show ?thesis
    proof (rule that[of "Some m"])
      show "persist_objective_state ow ob f0 rc0 stored = Inr (Some m)" using m(1) Some by simp
    qed (use m cc in \<open>auto simp: forward_def\<close>)
  qed
  have "\<exists>k. persist_all ow ob ((f1, rc1) # fs) n = Inr k"
    using Cons.prems nc explained_grow[OF _ gr] p by (intro Cons.IH) auto
  then show ?case using n p by simp
qed


definition sample_facts :: "(facts \<times> bool) list" where
  "sample_facts =
     [(\<lparr>fc_submission = Some ''submitting'', fc_execution = False, fc_terminal = None, fc_phases = [], fc_waiting = False, fc_cancel = False\<rparr>, False),
      (\<lparr>fc_submission = Some ''failed'', fc_execution = False, fc_terminal = None, fc_phases = [], fc_waiting = False, fc_cancel = False\<rparr>, True),
      (\<lparr>fc_submission = Some ''accepted'', fc_execution = True, fc_terminal = None, fc_phases = [''tests.started''], fc_waiting = True, fc_cancel = True\<rparr>, False),
      (\<lparr>fc_submission = Some ''accepted'', fc_execution = True, fc_terminal = Some ''objective.cancelled'',
        fc_phases = [''tests.started'', ''objective.cancelled''], fc_waiting = False, fc_cancel = True\<rparr>, False)]"


end
