(* ===== verification/OAuth_Transactions.thy ===== *)
theory OAuth_Transactions
  imports Py_Values
begin

text \<open>
  \<open>app/oauth_transactions.py\<close>: the redirect policy and the single-use OAuth state store.

  \<open>urlsplit\<close> is the standard library's splitting of an ASCII URL; \<open>ip_ok\<close> stands for
  \<open>ipaddress.ip_address\<close> accepting a bracketed host. The store is its table; \<open>sh\<close> is
  \<open>hashlib.sha256(...).hexdigest()\<close>, the fresh token of \<open>secrets.token_urlsafe\<close> is an argument of
  \<open>create\<close>, \<open>now\<close> is the clock. Messages of \<open>OAuthTransactionError\<close> distinguish the branches.
\<close>

subsection \<open>URLs\<close>

record split_url =
  su_scheme :: string
  su_netloc :: string
  su_path :: string
  su_query :: string
  su_fragment :: string

definition span_until :: "(char \<Rightarrow> bool) \<Rightarrow> string \<Rightarrow> string \<times> string" where
  "span_until P s = (takeWhile (\<lambda>c. \<not> P c) s, dropWhile (\<lambda>c. \<not> P c) s)"

definition scheme_char :: "char \<Rightarrow> bool" where
  "scheme_char c \<longleftrightarrow> is_alnum c \<or> c \<in> {CHR ''+'', CHR ''-'', CHR ''.''}"

definition url_clean :: "string \<Rightarrow> string" where
  "url_clean s = filter (\<lambda>c. code c \<notin> {9, 10, 13}) (dropWhile (\<lambda>c. code c \<le> 32) s)"

definition split_scheme :: "string \<Rightarrow> string \<times> string" where
  "split_scheme s =
     (case py_partition CHR '':'' s of (a, sep, r) \<Rightarrow>
        if sep \<and> a \<noteq> [] \<and> (is_lower (hd a) \<or> is_upper (hd a)) \<and> list_all scheme_char a
        then (py_lower a, r) else ([], s))"

text \<open>\<open>None\<close> is \<open>ValueError\<close>.\<close>

definition urlsplit :: "(string \<Rightarrow> bool) \<Rightarrow> string \<Rightarrow> split_url option" where
  "urlsplit ip_ok s =
     (case split_scheme (url_clean s) of (scheme, url) \<Rightarrow>
      (case (if starts_with ''//'' url then span_until (\<lambda>c. c \<in> {CHR ''/'', CHR ''?'', CHR ''#''}) (drop 2 url) else ([], url)) of
         (netloc, rest) \<Rightarrow>
           let op = CHR ''['' \<in> set netloc; cl = CHR '']'' \<in> set netloc in
           if op \<noteq> cl \<or> op \<and> \<not> ip_ok netloc then None
           else (case py_partition CHR ''#'' rest of (before, _, fragment) \<Rightarrow>
                 (case py_partition CHR ''?'' before of (path, _, query) \<Rightarrow>
                    Some \<lparr>su_scheme = scheme, su_netloc = netloc, su_path = path, su_query = query, su_fragment = fragment\<rparr>))))"

text \<open>\<open>netloc.rpartition('@')\<close>: user information, if any, and host information.\<close>

definition netloc_parts :: "string \<Rightarrow> string option \<times> string" where
  "netloc_parts n =
     (case py_partition CHR ''@'' (rev n) of (h, sep, u) \<Rightarrow> if sep then (Some (rev u), rev h) else (None, n))"

definition url_userinfo :: "split_url \<Rightarrow> bool" where
  "url_userinfo u \<longleftrightarrow> (case fst (netloc_parts (su_netloc u)) of
     None \<Rightarrow> False
   | Some i \<Rightarrow> (case py_partition CHR '':'' i of (name, sep, pass) \<Rightarrow> name \<noteq> [] \<or> (sep \<and> pass \<noteq> [])))"

definition url_hostname :: "split_url \<Rightarrow> string option" where
  "url_hostname u =
     (let info = snd (netloc_parts (su_netloc u));
          host = (case py_partition CHR ''['' info of (_, sep, br) \<Rightarrow>
             if sep then fst (py_partition CHR '']'' br) else fst (py_partition CHR '':'' info))
      in if host = [] then None
         else (case py_partition CHR ''%'' host of (a, sep, z) \<Rightarrow> Some (py_lower a @ (if sep then ''%'' @ z else []))))"

subsection \<open>Redirect policy\<close>

definition DEFAULT_REDIRECT_URI :: string where
  "DEFAULT_REDIRECT_URI = ''magistrate://account''"

definition UNSAFE_REDIRECT_SCHEMES :: "string list" where
  "UNSAFE_REDIRECT_SCHEMES = [''data'', ''file'', ''javascript'', ''vbscript'']"

definition is_safe_redirect_uri :: "(string \<Rightarrow> bool) \<Rightarrow> string \<Rightarrow> bool" where
  "is_safe_redirect_uri ip_ok uri \<longleftrightarrow>
     uri \<noteq> [] \<and> int (length uri) \<le> 2048
     \<and> (case urlsplit ip_ok uri of
          None \<Rightarrow> False
        | Some p \<Rightarrow>
            if su_scheme p = [] \<or> su_netloc p = [] \<or> url_userinfo p then False
            else if su_query p \<noteq> [] \<or> su_fragment p \<noteq> [] then False
            else if py_lower (su_scheme p) \<in> set UNSAFE_REDIRECT_SCHEMES then False
            else if su_scheme p = ''http'' then url_hostname p \<in> {Some ''localhost'', Some ''127.0.0.1'', Some ''::1''}
            else if su_scheme p = ''https'' then url_hostname p \<noteq> None
            else full_class (\<lambda>c. is_lower c \<or> is_upper c) scheme_char 0 (length (su_scheme p)) (su_scheme p))"

definition allowed_redirect_uris :: "(string \<Rightarrow> bool) \<Rightarrow> string option \<Rightarrow> string list" where
  "allowed_redirect_uris ip_ok configured =
     filter (\<lambda>e. e \<noteq> [] \<and> is_safe_redirect_uri ip_ok e)
       (map py_strip (case configured of None \<Rightarrow> [DEFAULT_REDIRECT_URI] | Some c \<Rightarrow> py_split CHR '','' c))"

definition is_allowed_redirect_uri :: "(string \<Rightarrow> bool) \<Rightarrow> string option \<Rightarrow> string \<Rightarrow> bool" where
  "is_allowed_redirect_uri ip_ok configured uri \<longleftrightarrow>
     is_safe_redirect_uri ip_ok uri \<and> uri \<in> set (allowed_redirect_uris ip_ok configured)"

subsection \<open>Lifetimes and states\<close>

definition DEFAULT_STATE_TTL_SECONDS :: int where "DEFAULT_STATE_TTL_SECONDS = 600"

definition MAX_STATE_TTL_SECONDS :: int where "MAX_STATE_TTL_SECONDS = 3600"

definition state_ttl_seconds :: "string option \<Rightarrow> int" where
  "state_ttl_seconds configured =
     (case configured of None \<Rightarrow> DEFAULT_STATE_TTL_SECONDS
      | Some c \<Rightarrow> (case py_int c of None \<Rightarrow> DEFAULT_STATE_TTL_SECONDS
          | Some ttl \<Rightarrow> if ttl < 1 \<or> MAX_STATE_TTL_SECONDS < ttl then DEFAULT_STATE_TTL_SECONDS else ttl))"

definition state_format_ok :: "string \<Rightarrow> bool" where
  "state_format_ok s \<longleftrightarrow> length s = 43 \<and> list_all (\<lambda>c. is_alnum c \<or> c \<in> {CHR ''_'', CHR ''-''}) s"

subsection \<open>The store\<close>

datatype oauth_error = OAuthTransactionError string | OAuthIntegrityError

record oauth_row =
  ot_hash :: string
  ot_principal :: string
  ot_provider :: string
  ot_redirect :: string
  ot_expires :: int
  ot_consumed :: "int option"

record oauth_transaction =
  tx_principal :: string
  tx_provider :: string
  tx_redirect :: string
  tx_expires :: int

record oauth_env =
  oe_sha :: "string \<Rightarrow> string"
  oe_ip_ok :: "string \<Rightarrow> bool"
  oe_redirects :: "string option"
  oe_ttl :: "string option"

definition ot_sel :: "string \<Rightarrow> oauth_row \<Rightarrow> bool" where
  "ot_sel h r \<longleftrightarrow> ot_hash r = h"

definition oauth_create :: "oauth_env \<Rightarrow> string \<Rightarrow> string \<Rightarrow> string \<Rightarrow> string \<Rightarrow> int \<Rightarrow> int option \<Rightarrow> oauth_row table
    \<Rightarrow> (oauth_error, oauth_row table, string) outcome" where
  "oauth_create E token principal_id provider redirect now ttl_seconds t =
     (if principal_id = [] then Inl (OAuthTransactionError ''Invalid OAuth principal'')
      else if provider = [] then Inl (OAuthTransactionError ''Invalid OAuth provider'')
      else if \<not> is_allowed_redirect_uri (oe_ip_ok E) (oe_redirects E) redirect
      then Inl (OAuthTransactionError ''Disallowed OAuth redirect'')
      else
        let ttl = (case ttl_seconds of None \<Rightarrow> state_ttl_seconds (oe_ttl E) | Some n \<Rightarrow> n) in
        if ttl < 1 \<or> MAX_STATE_TTL_SECONDS < ttl then Inl (OAuthTransactionError ''Invalid OAuth state lifetime'')
        else if tbl_ex (ot_sel (oe_sha E token)) t then Inl OAuthIntegrityError
        else Inr (t @ [\<lparr>ot_hash = oe_sha E token, ot_principal = principal_id, ot_provider = provider,
                 ot_redirect = redirect, ot_expires = now + ttl, ot_consumed = None\<rparr>], token))"

definition oauth_consume :: "oauth_env \<Rightarrow> string \<Rightarrow> string \<Rightarrow> string option \<Rightarrow> int \<Rightarrow> oauth_row table
    \<Rightarrow> (oauth_error, oauth_row table, oauth_transaction) outcome" where
  "oauth_consume E st provider expected now t =
     (if \<not> state_format_ok st then Inl (OAuthTransactionError ''Malformed OAuth state'')
      else if provider = [] then Inl (OAuthTransactionError ''Invalid OAuth provider'')
      else if expected = Some [] then Inl (OAuthTransactionError ''Invalid OAuth principal'')
      else case tbl_get (ot_sel (oe_sha E st)) t of
        None \<Rightarrow> Inl (OAuthTransactionError ''Unknown OAuth state'')
      | Some r \<Rightarrow>
          if ot_consumed r \<noteq> None then Inl (OAuthTransactionError ''OAuth state already consumed'')
          else if ot_expires r \<le> now then Inl (OAuthTransactionError ''Expired OAuth state'')
          else if ot_provider r \<noteq> provider then Inl (OAuthTransactionError ''OAuth state provider mismatch'')
          else if expected \<noteq> None \<and> Some (ot_principal r) \<noteq> expected
          then Inl (OAuthTransactionError ''OAuth state principal mismatch'')
          else
            let sel = (\<lambda>x. ot_sel (oe_sha E st) x \<and> ot_consumed x = None \<and> now < ot_expires x) in
            if tbl_count sel t \<noteq> 1 then Inl (OAuthTransactionError ''OAuth state already consumed'')
            else Inr (tbl_upd sel (\<lambda>x. x\<lparr>ot_consumed := Some now\<rparr>) t,
                   \<lparr>tx_principal = ot_principal r, tx_provider = ot_provider r, tx_redirect = ot_redirect r,
                    tx_expires = ot_expires r\<rparr>))"

subsection \<open>Sequences of calls\<close>

datatype oauth_op =
    OCreate string string string string int "int option"
  | OConsume string string "string option" int

fun exec_oauth :: "oauth_env \<Rightarrow> oauth_op \<Rightarrow> oauth_row table \<Rightarrow> (oauth_error, oauth_row table, unit) outcome" where
  "exec_oauth E (OCreate tok p v u now ttl) t =
     (case oauth_create E tok p v u now ttl t of Inl e \<Rightarrow> Inl e | Inr (t', _) \<Rightarrow> Inr (t', ()))"
| "exec_oauth E (OConsume st v x now) t =
     (case oauth_consume E st v x now t of Inl e \<Rightarrow> Inl e | Inr (t', _) \<Rightarrow> Inr (t', ()))"

interpretation ot: keyed_rows ot_hash ot_sel
  by unfold_locales (simp add: ot_sel_def)

definition oauth_inv :: "oauth_env \<Rightarrow> oauth_row table \<Rightarrow> bool" where
  "oauth_inv E t \<longleftrightarrow> ot.uniq t
     \<and> (\<forall>r \<in> set t. is_allowed_redirect_uri (oe_ip_ok E) (oe_redirects E) (ot_redirect r) \<and> ot_principal r \<noteq> [])"

text \<open>A row keeps everything but its consumption, and its consumption once set.\<close>

definition ot_ident :: "oauth_row \<Rightarrow> string \<times> string \<times> string \<times> string \<times> int" where
  "ot_ident r = (ot_hash r, ot_principal r, ot_provider r, ot_redirect r, ot_expires r)"

definition oauth_older :: "oauth_row table \<Rightarrow> oauth_row table \<Rightarrow> bool" where
  "oauth_older t t' \<longleftrightarrow> (\<forall>r \<in> set t. \<exists>r' \<in> set t'. ot_ident r' = ot_ident r
     \<and> (ot_consumed r \<noteq> None \<longrightarrow> ot_consumed r' = ot_consumed r))"

lemma oauth_older_refl: "oauth_older t t"
  unfolding oauth_older_def by blast

lemma oauth_older_trans: "oauth_older t u \<Longrightarrow> oauth_older u v \<Longrightarrow> oauth_older t v"
  unfolding oauth_older_def by metis

lemma oauth_create_Inr:
  assumes "oauth_create E tok p v u now ttl t = Inr (t', s)"
  obtains r where "t' = t @ [r]" "s = tok" "ot_hash r = oe_sha E tok" "ot_principal r = p" "ot_provider r = v" "ot_redirect r = u"
    "now < ot_expires r" "ot_expires r \<le> now + MAX_STATE_TTL_SECONDS" "ot_consumed r = None" "p \<noteq> []"
    "is_allowed_redirect_uri (oe_ip_ok E) (oe_redirects E) u" "tbl_get (ot_sel (oe_sha E tok)) t = None"
  using assms by (auto simp: oauth_create_def Let_def tbl_ex_iff tbl_get_None_iff split: if_splits)

lemma oauth_consume_Inr:
  assumes "oauth_consume E st v x now t = Inr (t', tx)"
  obtains r where "tbl_get (ot_sel (oe_sha E st)) t = Some r" "ot_consumed r = None" "now < ot_expires r"
    "ot_provider r = v" "x \<noteq> None \<longrightarrow> x = Some (ot_principal r)"
    "t' = tbl_upd (\<lambda>y. ot_sel (oe_sha E st) y \<and> ot_consumed y = None \<and> now < ot_expires y) (\<lambda>y. y\<lparr>ot_consumed := Some now\<rparr>) t"
    "tx = \<lparr>tx_principal = ot_principal r, tx_provider = ot_provider r, tx_redirect = ot_redirect r, tx_expires = ot_expires r\<rparr>"
  using assms by (auto simp: oauth_consume_def Let_def not_le split: if_splits option.splits)

lemma exec_oauth_inv: "oauth_inv E t \<Longrightarrow> exec_oauth E p t = Inr (t', a) \<Longrightarrow> oauth_inv E t'"
  by (cases p) (auto simp: oauth_inv_def set_tbl_upd ot.uniq_upd split: sum.splits
      elim!: oauth_create_Inr oauth_consume_Inr intro!: ot.uniq_insert)

lemma oauth_older_upd:
  assumes "\<And>r. P r \<Longrightarrow> ot_ident (f r) = ot_ident r \<and> ot_consumed r = None"
  shows "oauth_older t (tbl_upd P f t)"
  unfolding oauth_older_def
proof
  fix r assume "r \<in> set t"
  then show "\<exists>r' \<in> set (tbl_upd P f t). ot_ident r' = ot_ident r \<and> (ot_consumed r \<noteq> None \<longrightarrow> ot_consumed r' = ot_consumed r)"
    using assms by (intro bexI[of _ "if P r then f r else r"]) (auto simp: set_tbl_upd)
qed

lemma oauth_older_append: "oauth_older t (t @ u)"
  unfolding oauth_older_def by auto

lemma exec_oauth_older: "exec_oauth E p t = Inr (t', a) \<Longrightarrow> oauth_older t t'"
  by (cases p) (auto simp: oauth_older_append ot_ident_def split: sum.splits
      elim!: oauth_create_Inr oauth_consume_Inr intro!: oauth_older_upd)

interpretation oa: audited "exec_oauth E" "oauth_inv E" "\<lambda>_. True" oauth_older for E
  by unfold_locales (auto intro: exec_oauth_inv exec_oauth_older oauth_older_refl oauth_older_trans)

lemma oauth_run:
  assumes "oauth_inv E t"
  shows "oauth_inv E (run_ops (exec_oauth E) ops t)" and "oauth_older t (run_ops (exec_oauth E) ops t)"
  using oa.run_inv[OF assms, of ops] oa.run_older[OF assms, of ops] by (simp_all add: list_all_iff)

lemma older_row:
  assumes "oauth_inv E t'" and "oauth_older t t'" and "tbl_get (ot_sel h) t = Some r"
  obtains r' where "tbl_get (ot_sel h) t' = Some r'" "ot_ident r' = ot_ident r"
    "ot_consumed r \<noteq> None \<longrightarrow> ot_consumed r' = ot_consumed r"
proof -
  obtain r' where r': "r' \<in> set t'" "ot_ident r' = ot_ident r" "ot_consumed r \<noteq> None \<longrightarrow> ot_consumed r' = ot_consumed r"
    using assms(2) tbl_get_Some_iff[OF assms(3)] by (auto simp: oauth_older_def)
  have "ot_hash r' = h" using r'(2) ot.get_key[OF assms(3)] by (simp add: ot_ident_def)
  then have "tbl_get (ot_sel h) t' = Some r'" using ot.uniq_get[of t' r'] assms(1) r'(1) by (auto simp: oauth_inv_def)
  with r' that show ?thesis by blast
qed

text \<open>C4. An OAuth state is consumed at most once: after a callback consumed it, every later callback
  with that state fails, whatever calls happen in between and whatever provider, principal or
  time it presents.\<close>

theorem oauth_single_use:
  assumes "oauth_inv E t" and "oauth_consume E st v x now t = Inr (t1, tx)"
  shows "\<exists>e. oauth_consume E st v2 x2 now2 (run_ops (exec_oauth E) ops t1) = Inl e"
proof -
  obtain r where r: "tbl_get (ot_sel (oe_sha E st)) t = Some r" "ot_consumed r = None" "now < ot_expires r"
    "t1 = tbl_upd (\<lambda>y. ot_sel (oe_sha E st) y \<and> ot_consumed y = None \<and> now < ot_expires y) (\<lambda>y. y\<lparr>ot_consumed := Some now\<rparr>) t"
    using assms(2) by (rule oauth_consume_Inr)
  have "tbl_get (ot_sel (oe_sha E st)) t1 = Some (r\<lparr>ot_consumed := Some now\<rparr>)"
    using r tbl_get_Some_iff[OF r(1)] by (simp add: tbl_get_upd ot_sel_def)
  moreover have "oauth_inv E t1" using exec_oauth_inv[OF assms(1), of "OConsume st v x now"] assms(2) by simp
  ultimately obtain r2 where "tbl_get (ot_sel (oe_sha E st)) (run_ops (exec_oauth E) ops t1) = Some r2"
      "ot_consumed (r\<lparr>ot_consumed := Some now\<rparr>) \<noteq> None \<longrightarrow> ot_consumed r2 = ot_consumed (r\<lparr>ot_consumed := Some now\<rparr>)"
    using older_row[OF oauth_run] by blast
  then show ?thesis by (auto simp: oauth_consume_def)
qed

text \<open>A callback only recovers what the authenticated connect stored: after a state was issued, a
  successful callback on it, whatever calls happen in between, returns the principal, provider
  and allowlisted redirect given to connect, within the hour.\<close>

theorem oauth_binding:
  assumes "oauth_inv E t" and "oauth_create E tok p v u now ttl t = Inr (t1, st)"
    and "oauth_consume E st v2 x now2 (run_ops (exec_oauth E) ops t1) = Inr (t2, tx)"
  shows "tx_principal tx = p \<and> tx_provider tx = v \<and> v2 = v \<and> tx_redirect tx = u \<and> (x = None \<or> x = Some p)
    \<and> u \<in> set (allowed_redirect_uris (oe_ip_ok E) (oe_redirects E)) \<and> now2 < now + 3600"
proof -
  obtain r where r: "t1 = t @ [r]" "st = tok" "ot_hash r = oe_sha E tok" "ot_principal r = p" "ot_provider r = v"
    "ot_redirect r = u" "ot_expires r \<le> now + MAX_STATE_TTL_SECONDS" "ot_consumed r = None"
    "is_allowed_redirect_uri (oe_ip_ok E) (oe_redirects E) u" "tbl_get (ot_sel (oe_sha E tok)) t = None"
    using assms(2) by (rule oauth_create_Inr)
  have "tbl_get (ot_sel (oe_sha E st)) t1 = Some r" using r by (simp add: tbl_get_append ot_sel_def)
  moreover have "oauth_inv E t1" using exec_oauth_inv[OF assms(1), of "OCreate tok p v u now ttl"] assms(2) by simp
  ultimately obtain r2 where r2: "tbl_get (ot_sel (oe_sha E st)) (run_ops (exec_oauth E) ops t1) = Some r2"
      "ot_ident r2 = ot_ident r"
    using older_row[OF oauth_run] by blast
  have eq: "ot_principal r2 = p" "ot_provider r2 = v" "ot_redirect r2 = u" "ot_expires r2 = ot_expires r"
    using r2(2) r(4-6) by (simp_all add: ot_ident_def)
  show ?thesis using assms(3)
    by (rule oauth_consume_Inr) (use r2(1) eq r in \<open>auto simp: is_allowed_redirect_uri_def MAX_STATE_TTL_SECONDS_def\<close>)
qed

definition sample_oauth :: oauth_env where
  "sample_oauth = \<lparr>oe_sha = (\<lambda>s. s), oe_ip_ok = (\<lambda>_. False), oe_redirects = Some ''magistrate://account, http://localhost:8081/cb'', oe_ttl = None\<rparr>"

definition sample_token :: string where
  "sample_token = replicate 43 (CHR ''a'')"

definition sample_issued :: "oauth_row table" where
  "sample_issued = [\<lparr>ot_hash = sample_token, ot_principal = ''captain'', ot_provider = ''github'',
     ot_redirect = ''http://localhost:8081/cb'', ot_expires = 700, ot_consumed = None\<rparr>]"

lemma sample_create:
  "oauth_create sample_oauth sample_token ''captain'' ''github'' ''http://localhost:8081/cb'' 100 None [] = Inr (sample_issued, sample_token)"
  by code_simp

lemma sample_oauth_inv: "oauth_inv sample_oauth []" "oauth_inv sample_oauth sample_issued"
  using exec_oauth_inv[of sample_oauth "[]" "OCreate sample_token ''captain'' ''github'' ''http://localhost:8081/cb'' 100 None"] sample_create
  by (simp_all add: oauth_inv_def ot.uniq_Nil)

lemma sample_consume:
  obtains t1 tx where "oauth_consume sample_oauth sample_token ''github'' None 200 sample_issued = Inr (t1, tx)"
proof -
  have "case oauth_consume sample_oauth sample_token ''github'' None 200 sample_issued of Inl _ \<Rightarrow> False | Inr _ \<Rightarrow> True" by code_simp
  then show ?thesis using that by (auto split: sum.splits)
qed

theorem oauth_single_use_witness:
  "\<exists>t1 tx e. oauth_consume sample_oauth sample_token ''github'' None 200 sample_issued = Inr (t1, tx)
     \<and> oauth_consume sample_oauth sample_token ''github'' None 201
         (run_ops (exec_oauth sample_oauth) [OCreate ''b'' ''p'' ''v'' ''magistrate://account'' 150 None] t1) = Inl e"
proof -
  obtain t1 tx where c: "oauth_consume sample_oauth sample_token ''github'' None 200 sample_issued = Inr (t1, tx)"
    by (rule sample_consume)
  show ?thesis using oauth_single_use[OF sample_oauth_inv(2) c] c by blast
qed

theorem oauth_binding_witness:
  "\<exists>t1 tx. oauth_consume sample_oauth sample_token ''github'' None 200 sample_issued = Inr (t1, tx)
     \<and> tx_principal tx = ''captain'' \<and> tx_redirect tx = ''http://localhost:8081/cb''"
proof -
  obtain t1 tx where c: "oauth_consume sample_oauth sample_token ''github'' None 200 sample_issued = Inr (t1, tx)"
    by (rule sample_consume)
  show ?thesis
    using oauth_binding[OF sample_oauth_inv(1) sample_create, of "''github''" None 200 "[]" t1 tx] c by simp
qed

text \<open>No unsafe redirect is ever allowlisted, however the environment is set: an allowed target
  has a scheme and a host part, no credentials, query or fragment, no script or file scheme, and
  plain HTTP only for a loopback host.\<close>

theorem redirects_safe:
  assumes "uri \<in> set (allowed_redirect_uris ip_ok configured)"
  shows "\<exists>p. urlsplit ip_ok uri = Some p \<and> su_scheme p \<noteq> [] \<and> su_netloc p \<noteq> [] \<and> \<not> url_userinfo p
    \<and> su_query p = [] \<and> su_fragment p = [] \<and> py_lower (su_scheme p) \<notin> {''javascript'', ''data'', ''file'', ''vbscript''}
    \<and> (su_scheme p = ''http'' \<longrightarrow> url_hostname p \<in> {Some ''localhost'', Some ''127.0.0.1'', Some ''::1''})"
proof -
  have "is_safe_redirect_uri ip_ok uri" using assms by (auto simp: allowed_redirect_uris_def)
  then show ?thesis
    by (auto simp: is_safe_redirect_uri_def UNSAFE_REDIRECT_SCHEMES_def split: option.splits if_split_asm)
qed

theorem redirects_safe_witness:
  "\<exists>p. urlsplit (\<lambda>_. False) ''http://localhost:8081/cb'' = Some p \<and> url_hostname p \<in> {Some ''localhost'', Some ''127.0.0.1'', Some ''::1''}"
proof -
  have "''http://localhost:8081/cb'' \<in> set (allowed_redirect_uris (\<lambda>_. False) (Some ''javascript://x, http://localhost:8081/cb''))"
    by code_simp
  from redirects_safe[OF this] obtain p where p: "urlsplit (\<lambda>_. False) ''http://localhost:8081/cb'' = Some p"
    "su_scheme p = ''http'' \<longrightarrow> url_hostname p \<in> {Some ''localhost'', Some ''127.0.0.1'', Some ''::1''}" by blast
  have "map_option su_scheme (urlsplit (\<lambda>_. False) ''http://localhost:8081/cb'') = Some ''http''" by code_simp
  with p show ?thesis by auto
qed

end
