(* ===== verification/Hosted_Execution.thy ===== *)
theory Hosted_Execution
  imports Py_Values "HOL-Library.Char_ord" "HOL-Library.List_Lexorder" "HOL-Library.Product_Lexorder"
begin

text \<open>
  \<open>app/hosted_execution.py\<close>: \<open>HostedExecutionStore\<close> (the durable run table: queue, lease, capacity,
  retirement), the controller steps over it and workload authentication.

  Parameters: \<open>hc_mac\<close> stands for the keyed digest of \<open>HostedExecutionConfig.opaque\<close> (already
  truncated to its length), \<open>hc_sha\<close> for SHA-256 hex digests; the fresh worker token of an
  objective, the fresh lease and the clock are arguments. The isolation backend and the event
  service are arguments of the controller steps: what they answer for a run. Every store call is
  one transaction; the controller commits between its calls, so its steps return the database
  reached and whether they completed.
\<close>

record hosted_config =
  hc_mac :: "string list \<Rightarrow> string"
  hc_sha :: "string \<Rightarrow> string"
  hc_max_global :: int
  hc_max_per_tenant :: int
  hc_lease_ms :: int

definition identities :: "hosted_config \<Rightarrow> string \<Rightarrow> string \<Rightarrow> string \<Rightarrow> string \<times> string \<times> string" where
  "identities c owner project objective =
     (hc_mac c [''tenant'', owner], ''iso_'' @ hc_mac c [''isolation'', owner, project],
      ''hex_'' @ hc_mac c [''execution'', owner, objective])"

record submission =
  sb_owner :: string
  sb_objective :: string
  sb_task :: string
  sb_project :: string
  sb_status :: string
  sb_accepted_at :: "int option"
  sb_created_at :: int

datatype run_state = RQueued | RLaunching | RRunning | RTerminal

record run =
  hr_owner :: string
  hr_objective :: string
  hr_task :: string
  hr_run :: string
  hr_project :: string
  hr_tenant :: string
  hr_isolation :: string
  hr_execution :: string
  hr_token_hash :: string
  hr_token :: string
  hr_state :: run_state
  hr_attempts :: int
  hr_lease :: "string option"
  hr_lease_expires :: "int option"
  hr_error :: "string option"
  hr_terminal_at :: "int option"
  hr_cleaned :: "int option"
  hr_created :: int
  hr_updated :: int

record cancel_row =
  cr_owner :: string
  cr_objective :: string
  cr_status :: string

record objective_row =
  ob_owner :: string
  ob_objective :: string
  ob_terminal :: "string option"

record hosted_db =
  submissions :: "submission table"
  runs :: "run table"
  cancels :: "cancel_row table"
  objectives :: "objective_row table"

definition hr_sel :: "string \<Rightarrow> run \<Rightarrow> bool" where
  "hr_sel objective r \<longleftrightarrow> hr_objective r = objective"

definition occupies :: "run \<Rightarrow> bool" where
  "occupies r \<longleftrightarrow> hr_state r = RLaunching \<or> hr_state r = RRunning"

definition cancel_requested :: "hosted_db \<Rightarrow> run \<Rightarrow> bool" where
  "cancel_requested d r \<longleftrightarrow> tbl_ex (\<lambda>c. cr_owner c = hr_owner r \<and> cr_objective c = hr_objective r \<and> cr_status c = ''requested'') (cancels d)"

subsection \<open>Claiming\<close>

text \<open>\<open>NULL\<close> sorts before every integer.\<close>

definition null_first :: "int option \<Rightarrow> int \<times> int" where
  "null_first v = (case v of None \<Rightarrow> (0, 0) | Some n \<Rightarrow> (1, n))"

definition new_run :: "hosted_config \<Rightarrow> (string \<Rightarrow> string) \<Rightarrow> int \<Rightarrow> submission \<Rightarrow> run" where
  "new_run c tok now s =
     (case identities c (sb_owner s) (sb_project s) (sb_objective s) of (tenant, isolation, execution) \<Rightarrow>
        \<lparr>hr_owner = sb_owner s, hr_objective = sb_objective s, hr_task = sb_task s,
         hr_run = ''run_'' @ take 32 (hc_sha c (''hosted-run-v1'' @ [char_of (0::nat)] @ sb_owner s @ [char_of (0::nat)] @ sb_objective s)),
         hr_project = sb_project s, hr_tenant = tenant, hr_isolation = isolation, hr_execution = execution,
         hr_token_hash = hc_sha c (tok (sb_objective s)), hr_token = tok (sb_objective s), hr_state = RQueued,
         hr_attempts = 0, hr_lease = None, hr_lease_expires = None, hr_error = None, hr_terminal_at = None,
         hr_cleaned = None, hr_created = now, hr_updated = now\<rparr>)"

text \<open>\<open>INSERT OR IGNORE\<close>: ignored on any of the table's unique columns.\<close>

definition insert_run :: "run \<Rightarrow> run table \<Rightarrow> run table" where
  "insert_run r t =
     (if tbl_ex (\<lambda>x. hr_objective x = hr_objective r \<or> hr_task x = hr_task r \<or> hr_run x = hr_run r
           \<or> hr_execution x = hr_execution r \<or> hr_token_hash x = hr_token_hash r) t
      then t else t @ [r])"

definition pending_submissions :: "hosted_db \<Rightarrow> submission list" where
  "pending_submissions d = take 200 (sort_key (\<lambda>s. (null_first (sb_accepted_at s), sb_created_at s))
     (filter (\<lambda>s. sb_status s = ''accepted'' \<and> \<not> tbl_ex (hr_sel (sb_objective s)) (runs d)) (submissions d)))"

definition requeue_expired :: "int \<Rightarrow> run table \<Rightarrow> run table" where
  "requeue_expired now t =
     tbl_upd (\<lambda>r. hr_state r = RLaunching \<and> (case hr_lease_expires r of None \<Rightarrow> False | Some e \<Rightarrow> e < now))
       (\<lambda>r. r\<lparr>hr_state := RQueued, hr_lease := None, hr_lease_expires := None, hr_updated := now\<rparr>) t"

definition tenant_active :: "string \<Rightarrow> run table \<Rightarrow> nat" where
  "tenant_active tenant t = tbl_count (\<lambda>r. hr_tenant r = tenant \<and> occupies r) t"

definition candidates :: "hosted_db \<Rightarrow> run list" where
  "candidates d = take 200 (sort_key hr_created
     (filter (\<lambda>r. hr_state r = RQueued \<and> tbl_ex (\<lambda>s. sb_objective s = hr_objective r) (submissions d) \<and> \<not> cancel_requested d r) (runs d)))"

definition lease_row :: "hosted_config \<Rightarrow> string \<Rightarrow> int \<Rightarrow> run \<Rightarrow> run" where
  "lease_row c lease now r = r\<lparr>hr_state := RLaunching, hr_attempts := hr_attempts r + 1, hr_lease := Some lease,
     hr_lease_expires := Some (now + hc_lease_ms c), hr_error := None, hr_updated := now\<rparr>"

text \<open>New submissions are queued and expired leases returned before capacity is measured.\<close>

definition claim_db :: "hosted_config \<Rightarrow> (string \<Rightarrow> string) \<Rightarrow> int \<Rightarrow> hosted_db \<Rightarrow> hosted_db" where
  "claim_db c tok now d = d\<lparr>runs := requeue_expired now
     (fold (\<lambda>s t. insert_run (new_run c tok now s) t) (pending_submissions d) (runs d))\<rparr>"

definition claim :: "hosted_config \<Rightarrow> (string \<Rightarrow> string) \<Rightarrow> string \<Rightarrow> int \<Rightarrow> hosted_db \<Rightarrow> hosted_db \<times> run option" where
  "claim c tok lease now d =
     (let d1 = claim_db c tok now d in
      if hc_max_global c \<le> int (tbl_count occupies (runs d1)) then (d1, None)
      else case List.find (\<lambda>r. int (tenant_active (hr_tenant r) (runs d1)) < hc_max_per_tenant c) (candidates d1) of
        None \<Rightarrow> (d1, None)
      | Some r \<Rightarrow>
          let sel = (\<lambda>x. hr_sel (hr_objective r) x \<and> hr_state x = RQueued) in
          if tbl_count sel (runs d1) \<noteq> 1 then (d1, None)
          else (d1\<lparr>runs := tbl_upd sel (lease_row c lease now) (runs d1)\<rparr>,
                Some (r\<lparr>hr_lease := Some lease, hr_attempts := hr_attempts r + 1\<rparr>)))"

subsection \<open>Leases\<close>

definition lease_sel :: "string \<Rightarrow> string \<Rightarrow> run \<Rightarrow> bool" where
  "lease_sel objective lease r \<longleftrightarrow> hr_sel objective r \<and> hr_state r = RLaunching \<and> hr_lease r = Some lease"

text \<open>\<open>False\<close>: the launch lease was lost (\<open>RuntimeError\<close>, after the transaction committed no change).\<close>

definition launched :: "string \<Rightarrow> string \<Rightarrow> int \<Rightarrow> hosted_db \<Rightarrow> hosted_db \<times> bool" where
  "launched objective lease now d =
     (d\<lparr>runs := tbl_upd (lease_sel objective lease)
        (\<lambda>r. r\<lparr>hr_state := RRunning, hr_lease := None, hr_lease_expires := None, hr_updated := now\<rparr>) (runs d)\<rparr>,
      tbl_count (lease_sel objective lease) (runs d) = 1)"

definition launch_failed :: "string \<Rightarrow> string \<Rightarrow> int \<Rightarrow> hosted_db \<Rightarrow> hosted_db" where
  "launch_failed objective lease now d =
     d\<lparr>runs := tbl_upd (lease_sel objective lease)
        (\<lambda>r. r\<lparr>hr_state := RQueued, hr_lease := None, hr_lease_expires := None,
              hr_error := Some ''launch_failed'', hr_updated := now\<rparr>) (runs d)\<rparr>"

subsection \<open>Ending runs\<close>

definition queued_cancellations :: "hosted_db \<Rightarrow> run list" where
  "queued_cancellations d = take 100 (sort_key hr_created
     (filter (\<lambda>r. hr_state r = RQueued \<and> tbl_ex (\<lambda>s. sb_objective s = hr_objective r) (submissions d) \<and> cancel_requested d r) (runs d)))"

definition active :: "hosted_db \<Rightarrow> run list" where
  "active d = take 1000 (sort_key hr_created (filter (\<lambda>r. hr_state r = RRunning) (runs d)))"

definition terminal_phase :: "hosted_db \<Rightarrow> run \<Rightarrow> string option" where
  "terminal_phase d r =
     (case tbl_get (\<lambda>o1. ob_owner o1 = hr_owner r \<and> ob_objective o1 = hr_objective r) (objectives d) of
        None \<Rightarrow> None | Some o1 \<Rightarrow> ob_terminal o1)"

definition terminal_timestamp :: "string \<Rightarrow> int \<Rightarrow> hosted_db \<Rightarrow> hosted_db \<times> int option" where
  "terminal_timestamp objective now d =
     (let d1 = d\<lparr>runs := tbl_upd (hr_sel objective)
            (\<lambda>r. r\<lparr>hr_terminal_at := Some (case hr_terminal_at r of None \<Rightarrow> now | Some t \<Rightarrow> t)\<rparr>) (runs d)\<rparr>
      in (d1, case tbl_get (hr_sel objective) (runs d1) of None \<Rightarrow> None | Some r \<Rightarrow> hr_terminal_at r))"

definition retire_row :: "int \<Rightarrow> run \<Rightarrow> run" where
  "retire_row now r = r\<lparr>hr_state := RTerminal, hr_lease := None, hr_lease_expires := None,
     hr_token_hash := ''retired:'' @ hr_objective r, hr_token := [], hr_updated := now\<rparr>"

definition mark_terminal :: "string \<Rightarrow> string \<Rightarrow> int \<Rightarrow> hosted_db \<Rightarrow> hosted_db" where
  "mark_terminal owner objective now d =
     d\<lparr>runs := tbl_upd (\<lambda>r. hr_owner r = owner \<and> hr_sel objective r) (retire_row now) (runs d)\<rparr>"

definition pending_cleanup :: "hosted_db \<Rightarrow> run list" where
  "pending_cleanup d = take 100 (filter (\<lambda>r. hr_state r = RTerminal \<and> hr_cleaned r = None) (runs d))"

definition retire_store :: "string \<Rightarrow> int \<Rightarrow> hosted_db \<Rightarrow> hosted_db \<times> run list" where
  "retire_store owner now d =
     (let rows = sort_key (\<lambda>r. (hr_created r, hr_objective r)) (filter (\<lambda>r. hr_owner r = owner \<and> hr_cleaned r = None) (runs d))
      in (fold (\<lambda>r d. mark_terminal owner (hr_objective r) now d) rows d, rows))"

definition cleaned :: "string \<Rightarrow> int \<Rightarrow> hosted_db \<Rightarrow> hosted_db" where
  "cleaned objective now d =
     d\<lparr>runs := tbl_upd (hr_sel objective) (\<lambda>r. r\<lparr>hr_cleaned := Some now, hr_updated := now\<rparr>) (runs d)\<rparr>"

subsection \<open>Controller steps\<close>

text \<open>What the world answers for a run: whether the accepted, started and terminal events are
  ingested, the launch receipt, whether cancellation and deletion are acknowledged, and the
  observed backend status with whether it carries usage (\<open>None\<close> for a failed request).\<close>

record world =
  w_accepted :: "run \<Rightarrow> bool"
  w_started :: "run \<Rightarrow> bool"
  w_terminal :: "run \<Rightarrow> string \<Rightarrow> bool"
  w_ensure :: "run \<Rightarrow> string option"
  w_cancel :: "run \<Rightarrow> bool"
  w_delete :: "run \<Rightarrow> bool"
  w_status :: "run \<Rightarrow> (string \<times> bool) option"

datatype step_result = NoWork | Done | Raised

definition process_once :: "hosted_config \<Rightarrow> world \<Rightarrow> (string \<Rightarrow> string) \<Rightarrow> string \<Rightarrow> int \<Rightarrow> hosted_db \<Rightarrow> hosted_db \<times> step_result" where
  "process_once c w tok lease now d =
     (case claim c tok lease now d of
        (d1, None) \<Rightarrow> (d1, NoWork)
      | (d1, Some r) \<Rightarrow>
          if \<not> w_accepted w r \<or> w_ensure w r \<noteq> Some (hr_execution r)
          then (launch_failed (hr_objective r) lease now d1, Raised)
          else (case launched (hr_objective r) lease now d1 of
                  (d2, True) \<Rightarrow> (d2, Done)
                | (d2, False) \<Rightarrow> (launch_failed (hr_objective r) lease now d2, Raised)))"

fun cancel_queued :: "world \<Rightarrow> int \<Rightarrow> run list \<Rightarrow> hosted_db \<Rightarrow> hosted_db \<times> bool" where
  "cancel_queued w now [] d = (d, True)"
| "cancel_queued w now (r # rs) d =
     (if \<not> w_accepted w r then (d, False)
      else case terminal_timestamp (hr_objective r) now d of
        (d1, None) \<Rightarrow> (d1, False)
      | (d1, Some _) \<Rightarrow>
          if \<not> w_terminal w r ''objective.cancelled'' then (d1, False)
          else cancel_queued w now rs (mark_terminal (hr_owner r) (hr_objective r) now d1))"

definition reconcile_run :: "world \<Rightarrow> int \<Rightarrow> string option \<Rightarrow> bool \<Rightarrow> run \<Rightarrow> hosted_db \<Rightarrow> hosted_db \<times> bool" where
  "reconcile_run w now phase cancelling r d =
     (if phase \<noteq> None \<and> phase \<noteq> Some [] then (mark_terminal (hr_owner r) (hr_objective r) now d, True)
      else if cancelling \<and> \<not> w_cancel w r then (d, False)
      else case w_status w r of
        None \<Rightarrow> (d, False)
      | Some (st, has_usage) \<Rightarrow>
          if st = ''missing'' \<and> w_ensure w r = None then (d, False)
          else if st \<in> {''running'', ''succeeded'', ''failed'', ''cancelled''} \<and> \<not> w_started w r then (d, False)
          else if st \<in> {''succeeded'', ''failed'', ''cancelled''} then
            (if \<not> has_usage then (d, False)
             else case terminal_timestamp (hr_objective r) now d of
               (d1, None) \<Rightarrow> (d1, False)
             | (d1, Some _) \<Rightarrow>
                 if \<not> w_terminal w r (if st = ''cancelled'' then ''objective.cancelled'' else ''objective.failed'')
                 then (d1, False)
                 else (mark_terminal (hr_owner r) (hr_objective r) now d1, True))
          else (d, True))"

fun reconcile_active :: "world \<Rightarrow> int \<Rightarrow> (run \<times> string option \<times> bool) list \<Rightarrow> hosted_db \<Rightarrow> hosted_db \<times> bool" where
  "reconcile_active w now [] d = (d, True)"
| "reconcile_active w now ((r, phase, cancelling) # rs) d =
     (case reconcile_run w now phase cancelling r d of
        (d1, False) \<Rightarrow> (d1, False) | (d1, True) \<Rightarrow> reconcile_active w now rs d1)"

fun cleanup_runs :: "world \<Rightarrow> int \<Rightarrow> run list \<Rightarrow> hosted_db \<Rightarrow> hosted_db \<times> bool" where
  "cleanup_runs w now [] d = (d, True)"
| "cleanup_runs w now (r # rs) d =
     (if \<not> w_delete w r then (d, False) else cleanup_runs w now rs (cleaned (hr_objective r) now d))"

definition reconcile_once :: "world \<Rightarrow> int \<Rightarrow> hosted_db \<Rightarrow> hosted_db \<times> bool" where
  "reconcile_once w now d =
     (case cancel_queued w now (queued_cancellations d) d of
        (d1, False) \<Rightarrow> (d1, False)
      | (d1, True) \<Rightarrow>
         (case reconcile_active w now (map (\<lambda>r. (r, terminal_phase d1 r, cancel_requested d1 r)) (active d1)) d1 of
            (d2, False) \<Rightarrow> (d2, False)
          | (d2, True) \<Rightarrow> cleanup_runs w now (pending_cleanup d2) d2))"

fun retire_runs :: "world \<Rightarrow> int \<Rightarrow> run list \<Rightarrow> hosted_db \<Rightarrow> hosted_db \<times> bool" where
  "retire_runs w now [] d = (d, True)"
| "retire_runs w now (r # rs) d =
     (if occupies r \<and> \<not> w_cancel w r then (d, False)
      else if \<not> w_delete w r then (d, False)
      else retire_runs w now rs (cleaned (hr_objective r) now d))"

definition retire_owner :: "world \<Rightarrow> string \<Rightarrow> int \<Rightarrow> hosted_db \<Rightarrow> hosted_db \<times> bool" where
  "retire_owner w owner now d = (case retire_store owner now d of (d1, rows) \<Rightarrow> retire_runs w now rows d1)"

datatype auth_error = HTTPException nat

definition authenticate :: "hosted_config \<Rightarrow> string \<Rightarrow> string option \<Rightarrow> hosted_db \<Rightarrow> auth_error + run" where
  "authenticate c objective authorization d =
     (case authorization of
        None \<Rightarrow> Inl (HTTPException 401)
      | Some a \<Rightarrow>
          if \<not> starts_with ''Bearer '' a then Inl (HTTPException 401)
          else
            let token = drop 7 a in
            if token = [] \<or> 256 < length token then Inl (HTTPException 401)
            else case tbl_get (\<lambda>r. hr_sel objective r \<and> tbl_ex (\<lambda>s. sb_objective s = objective) (submissions d)) (runs d) of
              None \<Rightarrow> Inl (HTTPException 404)
            | Some r \<Rightarrow>
                if hr_state r \<noteq> RRunning then Inl (HTTPException 404)
                else if hc_sha c token \<noteq> hr_token_hash r then Inl (HTTPException 403)
                else Inr r)"

end
