(* ===== verification/Hosted_Capacity.thy ===== *)
theory Hosted_Capacity
  imports Hosted_Execution
begin

text \<open>
  Capacity, fencing and retirement of hosted runs, over every sequence of controller steps
  interleaved with changes other components make to the submission, cancellation and objective
  tables.
\<close>

interpretation hr: keyed_rows hr_objective hr_sel
  by unfold_locales (simp add: hr_sel_def)

definition retired_ok :: "run \<Rightarrow> bool" where
  "retired_ok r \<longleftrightarrow> (hr_state r = RTerminal \<longrightarrow> hr_token_hash r = ''retired:'' @ hr_objective r)"

text \<open>A row may only move toward the end of its life, except through a claim.\<close>

definition row_le :: "run \<Rightarrow> run \<Rightarrow> bool" where
  "row_le r r' \<longleftrightarrow> hr_objective r' = hr_objective r \<and> hr_owner r' = hr_owner r \<and> hr_tenant r' = hr_tenant r
     \<and> (occupies r' \<longrightarrow> occupies r) \<and> (hr_state r = RTerminal \<longrightarrow> hr_state r' = RTerminal)
     \<and> (retired_ok r \<longrightarrow> retired_ok r')"

definition shrink :: "run table \<Rightarrow> run table \<Rightarrow> bool" where
  "shrink = list_all2 row_le"

lemma row_le_refl [simp]: "row_le r r"
  by (simp add: row_le_def)

lemma shrink_refl [simp]: "shrink t t"
  by (simp add: shrink_def list_all2_refl)

lemma shrink_trans: "shrink t u \<Longrightarrow> shrink u v \<Longrightarrow> shrink t v"
  unfolding shrink_def by (rule list_all2_trans[of row_le row_le row_le]) (auto simp: row_le_def)

lemma shrink_upd:
  assumes "\<And>r. r \<in> set t \<Longrightarrow> P r \<Longrightarrow> row_le r (f r)"
  shows "shrink t (tbl_upd P f t)"
  using assms unfolding shrink_def by (induction t) auto

lemma shrink_count: "shrink t u \<Longrightarrow> tbl_count (\<lambda>r. Q (hr_tenant r) \<and> occupies r) u \<le> tbl_count (\<lambda>r. Q (hr_tenant r) \<and> occupies r) t"
  unfolding shrink_def by (induction rule: list_all2_induct) (auto simp: row_le_def)

lemma shrink_keys: "shrink t u \<Longrightarrow> map hr_objective u = map hr_objective t"
  unfolding shrink_def by (induction rule: list_all2_induct) (auto simp: row_le_def)

lemma shrink_terminal:
  "shrink t u \<Longrightarrow> r \<in> set t \<Longrightarrow> hr_state r = RTerminal \<Longrightarrow> \<exists>r' \<in> set u. hr_objective r' = hr_objective r \<and> hr_state r' = RTerminal"
  unfolding shrink_def by (induction rule: list_all2_induct) (auto simp: row_le_def)

lemma shrink_retired: "shrink t u \<Longrightarrow> list_all retired_ok t \<Longrightarrow> list_all retired_ok u"
  unfolding shrink_def by (induction rule: list_all2_induct) (auto simp: row_le_def)

lemma launched_shrink: "shrink (runs d) (runs (fst (launched ob le now d)))"
  by (auto simp: launched_def row_le_def lease_sel_def occupies_def retired_ok_def intro!: shrink_upd)

lemma launch_failed_shrink: "shrink (runs d) (runs (launch_failed ob le now d))"
  by (auto simp: launch_failed_def row_le_def lease_sel_def occupies_def retired_ok_def intro!: shrink_upd)

lemma mark_terminal_shrink: "shrink (runs d) (runs (mark_terminal ow ob now d))"
  by (auto simp: mark_terminal_def retire_row_def row_le_def occupies_def retired_ok_def intro!: shrink_upd)

lemma cleaned_shrink: "shrink (runs d) (runs (cleaned ob now d))"
  by (auto simp: cleaned_def row_le_def occupies_def retired_ok_def intro!: shrink_upd)

lemma timestamp_shrink: "terminal_timestamp ob now d = (d1, x) \<Longrightarrow> shrink (runs d) (runs d1)"
  by (auto simp: terminal_timestamp_def Let_def row_le_def occupies_def retired_ok_def intro!: shrink_upd)

lemmas shrink_steps = launched_shrink launch_failed_shrink mark_terminal_shrink cleaned_shrink timestamp_shrink

lemma cancel_queued_shrink: "shrink (runs d) (runs (fst (cancel_queued w now rs d)))"
proof (induction rs arbitrary: d)
  case (Cons r rs)
  obtain d1 x where ts: "terminal_timestamp (hr_objective r) now d = (d1, x)" by fastforce
  have "shrink (runs d) (runs (fst (cancel_queued w now rs (mark_terminal (hr_owner r) (hr_objective r) now d1))))"
    using timestamp_shrink[OF ts] mark_terminal_shrink Cons.IH shrink_trans by blast
  then show ?case using ts timestamp_shrink[OF ts] by (simp split: option.splits)
qed simp

lemma reconcile_run_shrink: "shrink (runs d) (runs (fst (reconcile_run w now ph ca r d)))"
proof -
  obtain d1 x where ts: "terminal_timestamp (hr_objective r) now d = (d1, x)" by fastforce
  show ?thesis using timestamp_shrink[OF ts] mark_terminal_shrink shrink_trans[OF timestamp_shrink[OF ts] mark_terminal_shrink]
    by (auto simp: reconcile_run_def ts split: option.splits)
qed

lemma reconcile_active_shrink: "shrink (runs d) (runs (fst (reconcile_active w now rs d)))"
proof (induction rs arbitrary: d)
  case (Cons p rs)
  obtain r ph ca where p: "p = (r, ph, ca)" by (cases p)
  obtain d1 b where st: "reconcile_run w now ph ca r d = (d1, b)" by fastforce
  have "shrink (runs d) (runs d1)" using reconcile_run_shrink[of d w now ph ca r] st by simp
  then show ?case using Cons.IH[of d1] shrink_trans by (cases b) (auto simp: p st)
qed simp

lemma cleanup_runs_shrink: "shrink (runs d) (runs (fst (cleanup_runs w now rs d)))"
  by (induction rs arbitrary: d) (auto intro: shrink_trans[OF cleaned_shrink])

lemma retire_runs_shrink: "shrink (runs d) (runs (fst (retire_runs w now rs d)))"
  by (induction rs arbitrary: d) (auto intro: shrink_trans[OF cleaned_shrink])

lemma reconcile_once_shrink: "shrink (runs d) (runs (fst (reconcile_once w now d)))"
proof -
  obtain d1 b where c: "cancel_queued w now (queued_cancellations d) d = (d1, b)" by fastforce
  have s1: "shrink (runs d) (runs d1)" using cancel_queued_shrink[of d w now "queued_cancellations d"] c by simp
  obtain d2 b2 where a: "reconcile_active w now (map (\<lambda>r. (r, terminal_phase d1 r, cancel_requested d1 r)) (active d1)) d1 = (d2, b2)"
    by fastforce
  have s2: "shrink (runs d1) (runs d2)"
    using reconcile_active_shrink[of d1 w now "map (\<lambda>r. (r, terminal_phase d1 r, cancel_requested d1 r)) (active d1)"] a by simp
  show ?thesis using s1 shrink_trans[OF s1 s2] shrink_trans[OF shrink_trans[OF s1 s2] cleanup_runs_shrink]
    by (cases b; cases b2) (auto simp: reconcile_once_def c a)
qed

lemma retire_owner_shrink: "shrink (runs d) (runs (fst (retire_owner w ow now d)))"
proof -
  have "shrink (runs d) (runs (fold (\<lambda>r d. mark_terminal ow (hr_objective r) now d) rs d))" for rs
    by (induction rs arbitrary: d) (auto intro: shrink_trans[OF mark_terminal_shrink])
  then show ?thesis using retire_runs_shrink shrink_trans
    by (auto simp: retire_owner_def retire_store_def Let_def) blast
qed

subsection \<open>Claims\<close>

definition hosted_inv :: "hosted_config \<Rightarrow> hosted_db \<Rightarrow> bool" where
  "hosted_inv c d \<longleftrightarrow> hr.uniq (runs d) \<and> list_all retired_ok (runs d)
     \<and> int (tbl_count occupies (runs d)) \<le> hc_max_global c
     \<and> (\<forall>tenant. int (tenant_active tenant (runs d)) \<le> hc_max_per_tenant c)"

lemma shrink_inv:
  assumes "hosted_inv c d" and s: "shrink (runs d) (runs d')"
  shows "hosted_inv c d'"
proof -
  have "hr.uniq (runs d')" using assms(1) shrink_keys[OF s] by (simp add: hosted_inv_def hr.uniq_def)
  moreover have "int (tbl_count occupies (runs d')) \<le> hc_max_global c"
    using shrink_count[OF s, of "\<lambda>_. True"] assms(1) by (simp add: hosted_inv_def)
  moreover have "int (tenant_active ten (runs d')) \<le> hc_max_per_tenant c" for ten
  proof -
    have "tenant_active ten (runs d') \<le> tenant_active ten (runs d)"
      using shrink_count[OF s, of "\<lambda>x. x = ten"] by (simp add: tenant_active_def)
    moreover have "int (tenant_active ten (runs d)) \<le> hc_max_per_tenant c" using assms(1) by (simp add: hosted_inv_def)
    ultimately show ?thesis by linarith
  qed
  ultimately show ?thesis using shrink_retired[OF s] assms(1) by (simp add: hosted_inv_def)
qed

definition idle_news :: "run list \<Rightarrow> bool" where
  "idle_news ns \<longleftrightarrow> list_all (\<lambda>r. hr_state r = RQueued) ns"

lemma insert_runs:
  assumes "hr.uniq t"
  shows "\<exists>ns. fold (\<lambda>s t. insert_run (new_run c tok now s) t) ss t = t @ ns \<and> idle_news ns
    \<and> hr.uniq (fold (\<lambda>s t. insert_run (new_run c tok now s) t) ss t)"
  using assms
proof (induction ss arbitrary: t)
  case (Cons s ss)
  let ?r = "new_run c tok now s"
  have q: "hr_state ?r = RQueued" by (simp add: new_run_def identities_def)
  have u: "hr.uniq (insert_run ?r t)"
    using Cons.prems by (auto simp: insert_run_def tbl_ex_iff tbl_get_None_iff hr_sel_def intro!: hr.uniq_insert)
  obtain ns where "fold (\<lambda>s t. insert_run (new_run c tok now s) t) ss (insert_run ?r t) = insert_run ?r t @ ns" "idle_news ns"
    "hr.uniq (fold (\<lambda>s t. insert_run (new_run c tok now s) t) ss (insert_run ?r t))"
    using Cons.IH[OF u] by blast
  then show ?case using q by (auto simp: insert_run_def idle_news_def)
qed (simp add: idle_news_def)

lemma idle_count: "idle_news ns \<Longrightarrow> tbl_count (\<lambda>r. Q (hr_tenant r) \<and> occupies r) (t @ ns) = tbl_count (\<lambda>r. Q (hr_tenant r) \<and> occupies r) t"
  by (induction ns) (auto simp: idle_news_def occupies_def tbl_count_append)

lemma requeue_shrink: "shrink t (requeue_expired now t)"
  by (auto simp: requeue_expired_def row_le_def occupies_def retired_ok_def intro!: shrink_upd)

text \<open>The table a claim works on satisfies the invariant.\<close>

lemma claim_base:
  assumes "hosted_inv c d" and d1_def: "d1 = claim_db c tok now d"
  shows "hosted_inv c d1" and "\<exists>ns. idle_news ns \<and> shrink (runs d @ ns) (runs d1)"
proof -
  obtain ns where ns: "fold (\<lambda>s t. insert_run (new_run c tok now s) t) (pending_submissions d) (runs d) = runs d @ ns"
    "idle_news ns" "hr.uniq (runs d @ ns)"
    using insert_runs[of "runs d" c tok now "pending_submissions d"] assms(1) by (auto simp: hosted_inv_def)
  have "list_all retired_ok ns" using ns(2) by (auto simp: idle_news_def list_all_iff retired_ok_def)
  then have "hosted_inv c (d\<lparr>runs := runs d @ ns\<rparr>)"
    using assms(1) ns(3) idle_count[OF ns(2), of "\<lambda>_. True"] idle_count[OF ns(2), of "\<lambda>x. x = _"]
    by (simp add: hosted_inv_def tenant_active_def)
  moreover have s: "shrink (runs d @ ns) (runs d1)" by (simp add: d1_def claim_db_def ns(1) requeue_shrink)
  ultimately show "hosted_inv c d1" by (rule_tac shrink_inv) auto
  show "\<exists>ns. idle_news ns \<and> shrink (runs d @ ns) (runs d1)" using ns(2) s by blast
qed

lemma count_upd_fresh:
  assumes "\<And>r. P r \<Longrightarrow> \<not> Q r"
  shows "tbl_count Q (tbl_upd P f t) \<le> tbl_count Q t + tbl_count P t"
  using assms by (induction t) auto

lemma claim_cases:
  assumes cl: "claim c tok lease now d = (d', res)" and d1_def: "d1 = claim_db c tok now d"
  obtains "res = None" "d' = d1"
  | r where "res = Some (r\<lparr>hr_lease := Some lease, hr_attempts := hr_attempts r + 1\<rparr>)" "r \<in> set (candidates d1)"
      "int (tbl_count occupies (runs d1)) < hc_max_global c" "int (tenant_active (hr_tenant r) (runs d1)) < hc_max_per_tenant c"
      "tbl_count (\<lambda>x. hr_sel (hr_objective r) x \<and> hr_state x = RQueued) (runs d1) = 1"
      "d' = d1\<lparr>runs := tbl_upd (\<lambda>x. hr_sel (hr_objective r) x \<and> hr_state x = RQueued) (lease_row c lease now) (runs d1)\<rparr>"
proof -
  have c: "(if hc_max_global c \<le> int (tbl_count occupies (runs d1)) then (d1, None)
      else case List.find (\<lambda>r. int (tenant_active (hr_tenant r) (runs d1)) < hc_max_per_tenant c) (candidates d1) of
        None \<Rightarrow> (d1, None)
      | Some r \<Rightarrow> if tbl_count (\<lambda>x. hr_sel (hr_objective r) x \<and> hr_state x = RQueued) (runs d1) \<noteq> 1 then (d1, None)
          else (d1\<lparr>runs := tbl_upd (\<lambda>x. hr_sel (hr_objective r) x \<and> hr_state x = RQueued) (lease_row c lease now) (runs d1)\<rparr>,
                Some (r\<lparr>hr_lease := Some lease, hr_attempts := hr_attempts r + 1\<rparr>))) = (d', res)"
    using cl unfolding claim_def d1_def[symmetric] Let_def .
  show ?thesis
  proof (cases "List.find (\<lambda>r. int (tenant_active (hr_tenant r) (runs d1)) < hc_max_per_tenant c) (candidates d1)")
    case None
    then show ?thesis using c that(1) by (simp split: if_splits)
  next
    case (Some r)
    let ?n = "tbl_count (\<lambda>x. hr_sel (hr_objective r) x \<and> hr_state x = RQueued) (runs d1)"
    have r: "r \<in> set (candidates d1)" "int (tenant_active (hr_tenant r) (runs d1)) < hc_max_per_tenant c"
      using Some by (auto simp: find_Some_iff)
    show ?thesis
    proof (cases "hc_max_global c \<le> int (tbl_count occupies (runs d1)) \<or> ?n \<noteq> 1")
      case True
      then have "(d1, None) = (d', res)" using c Some by (simp split: if_split_asm)
      then show ?thesis using that(1) by simp
    next
      case False
      then have "(d1\<lparr>runs := tbl_upd (\<lambda>x. hr_sel (hr_objective r) x \<and> hr_state x = RQueued) (lease_row c lease now) (runs d1)\<rparr>,
                Some (r\<lparr>hr_lease := Some lease, hr_attempts := hr_attempts r + 1\<rparr>)) = (d', res)"
        using c Some by simp
      then show ?thesis using that(2)[of r] r False by simp
    qed
  qed
qed

lemma candidate_row: "r \<in> set (candidates d) \<Longrightarrow> r \<in> set (runs d) \<and> hr_state r = RQueued \<and> \<not> cancel_requested d r"
  by (auto simp: candidates_def dest: in_set_takeD)

lemma claim_inv:
  assumes inv: "hosted_inv c d" and cl: "claim c tok lease now d = (d', res)"
  shows "hosted_inv c d'"
  using cl refl
proof (cases rule: claim_cases)
  case 1
  then show ?thesis using claim_base(1)[OF inv refl] by simp
next
  case (2 r)
  define d1 where "d1 = claim_db c tok now d"
  note r2 = 2[folded d1_def]
  let ?P = "\<lambda>x. hr_sel (hr_objective r) x \<and> hr_state x = RQueued"
  have i1: "hosted_inv c d1" using claim_base(1)[OF inv d1_def] .
  have row: "x = r" if "x \<in> set (runs d1)" "?P x" for x
    using hr.uniq_same[of "runs d1" x r] that candidate_row[OF r2(2)] i1 by (auto simp: hosted_inv_def hr_sel_def)
  have "tbl_count occupies (runs d') \<le> tbl_count occupies (runs d1) + 1"
    using count_upd_fresh[of ?P occupies "lease_row c lease now" "runs d1"] r2(5,6) by (auto simp: occupies_def)
  moreover have "tenant_active ten (runs d') \<le> tenant_active ten (runs d1) + (if ten = hr_tenant r then 1 else 0)" for ten
  proof (cases "ten = hr_tenant r")
    case True
    then show ?thesis
      using count_upd_fresh[of ?P "\<lambda>x. hr_tenant x = ten \<and> occupies x" "lease_row c lease now" "runs d1"] r2(5,6)
      by (auto simp: occupies_def tenant_active_def)
  next
    case False
    have "tbl_count (\<lambda>x. hr_tenant x = ten \<and> occupies x) (tbl_upd ?P (lease_row c lease now) (runs d1))
        \<le> tbl_count (\<lambda>x. hr_tenant x = ten \<and> occupies x) (runs d1)"
    proof (rule tbl_count_upd_le)
      fix x assume "x \<in> set (runs d1)" "?P x" "hr_tenant (lease_row c lease now x) = ten \<and> occupies (lease_row c lease now x)"
      then show "hr_tenant x = ten \<and> occupies x" using row[of x] False by (simp add: lease_row_def)
    qed
    then show ?thesis using False r2(6) by (simp add: tenant_active_def)
  qed
  moreover have "hr.uniq (runs d')" using i1 r2(6) by (auto simp: hosted_inv_def lease_row_def intro!: hr.uniq_upd)
  moreover have "list_all retired_ok (runs d')"
    using i1 r2(6) by (auto simp: hosted_inv_def list_all_iff set_tbl_upd lease_row_def retired_ok_def)
  moreover have "int (tenant_active ten (runs d1)) + (if ten = hr_tenant r then 1 else 0) \<le> hc_max_per_tenant c" for ten
    using i1 r2(4) by (auto simp: hosted_inv_def)
  ultimately show ?thesis using r2(3) unfolding hosted_inv_def by (smt (verit, best) of_nat_add of_nat_mono of_nat_1 of_nat_0)
qed

subsection \<open>Sequences of steps\<close>

datatype hosted_op =
    HProcess world "string \<Rightarrow> string" string int
  | HReconcile world int
  | HRetire world string int
  | HTerminalEvent string string int
  | HTables "submission table" "cancel_row table" "objective_row table"

text \<open>\<open>HTerminalEvent\<close> is the effect of a worker's terminal event on its run; \<open>HTables\<close> stands for what
  other components write.\<close>

fun exec_hosted :: "hosted_config \<Rightarrow> hosted_op \<Rightarrow> hosted_db \<Rightarrow> (unit, hosted_db, unit) outcome" where
  "exec_hosted c (HProcess w tok lease now) d = Inr (fst (process_once c w tok lease now d), ())"
| "exec_hosted c (HReconcile w now) d = Inr (fst (reconcile_once w now d), ())"
| "exec_hosted c (HRetire w ow now) d = Inr (fst (retire_owner w ow now d), ())"
| "exec_hosted c (HTerminalEvent ow ob now) d = Inr (mark_terminal ow ob now d, ())"
| "exec_hosted c (HTables ss cs os) d = Inr (d\<lparr>submissions := ss, cancels := cs, objectives := os\<rparr>, ())"

lemma process_once_shrink:
  obtains d1 res where "claim c tok lease now d = (d1, res)" "shrink (runs d1) (runs (fst (process_once c w tok lease now d)))"
proof -
  obtain d1 res where cl: "claim c tok lease now d = (d1, res)" by fastforce
  have "shrink (runs d1) (runs (launch_failed ob lease now (fst (launched ob lease now d1))))" for ob
    using launched_shrink launch_failed_shrink shrink_trans by blast
  then have "shrink (runs d1) (runs (fst (process_once c w tok lease now d)))"
    using launched_shrink[of d1 _ lease now] launch_failed_shrink[of d1 _ lease now]
    by (cases res) (simp_all add: process_once_def cl split: prod.splits bool.splits, metis fst_conv)
  with cl that show ?thesis by blast
qed

lemma tables_shrink: "shrink (runs d) (runs (d\<lparr>submissions := ss, cancels := cs, objectives := os\<rparr>))"
  by simp

lemma exec_hosted_inv: "hosted_inv c d \<Longrightarrow> exec_hosted c p d = Inr (d', a) \<Longrightarrow> hosted_inv c d'"
proof (cases p)
  case (HProcess w tok lease now)
  assume inv: "hosted_inv c d" and "exec_hosted c p d = Inr (d', a)"
  then have d': "d' = fst (process_once c w tok lease now d)" using HProcess by simp
  obtain d1 res where "claim c tok lease now d = (d1, res)" "shrink (runs d1) (runs d')"
    using process_once_shrink[of c tok lease now d w] unfolding d' by blast
  then show ?thesis using claim_inv[OF inv] shrink_inv by blast
qed (auto intro: shrink_inv reconcile_once_shrink retire_owner_shrink mark_terminal_shrink tables_shrink)

text \<open>Ended runs stay ended.\<close>

definition ended_kept :: "hosted_db \<Rightarrow> hosted_db \<Rightarrow> bool" where
  "ended_kept d d' \<longleftrightarrow> (\<forall>r \<in> set (runs d). hr_state r = RTerminal \<longrightarrow>
     (\<exists>r' \<in> set (runs d'). hr_objective r' = hr_objective r \<and> hr_state r' = RTerminal))"

lemma ended_kept_trans: "ended_kept d e \<Longrightarrow> ended_kept e f \<Longrightarrow> ended_kept d f"
  unfolding ended_kept_def by metis

lemma ended_shrink: "shrink (runs d @ ns) (runs d') \<Longrightarrow> ended_kept d d'"
  unfolding ended_kept_def using shrink_terminal by fastforce

lemma ended_shrink0: "shrink (runs d) (runs d') \<Longrightarrow> ended_kept d d'"
  using ended_shrink[of d "[]"] by simp

lemma claim_ended:
  assumes inv: "hosted_inv c d" and cl: "claim c tok lease now d = (d', res)"
  shows "ended_kept d d'"
proof -
  obtain ns where "shrink (runs d @ ns) (runs (claim_db c tok now d))" using claim_base(2)[OF inv refl] by blast
  then have e: "ended_kept d (claim_db c tok now d)" by (rule ended_shrink)
  from cl refl show ?thesis
  proof (cases rule: claim_cases)
    case 1
    with e show ?thesis by simp
  next
    case (2 r)
    have "ended_kept (claim_db c tok now d) d'" unfolding ended_kept_def 2(6)
    proof (intro ballI impI)
      fix x assume x: "x \<in> set (runs (claim_db c tok now d))" "hr_state x = RTerminal"
      then show "\<exists>r' \<in> set (runs ((claim_db c tok now d)\<lparr>runs := tbl_upd (\<lambda>x. hr_sel (hr_objective r) x \<and> hr_state x = RQueued)
          (lease_row c lease now) (runs (claim_db c tok now d))\<rparr>)). hr_objective r' = hr_objective x \<and> hr_state r' = RTerminal"
        by (intro bexI[of _ x]) (force simp: set_tbl_upd)+
    qed
    with e show ?thesis by (rule ended_kept_trans)
  qed
qed

lemma exec_hosted_ended:
  assumes inv: "hosted_inv c d" and ex: "exec_hosted c p d = Inr (d', a)"
  shows "ended_kept d d'"
proof (cases p)
  case (HProcess w tok lease now)
  then have d': "d' = fst (process_once c w tok lease now d)" using ex by simp
  obtain d1 res where "claim c tok lease now d = (d1, res)" "shrink (runs d1) (runs d')"
    using process_once_shrink[of c tok lease now d w] unfolding d' by blast
  then show ?thesis using claim_ended[OF inv] ended_shrink0 ended_kept_trans by blast
qed (use ex in \<open>auto intro: ended_shrink0 reconcile_once_shrink retire_owner_shrink mark_terminal_shrink tables_shrink\<close>)

interpretation hx: audited "exec_hosted c" "hosted_inv c" "\<lambda>_. True" ended_kept for c
  by unfold_locales (auto intro: exec_hosted_inv exec_hosted_ended ended_kept_trans ended_shrink0)

definition empty_hosted :: hosted_db where
  "empty_hosted = \<lparr>submissions = [], runs = [], cancels = [], objectives = []\<rparr>"

lemma empty_hosted_inv: "0 \<le> hc_max_global c \<Longrightarrow> 0 \<le> hc_max_per_tenant c \<Longrightarrow> hosted_inv c empty_hosted"
  by (simp add: hosted_inv_def empty_hosted_def hr.uniq_Nil tenant_active_def)

text \<open>Sample: two submissions of two owners, capacity for one worker.\<close>

definition sample_hosted :: hosted_config where
  "sample_hosted = \<lparr>hc_mac = concat, hc_sha = (\<lambda>s. ''sha:'' @ s), hc_max_global = 1, hc_max_per_tenant = 1, hc_lease_ms = 60000\<rparr>"

definition sample_submission :: "string \<Rightarrow> string \<Rightarrow> submission" where
  "sample_submission ow ob = \<lparr>sb_owner = ow, sb_objective = ob, sb_task = ''task-'' @ ob, sb_project = ''p'', sb_status = ''accepted'',
     sb_accepted_at = Some 5, sb_created_at = 5\<rparr>"

definition sample_world :: world where
  "sample_world = \<lparr>w_accepted = (\<lambda>_. True), w_started = (\<lambda>_. True), w_terminal = (\<lambda>_ _. True), w_ensure = (\<lambda>r. Some (hr_execution r)),
     w_cancel = (\<lambda>_. True), w_delete = (\<lambda>_. True), w_status = (\<lambda>_. Some (''failed'', True))\<rparr>"

definition sample_steps :: "hosted_op list" where
  "sample_steps = [HTables [sample_submission ''u'' ''o1'', sample_submission ''v'' ''o2''] [] [],
     HProcess sample_world (\<lambda>ob. ''tok-'' @ ob) ''lease1'' 10, HProcess sample_world (\<lambda>ob. ''tok-'' @ ob) ''lease2'' 20]"

lemma sample_steps_states:
  "map hr_state (runs (run_ops (exec_hosted sample_hosted) sample_steps empty_hosted)) = [RRunning, RQueued]"
  "map hr_state (runs (run_ops (exec_hosted sample_hosted) (sample_steps @ [HReconcile sample_world 30]) empty_hosted)) = [RTerminal, RQueued]"
  by code_simp+

lemma sample_hosted_nonneg: "0 \<le> hc_max_global sample_hosted" "0 \<le> hc_max_per_tenant sample_hosted"
  by (simp_all add: sample_hosted_def)



text \<open>A retired workload can never authenticate again: once a run has ended, no later sequence of
  steps lets any bearer token through for its objective.\<close>

theorem hosted_retired:
  assumes "0 \<le> hc_max_global c" and "0 \<le> hc_max_per_tenant c" and "d = run_ops (exec_hosted c) ops empty_hosted"
    and "r \<in> set (runs d)" and "hr_state r = RTerminal" and "d' = run_ops (exec_hosted c) later d"
  shows "\<exists>n. authenticate c (hr_objective r) authorization d' = Inl (HTTPException n)"
proof -
  have inv: "hosted_inv c d" using hx.run_inv[OF empty_hosted_inv[OF assms(1,2)], of ops] assms(3) by (simp add: list_all_iff)
  have inv': "hosted_inv c d'" using hx.run_inv[OF inv, of later] assms(6) by (simp add: list_all_iff)
  have "ended_kept d d'" using hx.run_older[OF inv, of later] assms(6) by (simp add: list_all_iff)
  then obtain r' where r': "r' \<in> set (runs d')" "hr_objective r' = hr_objective r" "hr_state r' = RTerminal"
    using assms(4,5) by (auto simp: ended_kept_def)
  have "x = r'" if "x \<in> set (runs d')" "hr_objective x = hr_objective r" for x
    using hr.uniq_same[of "runs d'" x r'] that r' inv' by (auto simp: hosted_inv_def)
  then have "hr_state x \<noteq> RRunning"
    if "tbl_get (\<lambda>x. hr_sel (hr_objective r) x \<and> tbl_ex (\<lambda>s. sb_objective s = hr_objective r) (submissions d')) (runs d') = Some x" for x
    using tbl_get_Some_iff[OF that] r'(3) by (auto simp: hr_sel_def)
  then show ?thesis by (auto simp: authenticate_def Let_def split: option.splits)
qed

theorem hosted_retired_witness:
  "let d = run_ops (exec_hosted sample_hosted) (sample_steps @ [HReconcile sample_world 30]) empty_hosted;
       d' = run_ops (exec_hosted sample_hosted) [HProcess sample_world (\<lambda>ob. ''tok-'' @ ob) ''lease3'' 40] d
   in \<exists>n. authenticate sample_hosted (hr_objective (hd (runs d))) (Some ''Bearer tok-o1'') d' = Inl (HTTPException n)"
proof -
  let ?d = "run_ops (exec_hosted sample_hosted) (sample_steps @ [HReconcile sample_world 30]) empty_hosted"
  have "hd (runs ?d) \<in> set (runs ?d)" "hr_state (hd (runs ?d)) = RTerminal"
    using sample_steps_states(2) by (cases "runs ?d"; simp)+
  from hosted_retired[OF sample_hosted_nonneg refl this refl] show ?thesis by (simp add: Let_def del: run_ops.simps)
qed

text \<open>Launch leases fence stale controllers: reporting a launch under a lease the run does not hold
  fails and changes nothing, so a controller whose lease expired and was claimed again cannot
  mark the run as running.\<close>

theorem stale_lease_fenced:
  assumes "claim c tok lease now d = (d1, Some r)" and "hosted_inv c d" and "old \<noteq> lease"
  shows "launched (hr_objective r) old now2 d1 = (d1, False) \<and> launch_failed (hr_objective r) old now2 d1 = d1"
proof -
  have i1: "hosted_inv c d1" using claim_inv[OF assms(2,1)] .
  have "\<not> lease_sel (hr_objective r) old x" if x: "x \<in> set (runs d1)" for x
    using assms(1) refl
  proof (cases rule: claim_cases)
    case (2 r0)
    let ?P = "\<lambda>x. hr_sel (hr_objective r0) x \<and> hr_state x = RQueued"
    define d0 where "d0 = claim_db c tok now d"
    have r0: "r0 \<in> set (runs d0)" "hr_state r0 = RQueued" using candidate_row[OF 2(2)] by (simp_all add: d0_def)
    have ob: "hr_objective r = hr_objective r0" using 2(1) by simp
    have in1: "lease_row c lease now r0 \<in> set (runs d1)"
      using r0 2(6) by (force simp: set_tbl_upd hr_sel_def d0_def)
    show ?thesis
    proof
      assume l: "lease_sel (hr_objective r) old x"
      then have "x = lease_row c lease now r0"
        using hr.uniq_same[of "runs d1" x "lease_row c lease now r0"] x in1 i1 ob
        by (auto simp: hosted_inv_def lease_sel_def hr_sel_def lease_row_def)
      with l assms(3) show False by (simp add: lease_sel_def lease_row_def)
    qed
  qed simp
  then have none: "\<And>x. x \<in> set (runs d1) \<Longrightarrow> \<not> lease_sel (hr_objective r) old x" by blast
  have "tbl_count (lease_sel (hr_objective r) old) (runs d1) = 0"
    using none by (auto simp: tbl_count_def filter_empty_conv)
  moreover have "tbl_upd (lease_sel (hr_objective r) old) f (runs d1) = runs d1" for f
    using none by (intro tbl_upd_none) auto
  ultimately show ?thesis by (simp add: launched_def launch_failed_def)
qed

theorem stale_lease_fenced_witness:
  "\<exists>d1 r. claim sample_hosted (\<lambda>ob. ''tok-'' @ ob) ''lease1'' 10 (empty_hosted\<lparr>submissions := [sample_submission ''u'' ''o1'']\<rparr>) = (d1, Some r)
     \<and> launched (hr_objective r) ''lease0'' 20 d1 = (d1, False)"
proof -
  let ?d = "empty_hosted\<lparr>submissions := [sample_submission ''u'' ''o1'']\<rparr>"
  have "snd (claim sample_hosted (\<lambda>ob. ''tok-'' @ ob) ''lease1'' 10 ?d) \<noteq> None" by code_simp
  then obtain d1 r where c: "claim sample_hosted (\<lambda>ob. ''tok-'' @ ob) ''lease1'' 10 ?d = (d1, Some r)"
    by (cases "claim sample_hosted (\<lambda>ob. ''tok-'' @ ob) ''lease1'' 10 ?d") auto
  have "hosted_inv sample_hosted ?d" using shrink_inv[OF empty_hosted_inv[OF sample_hosted_nonneg], of ?d] by simp
  from stale_lease_fenced[OF c this, of "''lease0''"] c show ?thesis by auto
qed

end
