(* ===== verification/Push_Receipts.thy ===== *)
theory Push_Receipts
  imports Py_Values
begin

text \<open>
  \<open>app/push_receipts.py\<close>, class \<open>PushDeliveryStore\<close>: a durable row per (user, item, fingerprint,
  device token) with the state machine
  \<open>sending -> pending -> delivered\<close>, with \<open>retry\<close> after a failed send and \<open>failed\<close>, \<open>expired\<close> as the other
  final states. \<open>sha\<close> stands for \<open>hashlib.sha256(x.encode()).hexdigest()\<close>; time is in seconds.
  The tables \<open>push_tokens\<close>, \<open>notification_state\<close> and \<open>notification_preferences\<close> of
  \<open>app/notifications.py\<close> are part of the same database.
\<close>

datatype dl_state = DSending | DRetry | DPending | DDelivered | DFailed | DExpired

record delivery =
  dl_id :: string
  dl_user :: string
  dl_item :: string
  dl_fingerprint :: string
  dl_token :: string
  dl_ticket :: "string option"
  dl_state :: dl_state
  dl_sends :: int
  dl_polls :: int
  dl_next :: int
  dl_expires :: int
  dl_created :: int
  dl_updated :: int
  dl_error :: "string option"

record push_token =
  pt_user :: string
  pt_token :: string
  pt_platform :: string
  pt_updated :: int
  pt_revoked :: "int option"
  pt_offset :: "int option"

record notif =
  nt_user :: string
  nt_item :: string
  nt_fingerprint :: string
  nt_active :: bool
  nt_delivered :: bool
  nt_viewed :: bool
  nt_updated :: int

record preference =
  pf_user :: string
  pf_enabled :: bool
  pf_start :: "int option"
  pf_end :: "int option"
  pf_mode :: string

record access_grant =
  gr_user :: string
  gr_revoked :: "int option"
  gr_expires :: int

text \<open>\<open>friend_grants\<close> is \<open>None\<close> where the table \<open>friend_beta_access_grants\<close> does not exist.\<close>

record push_db =
  deliveries :: "delivery table"
  push_tokens :: "push_token table"
  notifs :: "notif table"
  preferences :: "preference table"
  friend_grants :: "access_grant table option"

datatype push_error = PushValueError | PushIntegrityError

definition RECEIPT_DELAY :: int where "RECEIPT_DELAY = 15 * 60"

definition RECEIPT_TTL :: int where "RECEIPT_TTL = 24 * 60 * 60"

definition MAX_SENDS :: int where "MAX_SENDS = 3"

definition dl_sel :: "string \<Rightarrow> delivery \<Rightarrow> bool" where
  "dl_sel k r \<longleftrightarrow> dl_id r = k"

definition upd_delivery :: "(delivery \<Rightarrow> bool) \<Rightarrow> (delivery \<Rightarrow> delivery) \<Rightarrow> push_db \<Rightarrow> push_db" where
  "upd_delivery P f d = d\<lparr>deliveries := tbl_upd P f (deliveries d)\<rparr>"

text \<open>The identity of a delivery: the digest of its NUL-joined key.\<close>

definition push_identity :: "(string \<Rightarrow> string) \<Rightarrow> string \<Rightarrow> string \<Rightarrow> string \<Rightarrow> string \<Rightarrow> string" where
  "push_identity sha user item fp th =
     sha (''push-v1'' @ CHR 0x00 # user @ CHR 0x00 # item @ CHR 0x00 # fp @ CHR 0x00 # th)"

definition unsent :: "delivery \<Rightarrow> bool" where
  "unsent r \<longleftrightarrow> dl_state r = DSending \<or> dl_state r = DRetry"

definition new_delivery :: "(string \<Rightarrow> string) \<Rightarrow> string \<Rightarrow> string \<Rightarrow> string \<Rightarrow> string \<Rightarrow> int \<Rightarrow> delivery" where
  "new_delivery sha user item fp token now =
     \<lparr>dl_id = push_identity sha user item fp (sha token), dl_user = user, dl_item = item, dl_fingerprint = fp,
      dl_token = sha token, dl_ticket = None, dl_state = DSending, dl_sends = 1, dl_polls = 0,
      dl_next = now + 120, dl_expires = now + RECEIPT_TTL, dl_created = now, dl_updated = now, dl_error = None\<rparr>"

text \<open>\<open>LIKE 'owner-test-%'\<close>, which ignores the case of ASCII letters.\<close>

definition recent_owner_test :: "string \<Rightarrow> int \<Rightarrow> delivery \<Rightarrow> bool" where
  "recent_owner_test user now r \<longleftrightarrow>
     dl_user r = user \<and> starts_with ''owner-test-'' (py_lower (dl_item r)) \<and> now - 60 < dl_created r"

definition claim_send :: "(string \<Rightarrow> string) \<Rightarrow> string \<Rightarrow> string \<Rightarrow> string \<Rightarrow> string \<Rightarrow> bool \<Rightarrow> int \<Rightarrow> push_db
    \<Rightarrow> (push_error, push_db, delivery option) outcome" where
  "claim_send sha user item fp token owner_test now d =
     (let ident = push_identity sha user item fp (sha token) in
      case tbl_get (dl_sel ident) (deliveries d) of
        Some r \<Rightarrow>
          if unsent r \<and> dl_expires r \<le> now
          then Inr (upd_delivery (dl_sel ident) (\<lambda>x. x\<lparr>dl_state := DExpired, dl_error := Some ''send_expired'', dl_updated := now\<rparr>) d, None)
          else if \<not> unsent r \<or> now < dl_next r then Inr (d, None)
          else if MAX_SENDS \<le> dl_sends r
          then Inr (upd_delivery (dl_sel ident) (\<lambda>x. x\<lparr>dl_state := DFailed, dl_error := Some ''send_exhausted'', dl_updated := now\<rparr>) d, None)
          else
            let d1 = upd_delivery (dl_sel ident) (\<lambda>x. x\<lparr>dl_state := DSending, dl_sends := dl_sends x + 1,
                       dl_next := now + 120, dl_updated := now\<rparr>) d
            in Inr (d1, tbl_get (dl_sel ident) (deliveries d1))
      | None \<Rightarrow>
          if owner_test \<and> tbl_ex (recent_owner_test user now) (deliveries d) then Inr (d, None)
          else if tbl_ex (\<lambda>x. dl_user x = user \<and> dl_item x = item \<and> dl_fingerprint x = fp \<and> dl_token x = sha token) (deliveries d)
          then Inl PushIntegrityError
          else Inr (d\<lparr>deliveries := deliveries d @ [new_delivery sha user item fp token now]\<rparr>,
                    Some (new_delivery sha user item fp token now)))"

text \<open>A claim is identified by its row and its attempt: a later attempt fences an earlier one.\<close>

definition claim_sel :: "delivery \<Rightarrow> delivery \<Rightarrow> bool" where
  "claim_sel c x \<longleftrightarrow> dl_sel (dl_id c) x \<and> dl_state x = DSending \<and> dl_sends x = dl_sends c"

definition accepted :: "delivery \<Rightarrow> string \<Rightarrow> int \<Rightarrow> push_db \<Rightarrow> (push_error, push_db, unit) outcome" where
  "accepted c ticket now d =
     (if tbl_ex (claim_sel c) (deliveries d)
         \<and> tbl_ex (\<lambda>x. \<not> claim_sel c x \<and> dl_ticket x = Some ticket) (deliveries d)
      then Inl PushIntegrityError
      else Inr (upd_delivery (claim_sel c) (\<lambda>x. x\<lparr>dl_state := DPending, dl_ticket := Some ticket,
                  dl_next := now + RECEIPT_DELAY, dl_updated := now, dl_error := None\<rparr>) d, ()))"

definition send_failed :: "delivery \<Rightarrow> bool \<Rightarrow> int \<Rightarrow> push_db \<Rightarrow> push_db" where
  "send_failed c retryable now d =
     upd_delivery (claim_sel c) (\<lambda>x. x\<lparr>dl_state := (if retryable \<and> dl_sends c < MAX_SENDS then DRetry else DFailed),
       dl_next := now + 60 * 2 ^ nat (dl_sends c), dl_updated := now, dl_error := Some ''send_failed''\<rparr>) d"

definition due_receipts :: "int \<Rightarrow> delivery table \<Rightarrow> delivery list" where
  "due_receipts now t = take 100 (sort_key dl_next (filter (\<lambda>r. dl_state r = DPending \<and> dl_next r \<le> now) t))"

definition poll_delay :: "int \<Rightarrow> int" where
  "poll_delay polls = min 3600 (60 * 2 ^ nat (min polls 6))"

definition poll_receipt :: "int \<Rightarrow> delivery \<Rightarrow> delivery table \<Rightarrow> delivery table" where
  "poll_receipt now r = tbl_upd (dl_sel (dl_id r)) (\<lambda>x. x\<lparr>dl_next := now + poll_delay (dl_polls r),
      dl_polls := dl_polls x + 1, dl_updated := now\<rparr>)"

definition claim_receipts :: "int \<Rightarrow> push_db \<Rightarrow> push_db \<times> delivery list" where
  "claim_receipts now d =
     (let t = tbl_upd (\<lambda>r. dl_state r = DPending \<and> dl_expires r \<le> now)
                (\<lambda>x. x\<lparr>dl_state := DExpired, dl_error := Some ''receipt_expired'', dl_updated := now\<rparr>) (deliveries d);
          rows = due_receipts now t
      in (d\<lparr>deliveries := fold (poll_receipt now) rows t\<rparr>, rows))"

definition current_token :: "string \<Rightarrow> push_db \<Rightarrow> push_token option" where
  "current_token user d = tbl_get (\<lambda>p. pt_user p = user \<and> pt_revoked p = None) (push_tokens d)"

definition receipt :: "(string \<Rightarrow> string) \<Rightarrow> delivery \<Rightarrow> bool \<Rightarrow> bool \<Rightarrow> int \<Rightarrow> push_db \<Rightarrow> push_db" where
  "receipt sha dl delivered invalid now d =
     (let sel = (\<lambda>x. dl_sel (dl_id dl) x \<and> dl_state x = DPending);
          d1 = upd_delivery sel (\<lambda>x. x\<lparr>dl_state := (if delivered then DDelivered else DFailed),
                 dl_error := (if delivered then None else Some ''receipt_rejected''), dl_updated := now\<rparr>) d
      in if tbl_count sel (deliveries d) = 0 then d1
         else case current_token (dl_user dl) d1 of
           None \<Rightarrow> d1
         | Some p \<Rightarrow>
             if sha (pt_token p) \<noteq> dl_token dl then d1
             else
               let d2 = (if invalid then d1\<lparr>push_tokens := tbl_upd (\<lambda>q. pt_user q = dl_user dl \<and> pt_token q = pt_token p)
                           (\<lambda>q. q\<lparr>pt_revoked := Some now\<rparr>) (push_tokens d1)\<rparr> else d1)
               in if delivered then d2\<lparr>notifs := tbl_upd (\<lambda>n. nt_user n = dl_user dl \<and> nt_item n = dl_item dl
                        \<and> nt_fingerprint n = dl_fingerprint dl \<and> nt_active n) (\<lambda>n. n\<lparr>nt_delivered := True\<rparr>) (notifs d2)\<rparr>
                  else d2)"

definition summary_count :: "string \<Rightarrow> dl_state \<Rightarrow> push_db \<Rightarrow> nat" where
  "summary_count user s d = tbl_count (\<lambda>r. dl_user r = user \<and> dl_state r = s) (deliveries d)"

record push_evidence =
  ev_queued :: nat
  ev_provider_accepted :: nat
  ev_provider_handoff :: nat
  ev_failed :: nat
  ev_expired :: nat

definition evidence_summary :: "string \<Rightarrow> push_db \<Rightarrow> push_evidence" where
  "evidence_summary user d =
     \<lparr>ev_queued = summary_count user DSending d + summary_count user DRetry d,
      ev_provider_accepted = summary_count user DPending d, ev_provider_handoff = summary_count user DDelivered d,
      ev_failed = summary_count user DFailed d, ev_expired = summary_count user DExpired d\<rparr>"

end
