(* ===== verification/Notifications.thy ===== *)
theory Notifications
  imports Push_Receipts
begin

text \<open>
  \<open>app/notifications.py\<close>: device registration, notification preferences, the reconciliation of attention
  items into per-user notification rows, remote dispatch through \<open>PushDeliveryStore\<close> and receipt
  polling. \<open>digest\<close> stands for the SHA-256 of the canonical JSON dump; the HTTP answers of the push
  provider are an argument. One call reads the clock once: \<open>now\<close> is in seconds, \<open>now_ms\<close> in
  milliseconds.
\<close>

subsection \<open>Policy\<close>

definition NOTIFICATION_MODES :: "string list" where
  "NOTIFICATION_MODES = [''restricted'', ''moderate'', ''full'']"

definition DEFAULT_NOTIFICATION_MODE :: string where
  "DEFAULT_NOTIFICATION_MODE = ''moderate''"

definition ACCOUNT_ATTENTION_KINDS :: "string list" where
  "ACCOUNT_ATTENTION_KINDS = [''budget'', ''credit'', ''repository_disconnected'', ''payment_issue'']"

definition RESTRICTED_KINDS :: "string list" where
  "RESTRICTED_KINDS = [''captain_question'', ''blocker'', ''consequential_decision''] @ ACCOUNT_ATTENTION_KINDS"

definition MODERATE_KINDS :: "string list" where
  "MODERATE_KINDS = RESTRICTED_KINDS @ [''pr_ready'', ''stall'', ''failure'', ''completion'']"

definition FULL_KINDS :: "string list" where
  "FULL_KINDS = [''captain_question'', ''blocker'', ''stall'', ''failure'', ''completion'', ''consequential_decision'']
     @ ACCOUNT_ATTENTION_KINDS"

definition INFORMATIONAL_KINDS :: "string list" where
  "INFORMATIONAL_KINDS = [''completion'', ''pr_ready'']"

definition KNOWN_PLATFORMS :: "string list" where
  "KNOWN_PLATFORMS = [''ios'', ''android'', ''native'']"

definition kind_in :: "string option \<Rightarrow> string list \<Rightarrow> bool" where
  "kind_in k ks \<longleftrightarrow> (case k of None \<Rightarrow> False | Some s \<Rightarrow> s \<in> set ks)"

definition mode_for_kind :: "string \<Rightarrow> string option \<Rightarrow> bool \<Rightarrow> bool" where
  "mode_for_kind m kind consequential =
     (if m = ''restricted'' then kind_in kind RESTRICTED_KINDS
      else if m = ''full'' then kind_in kind FULL_KINDS \<or> (kind = Some ''pr_ready'' \<and> consequential)
      else kind_in kind MODERATE_KINDS)"

definition quiet :: "int option \<Rightarrow> int option \<Rightarrow> int option \<Rightarrow> bool" where
  "quiet hour qs qe =
     (case (hour, qs, qe) of
        (Some h, Some a, Some b) \<Rightarrow> if a < b then a \<le> h \<and> h < b else a \<le> h \<or> h < b
      | _ \<Rightarrow> False)"

subsection \<open>Devices\<close>

definition token_char :: "char \<Rightarrow> bool" where
  "token_char c \<longleftrightarrow> is_alnum c \<or> c = CHR ''_'' \<or> c = CHR ''-''"

definition bracketed :: "string \<Rightarrow> string \<Rightarrow> bool" where
  "bracketed prefix t \<longleftrightarrow> starts_with prefix t \<and>
     (let body = drop (length prefix) t in
      body \<noteq> [] \<and> last body = CHR '']'' \<and> 1 \<le> length (butlast body) \<and> length (butlast body) \<le> 200
      \<and> list_all token_char (butlast body))"

definition validate_push_token :: "string \<Rightarrow> push_error + string" where
  "validate_push_token raw =
     (let token = py_strip raw in
      if token = [] then Inl PushValueError
      else if bracketed ''ExponentPushToken['' token \<or> bracketed ''ExpoPushToken['' token then Inr token
      else Inl PushValueError)"

definition register_push_token :: "string \<Rightarrow> string \<Rightarrow> string \<Rightarrow> int option \<Rightarrow> int \<Rightarrow> push_db \<Rightarrow> (push_error, push_db, unit) outcome" where
  "register_push_token user raw platform offset now d =
     (case validate_push_token raw of
        Inl e \<Rightarrow> Inl e
      | Inr token \<Rightarrow>
          let plat = py_strip (py_lower (if platform = [] then ''ios'' else platform)) in
          if plat \<notin> set KNOWN_PLATFORMS then Inl PushValueError
          else if (case offset of None \<Rightarrow> False | Some n \<Rightarrow> n < - 840 \<or> 840 < n) then Inl PushValueError
          else
            let row = \<lparr>pt_user = user, pt_token = token, pt_platform = plat, pt_updated = now, pt_revoked = None, pt_offset = offset\<rparr>;
                t = push_tokens d
            in Inr (d\<lparr>push_tokens := (if tbl_ex (\<lambda>p. pt_user p = user) t then tbl_upd (\<lambda>p. pt_user p = user) (\<lambda>_. row) t else t @ [row])\<rparr>, ()))"

definition revoke_push_token :: "string \<Rightarrow> string option \<Rightarrow> int \<Rightarrow> push_db \<Rightarrow> push_db" where
  "revoke_push_token user token now d =
     d\<lparr>push_tokens := tbl_upd (\<lambda>p. pt_user p = user \<and>
          (case token of None \<Rightarrow> True | Some t \<Rightarrow> t = [] \<or> pt_token p = py_strip t))
        (\<lambda>p. p\<lparr>pt_revoked := Some now\<rparr>) (push_tokens d)\<rparr>"

text \<open>Friend-beta grants: a user with a grant row needs a live one while the beta is enabled.\<close>

definition grant_open :: "bool \<Rightarrow> string \<Rightarrow> int \<Rightarrow> push_db \<Rightarrow> bool" where
  "grant_open friend_enabled user now d =
     (case friend_grants d of
        None \<Rightarrow> True
      | Some gs \<Rightarrow> \<not> tbl_ex (\<lambda>g. gr_user g = user) gs
          \<or> (friend_enabled \<and> tbl_ex (\<lambda>g. gr_user g = user \<and> gr_revoked g = None \<and> now < gr_expires g) gs))"

definition get_registered_push_token :: "bool \<Rightarrow> string \<Rightarrow> int \<Rightarrow> push_db \<Rightarrow> push_token option" where
  "get_registered_push_token friend_enabled user now d =
     (if grant_open friend_enabled user now d then current_token user d else None)"

definition list_registered_push_users :: "bool \<Rightarrow> int \<Rightarrow> push_db \<Rightarrow> string list" where
  "list_registered_push_users friend_enabled now d =
     map pt_user (filter (\<lambda>p. pt_revoked p = None \<and> pt_token p \<noteq> [] \<and> grant_open friend_enabled (pt_user p) now d) (push_tokens d))"

definition registered_local_hour :: "bool \<Rightarrow> string \<Rightarrow> int \<Rightarrow> push_db \<Rightarrow> int" where
  "registered_local_hour friend_enabled user now d =
     (let offset = (case get_registered_push_token friend_enabled user now d of
                      None \<Rightarrow> 0 | Some p \<Rightarrow> (case pt_offset p of None \<Rightarrow> 0 | Some n \<Rightarrow> n))
      in ((now - 60 * offset) div 3600) mod 24)"

subsection \<open>Preferences\<close>

record prefs_view =
  pv_enabled :: bool
  pv_start :: "int option"
  pv_end :: "int option"
  pv_mode :: string

definition get_notification_preferences :: "string \<Rightarrow> push_db \<Rightarrow> prefs_view" where
  "get_notification_preferences user d =
     (case tbl_get (\<lambda>p. pf_user p = user) (preferences d) of
        None \<Rightarrow> \<lparr>pv_enabled = True, pv_start = None, pv_end = None, pv_mode = DEFAULT_NOTIFICATION_MODE\<rparr>
      | Some p \<Rightarrow> \<lparr>pv_enabled = pf_enabled p, pv_start = pf_start p, pv_end = pf_end p,
          pv_mode = (if pf_mode p \<in> set NOTIFICATION_MODES then pf_mode p else DEFAULT_NOTIFICATION_MODE)\<rparr>)"

definition bad_hour :: "int option \<Rightarrow> bool" where
  "bad_hour h = (case h of None \<Rightarrow> False | Some n \<Rightarrow> n < 0 \<or> 23 < n)"

definition update_notification_preferences :: "string \<Rightarrow> bool \<Rightarrow> int option \<Rightarrow> int option \<Rightarrow> string \<Rightarrow> push_db
    \<Rightarrow> (push_error, push_db, prefs_view) outcome" where
  "update_notification_preferences user enabled qs qe m d =
     (if m \<notin> set NOTIFICATION_MODES then Inl PushValueError
      else if (qs = None) \<noteq> (qe = None) then Inl PushValueError
      else if bad_hour qs \<or> bad_hour qe then Inl PushValueError
      else
        let row = \<lparr>pf_user = user, pf_enabled = enabled, pf_start = qs, pf_end = qe, pf_mode = m\<rparr>;
            t = preferences d
        in Inr (d\<lparr>preferences := (if tbl_ex (\<lambda>p. pf_user p = user) t then tbl_upd (\<lambda>p. pf_user p = user) (\<lambda>_. row) t else t @ [row])\<rparr>,
             \<lparr>pv_enabled = enabled, pv_start = qs, pv_end = qe, pv_mode = m\<rparr>))"

subsection \<open>Reconciliation of attention items\<close>

record att_item =
  at_id :: string
  at_kind :: "string option"
  at_requires :: bool
  at_consequential :: bool
  at_revision :: json
  at_title :: json
  at_subtitle :: json
  at_status :: json
  at_url :: json
  at_decision :: json

definition fingerprint :: "(json \<Rightarrow> string) \<Rightarrow> att_item \<Rightarrow> string" where
  "fingerprint digest i = digest (JObj [
     (''kind'', case at_kind i of None \<Rightarrow> JNull | Some k \<Rightarrow> JStr k), (''revision'', at_revision i), (''title'', at_title i),
     (''subtitle'', at_subtitle i), (''status'', at_status i), (''url'', at_url i), (''decision_notification'', at_decision i)])"

text \<open>A dict comprehension keyed by id: a repeated id keeps its first position and its last value.\<close>

fun dict_put :: "att_item \<Rightarrow> att_item list \<Rightarrow> att_item list" where
  "dict_put i [] = [i]"
| "dict_put i (x # xs) = (if at_id x = at_id i then i # xs else x # dict_put i xs)"

definition by_id :: "att_item list \<Rightarrow> att_item list" where
  "by_id items = fold dict_put items []"

definition actionable_items :: "string \<Rightarrow> att_item list \<Rightarrow> att_item list" where
  "actionable_items m items = by_id (filter (\<lambda>i. (at_requires i \<or> kind_in (at_kind i) INFORMATIONAL_KINDS)
      \<and> mode_for_kind m (at_kind i) (at_consequential i)) items)"

definition nt_sel :: "string \<times> string \<Rightarrow> notif \<Rightarrow> bool" where
  "nt_sel k n \<longleftrightarrow> (nt_user n, nt_item n) = k"

definition retire_notes :: "string \<Rightarrow> string list \<Rightarrow> int \<Rightarrow> notif table \<Rightarrow> notif table" where
  "retire_notes user ids now = tbl_upd (\<lambda>n. nt_user n = user \<and> nt_item n \<notin> set ids \<and> nt_active n)
     (\<lambda>n. n\<lparr>nt_active := False, nt_delivered := True, nt_viewed := True, nt_updated := now\<rparr>)"

definition note_changed :: "string \<Rightarrow> notif option \<Rightarrow> bool" where
  "note_changed fp row = (case row of None \<Rightarrow> True | Some n \<Rightarrow> nt_fingerprint n \<noteq> fp \<or> \<not> nt_active n)"

definition upsert_note :: "string \<Rightarrow> string \<Rightarrow> string \<Rightarrow> int \<Rightarrow> notif table \<Rightarrow> notif table" where
  "upsert_note user item fp now t =
     (if tbl_ex (nt_sel (user, item)) t
      then tbl_upd (nt_sel (user, item)) (\<lambda>n. n\<lparr>nt_fingerprint := fp, nt_active := True, nt_delivered := False,
             nt_viewed := False, nt_updated := now\<rparr>) t
      else t @ [\<lparr>nt_user = user, nt_item = item, nt_fingerprint = fp, nt_active = True, nt_delivered = False,
             nt_viewed = False, nt_updated = now\<rparr>])"

definition reconcile_item :: "(json \<Rightarrow> string) \<Rightarrow> string \<Rightarrow> int \<Rightarrow> notif table \<Rightarrow> att_item \<Rightarrow> notif table \<times> att_item list
    \<Rightarrow> notif table \<times> att_item list" where
  "reconcile_item digest user now existing i acc =
     (let row = tbl_get (nt_sel (user, at_id i)) existing;
          changed = note_changed (fingerprint digest i) row;
          t = (if changed then upsert_note user (at_id i) (fingerprint digest i) now (fst acc) else fst acc);
          delivered = (if changed then False else (case row of None \<Rightarrow> False | Some n \<Rightarrow> nt_delivered n))
      in (t, if delivered then snd acc else snd acc @ [i]))"

definition mark_delivered :: "string \<Rightarrow> string list \<Rightarrow> notif table \<Rightarrow> notif table" where
  "mark_delivered user ids = tbl_upd (\<lambda>n. nt_user n = user \<and> nt_item n \<in> set ids \<and> nt_active n) (\<lambda>n. n\<lparr>nt_delivered := True\<rparr>)"

record reconciled =
  rc_events :: "att_item list"
  rc_enabled :: bool
  rc_mode :: string
  rc_quiet :: bool
  rc_suppressed :: bool

definition reconcile_notification_events :: "(json \<Rightarrow> string) \<Rightarrow> string \<Rightarrow> att_item list \<Rightarrow> bool \<Rightarrow> int option \<Rightarrow> int \<Rightarrow> push_db
    \<Rightarrow> push_db \<times> reconciled" where
  "reconcile_notification_events digest user items foreground hour now d =
     (let pv = get_notification_preferences user d;
          acts = actionable_items (pv_mode pv) items;
          t0 = retire_notes user (map at_id acts) now (notifs d);
          (t1, pending) = fold (reconcile_item digest user now (notifs d)) acts (t0, []);
          q = quiet hour (pv_start pv) (pv_end pv);
          t2 = (if foreground then mark_delivered user (map at_id pending) t1 else t1);
          shown = (if foreground then [] else pending)
      in (d\<lparr>notifs := t2\<rparr>,
          \<lparr>rc_events = (if pv_enabled pv \<and> \<not> q then shown else []), rc_enabled = pv_enabled pv, rc_mode = pv_mode pv,
           rc_quiet = q, rc_suppressed = foreground\<rparr>))"

definition unread_events :: "string \<Rightarrow> att_item list \<Rightarrow> prefs_view \<Rightarrow> push_db \<Rightarrow> att_item list" where
  "unread_events user items pv d =
     (if \<not> pv_enabled pv then []
      else concat (map (\<lambda>n. filter (\<lambda>i. at_id i = nt_item n) (by_id items))
             (filter (\<lambda>n. nt_user n = user \<and> nt_active n \<and> \<not> nt_viewed n) (notifs d))))"

definition mark_notification_events_delivered :: "string \<Rightarrow> string list \<Rightarrow> push_db \<Rightarrow> push_db" where
  "mark_notification_events_delivered user ids d = d\<lparr>notifs := mark_delivered user ids (notifs d)\<rparr>"

definition acknowledge_notification_events :: "string \<Rightarrow> string list \<Rightarrow> push_db \<Rightarrow> push_db" where
  "acknowledge_notification_events user ids d =
     d\<lparr>notifs := tbl_upd (\<lambda>n. nt_user n = user \<and> nt_item n \<in> set ids \<and> nt_active n)
        (\<lambda>n. n\<lparr>nt_delivered := True, nt_viewed := True\<rparr>) (notifs d)\<rparr>"

subsection \<open>Remote delivery\<close>

datatype push_outcome = OutSkipped | OutAccepted string | OutRevoked | OutError bool

text \<open>The push ticket of a provider answer, and what one answer means: stop with an outcome, or try
  again (\<open>None\<close>). An answer is its HTTP status and its JSON body (\<open>None\<close> for a transport failure).\<close>

definition ticket_of :: "json \<Rightarrow> json" where
  "ticket_of result =
     (let t = (case result of JObj kvs \<Rightarrow> (case map_of kvs ''data'' of None \<Rightarrow> result | Some v \<Rightarrow> v) | _ \<Rightarrow> JObj [])
      in case t of JList [] \<Rightarrow> JObj [] | JList (x # _) \<Rightarrow> x | _ \<Rightarrow> t)"

definition ticket_id_ok :: "string \<Rightarrow> bool" where
  "ticket_id_ok s \<longleftrightarrow> 1 \<le> length s \<and> length s \<le> 200 \<and> list_all token_char s"

definition send_step :: "(int \<times> json) option \<Rightarrow> push_outcome option" where
  "send_step response =
     (case response of
        None \<Rightarrow> None
      | Some (status, body) \<Rightarrow>
          let ticket = ticket_of body in
          if 200 \<le> status \<and> status < 300 \<and> jget ticket ''status'' = JStr ''ok'' then
            (case jget ticket ''id'' of
               JStr tid \<Rightarrow> Some (if ticket_id_ok tid then OutAccepted tid else OutError False)
             | _ \<Rightarrow> Some (OutError False))
          else if jget (jget ticket ''details'') ''error'' = JStr ''DeviceNotRegistered'' then Some OutRevoked
          else if status < 500 \<and> status \<noteq> 429 then Some (OutError False)
          else None)"

fun send_loop :: "nat \<Rightarrow> (nat \<Rightarrow> (int \<times> json) option) \<Rightarrow> nat \<Rightarrow> push_outcome" where
  "send_loop 0 answer attempt = OutError True"
| "send_loop (Suc n) answer attempt =
     (case send_step (answer attempt) of Some outcome \<Rightarrow> outcome | None \<Rightarrow> send_loop n answer (Suc attempt))"

definition MAX_PUSH_ATTEMPTS :: int where "MAX_PUSH_ATTEMPTS = 3"

definition send_push_notification :: "bool \<Rightarrow> string \<Rightarrow> string option \<Rightarrow> int \<Rightarrow> (nat \<Rightarrow> (int \<times> json) option) \<Rightarrow> int \<Rightarrow> push_db
    \<Rightarrow> push_db \<times> push_outcome" where
  "send_push_notification friend_enabled user expected max_attempts answer now d =
     (case get_registered_push_token friend_enabled user now d of
        None \<Rightarrow> (d, OutSkipped)
      | Some p \<Rightarrow>
          if expected \<noteq> None \<and> expected \<noteq> Some (pt_token p) then (d, OutSkipped)
          else
            let outcome = send_loop (nat (max 1 (min MAX_PUSH_ATTEMPTS max_attempts))) answer 0 in
            (if outcome = OutRevoked then revoke_push_token user (Some (pt_token p)) now d else d, outcome))"

text \<open>\<open>DecisionNotification\<close>: an absent envelope is \<open>Inr None\<close>, an invalid one raises.\<close>

definition note_ref_ok :: "json \<Rightarrow> bool" where
  "note_ref_ok v = (case v of
     JStr s \<Rightarrow> 1 \<le> length s \<and> length s \<le> 128 \<and> list_all (\<lambda>c. is_alnum c \<or> c \<in> set ''._:-'') s
   | _ \<Rightarrow> False)"

definition DECISION_FIELDS :: "string set" where
  "DECISION_FIELDS = {''schema_version'', ''decision_id'', ''task_id'', ''run_id'', ''request_id'', ''scope'', ''revision'', ''expires_at''}"

definition decision_notification :: "att_item \<Rightarrow> push_error + int option" where
  "decision_notification i =
     (let v = at_decision i in
      if v = JNull then Inr None
      else if is_JObj v \<and> jkeys v = DECISION_FIELDS \<and> jget v ''schema_version'' = JStr ''magistrate.decision-notification.v1''
        \<and> list_all (\<lambda>k. note_ref_ok (jget v k)) [''decision_id'', ''task_id'', ''run_id'', ''request_id'', ''scope'']
      then (case (jget v ''revision'', jget v ''expires_at'') of
              (JInt r, JInt e) \<Rightarrow> if 1 \<le> r \<and> r \<le> 2147483647 \<and> 1 \<le> e \<and> e \<le> 9007199254740991 then Inr (Some e) else Inl PushValueError
            | _ \<Rightarrow> Inl PushValueError)
      else Inl PushValueError)"

text \<open>What happens to a claim after the provider was asked.\<close>

definition conclude_send :: "delivery \<Rightarrow> push_outcome \<Rightarrow> int \<Rightarrow> push_db \<Rightarrow> push_db \<times> bool" where
  "conclude_send c outcome now d =
     (case outcome of
        OutAccepted ticket \<Rightarrow>
          (case accepted c ticket now d of
             Inr (d1, _) \<Rightarrow> (d1, True)
           | Inl _ \<Rightarrow> (send_failed c False now d, False))
      | OutError retryable \<Rightarrow> (send_failed c retryable now d, False)
      | _ \<Rightarrow> (send_failed c False now d, False))"

datatype event_result = EvSilent | EvAccepted | EvFailure

definition push_event :: "(string \<Rightarrow> string) \<Rightarrow> (json \<Rightarrow> string) \<Rightarrow> bool \<Rightarrow> (att_item \<Rightarrow> nat \<Rightarrow> (int \<times> json) option) \<Rightarrow> string \<Rightarrow> string
    \<Rightarrow> int \<Rightarrow> att_item \<Rightarrow> push_db \<Rightarrow> (push_error, push_db, event_result) outcome" where
  "push_event sha digest friend_enabled answer user token now_ms i d =
     (let now = now_ms div 1000 in
      case decision_notification i of
        Inl _ \<Rightarrow> Inr (d, EvFailure)
      | Inr dn \<Rightarrow>
          if (case dn of None \<Rightarrow> False | Some e \<Rightarrow> e \<le> now_ms) then Inr (d, EvFailure)
          else
            (case claim_send sha user (at_id i) (fingerprint digest i) token False now d of
               Inl e \<Rightarrow> Inl e
             | Inr (d1, None) \<Rightarrow> Inr (d1, EvSilent)
             | Inr (d1, Some c) \<Rightarrow>
                 let (d2, outcome) = send_push_notification friend_enabled user (Some token) 1 (answer i) now d1;
                     (d3, ok) = conclude_send c outcome now d2
                 in Inr (d3, if ok then EvAccepted else EvFailure)))"

fun push_events :: "(string \<Rightarrow> string) \<Rightarrow> (json \<Rightarrow> string) \<Rightarrow> bool \<Rightarrow> (att_item \<Rightarrow> nat \<Rightarrow> (int \<times> json) option) \<Rightarrow> string \<Rightarrow> string
    \<Rightarrow> int \<Rightarrow> att_item list \<Rightarrow> push_db \<Rightarrow> push_db \<times> event_result list" where
  "push_events sha digest fe answer user token now_ms [] d = (d, [])"
| "push_events sha digest fe answer user token now_ms (i # is) d =
     (case push_event sha digest fe answer user token now_ms i d of
        Inl _ \<Rightarrow> (d, [])
      | Inr (d1, r) \<Rightarrow> (case push_events sha digest fe answer user token now_ms is d1 of (d2, rs) \<Rightarrow> (d2, r # rs)))"

definition delivery_label :: "event_result list \<Rightarrow> string" where
  "delivery_label rs = (if EvFailure \<in> set rs then ''partial'' else if EvAccepted \<in> set rs then ''accepted'' else ''pending'')"

definition dispatch_notification_events :: "(string \<Rightarrow> string) \<Rightarrow> (json \<Rightarrow> string) \<Rightarrow> bool \<Rightarrow> (att_item \<Rightarrow> nat \<Rightarrow> (int \<times> json) option) \<Rightarrow> string
    \<Rightarrow> att_item list \<Rightarrow> int option \<Rightarrow> int \<Rightarrow> push_db \<Rightarrow> push_db \<times> reconciled \<times> att_item list \<times> string" where
  "dispatch_notification_events sha digest friend_enabled answer user items hour now_ms d =
     (let (d1, result) = reconcile_notification_events digest user items False hour (now_ms div 1000) d in
      case get_registered_push_token friend_enabled user (now_ms div 1000) d1 of
        None \<Rightarrow> (d1, result, unread_events user items (get_notification_preferences user d1) d1,
                   if rc_events result = [] then ''none'' else ''web-or-in-app'')
      | Some p \<Rightarrow>
          if rc_events result = [] then (d1, result, unread_events user items (get_notification_preferences user d1) d1, ''none'')
          else
            let (d2, rs) = push_events sha digest friend_enabled answer user (pt_token p) now_ms (rc_events result) d1
            in (d2, result, unread_events user items (get_notification_preferences user d2) d2, delivery_label rs))"

datatype test_result = TestSuppressed | TestUnavailable | TestDeduplicated | TestSent push_outcome

definition send_owner_test_notification :: "(string \<Rightarrow> string) \<Rightarrow> bool \<Rightarrow> (nat \<Rightarrow> (int \<times> json) option) \<Rightarrow> string \<Rightarrow> string \<Rightarrow> int \<Rightarrow> push_db
    \<Rightarrow> (push_error, push_db, test_result) outcome" where
  "send_owner_test_notification sha friend_enabled answer user request now d =
     (if \<not> (8 \<le> length request \<and> length request \<le> 80 \<and> list_all token_char request) then Inl PushValueError
      else
        let pv = get_notification_preferences user d in
        if \<not> pv_enabled pv \<or> quiet (Some (registered_local_hour friend_enabled user now d)) (pv_start pv) (pv_end pv)
        then Inr (d, TestSuppressed)
        else case get_registered_push_token friend_enabled user now d of
          None \<Rightarrow> Inr (d, TestUnavailable)
        | Some p \<Rightarrow>
            (case claim_send sha user (''owner-test-'' @ request) ''owner-test-v1'' (pt_token p) True now d of
               Inl e \<Rightarrow> Inl e
             | Inr (d1, None) \<Rightarrow> Inr (d1, TestDeduplicated)
             | Inr (d1, Some c) \<Rightarrow>
                 let (d2, outcome) = send_push_notification friend_enabled user (Some (pt_token p)) 1 answer now d1;
                     (d3, ok) = conclude_send c outcome now d2
                 in Inr (d3, TestSent (case outcome of OutAccepted t \<Rightarrow> if ok then outcome else OutError False | _ \<Rightarrow> outcome))))"

text \<open>Receipt polling: the provider's answer is the parsed body of a successful response, or \<open>None\<close>.
  A status that is not hashable raises and ends the loop.\<close>

fun apply_receipts :: "(string \<Rightarrow> string) \<Rightarrow> json \<Rightarrow> int \<Rightarrow> delivery list \<Rightarrow> push_db \<Rightarrow> push_db" where
  "apply_receipts sha receipts now [] d = d"
| "apply_receipts sha receipts now (dl # dls) d =
     (let r = (case dl_ticket dl of None \<Rightarrow> JNull | Some t \<Rightarrow> jget receipts t) in
      if \<not> is_JObj r then apply_receipts sha receipts now dls d
      else if \<not> hashable (jget r ''status'') then d
      else if jget r ''status'' \<notin> {JStr ''ok'', JStr ''error''} then apply_receipts sha receipts now dls d
      else apply_receipts sha receipts now dls
             (receipt sha dl (jget r ''status'' = JStr ''ok'') (jget (jget r ''details'') ''error'' = JStr ''DeviceNotRegistered'') now d))"

definition reconcile_push_receipts :: "(string \<Rightarrow> string) \<Rightarrow> (delivery list \<Rightarrow> json option) \<Rightarrow> int \<Rightarrow> push_db \<Rightarrow> push_db" where
  "reconcile_push_receipts sha provider now d =
     (let (d1, dls) = claim_receipts now d in
      if dls = [] then d1
      else case provider dls of
        None \<Rightarrow> d1
      | Some body \<Rightarrow> (case jget body ''data'' of JObj kvs \<Rightarrow> apply_receipts sha (JObj kvs) now dls d1 | _ \<Rightarrow> d1))"

end
