(* ===== verification/Push_Properties.thy ===== *)
theory Push_Properties
  imports Notifications
begin

text \<open>
  Properties of notification delivery. The store's transactions, interleaved in any order by any number
  of dispatchers and pollers, are the operations \<open>push_op\<close>; a claim passed to \<open>accepted\<close> or \<open>send_failed\<close>
  is any row value, so outdated claims are included.
\<close>

interpretation dlk: keyed_rows dl_id dl_sel
  by unfold_locales (auto simp: dl_sel_def)

interpretation ntk: keyed_rows "\<lambda>n. (nt_user n, nt_item n)" nt_sel
  by unfold_locales (auto simp: nt_sel_def)

datatype push_op =
    OpClaimSend string string string string bool int
  | OpAccepted delivery string int
  | OpSendFailed delivery bool int
  | OpClaimReceipts int
  | OpReceipt delivery bool bool int
  | OpRegister string string string "int option" int
  | OpRevoke string "string option" int
  | OpPreferences string bool "int option" "int option" string
  | OpReconcile string "att_item list" bool "int option" int
  | OpDelivered string "string list"
  | OpAcknowledge string "string list"

definition drop_result :: "('e, 's, 'a) outcome \<Rightarrow> ('e, 's, unit) outcome" where
  "drop_result r = (case r of Inl e \<Rightarrow> Inl e | Inr (s, _) \<Rightarrow> Inr (s, ()))"

fun exec_push :: "(string \<Rightarrow> string) \<Rightarrow> (json \<Rightarrow> string) \<Rightarrow> push_op \<Rightarrow> push_db \<Rightarrow> (push_error, push_db, unit) outcome" where
  "exec_push sha digest (OpClaimSend u i f t ot now) d = drop_result (claim_send sha u i f t ot now d)"
| "exec_push sha digest (OpAccepted c ticket now) d = accepted c ticket now d"
| "exec_push sha digest (OpSendFailed c r now) d = Inr (send_failed c r now d, ())"
| "exec_push sha digest (OpClaimReceipts now) d = Inr (fst (claim_receipts now d), ())"
| "exec_push sha digest (OpReceipt dl ok bad now) d = Inr (receipt sha dl ok bad now d, ())"
| "exec_push sha digest (OpRegister u t p off now) d = register_push_token u t p off now d"
| "exec_push sha digest (OpRevoke u t now) d = Inr (revoke_push_token u t now d, ())"
| "exec_push sha digest (OpPreferences u e a b m) d = drop_result (update_notification_preferences u e a b m d)"
| "exec_push sha digest (OpReconcile u is fg h now) d = Inr (fst (reconcile_notification_events digest u is fg h now d), ())"
| "exec_push sha digest (OpDelivered u ids) d = Inr (mark_notification_events_delivered u ids d, ())"
| "exec_push sha digest (OpAcknowledge u ids) d = Inr (acknowledge_notification_events u ids d, ())"

subsection \<open>Rows move forward\<close>

definition dl_final :: "delivery \<Rightarrow> bool" where
  "dl_final r \<longleftrightarrow> dl_state r = DDelivered \<or> dl_state r = DFailed \<or> dl_state r = DExpired"

definition dl_ident :: "delivery \<Rightarrow> string \<times> string \<times> string \<times> string \<times> string" where
  "dl_ident r = (dl_id r, dl_user r, dl_item r, dl_fingerprint r, dl_token r)"

definition delivery_ok :: "(string \<Rightarrow> string) \<Rightarrow> delivery \<Rightarrow> bool" where
  "delivery_ok sha r \<longleftrightarrow> dl_id r = push_identity sha (dl_user r) (dl_item r) (dl_fingerprint r) (dl_token r)
     \<and> 1 \<le> dl_sends r \<and> dl_sends r \<le> MAX_SENDS"

definition push_inv :: "(string \<Rightarrow> string) \<Rightarrow> push_db \<Rightarrow> bool" where
  "push_inv sha d \<longleftrightarrow> dlk.uniq (deliveries d) \<and> list_all (delivery_ok sha) (deliveries d)"

definition row_forward :: "delivery \<Rightarrow> delivery \<Rightarrow> bool" where
  "row_forward r s \<longleftrightarrow> dl_ident s = dl_ident r \<and> dl_sends r \<le> dl_sends s \<and> (dl_final r \<longrightarrow> s = r)"

definition push_older :: "push_db \<Rightarrow> push_db \<Rightarrow> bool" where
  "push_older d e \<longleftrightarrow> (\<forall>r \<in> set (deliveries d). \<exists>s \<in> set (deliveries e). row_forward r s)"

text \<open>What one step may do to the delivery table: move rows forward within the send bound, without
  changing the number of sends, or append a new row.\<close>

definition quiet_step :: "delivery table \<Rightarrow> delivery table \<Rightarrow> bool" where
  "quiet_step t u \<longleftrightarrow> list_all2 (\<lambda>r s. row_forward r s \<and> dl_sends s = dl_sends r) t u"

lemma row_forward_refl [simp]: "row_forward r r"
  by (simp add: row_forward_def)

lemma push_older_subset: "set (deliveries d) \<subseteq> set (deliveries e) \<Longrightarrow> push_older d e"
  unfolding push_older_def using row_forward_refl by blast

lemma older_upd:
  "(\<And>y. y \<in> set t \<Longrightarrow> P y \<Longrightarrow> row_forward y (f y)) \<Longrightarrow> r \<in> set t \<Longrightarrow> \<exists>s \<in> set (tbl_upd P f t). row_forward r s"
  by (induction t) auto

lemma row_forward_trans: "row_forward r s \<Longrightarrow> row_forward s t \<Longrightarrow> row_forward r t"
  by (auto simp: row_forward_def dl_final_def)

lemma row_forward_open: "\<not> dl_final r \<Longrightarrow> dl_ident s = dl_ident r \<Longrightarrow> dl_sends r \<le> dl_sends s \<Longrightarrow> row_forward r s"
  by (simp add: row_forward_def)

lemma row_forward_id: "row_forward r s \<Longrightarrow> dl_id s = dl_id r"
  by (simp add: row_forward_def dl_ident_def)

lemma quiet_refl [simp]: "quiet_step t t"
  by (simp add: quiet_step_def list_all2_refl)

lemma quiet_trans: "quiet_step t u \<Longrightarrow> quiet_step u v \<Longrightarrow> quiet_step t v"
  unfolding quiet_step_def
  by (rule list_all2_trans[of "\<lambda>r s. row_forward r s \<and> dl_sends s = dl_sends r"
        "\<lambda>r s. row_forward r s \<and> dl_sends s = dl_sends r" _ t u v])
     (auto intro: row_forward_trans)

lemma quiet_upd:
  "(\<And>r. r \<in> set t \<Longrightarrow> P r \<Longrightarrow> row_forward r (f r) \<and> dl_sends (f r) = dl_sends r) \<Longrightarrow> quiet_step t (tbl_upd P f t)"
  by (induction t) (auto simp: quiet_step_def)

lemma quiet_ids: "quiet_step t u \<Longrightarrow> map dl_id u = map dl_id t"
  unfolding quiet_step_def by (induction rule: list_all2_induct) (auto simp: row_forward_id)

lemma quiet_ok: "quiet_step t u \<Longrightarrow> list_all (delivery_ok sha) t \<Longrightarrow> list_all (delivery_ok sha) u"
  unfolding quiet_step_def
  by (induction rule: list_all2_induct) (auto simp: row_forward_def dl_ident_def delivery_ok_def)

lemma quiet_older: "quiet_step t u \<Longrightarrow> r \<in> set t \<Longrightarrow> \<exists>s \<in> set u. row_forward r s"
  unfolding quiet_step_def by (induction rule: list_all2_induct) auto

lemma quiet_inv:
  assumes "quiet_step (deliveries d) (deliveries e)" and "push_inv sha d"
  shows "push_inv sha e \<and> push_older d e"
  using assms quiet_ids[OF assms(1)] quiet_ok[OF assms(1)] quiet_older[OF assms(1)]
  by (simp add: push_inv_def dlk.uniq_def push_older_def)

subsection \<open>Every transaction but a granted claim is a quiet step\<close>

lemma accepted_quiet: "accepted c ticket now d = Inr (e, x) \<Longrightarrow> quiet_step (deliveries d) (deliveries e)"
  by (auto simp: accepted_def upd_delivery_def claim_sel_def dl_ident_def dl_final_def
      split: if_splits intro!: quiet_upd row_forward_open)

lemma send_failed_quiet: "quiet_step (deliveries d) (deliveries (send_failed c r now d))"
  by (auto simp: send_failed_def upd_delivery_def claim_sel_def dl_ident_def dl_final_def intro!: quiet_upd row_forward_open)

lemma receipt_deliveries:
  "deliveries (receipt sha dl ok bad now d) =
     tbl_upd (\<lambda>x. dl_sel (dl_id dl) x \<and> dl_state x = DPending) (\<lambda>x. x\<lparr>dl_state := (if ok then DDelivered else DFailed),
        dl_error := (if ok then None else Some ''receipt_rejected''), dl_updated := now\<rparr>) (deliveries d)"
proof -
  define sel where "sel = (\<lambda>x. dl_sel (dl_id dl) x \<and> dl_state x = DPending)"
  define f where "f = (\<lambda>x. x\<lparr>dl_state := (if ok then DDelivered else DFailed),
        dl_error := (if ok then None else Some ''receipt_rejected''), dl_updated := now\<rparr>)"
  show ?thesis
    unfolding receipt_def upd_delivery_def Let_def sel_def[symmetric] f_def[symmetric]
    by (simp split: option.split)
qed

lemma receipt_quiet: "quiet_step (deliveries d) (deliveries (receipt sha dl ok bad now d))"
  unfolding receipt_deliveries by (rule quiet_upd) (simp add: row_forward_open dl_ident_def dl_final_def)

lemma poll_quiet:
  assumes "\<And>x y. x \<in> set rows \<Longrightarrow> y \<in> set t \<Longrightarrow> dl_id y = dl_id x \<Longrightarrow> dl_state y = DPending"
  shows "quiet_step t (fold (poll_receipt now) rows t)"
  using assms
proof (induction rows arbitrary: t)
  case (Cons r rows)
  have pend: "dl_state y = DPending" if "y \<in> set t" "dl_sel (dl_id r) y" for y
    using Cons.prems[of r y] that by (simp add: dl_sel_def)
  have "quiet_step t (poll_receipt now r t)"
    unfolding poll_receipt_def
    by (rule quiet_upd) (simp add: row_forward_open dl_ident_def dl_final_def pend)
  moreover have "quiet_step (poll_receipt now r t) (fold (poll_receipt now) rows (poll_receipt now r t))"
  proof (rule Cons.IH)
    fix x y assume x: "x \<in> set rows" and y: "y \<in> set (poll_receipt now r t)" and id: "dl_id y = dl_id x"
    from y obtain z where z: "z \<in> set t" "dl_id y = dl_id z" "dl_state y = dl_state z"
      by (auto simp: poll_receipt_def set_tbl_upd)
    show "dl_state y = DPending" using Cons.prems[of x z] x z id by simp
  qed
  ultimately show ?case by (auto intro: quiet_trans)
qed simp

lemma claim_receipts_quiet:
  assumes "push_inv sha d"
  shows "quiet_step (deliveries d) (deliveries (fst (claim_receipts now d)))"
proof -
  define t where "t = tbl_upd (\<lambda>r. dl_state r = DPending \<and> dl_expires r \<le> now)
    (\<lambda>x. x\<lparr>dl_state := DExpired, dl_error := Some ''receipt_expired'', dl_updated := now\<rparr>) (deliveries d)"
  have q: "quiet_step (deliveries d) t"
    unfolding t_def by (rule quiet_upd) (simp add: row_forward_open dl_ident_def dl_final_def)
  then have u: "dlk.uniq t" using assms quiet_ids[OF q] by (simp add: push_inv_def dlk.uniq_def)
  have "dl_state y = DPending" if "x \<in> set (due_receipts now t)" "y \<in> set t" "dl_id y = dl_id x" for x y
  proof -
    have "x \<in> set t \<and> dl_state x = DPending" using that(1) by (auto simp: due_receipts_def dest!: in_set_takeD)
    with u that show ?thesis using dlk.uniq_same[of t y x] by simp
  qed
  then have "quiet_step t (fold (poll_receipt now) (due_receipts now t) t)" by (rule poll_quiet)
  with q show ?thesis by (auto simp: claim_receipts_def t_def Let_def intro: quiet_trans)
qed

lemma reconcile_deliveries [simp]:
  "deliveries (fst (reconcile_notification_events digest u is fg h now d)) = deliveries d"
  by (auto simp: reconcile_notification_events_def Let_def split: prod.splits)

lemma register_deliveries: "register_push_token u t p off now d = Inr (e, x) \<Longrightarrow> deliveries e = deliveries d"
  by (auto simp: register_push_token_def Let_def split: sum.splits if_splits option.splits)

lemma preferences_deliveries: "update_notification_preferences u b qs qe m d = Inr (e, x) \<Longrightarrow> deliveries e = deliveries d"
  by (auto simp: update_notification_preferences_def Let_def split: if_splits)

subsection \<open>Claims\<close>

lemma claim_send_cases [consumes 1, case_names same closed again new]:
  assumes "claim_send sha u i fp tok ot now d = Inr (e, r)"
  obtains "e = d" "r = None"
  | k x where "tbl_get (dl_sel k) (deliveries d) = Some x" "unsent x" "r = None"
      "deliveries e = tbl_upd (dl_sel k) (\<lambda>y. y\<lparr>dl_state := DExpired, dl_error := Some ''send_expired'', dl_updated := now\<rparr>) (deliveries d)
       \<or> deliveries e = tbl_upd (dl_sel k) (\<lambda>y. y\<lparr>dl_state := DFailed, dl_error := Some ''send_exhausted'', dl_updated := now\<rparr>) (deliveries d)"
  | x where "tbl_get (dl_sel (push_identity sha u i fp (sha tok))) (deliveries d) = Some x" "unsent x" "dl_sends x < MAX_SENDS"
      "deliveries e = tbl_upd (dl_sel (push_identity sha u i fp (sha tok)))
         (\<lambda>y. y\<lparr>dl_state := DSending, dl_sends := dl_sends y + 1, dl_next := now + 120, dl_updated := now\<rparr>) (deliveries d)"
      "r = Some (x\<lparr>dl_state := DSending, dl_sends := dl_sends x + 1, dl_next := now + 120, dl_updated := now\<rparr>)"
  | "tbl_get (dl_sel (push_identity sha u i fp (sha tok))) (deliveries d) = None"
      "deliveries e = deliveries d @ [new_delivery sha u i fp tok now]" "r = Some (new_delivery sha u i fp tok now)"
proof -
  let ?k = "push_identity sha u i fp (sha tok)"
  show ?thesis
  proof (cases "tbl_get (dl_sel ?k) (deliveries d)")
    case None
    with assms show ?thesis using that(1,4) by (auto simp: claim_send_def Let_def split: if_splits)
  next
    case (Some x)
    have g: "tbl_get (dl_sel ?k) (tbl_upd (dl_sel ?k) f (deliveries d)) = Some (f x)" if "\<And>y. dl_id (f y) = dl_id y" for f
      using dlk.get_upd_row[of f ?k ?k "deliveries d"] that Some by simp
    show ?thesis
    proof (cases "unsent x \<and> dl_expires x \<le> now")
      case True
      with assms Some show ?thesis using that(2)[OF Some] by (auto simp: claim_send_def upd_delivery_def)
    next
      case nexp: False
      show ?thesis
      proof (cases "\<not> unsent x \<or> now < dl_next x")
        case True
        with assms Some nexp show ?thesis using that(1) by (auto simp: claim_send_def)
      next
        case False
        with assms Some nexp show ?thesis using that(2)[OF Some] that(3)[OF Some] g
          by (auto simp: claim_send_def upd_delivery_def Let_def split: if_splits)
      qed
    qed
  qed
qed

definition attempts :: "string \<Rightarrow> delivery table \<Rightarrow> int" where
  "attempts k t = (case tbl_get (dl_sel k) t of None \<Rightarrow> 0 | Some r \<Rightarrow> dl_sends r)"

lemma attempts_Nil [simp]: "attempts k [] = 0"
  by (simp add: attempts_def)

lemma attempts_Cons [simp]: "attempts k (r # t) = (if dl_id r = k then dl_sends r else attempts k t)"
  by (simp add: attempts_def dl_sel_def)

lemma attempts_append: "tbl_get (dl_sel (dl_id r)) t = None \<Longrightarrow> attempts k (t @ [r]) = attempts k t + (if dl_id r = k then dl_sends r else 0)"
  by (cases "tbl_get (dl_sel k) t") (auto simp: attempts_def tbl_get_append dl_sel_def)

lemma quiet_attempts: "quiet_step t u \<Longrightarrow> attempts k u = attempts k t"
  unfolding quiet_step_def by (induction rule: list_all2_induct) (auto simp: row_forward_id)

lemma attempts_bounded: "list_all (delivery_ok sha) t \<Longrightarrow> 0 \<le> attempts k t \<and> attempts k t \<le> MAX_SENDS"
  by (induction t) (auto simp: delivery_ok_def MAX_SENDS_def)

text \<open>A claim grants at most one send; the counter of its row counts it.\<close>

lemma claim_send_step:
  assumes "claim_send sha u i fp tok ot now d = Inr (e, r)" and "push_inv sha d"
  shows "push_inv sha e \<and> push_older d e
     \<and> attempts k (deliveries e) = attempts k (deliveries d) + (case r of None \<Rightarrow> 0 | Some c \<Rightarrow> if dl_id c = k then 1 else 0)"
  using assms(1)
proof (cases rule: claim_send_cases)
  case same
  then show ?thesis using assms(2) by (simp add: push_older_subset)
next
  case (closed k' x)
  have "\<not> dl_final y" if "y \<in> set (deliveries d)" "dl_sel k' y" for y
    using dlk.uniq_same[of "deliveries d" y x] that closed(1,2) assms(2) tbl_get_SomeD[OF closed(1)]
    by (auto simp: push_inv_def dl_sel_def unsent_def dl_final_def)
  then have "quiet_step (deliveries d) (deliveries e)"
    using closed(4) by (auto intro!: quiet_upd row_forward_open simp: dl_ident_def)
  then show ?thesis using quiet_inv[of d e sha] quiet_attempts assms(2) closed(3) by auto
next
  case (again x)
  let ?k = "push_identity sha u i fp (sha tok)"
  let ?f = "\<lambda>y. y\<lparr>dl_state := DSending, dl_sends := dl_sends y + 1, dl_next := now + 120, dl_updated := now\<rparr>"
  have x: "x \<in> set (deliveries d)" "dl_id x = ?k" using tbl_get_SomeD[OF again(1)] by (auto simp: dl_sel_def)
  have only: "y = x" if "y \<in> set (deliveries d)" "dl_sel ?k y" for y
    using dlk.uniq_same[of "deliveries d" y x] that x assms(2) by (auto simp: push_inv_def dl_sel_def)
  have fw: "row_forward y (?f y)" if "y \<in> set (deliveries d)" "dl_sel ?k y" for y
    using only[OF that] again(2) by (auto intro!: row_forward_open simp: dl_ident_def dl_final_def unsent_def)
  have "push_older d e" unfolding push_older_def again(4) using older_upd[of "deliveries d" "dl_sel ?k" ?f] fw by blast
  moreover have "delivery_ok sha (?f y)" if y: "y \<in> set (deliveries d)" "dl_sel ?k y" for y
    using only[OF y] again(3) y assms(2) by (auto simp: push_inv_def list_all_iff delivery_ok_def)
  then have "push_inv sha e"
    using assms(2) again(4) by (auto simp: push_inv_def list_all_iff set_tbl_upd intro!: dlk.uniq_upd)
  moreover have "tbl_get (dl_sel k) (deliveries e) = (if k = ?k then Some (?f x) else tbl_get (dl_sel k) (deliveries d))"
    using dlk.get_upd_row[of ?f k ?k "deliveries d"] again(1,4) by simp
  then have "attempts k (deliveries e) = attempts k (deliveries d) + (if ?k = k then 1 else 0)"
    using again(1) by (auto simp: attempts_def)
  ultimately show ?thesis using again(5) x(2) by simp
next
  case new
  let ?r = "new_delivery sha u i fp tok now"
  have i: "dl_id ?r = push_identity sha u i fp (sha tok)" by (simp add: new_delivery_def)
  have "push_inv sha e"
    using assms(2) new(1,2) dlk.uniq_insert[of "deliveries d" ?r] i
    by (auto simp: push_inv_def delivery_ok_def new_delivery_def MAX_SENDS_def)
  moreover have "push_older d e" using new(2) by (simp add: push_older_subset subset_insertI)
  moreover have "attempts k (deliveries e) = attempts k (deliveries d) + (if dl_id ?r = k then 1 else 0)"
    unfolding new(2) using attempts_append[of ?r "deliveries d" k] new(1) i by (simp add: new_delivery_def)
  ultimately show ?thesis using new(3) by simp
qed

text \<open>Under the invariant a claim never violates a database constraint.\<close>

lemma claim_send_total:
  assumes "push_inv sha d"
  shows "\<exists>e r. claim_send sha u i fp tok ot now d = Inr (e, r)"
proof -
  have "\<not> (\<exists>x \<in> set (deliveries d). dl_user x = u \<and> dl_item x = i \<and> dl_fingerprint x = fp \<and> dl_token x = sha tok)"
    if "tbl_get (dl_sel (push_identity sha u i fp (sha tok))) (deliveries d) = None"
    using assms that by (force simp: push_inv_def list_all_iff delivery_ok_def tbl_get_None_iff dl_sel_def)
  then show ?thesis
    by (auto simp: claim_send_def Let_def tbl_ex_iff split: option.splits)
qed

subsection \<open>Sequences of transactions\<close>

definition granted :: "(string \<Rightarrow> string) \<Rightarrow> string \<Rightarrow> push_op \<Rightarrow> push_db \<Rightarrow> int" where
  "granted sha k p d = (case p of
     OpClaimSend u i fp t ot now \<Rightarrow>
       (case claim_send sha u i fp t ot now d of
          Inr (_, Some c) \<Rightarrow> if dl_id c = k then 1 else 0
        | _ \<Rightarrow> 0)
   | _ \<Rightarrow> 0)"

lemma exec_push_cases:
  assumes "exec_push sha digest p d = Inr (e, x)" and "push_inv sha d"
  shows "quiet_step (deliveries d) (deliveries e) \<and> granted sha k p d = 0
    \<or> (\<exists>u i fp t ot now r. p = OpClaimSend u i fp t ot now \<and> claim_send sha u i fp t ot now d = Inr (e, r))"
proof (cases p)
  case (OpClaimSend u i fp t ot now)
  then show ?thesis using assms(1) by (auto simp: drop_result_def split: sum.splits)
next
  case (OpAccepted c ticket now)
  then show ?thesis using assms(1) accepted_quiet by (auto simp: granted_def)
next
  case (OpClaimReceipts now)
  then show ?thesis using assms claim_receipts_quiet by (auto simp: granted_def)
next
  case (OpRegister u t pl off now)
  then show ?thesis using assms(1) register_deliveries by (fastforce simp: granted_def)
next
  case (OpPreferences u b qs qe m)
  then show ?thesis using assms(1) preferences_deliveries by (fastforce simp: granted_def drop_result_def split: sum.splits)
qed (use assms(1) send_failed_quiet receipt_quiet in
      \<open>auto simp: granted_def revoke_push_token_def mark_notification_events_delivered_def acknowledge_notification_events_def\<close>)

lemma exec_push_step:
  assumes "exec_push sha digest p d = Inr (e, x)" and "push_inv sha d"
  shows "push_inv sha e \<and> push_older d e \<and> attempts k (deliveries e) = attempts k (deliveries d) + granted sha k p d"
  using exec_push_cases[OF assms, of k]
proof (elim disjE exE conjE)
  assume q: "quiet_step (deliveries d) (deliveries e)" and "granted sha k p d = 0"
  then show ?thesis using quiet_inv[OF q assms(2)] quiet_attempts[OF q] by simp
next
  fix u i fp t ot now r
  assume p: "p = OpClaimSend u i fp t ot now" and c: "claim_send sha u i fp t ot now d = Inr (e, r)"
  from claim_send_step[OF c assms(2), of k] c p show ?thesis by (auto simp: granted_def split: option.splits)
qed

interpretation pushx: audited "exec_push sha digest" "push_inv sha" "\<lambda>_. True" push_older
proof unfold_locales
  show "push_older s s" for s by (simp add: push_older_subset)
  show "push_older s u" if "push_older s t" "push_older t u" for s t u
    using that unfolding push_older_def by (meson row_forward_trans)
qed (use exec_push_step in \<open>blast+\<close>)

fun grants :: "(string \<Rightarrow> string) \<Rightarrow> (json \<Rightarrow> string) \<Rightarrow> string \<Rightarrow> push_op list \<Rightarrow> push_db \<Rightarrow> int" where
  "grants sha digest k [] d = 0"
| "grants sha digest k (p # ps) d = granted sha k p d + grants sha digest k ps (commit d (exec_push sha digest p d))"

lemma granted_failed: "exec_push sha digest p d = Inl err \<Longrightarrow> granted sha k p d = 0"
  by (cases p) (auto simp: granted_def drop_result_def split: sum.splits option.splits prod.splits)

lemma grants_attempts:
  "push_inv sha d \<Longrightarrow> attempts k (deliveries (run_ops (exec_push sha digest) ps d)) = attempts k (deliveries d) + grants sha digest k ps d"
proof (induction ps arbitrary: d)
  case (Cons p ps)
  have inv: "push_inv sha (commit d (exec_push sha digest p d))" using Cons.prems by (rule pushx.commit_inv) simp
  have "attempts k (deliveries (commit d (exec_push sha digest p d))) = attempts k (deliveries d) + granted sha k p d"
    using exec_push_step[of sha digest p d] Cons.prems granted_failed by (cases "exec_push sha digest p d") fastforce+
  with Cons.IH[OF inv] show ?case by simp
qed simp

definition empty_push :: push_db where
  "empty_push = \<lparr>deliveries = [], push_tokens = [], notifs = [], preferences = [], friend_grants = None\<rparr>"

lemma empty_push_inv: "push_inv sha empty_push"
  by (simp add: push_inv_def empty_push_def dlk.uniq_def)

text \<open>C0. A notification is sent at most three times: in every interleaving of store transactions, the claims granted for
  one delivery (user, item, fingerprint and device) number at most \<open>MAX_SENDS\<close>, counting those already
  recorded.\<close>

theorem push_sends_bounded:
  assumes "push_inv sha d"
  shows "0 \<le> attempts k (deliveries d)
    \<and> attempts k (deliveries d) + grants sha digest k ps d = attempts k (deliveries (run_ops (exec_push sha digest) ps d))
    \<and> attempts k (deliveries d) + grants sha digest k ps d \<le> MAX_SENDS"
proof -
  have "push_inv sha (run_ops (exec_push sha digest) ps d)" using assms by (rule pushx.run_inv) (simp add: list_all_iff)
  then show ?thesis
    using grants_attempts[OF assms] attempts_bounded[of sha "deliveries d" k]
      attempts_bounded[of sha "deliveries (run_ops (exec_push sha digest) ps d)" k] assms
    by (simp add: push_inv_def)
qed

theorem push_sends_bounded_witness:
  "grants id (\<lambda>_. ''f'') (push_identity id ''u'' ''i'' ''f'' ''t'')
     [OpClaimSend ''u'' ''i'' ''f'' ''t'' False 0, OpClaimSend ''u'' ''i'' ''f'' ''t'' False 60, OpClaimSend ''u'' ''i'' ''f'' ''t'' False 120,
      OpClaimSend ''u'' ''i'' ''f'' ''t'' False 240, OpClaimSend ''u'' ''i'' ''f'' ''t'' False 360] empty_push = 3
   \<and> 0 + grants id (\<lambda>_. ''f'') (push_identity id ''u'' ''i'' ''f'' ''t'')
     [OpClaimSend ''u'' ''i'' ''f'' ''t'' False 0] empty_push \<le> MAX_SENDS"
proof -
  have "attempts (push_identity id ''u'' ''i'' ''f'' ''t'') (deliveries empty_push) = 0" by (simp add: empty_push_def)
  then show ?thesis
    using push_sends_bounded[OF empty_push_inv, of "push_identity id ''u'' ''i'' ''f'' ''t''" id "\<lambda>_. ''f''"
        "[OpClaimSend ''u'' ''i'' ''f'' ''t'' False 0]"]
    by (auto simp: grants.simps granted_def claim_send_def empty_push_def push_identity_def dl_sel_def drop_result_def
        new_delivery_def unsent_def RECEIPT_TTL_def MAX_SENDS_def upd_delivery_def Let_def)
qed

text \<open>A closed delivery stays closed: a row that was delivered, failed or expired is kept unchanged by every
  later sequence of store transactions, so a late ticket, retry or receipt cannot reopen it.\<close>

theorem push_final_frozen:
  assumes "push_inv sha d" and "r \<in> set (deliveries d)" and "dl_final r"
  shows "r \<in> set (deliveries (run_ops (exec_push sha digest) ps d))"
proof -
  have "push_older d (run_ops (exec_push sha digest) ps d)"
    using assms(1) by (rule pushx.run_older) (simp add: list_all_iff)
  then obtain s where "s \<in> set (deliveries (run_ops (exec_push sha digest) ps d))" "row_forward r s"
    using assms(2) by (auto simp: push_older_def)
  then show ?thesis using assms(3) by (simp add: row_forward_def)
qed

definition sample_closed :: push_db where
  "sample_closed = empty_push\<lparr>deliveries := [(new_delivery id ''u'' ''i'' ''f'' ''t'' 0)\<lparr>dl_state := DFailed\<rparr>]\<rparr>"

theorem push_final_frozen_witness:
  "(new_delivery id ''u'' ''i'' ''f'' ''t'' 0)\<lparr>dl_state := DFailed\<rparr>
     \<in> set (deliveries (run_ops (exec_push id (\<lambda>_. ''f''))
         [OpClaimSend ''u'' ''i'' ''f'' ''t'' False 500, OpAccepted (new_delivery id ''u'' ''i'' ''f'' ''t'' 0) ''x'' 501] sample_closed))"
proof (rule push_final_frozen)
  show "push_inv id sample_closed"
    by (simp add: push_inv_def sample_closed_def empty_push_def dlk.uniq_def delivery_ok_def new_delivery_def MAX_SENDS_def)
qed (simp_all add: sample_closed_def dl_final_def)

text \<open>A receipt only concerns its own device: it leaves every token row of another user and every token with
  another digest (a replacement device) as it is, and a receipt for a delivery that is not pending changes
  nothing.\<close>

theorem receipt_spares_replacement:
  assumes "p \<in> set (push_tokens d)" and "pt_user p \<noteq> dl_user dl \<or> sha (pt_token p) \<noteq> dl_token dl"
  shows "p \<in> set (push_tokens (receipt sha dl ok bad now d))
    \<and> ((\<forall>x \<in> set (deliveries d). dl_id x = dl_id dl \<longrightarrow> dl_state x \<noteq> DPending) \<longrightarrow> receipt sha dl ok bad now d = d)"
proof -
  define sel where "sel = (\<lambda>x. dl_sel (dl_id dl) x \<and> dl_state x = DPending)"
  define f :: "delivery \<Rightarrow> delivery" where "f = (\<lambda>x. x\<lparr>dl_state := (if ok then DDelivered else DFailed),
        dl_error := (if ok then None else Some ''receipt_rejected''), dl_updated := now\<rparr>)"
  define d1 where "d1 = upd_delivery sel f d"
  have r: "receipt sha dl ok bad now d = (if tbl_count sel (deliveries d) = 0 then d1
         else case current_token (dl_user dl) d1 of
           None \<Rightarrow> d1
         | Some p \<Rightarrow>
             if sha (pt_token p) \<noteq> dl_token dl then d1
             else
               let d2 = (if bad then d1\<lparr>push_tokens := tbl_upd (\<lambda>q. pt_user q = dl_user dl \<and> pt_token q = pt_token p)
                           (\<lambda>q. q\<lparr>pt_revoked := Some now\<rparr>) (push_tokens d1)\<rparr> else d1)
               in if ok then d2\<lparr>notifs := tbl_upd (\<lambda>n. nt_user n = dl_user dl \<and> nt_item n = dl_item dl
                        \<and> nt_fingerprint n = dl_fingerprint dl \<and> nt_active n) (\<lambda>n. n\<lparr>nt_delivered := True\<rparr>) (notifs d2)\<rparr>
                  else d2)"
    unfolding receipt_def sel_def f_def d1_def Let_def ..
  have t1: "push_tokens d1 = push_tokens d" by (simp add: d1_def upd_delivery_def)
  have keep: "p \<in> set (tbl_upd (\<lambda>q. pt_user q = dl_user dl \<and> pt_token q = pt_token c) g (push_tokens d))"
    if "sha (pt_token c) = dl_token dl" for c g
    using assms that by (force simp: set_tbl_upd)
  have "p \<in> set (push_tokens (receipt sha dl ok bad now d))"
    unfolding r using assms(1) keep t1 by (auto split: option.split simp: Let_def)
  moreover have "receipt sha dl ok bad now d = d"
    if "\<forall>x \<in> set (deliveries d). dl_id x = dl_id dl \<longrightarrow> dl_state x \<noteq> DPending"
  proof -
    have none: "\<not> sel x" if "x \<in> set (deliveries d)" for x
      using \<open>\<forall>x \<in> _. _\<close> that by (auto simp: sel_def dl_sel_def)
    then have "tbl_count sel (deliveries d) = 0" by (simp add: tbl_count_def filter_empty_conv)
    moreover have "tbl_upd sel f (deliveries d) = deliveries d" using none by (rule tbl_upd_none)
    ultimately show ?thesis unfolding r by (simp add: d1_def upd_delivery_def)
  qed
  ultimately show ?thesis by blast
qed

definition sample_device :: push_token where
  "sample_device = \<lparr>pt_user = ''u'', pt_token = ''new'', pt_platform = ''ios'', pt_updated = 0, pt_revoked = None, pt_offset = None\<rparr>"

theorem receipt_spares_replacement_witness:
  "sample_device \<in> set (push_tokens (receipt id ((new_delivery id ''u'' ''i'' ''f'' ''old'' 0)\<lparr>dl_state := DPending\<rparr>) False True 9
     (empty_push\<lparr>deliveries := [(new_delivery id ''u'' ''i'' ''f'' ''old'' 0)\<lparr>dl_state := DPending\<rparr>], push_tokens := [sample_device]\<rparr>)))"
proof -
  let ?dl = "(new_delivery id ''u'' ''i'' ''f'' ''old'' 0)\<lparr>dl_state := DPending\<rparr>"
  show ?thesis
    using receipt_spares_replacement[of sample_device "empty_push\<lparr>deliveries := [?dl], push_tokens := [sample_device]\<rparr>" ?dl id False True 9]
    by (simp add: new_delivery_def sample_device_def)
qed

subsection \<open>Dispatch is a sequence of store transactions\<close>

definition reaches :: "(string \<Rightarrow> string) \<Rightarrow> (json \<Rightarrow> string) \<Rightarrow> push_db \<Rightarrow> push_db \<Rightarrow> bool" where
  "reaches sha digest d e \<longleftrightarrow> (\<exists>ps. e = run_ops (exec_push sha digest) ps d)"

lemma reaches_refl [simp]: "reaches sha digest d d"
  unfolding reaches_def by (rule exI[of _ "[]"]) simp

lemma reaches_trans: "reaches sha digest d e \<Longrightarrow> reaches sha digest e f \<Longrightarrow> reaches sha digest d f"
  unfolding reaches_def by (metis pushx.run_split)

lemma reaches_op: "e = commit d (exec_push sha digest p d) \<Longrightarrow> reaches sha digest d e"
  unfolding reaches_def by (rule exI[of _ "[p]"]) simp

lemma claim_send_reaches: "claim_send sha u i fp t ot now d = Inr (e, r) \<Longrightarrow> reaches sha digest d e"
  by (rule reaches_op[of _ _ _ _ "OpClaimSend u i fp t ot now"]) (simp add: drop_result_def)

lemma send_reaches: "send_push_notification fe u ex m answer now d = (e, out) \<Longrightarrow> reaches sha digest d e"
  by (auto simp: send_push_notification_def Let_def split: option.splits if_splits
      intro!: reaches_op[of _ _ _ _ "OpRevoke _ _ _"])

lemma send_failed_reaches: "reaches sha digest d (send_failed c r now d)"
  by (rule reaches_op[of _ _ _ _ "OpSendFailed c r now"]) simp

lemma conclude_reaches: "conclude_send c out now d = (e, ok) \<Longrightarrow> reaches sha digest d e"
proof (cases out)
  case (OutAccepted ticket)
  assume "conclude_send c out now d = (e, ok)"
  with OutAccepted show ?thesis
    using send_failed_reaches reaches_op[of e d sha digest "OpAccepted c ticket now"]
    by (auto simp: conclude_send_def split: sum.splits)
qed (auto simp: conclude_send_def intro: send_failed_reaches)

lemma attempt_reaches:
  "claim_send sha u i fp t ot now d = Inr (d1, r) \<Longrightarrow> send_push_notification fe u ex m answer now d1 = (d2, out)
     \<Longrightarrow> conclude_send c out now d2 = (e, ok) \<Longrightarrow> reaches sha digest d e"
  by (blast intro: claim_send_reaches send_reaches conclude_reaches reaches_trans)

lemma push_event_reaches: "push_event sha digest fe answer u t now_ms i d = Inr (e, r) \<Longrightarrow> reaches sha digest d e"
  by (auto simp: push_event_def Let_def split: sum.splits option.splits if_splits prod.splits
      intro: claim_send_reaches attempt_reaches)

lemma push_events_reaches: "push_events sha digest fe answer u t now_ms is d = (e, rs) \<Longrightarrow> reaches sha digest d e"
proof (induction "is" arbitrary: d e rs)
  case (Cons i "is")
  then show ?case
    by (auto split: sum.splits prod.splits intro: push_event_reaches reaches_trans)
qed simp

lemma reconcile_reaches: "reconcile_notification_events digest u is fg h now d = (e, r) \<Longrightarrow> reaches sha digest d e"
  by (rule reaches_op[of _ _ _ _ "OpReconcile u is fg h now"]) simp

lemma apply_receipts_reaches: "reaches sha digest d (apply_receipts sha rs now dls d)"
proof (induction dls arbitrary: d)
  case (Cons dl dls)
  have "reaches sha digest d (receipt sha dl ok bad now d)" for ok bad
    by (rule reaches_op[of _ _ _ _ "OpReceipt dl ok bad now"]) simp
  with Cons show ?case by (auto simp: Let_def intro: reaches_trans)
qed simp


end
