(* ===== verification/Notification_Properties.thy ===== *)
theory Notification_Properties
  imports Push_Properties
begin

text \<open>
  What reconciliation does to the notification rows, and the preference store: an item is announced until
  its current fingerprint was delivered, whatever quiet hours and modes do in between.
\<close>

subsection \<open>Dictionaries by id\<close>

lemma dict_put_ids: "set (map at_id (dict_put i xs)) = insert (at_id i) (set (map at_id xs))"
  by (induction xs) auto

lemma dict_put_distinct: "distinct (map at_id xs) \<Longrightarrow> distinct (map at_id (dict_put i xs))"
proof (induction xs)
  case (Cons x xs)
  have "at_id x \<notin> set (map at_id (dict_put i xs))" if "at_id x \<noteq> at_id i"
    using Cons.prems that dict_put_ids[of i xs] by simp
  with Cons show ?case by auto
qed simp

lemma by_id_distinct: "distinct (map at_id (by_id items))"
proof -
  have "distinct (map at_id (fold dict_put items acc))" if "distinct (map at_id acc)" for acc
    using that by (induction items arbitrary: acc) (auto intro: dict_put_distinct)
  then show ?thesis by (simp add: by_id_def)
qed

lemma actionable_distinct: "distinct (map at_id (actionable_items m items))"
  by (simp add: actionable_items_def by_id_distinct)

subsection \<open>One item\<close>

text \<open>The item's current fingerprint was delivered and is still active.\<close>

definition announced :: "(json \<Rightarrow> string) \<Rightarrow> string \<Rightarrow> notif table \<Rightarrow> att_item \<Rightarrow> bool" where
  "announced digest user t i = (case tbl_get (nt_sel (user, at_id i)) t of
     None \<Rightarrow> False
   | Some n \<Rightarrow> nt_fingerprint n = fingerprint digest i \<and> nt_active n \<and> nt_delivered n)"

definition tracked :: "(json \<Rightarrow> string) \<Rightarrow> string \<Rightarrow> bool \<Rightarrow> notif table \<Rightarrow> att_item \<Rightarrow> bool" where
  "tracked digest user delivered t i \<longleftrightarrow> (\<exists>n. tbl_get (nt_sel (user, at_id i)) t = Some n
     \<and> nt_active n \<and> nt_fingerprint n = fingerprint digest i \<and> nt_delivered n = delivered)"

lemma upsert_other: "k \<noteq> (user, item) \<Longrightarrow> tbl_get (nt_sel k) (upsert_note user item fp now t) = tbl_get (nt_sel k) t"
  unfolding upsert_note_def
  by (auto simp: ntk.get_upd_row tbl_get_append nt_sel_def split: option.split)

lemma upsert_same:
  "\<exists>n. tbl_get (nt_sel (user, item)) (upsert_note user item fp now t) = Some n
     \<and> nt_active n \<and> nt_fingerprint n = fp \<and> \<not> nt_delivered n"
proof (cases "tbl_ex (nt_sel (user, item)) t")
  case True
  then obtain n where "tbl_get (nt_sel (user, item)) t = Some n"
    by (auto simp: tbl_ex_iff tbl_get_None_iff[symmetric] dest: tbl_get_None_iff[THEN iffD1])
       (metis not_Some_eq tbl_get_None_iff)
  with True show ?thesis by (simp add: upsert_note_def ntk.get_upd_row)
next
  case False
  then have "tbl_get (nt_sel (user, item)) t = None" by (auto simp: tbl_ex_iff tbl_get_None_iff)
  with False show ?thesis by (simp add: upsert_note_def tbl_get_append nt_sel_def)
qed

lemma reconcile_item_snd:
  "snd (reconcile_item digest user now old i acc) = snd acc @ (if announced digest user old i then [] else [i])"
  by (auto simp: reconcile_item_def Let_def note_changed_def announced_def split: option.splits)

lemma reconcile_item_other:
  "k \<noteq> (user, at_id i) \<Longrightarrow> tbl_get (nt_sel k) (fst (reconcile_item digest user now old i acc)) = tbl_get (nt_sel k) (fst acc)"
  by (simp add: reconcile_item_def Let_def upsert_other)

lemma reconcile_item_same:
  assumes "tbl_get (nt_sel (user, at_id i)) (fst acc) = tbl_get (nt_sel (user, at_id i)) old"
  shows "tracked digest user (announced digest user old i) (fst (reconcile_item digest user now old i acc)) i"
proof (cases "note_changed (fingerprint digest i) (tbl_get (nt_sel (user, at_id i)) old)")
  case True
  then have "\<not> announced digest user old i" by (auto simp: note_changed_def announced_def split: option.splits)
  with True show ?thesis
    using upsert_same[of user "at_id i" "fingerprint digest i" now "fst acc"]
    by (auto simp: reconcile_item_def Let_def tracked_def)
next
  case False
  then show ?thesis
    using assms by (auto simp: reconcile_item_def Let_def tracked_def note_changed_def announced_def split: option.splits)
qed

lemma reconcile_item_rows:
  "n \<in> set (fst (reconcile_item digest user now old i acc)) \<Longrightarrow> n \<in> set (fst acc) \<or> (nt_user n, nt_item n) = (user, at_id i)"
  by (auto simp: reconcile_item_def Let_def upsert_note_def set_tbl_upd nt_sel_def split: if_splits)

subsection \<open>The loop\<close>

lemma reconcile_loop_snd:
  "snd (fold (reconcile_item digest user now old) acts acc) = snd acc @ filter (\<lambda>i. \<not> announced digest user old i) acts"
  by (induction acts arbitrary: acc) (auto simp: reconcile_item_snd)

lemma reconcile_loop_other:
  "\<forall>i \<in> set acts. k \<noteq> (user, at_id i) \<Longrightarrow>
     tbl_get (nt_sel k) (fst (fold (reconcile_item digest user now old) acts acc)) = tbl_get (nt_sel k) (fst acc)"
  by (induction acts arbitrary: acc) (auto simp: reconcile_item_other)

lemma reconcile_loop_same:
  assumes "distinct (map at_id acts)"
    and "\<And>i. i \<in> set acts \<Longrightarrow> tbl_get (nt_sel (user, at_id i)) (fst acc) = tbl_get (nt_sel (user, at_id i)) old"
    and "i \<in> set acts"
  shows "tracked digest user (announced digest user old i) (fst (fold (reconcile_item digest user now old) acts acc)) i"
  using assms
proof (induction acts arbitrary: acc)
  case (Cons a acts)
  let ?acc = "reconcile_item digest user now old a acc"
  show ?case
  proof (cases "i = a")
    case True
    have "tbl_get (nt_sel (user, at_id a)) (fst (fold (reconcile_item digest user now old) acts ?acc)) = tbl_get (nt_sel (user, at_id a)) (fst ?acc)"
      using Cons.prems(1) by (intro reconcile_loop_other) auto
    with True reconcile_item_same[of user a acc old digest now] Cons.prems(2)[of a] show ?thesis
      by (simp add: tracked_def)
  next
    case False
    have "tbl_get (nt_sel (user, at_id j)) (fst ?acc) = tbl_get (nt_sel (user, at_id j)) old" if "j \<in> set acts" for j
    proof -
      have "at_id j \<noteq> at_id a" using Cons.prems(1) imageI[OF that, of at_id] by auto
      then show ?thesis using Cons.prems(2)[of j] that by (simp add: reconcile_item_other)
    qed
    then show ?thesis using Cons.prems False Cons.IH[of ?acc] by simp
  qed
qed simp

lemma reconcile_loop_rows:
  "n \<in> set (fst (fold (reconcile_item digest user now old) acts acc)) \<Longrightarrow>
     n \<in> set (fst acc) \<or> (nt_user n = user \<and> nt_item n \<in> at_id ` set acts)"
proof (induction acts arbitrary: acc)
  case (Cons a acts)
  from Cons.IH[of "reconcile_item digest user now old a acc"] Cons.prems
  have "n \<in> set (fst (reconcile_item digest user now old a acc)) \<or> (nt_user n = user \<and> nt_item n \<in> at_id ` set acts)" by simp
  then show ?case using reconcile_item_rows[of n digest user now old a acc] by auto
qed simp

lemma retire_keeps:
  "i \<in> set acts \<Longrightarrow> tbl_get (nt_sel (user, at_id i)) (retire_notes user (map at_id acts) now t) = tbl_get (nt_sel (user, at_id i)) t"
  unfolding retire_notes_def by (induction t) (auto simp: nt_sel_def)

lemma mark_get:
  "tbl_get (nt_sel k) (mark_delivered user ids t) = map_option (\<lambda>n. if nt_user n = user \<and> nt_item n \<in> set ids \<and> nt_active n
      then n\<lparr>nt_delivered := True\<rparr> else n) (tbl_get (nt_sel k) t)"
  unfolding mark_delivered_def by (rule tbl_get_upd) (simp add: nt_sel_def)

lemma mark_tracked:
  assumes "tracked digest user b t i"
  shows "tracked digest user (at_id i \<in> set ids \<or> b) (mark_delivered user ids t) i"
proof -
  obtain n where n: "tbl_get (nt_sel (user, at_id i)) t = Some n" "nt_active n" "nt_fingerprint n = fingerprint digest i" "nt_delivered n = b"
    using assms by (auto simp: tracked_def)
  then have "nt_user n = user" "nt_item n = at_id i" using tbl_get_SomeD(2)[OF n(1)] by (auto simp: nt_sel_def)
  with n show ?thesis by (simp add: tracked_def mark_get)
qed

lemma retire_rows:
  "m \<in> set (retire_notes user ids now t) \<Longrightarrow> nt_user m = user \<Longrightarrow> nt_active m \<Longrightarrow> nt_item m \<in> set ids"
proof -
  assume m: "m \<in> set (retire_notes user ids now t)" "nt_user m = user" "nt_active m"
  from m(1) show "nt_item m \<in> set ids"
    unfolding retire_notes_def by (cases rule: tbl_updE) (use m(2,3) in auto)
qed

lemma mark_rows:
  "n \<in> set (mark_delivered user ids t) \<Longrightarrow> \<exists>m \<in> set t. nt_user m = nt_user n \<and> nt_active m = nt_active n \<and> nt_item m = nt_item n"
proof -
  assume "n \<in> set (mark_delivered user ids t)"
  then show ?thesis unfolding mark_delivered_def by (cases rule: tbl_updE) auto
qed

text \<open>Reconciliation neither loses nor repeats a notification: the items it returns for delivery are exactly the
  actionable ones whose current fingerprint has not been delivered, and it returns none while
  notifications are disabled or quiet; yet every actionable item is tracked as an active row with its
  fingerprint, which counts as delivered only if it was before (or is shown in the foreground now), so a
  suppressed item is returned later; and every other row of the user is inactive.\<close>

theorem reconcile_exactly_once:
  assumes "reconcile_notification_events digest user items fg hour now d = (e, r)"
    and "acts = actionable_items (pv_mode (get_notification_preferences user d)) items"
    and "pv = get_notification_preferences user d"
  shows "rc_events r = (if pv_enabled pv \<and> \<not> quiet hour (pv_start pv) (pv_end pv) \<and> \<not> fg
           then filter (\<lambda>i. \<not> announced digest user (notifs d) i) acts else [])
    \<and> (\<forall>i \<in> set acts. tracked digest user (fg \<or> announced digest user (notifs d) i) (notifs e) i)
    \<and> (\<forall>n \<in> set (notifs e). nt_user n = user \<longrightarrow> nt_active n \<longrightarrow> nt_item n \<in> set (map at_id acts))"
proof -
  define t0 where "t0 = retire_notes user (map at_id acts) now (notifs d)"
  define acc where "acc = fold (reconcile_item digest user now (notifs d)) acts (t0, [])"
  have pend: "snd acc = filter (\<lambda>i. \<not> announced digest user (notifs d) i) acts"
    by (simp add: acc_def reconcile_loop_snd)
  obtain t1 ps where ac: "acc = (t1, ps)" by fastforce
  then have fo: "fold (reconcile_item digest user now (notifs d)) (actionable_items (pv_mode pv) items)
      (retire_notes user (map at_id (actionable_items (pv_mode pv) items)) now (notifs d), []) = (t1, ps)"
    by (simp add: acc_def t0_def assms(2,3))
  have R: "(d\<lparr>notifs := if fg then mark_delivered user (map at_id ps) t1 else t1\<rparr>,
      \<lparr>rc_events = if pv_enabled pv \<and> \<not> quiet hour (pv_start pv) (pv_end pv) then if fg then [] else ps else [],
       rc_enabled = pv_enabled pv, rc_mode = pv_mode pv, rc_quiet = quiet hour (pv_start pv) (pv_end pv), rc_suppressed = fg\<rparr>) = (e, r)"
    using assms(1) unfolding reconcile_notification_events_def Let_def assms(3)[symmetric] fo prod.case .
  have e: "notifs e = (if fg then mark_delivered user (map at_id (snd acc)) (fst acc) else fst acc)"
    using R[unfolded prod.inject, THEN conjunct1, symmetric] ac by simp
  have ev: "rc_events r = (if pv_enabled pv \<and> \<not> quiet hour (pv_start pv) (pv_end pv) \<and> \<not> fg then snd acc else [])"
    using R[unfolded prod.inject, THEN conjunct2, symmetric] ac by simp
  have tr: "tracked digest user (announced digest user (notifs d) i) (fst acc) i" if "i \<in> set acts" for i
    unfolding acc_def using that
    by (intro reconcile_loop_same) (simp_all add: assms(2) actionable_distinct t0_def retire_keeps)
  have "tracked digest user (fg \<or> announced digest user (notifs d) i) (notifs e) i" if i: "i \<in> set acts" for i
  proof (cases fg)
    case True
    have "announced digest user (notifs d) i \<or> at_id i \<in> set (map at_id (snd acc))" using i by (auto simp: pend)
    then show ?thesis using mark_tracked[OF tr[OF i], of "map at_id (snd acc)"] True e by (auto simp: disj_commute)
  qed (use tr[OF i] e in simp)
  moreover have "nt_item n \<in> set (map at_id acts)" if n: "n \<in> set (notifs e)" "nt_user n = user" "nt_active n" for n
  proof -
    have "\<exists>m \<in> set (fst acc). nt_user m = nt_user n \<and> nt_active m = nt_active n \<and> nt_item m = nt_item n"
      using n(1) mark_rows[of n] unfolding e by (cases fg) auto
    then obtain m where m: "m \<in> set (fst acc)" "nt_user m = user" "nt_active m" "nt_item m = nt_item n" using n by auto
    have "m \<in> set t0 \<or> nt_item m \<in> at_id ` set acts" using reconcile_loop_rows[of m digest user now _ acts "(t0, [])"] m(1)
      by (auto simp: acc_def)
    moreover have "m \<notin> set t0 \<or> nt_item m \<in> at_id ` set acts"
      using m(2,3) retire_rows[of m user "map at_id acts"] by (auto simp: t0_def)
    ultimately show ?thesis using m(4) by auto
  qed
  ultimately show ?thesis using ev pend by auto
qed

definition sample_item :: att_item where
  "sample_item = \<lparr>at_id = ''i1'', at_kind = Some ''blocker'', at_requires = True, at_consequential = False, at_revision = JInt 1,
     at_title = JStr ''t'', at_subtitle = JNull, at_status = JNull, at_url = JNull, at_decision = JNull\<rparr>"

theorem reconcile_exactly_once_witness:
  "rc_events (snd (reconcile_notification_events (\<lambda>_. ''fp'') ''u'' [sample_item] False (Some 12) 5 empty_push)) = [sample_item]"
proof -
  let ?R = "reconcile_notification_events (\<lambda>_. ''fp'') ''u'' [sample_item] False (Some 12) 5 empty_push"
  have p: "get_notification_preferences ''u'' empty_push =
      \<lparr>pv_enabled = True, pv_start = None, pv_end = None, pv_mode = ''moderate''\<rparr>"
    by (simp add: get_notification_preferences_def empty_push_def DEFAULT_NOTIFICATION_MODE_def)
  have a: "actionable_items ''moderate'' [sample_item] = [sample_item]"
    by (simp add: actionable_items_def by_id_def sample_item_def mode_for_kind_def kind_in_def MODERATE_KINDS_def RESTRICTED_KINDS_def)
  have n: "notifs empty_push = []" by (simp add: empty_push_def)
  show ?thesis
    using reconcile_exactly_once[of "\<lambda>_. ''fp''" "''u''" "[sample_item]" False "Some 12" 5 empty_push "fst ?R" "snd ?R", OF _ refl refl]
    by (simp add: p a n quiet_def announced_def)
qed

subsection \<open>Preferences\<close>

text \<open>C38. Preferences round-trip: an accepted update is read back exactly, leaves every other user's preferences
  unchanged, and always stores a known mode with both or neither quiet hour in range.\<close>

theorem preferences_roundtrip:
  assumes "update_notification_preferences user enabled qs qe m d = Inr (e, v)"
  shows "get_notification_preferences user e = v
    \<and> v = \<lparr>pv_enabled = enabled, pv_start = qs, pv_end = qe, pv_mode = m\<rparr>
    \<and> (other \<noteq> user \<longrightarrow> get_notification_preferences other e = get_notification_preferences other d)
    \<and> m \<in> set NOTIFICATION_MODES \<and> (qs = None \<longleftrightarrow> qe = None) \<and> \<not> bad_hour qs \<and> \<not> bad_hour qe"
proof -
  let ?row = "\<lparr>pf_user = user, pf_enabled = enabled, pf_start = qs, pf_end = qe, pf_mode = m\<rparr>"
  define t where "t = (if tbl_ex (\<lambda>p. pf_user p = user) (preferences d)
      then tbl_upd (\<lambda>p. pf_user p = user) (\<lambda>_. ?row) (preferences d) else preferences d @ [?row])"
  have ok: "m \<in> set NOTIFICATION_MODES \<and> (qs = None \<longleftrightarrow> qe = None) \<and> \<not> bad_hour qs \<and> \<not> bad_hour qe"
    and e: "preferences e = t" and v: "v = \<lparr>pv_enabled = enabled, pv_start = qs, pv_end = qe, pv_mode = m\<rparr>"
    using assms by (auto simp: update_notification_preferences_def t_def Let_def split: if_splits)
  have "tbl_ex (\<lambda>p. pf_user p = user) u \<Longrightarrow> tbl_get (\<lambda>p. pf_user p = user) (tbl_upd (\<lambda>p. pf_user p = user) (\<lambda>_. ?row) u) = Some ?row" for u
    by (induction u) auto
  moreover have "\<not> tbl_ex (\<lambda>p. pf_user p = user) u \<Longrightarrow> tbl_get (\<lambda>p. pf_user p = user) (u @ [?row]) = Some ?row" for u
    by (induction u) auto
  ultimately have same: "tbl_get (\<lambda>p. pf_user p = user) t = Some ?row" by (simp add: t_def)
  have "other \<noteq> user \<Longrightarrow> tbl_get (\<lambda>p. pf_user p = other) (tbl_upd (\<lambda>p. pf_user p = user) (\<lambda>_. ?row) u) = tbl_get (\<lambda>p. pf_user p = other) u" for u
    by (induction u) auto
  moreover have "other \<noteq> user \<Longrightarrow> tbl_get (\<lambda>p. pf_user p = other) (u @ [?row]) = tbl_get (\<lambda>p. pf_user p = other) u" for u
    by (induction u) auto
  ultimately have "other \<noteq> user \<longrightarrow> tbl_get (\<lambda>p. pf_user p = other) t = tbl_get (\<lambda>p. pf_user p = other) (preferences d)"
    by (simp add: t_def)
  with same ok v e show ?thesis by (simp add: get_notification_preferences_def)
qed

theorem preferences_roundtrip_witness:
  "\<exists>e v. update_notification_preferences ''u'' True (Some 22) (Some 7) ''full'' empty_push = Inr (e, v)
     \<and> get_notification_preferences ''u'' e = v"
proof -
  have "\<exists>e v. update_notification_preferences ''u'' True (Some 22) (Some 7) ''full'' empty_push = Inr (e, v)"
    by (simp add: update_notification_preferences_def NOTIFICATION_MODES_def bad_hour_def Let_def)
  then obtain e v where u: "update_notification_preferences ''u'' True (Some 22) (Some 7) ''full'' empty_push = Inr (e, v)" by blast
  with preferences_roundtrip[OF u] show ?thesis by blast
qed

end
