(* ===== verification/Execution_Contract.thy ===== *)
theory Execution_Contract
  imports Objective_State
begin

text \<open>
  \<open>app/firstmate_execution.py\<close>, the closed event vocabulary: objective accepted, progress, completed with
  verification evidence, failed or cancelled, with optional measured usage. \<open>validate_event\<close> is what the
  pydantic models enforce. The record \<open>text_policy\<close> stands for \<open>_contains_sensitive_text\<close>,
  \<open>safe_pull_request_url\<close> (as a test) and the byte length of the canonical JSON encoding. Characters are
  code points up to 255; a surrogate cannot occur.
\<close>

record text_policy =
  tp_sensitive :: "string \<Rightarrow> bool"
  tp_pull_request :: "string \<Rightarrow> bool"
  tp_size :: "json \<Rightarrow> int"

definition MAX_SAFE_INTEGER :: int where "MAX_SAFE_INTEGER = 9007199254740991"

definition MAX_EVENT_BYTES :: int where "MAX_EVENT_BYTES = 64 * 1024"

definition MAX_COMPLETION_CHECKS :: nat where "MAX_COMPLETION_CHECKS = 32"

definition MAX_COMPLETION_ARTIFACTS :: nat where "MAX_COMPLETION_ARTIFACTS = 16"

definition TERMINAL_PHASES :: "string list" where
  "TERMINAL_PHASES = [''objective.completed'', ''objective.failed'', ''objective.cancelled'']"

definition PROGRESS_PHASES :: "string list" where
  "PROGRESS_PHASES = [''worker.started'', ''implementation.started'', ''tests.started'', ''tests.passed'', ''tests.failed'', ''review.started'']"

subsection \<open>Data\<close>

record verification_check =
  ck_id :: string
  ck_kind :: string
  ck_label :: string

datatype artifact = PullRequest string | Report string | CommitRef string

record completion_evidence =
  ce_checks :: "verification_check list"
  ce_artifacts :: "artifact list"

record measured_usage =
  mu_provider :: string
  mu_model :: string
  mu_input :: int
  mu_output :: int
  mu_compute :: int
  mu_cost :: "int option"

datatype event_body =
    BAccepted string "string option" string string
  | BProgress string
  | BCompleted completion_evidence "measured_usage option"
  | BTerminal string "measured_usage option"

record exec_event =
  xv_id :: string
  xv_objective :: string
  xv_task :: string
  xv_run :: string
  xv_occurred :: int
  xv_body :: event_body

fun body_phase :: "event_body \<Rightarrow> string" where
  "body_phase (BAccepted _ _ _ _) = ''objective.accepted''"
| "body_phase (BProgress p) = p"
| "body_phase (BCompleted _ _) = ''objective.completed''"
| "body_phase (BTerminal p _) = p"

definition xv_phase :: "exec_event \<Rightarrow> string" where
  "xv_phase e = body_phase (xv_body e)"

fun body_usage :: "event_body \<Rightarrow> measured_usage option" where
  "body_usage (BCompleted _ u) = u"
| "body_usage (BTerminal _ u) = u"
| "body_usage _ = None"

definition xv_usage :: "exec_event \<Rightarrow> measured_usage option" where
  "xv_usage e = body_usage (xv_body e)"

definition is_terminal_phase :: "string \<Rightarrow> bool" where
  "is_terminal_phase p \<longleftrightarrow> p \<in> set TERMINAL_PHASES"

subsection \<open>Text\<close>

text \<open>Unicode categories \<open>C*\<close> among the code points up to 255.\<close>

definition control_char :: "char \<Rightarrow> bool" where
  "control_char c \<longleftrightarrow> code c < 32 \<or> (127 \<le> code c \<and> code c \<le> 159) \<or> code c = 173"

definition has_control_text :: "string \<Rightarrow> bool" where
  "has_control_text s \<longleftrightarrow> list_ex control_char s"

definition display_text_ok :: "text_policy \<Rightarrow> nat \<Rightarrow> string \<Rightarrow> bool" where
  "display_text_ok tp maximum s \<longleftrightarrow> s \<noteq> [] \<and> py_strip s = s \<and> length s \<le> maximum \<and> \<not> has_control_text s \<and> \<not> tp_sensitive tp s"

definition id_char :: "char \<Rightarrow> bool" where
  "id_char c \<longleftrightarrow> is_alnum c \<or> c \<in> {CHR ''.'', CHR ''_'', CHR '':'', CHR ''-''}"

definition event_id_ok :: "string \<Rightarrow> bool" where
  "event_id_ok = full_class is_alnum id_char 0 127"

definition task_id_ok :: "string \<Rightarrow> bool" where
  "task_id_ok = full_class is_alnum id_char 0 199"

definition chat_id_ok :: "string \<Rightarrow> string \<Rightarrow> bool" where
  "chat_id_ok prefix s \<longleftrightarrow> 8 \<le> length s \<and> length s \<le> 128 \<and> starts_with prefix s
     \<and> length prefix < length s \<and> list_all (\<lambda>c. is_alnum c \<or> c = CHR ''_'' \<or> c = CHR ''-'') (drop (length prefix) s)"

definition hex_char :: "char \<Rightarrow> bool" where
  "hex_char c \<longleftrightarrow> is_digit c \<or> (97 \<le> code c \<and> code c \<le> 102)"

definition safe_int :: "int \<Rightarrow> bool" where
  "safe_int n \<longleftrightarrow> 0 \<le> n \<and> n \<le> MAX_SAFE_INTEGER"

subsection \<open>Validation\<close>

definition CHECK_KINDS :: "string list" where
  "CHECK_KINDS = [''acceptance'', ''test'', ''typecheck'', ''lint'', ''build'', ''review'', ''deployment'']"

definition check_ok :: "text_policy \<Rightarrow> verification_check \<Rightarrow> bool" where
  "check_ok tp c \<longleftrightarrow> event_id_ok (ck_id c) \<and> \<not> tp_sensitive tp (ck_id c) \<and> ck_kind c \<in> set CHECK_KINDS
     \<and> display_text_ok tp 160 (ck_label c)"

fun artifact_ok :: "text_policy \<Rightarrow> artifact \<Rightarrow> bool" where
  "artifact_ok tp (PullRequest u) \<longleftrightarrow> 1 \<le> length u \<and> length u \<le> 2048 \<and> \<not> has_control_text u \<and> tp_pull_request tp u \<and> \<not> tp_sensitive tp u"
| "artifact_ok tp (Report r) \<longleftrightarrow> task_id_ok r \<and> \<not> tp_sensitive tp r"
| "artifact_ok tp (CommitRef h) \<longleftrightarrow> 7 \<le> length h \<and> length h \<le> 64 \<and> list_all hex_char h"

fun public_artifact :: "artifact \<Rightarrow> bool" where
  "public_artifact (CommitRef _) = False" | "public_artifact _ = True"

definition usage_ok :: "measured_usage \<Rightarrow> bool" where
  "usage_ok u \<longleftrightarrow> full_class is_alnum (\<lambda>c. is_alnum c \<or> c \<in> {CHR ''.'', CHR ''_'', CHR ''-''}) 0 63 (mu_provider u)
     \<and> full_class is_alnum id_char 0 127 (mu_model u)
     \<and> safe_int (mu_input u) \<and> safe_int (mu_output u) \<and> safe_int (mu_compute u)
     \<and> (case mu_cost u of None \<Rightarrow> True | Some n \<Rightarrow> safe_int n)"

subsection \<open>Payloads\<close>

text \<open>\<open>model_dump(mode="json")\<close>, with \<open>exclude_none=True\<close> where \<open>nulls\<close> is false. The stored payload leaves
  absent values out; the size bound is on the dump with nulls. A JSON column is the value it encodes, so
  the order of keys does not matter; it is fixed here.\<close>

definition opt_entry :: "bool \<Rightarrow> string \<Rightarrow> json option \<Rightarrow> (string \<times> json) list" where
  "opt_entry nulls k v = (case v of None \<Rightarrow> (if nulls then [(k, JNull)] else []) | Some x \<Rightarrow> [(k, x)])"

definition usage_json :: "bool \<Rightarrow> measured_usage \<Rightarrow> json" where
  "usage_json nulls u = JObj ([(''compute_milliseconds'', JInt (mu_compute u))]
     @ opt_entry nulls ''cost_micro_usd'' (map_option JInt (mu_cost u))
     @ [(''input_tokens'', JInt (mu_input u)), (''model'', JStr (mu_model u)), (''output_tokens'', JInt (mu_output u)),
        (''provider'', JStr (mu_provider u))])"

definition check_json :: "verification_check \<Rightarrow> json" where
  "check_json c = JObj [(''check_id'', JStr (ck_id c)), (''kind'', JStr (ck_kind c)), (''label'', JStr (ck_label c)),
     (''status'', JStr ''passed'')]"

fun artifact_json :: "artifact \<Rightarrow> json" where
  "artifact_json (PullRequest u) = JObj [(''kind'', JStr ''pull-request''), (''url'', JStr u)]"
| "artifact_json (Report r) = JObj [(''kind'', JStr ''report''), (''report_id'', JStr r)]"
| "artifact_json (CommitRef h) = JObj [(''commit_sha'', JStr h), (''kind'', JStr ''commit'')]"

definition evidence_json :: "completion_evidence \<Rightarrow> json" where
  "evidence_json ev = JObj [(''artifacts'', JList (map artifact_json (ce_artifacts ev))),
     (''checks'', JList (map check_json (ce_checks ev))), (''result'', JStr ''completed''),
     (''schema_version'', JStr ''firstmate.completion-evidence.v1''), (''verification'', JStr ''verified'')]"

fun body_json :: "bool \<Rightarrow> event_body \<Rightarrow> (string \<times> json) list" where
  "body_json nulls (BAccepted title project conv msg) =
     [(''chat'', JObj [(''conversation_id'', JStr conv), (''user_message_id'', JStr msg)]),
      (''objective'', JObj (opt_entry nulls ''project'' (map_option JStr project) @ [(''title'', JStr title)]))]"
| "body_json nulls (BProgress p) = []"
| "body_json nulls (BCompleted ev u) = (''evidence'', evidence_json ev) # opt_entry nulls ''usage'' (map_option (usage_json nulls) u)"
| "body_json nulls (BTerminal p u) = opt_entry nulls ''usage'' (map_option (usage_json nulls) u)"

definition event_dump :: "bool \<Rightarrow> exec_event \<Rightarrow> json" where
  "event_dump nulls e = JObj ([(''event_id'', JStr (xv_id e)), (''objective_id'', JStr (xv_objective e)),
      (''occurred_at_ms'', JInt (xv_occurred e)), (''phase'', JStr (xv_phase e)), (''run_id'', JStr (xv_run e)),
      (''schema_version'', JStr ''firstmate.execution-event.v1''), (''task_id'', JStr (xv_task e))] @ body_json nulls (xv_body e))"

definition event_payload :: "exec_event \<Rightarrow> json" where
  "event_payload e = event_dump False e"

definition evidence_ok :: "text_policy \<Rightarrow> completion_evidence \<Rightarrow> bool" where
  "evidence_ok tp ev \<longleftrightarrow> 1 \<le> length (ce_checks ev) \<and> length (ce_checks ev) \<le> MAX_COMPLETION_CHECKS
     \<and> length (ce_artifacts ev) \<le> MAX_COMPLETION_ARTIFACTS
     \<and> list_all (check_ok tp) (ce_checks ev) \<and> list_all (artifact_ok tp) (ce_artifacts ev)
     \<and> distinct (map ck_id (ce_checks ev)) \<and> distinct (ce_artifacts ev)
     \<and> length (filter public_artifact (ce_artifacts ev)) \<le> 8
     \<and> tp_size tp (evidence_json ev) \<le> MAX_EVENT_BYTES"

fun body_ok :: "text_policy \<Rightarrow> event_body \<Rightarrow> bool" where
  "body_ok tp (BAccepted title project conv msg) \<longleftrightarrow> display_text_ok tp 240 title
     \<and> (case project of None \<Rightarrow> True | Some p \<Rightarrow> display_text_ok tp 160 p)
     \<and> chat_id_ok ''mgc_'' conv \<and> chat_id_ok ''mgm_'' msg"
| "body_ok tp (BProgress p) \<longleftrightarrow> p \<in> set PROGRESS_PHASES"
| "body_ok tp (BCompleted ev u) \<longleftrightarrow> evidence_ok tp ev \<and> (case u of None \<Rightarrow> True | Some m \<Rightarrow> usage_ok m)"
| "body_ok tp (BTerminal p u) \<longleftrightarrow> p \<in> {''objective.failed'', ''objective.cancelled''} \<and> (case u of None \<Rightarrow> True | Some m \<Rightarrow> usage_ok m)"

definition validate_event :: "text_policy \<Rightarrow> exec_event \<Rightarrow> bool" where
  "validate_event tp e \<longleftrightarrow> event_id_ok (xv_id e) \<and> event_id_ok (xv_objective e) \<and> task_id_ok (xv_task e) \<and> event_id_ok (xv_run e)
     \<and> safe_int (xv_occurred e) \<and> body_ok tp (xv_body e) \<and> tp_size tp (event_dump True e) \<le> MAX_EVENT_BYTES"

text \<open>The activity record of an event: its kind and state.\<close>

definition activity_state :: "string \<Rightarrow> string" where
  "activity_state p =
     (if p = ''tests.passed'' \<or> p = ''objective.completed'' then ''completed''
      else if p = ''tests.failed'' \<or> p = ''objective.failed'' then ''failed''
      else if p = ''objective.cancelled'' then ''cancelled'' else ''active'')"

definition activity_refs :: "exec_event \<Rightarrow> artifact list" where
  "activity_refs e = (case xv_body e of BCompleted ev _ \<Rightarrow> take 8 (filter public_artifact (ce_artifacts ev)) | _ \<Rightarrow> [])"

subsection \<open>The payload determines the event\<close>

lemma usage_json_inj [simp]: "usage_json nulls u = usage_json nulls v \<longleftrightarrow> u = v"
  by (cases "mu_cost u"; cases "mu_cost v"; cases nulls) (auto simp: usage_json_def opt_entry_def)

lemma check_json_inj: "check_json c = check_json d \<Longrightarrow> c = d"
  by (cases c, cases d) (simp add: check_json_def)

lemma artifact_json_inj: "artifact_json a = artifact_json b \<Longrightarrow> a = b"
  by (cases a; cases b) auto

lemma evidence_json_inj [simp]: "evidence_json e = evidence_json f \<longleftrightarrow> e = f"
proof
  assume "evidence_json e = evidence_json f"
  then have "ce_artifacts e = ce_artifacts f" "ce_checks e = ce_checks f"
    by (auto simp: evidence_json_def intro!: list.inj_map_strong[of _ _ artifact_json artifact_json]
        list.inj_map_strong[of _ _ check_json check_json] artifact_json_inj check_json_inj)
  then show "e = f" by simp
qed simp

lemma terminal_not_progress: "p \<in> set PROGRESS_PHASES \<Longrightarrow> p \<noteq> ''objective.failed'' \<and> p \<noteq> ''objective.cancelled''"
  by (auto simp: PROGRESS_PHASES_def)

lemma body_json_inj:
  assumes "body_phase b = body_phase c" and "body_ok tp b" and "body_ok tp c" and "body_json False b = body_json False c"
  shows "b = c"
  using assms terminal_not_progress
  by (cases b; cases c) (auto simp: opt_entry_def split: option.splits)

lemma event_payload_inj:
  assumes "event_payload e = event_payload f" and "validate_event tp e" and "validate_event tp f"
  shows "e = f"
proof -
  have "xv_body e = xv_body f"
    using assms body_json_inj[of "xv_body e" "xv_body f" tp]
    by (auto simp: event_payload_def event_dump_def validate_event_def xv_phase_def)
  moreover have "xv_id e = xv_id f" "xv_objective e = xv_objective f" "xv_task e = xv_task f" "xv_run e = xv_run f"
    "xv_occurred e = xv_occurred f"
    using assms(1) by (auto simp: event_payload_def event_dump_def)
  ultimately show ?thesis by simp
qed

end
