(* ===== verification/Execution_Store.thy ===== *)
theory Execution_Store
  imports Execution_Contract Credit_Ledger
begin

text \<open>
  \<open>app/firstmate_execution.py\<close>: \<open>PersonalResourceLedger\<close>, \<open>FirstmateExecutionStore\<close> and the event path of
  \<open>FirstmateExecutionService\<close>, over the tables of \<open>db.py\<close> they read and write. \<open>billing\<close> is the database
  of the credit ledger, so a terminal event settles the very reservation the ledger model holds.

  Parameters: \<open>act\<close> stands for \<open>_upsert_activity\<close> of \<open>activity_store.py\<close>, which returns the id of the
  activity record or raises (\<open>None\<close>); \<open>repo\<close> for \<open>execution_repository\<close> of \<open>projects.py\<close>. One call reads
  the clock once; \<open>now\<close> is in milliseconds in the event store and in seconds in the resource ledger.
\<close>

datatype exec_error =
    ExecConflict
  | ExecNotFound
  | ExecValueError
  | ExecKeyError
  | ExecIntegrity
  | ExecMode mode_error
  | ExecBilling billing_error

record exec_objective =
  eo_owner :: string
  eo_objective :: string
  eo_task :: string
  eo_run :: string
  eo_accepted_event :: string
  eo_conversation :: string
  eo_origin :: string
  eo_title :: string
  eo_project :: "string option"
  eo_terminal_event :: "string option"
  eo_terminal_phase :: "string option"
  eo_created :: int
  eo_updated :: int

datatype generation = GQueued | GGenerating | GCompleted | GFailed

record event_row =
  er_owner :: string
  er_event :: string
  er_objective :: string
  er_task :: string
  er_run :: string
  er_phase :: string
  er_occurred :: int
  er_payload :: json
  er_evidence :: "completion_evidence option"
  er_activity :: string
  er_generation :: "generation option"
  er_attempts :: int
  er_assistant :: "string option"
  er_error :: "string option"
  er_created :: int
  er_updated :: int

record chat_message =
  cm_id :: string
  cm_owner :: string
  cm_conversation :: string
  cm_role :: string
  cm_status :: string

record generated_row =
  gm_owner :: string
  gm_key :: string
  gm_message :: string

record hold =
  ph_objective :: string
  ph_owner :: string
  ph_actor :: string
  ph_contract :: string
  ph_policy :: personal_deployment
  ph_repository :: string
  ph_reserved :: int
  ph_workers :: int
  ph_status :: rs_status
  ph_actual :: "int option"
  ph_usage :: "json option"
  ph_event :: "string option"
  ph_period :: string
  ph_created :: int
  ph_updated :: int

record submission_row =
  sb_owner :: string
  sb_objective :: string
  sb_task :: string
  sb_status :: string

record decision_row =
  dn_owner :: string
  dn_task :: string
  dn_state :: string

datatype cancel_status = CqRequested | CqObserved | CqFailed

datatype note_status = NotePending | NoteDelivered | NoteFailed

record cancel_request =
  cq_id :: string
  cq_owner :: string
  cq_objective :: string
  cq_task :: string
  cq_actor :: string
  cq_key :: string
  cq_status :: cancel_status
  cq_error :: "string option"
  cq_note :: note_status
  cq_attempts :: int
  cq_notified :: "int option"
  cq_created :: int
  cq_updated :: int

record exec_db =
  objectives :: "exec_objective table"
  events :: "event_row table"
  cancels :: "cancel_request table"
  subs :: "submission_row table"
  decisions :: "decision_row table"
  holds :: "hold table"
  messages :: "chat_message table"
  generated :: "generated_row table"
  projections :: "objective_contract table"
  billing :: billing_db

definition eo_sel :: "string \<times> string \<Rightarrow> exec_objective \<Rightarrow> bool" where
  "eo_sel k o' \<longleftrightarrow> (eo_owner o', eo_objective o') = k"

definition er_sel :: "string \<times> string \<Rightarrow> event_row \<Rightarrow> bool" where
  "er_sel k e \<longleftrightarrow> (er_owner e, er_event e) = k"

definition ph_sel :: "string \<Rightarrow> hold \<Rightarrow> bool" where
  "ph_sel k h \<longleftrightarrow> ph_objective h = k"

definition pj_sel :: "string \<times> string \<Rightarrow> objective_contract \<Rightarrow> bool" where
  "pj_sel k c \<longleftrightarrow> (oc_owner c, oc_objective c) = k"

definition cq_for :: "string \<Rightarrow> string \<Rightarrow> cancel_request \<Rightarrow> bool" where
  "cq_for owner objective c \<longleftrightarrow> cq_owner c = owner \<and> cq_objective c = objective"

subsection \<open>The write-side projection\<close>

text \<open>What \<open>persist_objective_state\<close> reads of the tables.\<close>

definition facts_of :: "string \<Rightarrow> string \<Rightarrow> exec_db \<Rightarrow> facts" where
  "facts_of owner objective d =
     (let sb = tbl_get (\<lambda>s. sb_owner s = owner \<and> sb_objective s = objective) (subs d);
          ex = tbl_get (eo_sel (owner, objective)) (objectives d);
          task = (case ex of Some x \<Rightarrow> Some (eo_task x) | None \<Rightarrow> map_option sb_task sb)
      in \<lparr>fc_submission = map_option sb_status sb, fc_execution = (ex \<noteq> None),
          fc_terminal = (case ex of None \<Rightarrow> None | Some x \<Rightarrow> eo_terminal_phase x),
          fc_phases = map er_phase (filter (\<lambda>e. er_owner e = owner \<and> er_objective e = objective) (events d)),
          fc_waiting = tbl_ex (\<lambda>q. dn_owner q = owner \<and> Some (dn_task q) = task \<and> dn_state q \<in> {''pending'', ''answering''}) (decisions d),
          fc_cancel = tbl_ex (cq_for owner objective) (cancels d)\<rparr>)"

definition put_projection :: "string \<times> string \<Rightarrow> objective_contract option \<Rightarrow> exec_db \<Rightarrow> exec_db" where
  "put_projection k c d = (case c of
     None \<Rightarrow> d
   | Some x \<Rightarrow> d\<lparr>projections := (if tbl_ex (pj_sel k) (projections d)
        then tbl_upd (pj_sel k) (\<lambda>_. x) (projections d) else projections d @ [x])\<rparr>)"

definition persist_state :: "string \<Rightarrow> string \<Rightarrow> exec_db \<Rightarrow> exec_error + exec_db" where
  "persist_state owner objective d =
     (case persist_objective_state owner objective (facts_of owner objective d) False
             (tbl_get (pj_sel (owner, objective)) (projections d)) of
        Inl e \<Rightarrow> Inl (ExecMode e)
      | Inr c \<Rightarrow> Inr (put_projection (owner, objective) c d))"

subsection \<open>Personal resources\<close>

definition ledger_usage :: "string \<Rightarrow> int \<Rightarrow> exec_db \<Rightarrow> mode_error + personal_usage" where
  "ledger_usage owner now d =
     (let live = (\<lambda>h. ph_owner h = owner \<and> ph_status h = Reserved);
          historical = tbl_count (\<lambda>r. rs_owner r = owner \<and> rs_status r = Reserved) (reservations (billing d));
          unknown = tbl_count (\<lambda>x. eo_owner x = owner \<and> eo_terminal_phase x = None
                      \<and> \<not> tbl_ex (\<lambda>h. ph_objective h = eo_objective x \<and> ph_status h = Reserved) (holds d)) (objectives d);
          u = \<lparr>pu_owner = owner, pu_objectives = int (tbl_count live (holds d)),
               pu_workers = tbl_sum live ph_workers (holds d),
               pu_spent = tbl_sum (\<lambda>h. ph_owner h = owner \<and> ph_status h = Settled \<and> ph_period h = period_key_of now)
                            (\<lambda>h. case ph_actual h of None \<Rightarrow> 0 | Some n \<Rightarrow> n) (holds d),
               pu_reserved = tbl_sum live ph_reserved (holds d)\<rparr>
      in if historical \<noteq> 0 \<or> unknown \<noteq> 0 then Inl (DeploymentModeError ''historical_execution_unsettled'' 409)
         else if personal_usage_valid u then Inr u else Inl ValidationError)"

text \<open>\<open>reserve\<close> runs inside the caller's transaction.\<close>

definition new_hold :: "personal_deployment \<Rightarrow> principal \<Rightarrow> string \<Rightarrow> string \<Rightarrow> string \<Rightarrow> int \<Rightarrow> int \<Rightarrow> int \<Rightarrow> hold" where
  "new_hold c p objective sha repository amount workers now =
     \<lparr>ph_objective = objective, ph_owner = pr_user p, ph_actor = pr_session p, ph_contract = sha, ph_policy = c,
      ph_repository = repository, ph_reserved = amount, ph_workers = workers, ph_status = Reserved, ph_actual = None,
      ph_usage = None, ph_event = None, ph_period = period_key_of now, ph_created = now, ph_updated = now\<rparr>"

definition personal_reserve :: "personal_deployment \<Rightarrow> (string \<Rightarrow> string option \<Rightarrow> string option) \<Rightarrow> principal \<Rightarrow> string \<Rightarrow> string \<Rightarrow> string option
    \<Rightarrow> int \<Rightarrow> int \<Rightarrow> exec_db \<Rightarrow> (mode_error, exec_db, unit) outcome" where
  "personal_reserve c repo p objective sha project workers now d =
     (case require_principal c p (Some ''command'') now of
        Inl e \<Rightarrow> Inl e
      | Inr _ \<Rightarrow>
         (case tbl_get (ph_sel objective) (holds d) of
            Some h \<Rightarrow>
              if (ph_owner h, ph_contract h, ph_status h) \<noteq> (pr_user p, sha, Reserved)
              then Inl (DeploymentModeError ''personal_reservation_conflict'' 409) else Inr (d, ())
          | None \<Rightarrow>
             (case repo (pr_user p) project of
                None \<Rightarrow> Inl (DeploymentModeError ''authorized_repository_required'' 403)
              | Some repository \<Rightarrow>
                 (case ledger_usage (pr_user p) now d of
                    Inl e \<Rightarrow> Inl e
                  | Inr u \<Rightarrow>
                     (case check_personal_admission c p (Some u) workers now of
                        Inl e \<Rightarrow> Inl e
                      | Inr amount \<Rightarrow>
                          Inr (d\<lparr>holds := holds d @ [new_hold c p objective sha repository amount workers now]\<rparr>, ()))))))"

definition release_unpublished :: "string \<Rightarrow> string \<Rightarrow> int \<Rightarrow> exec_db \<Rightarrow> exec_db \<times> bool" where
  "release_unpublished owner objective now d =
     (let sel = (\<lambda>h. ph_owner h = owner \<and> ph_objective h = objective \<and> ph_status h = Reserved
            \<and> \<not> tbl_ex (\<lambda>x. eo_objective x = objective) (objectives d)
            \<and> tbl_ex (\<lambda>s. sb_objective s = objective \<and> sb_status s \<noteq> ''accepted'') (subs d))
      in (d\<lparr>holds := tbl_upd sel (\<lambda>h. h\<lparr>ph_status := Released, ph_updated := now\<rparr>) (holds d)\<rparr>, tbl_count sel (holds d) = 1))"

definition settled_hold :: "int \<Rightarrow> json \<Rightarrow> string \<Rightarrow> int \<Rightarrow> hold \<Rightarrow> hold" where
  "settled_hold actual us event now h = h\<lparr>ph_status := Settled, ph_actual := Some actual, ph_usage := Some us, ph_event := Some event,
     ph_period := period_key_of now, ph_updated := now\<rparr>"

definition ph_own :: "string \<Rightarrow> string \<Rightarrow> hold \<Rightarrow> bool" where
  "ph_own owner objective h \<longleftrightarrow> ph_owner h = owner \<and> ph_objective h = objective"

definition personal_settle :: "string \<Rightarrow> string \<Rightarrow> string \<Rightarrow> json \<Rightarrow> int \<Rightarrow> exec_db \<Rightarrow> (exec_error, exec_db, unit) outcome" where
  "personal_settle owner objective event us now d =
     (case jget us ''cost_micro_usd'' of
        JInt actual \<Rightarrow>
          if \<not> safe_int actual then Inl (ExecMode (DeploymentModeError ''personal_measured_usage_required'' 422))
          else
           (case (tbl_get (ph_own owner objective) (holds d),
                  tbl_get (\<lambda>x. er_sel (owner, event) x \<and> er_objective x = objective) (events d)) of
              (Some h, Some x) \<Rightarrow>
                if \<not> is_terminal_phase (er_phase x) \<or> jget (er_payload x) ''usage'' \<noteq> us
                then Inl (ExecMode (DeploymentModeError ''personal_terminal_evidence_required'' 409))
                else if ph_status h = Settled \<and> (ph_event h, ph_usage h) = (Some event, Some us) then Inr (d, ())
                else if ph_status h \<noteq> Reserved then Inl (ExecMode (DeploymentModeError ''personal_settlement_conflict'' 409))
                else Inr (d\<lparr>holds := tbl_upd (ph_own owner objective) (settled_hold actual us event now) (holds d)\<rparr>, ())
            | _ \<Rightarrow> Inl (ExecMode (DeploymentModeError ''personal_terminal_evidence_required'' 409)))
      | _ \<Rightarrow> Inl (ExecMode (DeploymentModeError ''personal_measured_usage_required'' 422)))"

definition unsettled :: "exec_db \<Rightarrow> (hold \<times> event_row) list" where
  "unsettled d = take 100 (sort_key (\<lambda>(h, x). er_created x)
     (filter (\<lambda>(h, x). er_owner x = ph_owner h \<and> er_objective x = ph_objective h \<and> ph_status h = Reserved
        \<and> is_terminal_phase (er_phase x)) (List.product (holds d) (events d))))"

text \<open>The loop of \<open>recover_settlements\<close>: a transaction per row, stopped by the first exception.\<close>

fun settle_each :: "int \<Rightarrow> (hold \<times> event_row) list \<Rightarrow> exec_db \<Rightarrow> exec_db \<times> exec_error option" where
  "settle_each now [] d = (d, None)"
| "settle_each now ((h, x) # rest) d =
     (case er_payload x of
        JObj kvs \<Rightarrow>
          (case map_of kvs ''usage'' of
             None \<Rightarrow> (d, Some ExecKeyError)
           | Some us \<Rightarrow>
              (case personal_settle (ph_owner h) (ph_objective h) (er_event x) us now d of
                 Inl e \<Rightarrow> (d, Some e)
               | Inr (d1, _) \<Rightarrow> settle_each now rest d1))
      | _ \<Rightarrow> (d, Some ExecKeyError))"

definition recover_settlements :: "int \<Rightarrow> exec_db \<Rightarrow> exec_db \<times> exec_error option" where
  "recover_settlements now d = settle_each now (unsettled d) d"

subsection \<open>The event store\<close>

definition owner_ok :: "string \<Rightarrow> bool" where
  "owner_ok owner \<longleftrightarrow> owner \<noteq> [] \<and> length owner \<le> 128 \<and> \<not> has_control_text owner"

definition new_objective :: "string \<Rightarrow> exec_event \<Rightarrow> string \<Rightarrow> string option \<Rightarrow> string \<Rightarrow> string \<Rightarrow> int \<Rightarrow> exec_objective" where
  "new_objective owner e title project conv msg now =
     \<lparr>eo_owner = owner, eo_objective = xv_objective e, eo_task = xv_task e, eo_run = xv_run e, eo_accepted_event = xv_id e,
      eo_conversation = conv, eo_origin = msg, eo_title = title, eo_project = project, eo_terminal_event = None,
      eo_terminal_phase = None, eo_created = now, eo_updated = now\<rparr>"

text \<open>The objective an event belongs to: created by its accepted event, found and checked for any other.\<close>

definition correlate :: "string \<Rightarrow> exec_event \<Rightarrow> int \<Rightarrow> exec_db \<Rightarrow> (exec_error, exec_db, exec_objective) outcome" where
  "correlate owner e now d =
     (let found = tbl_get (eo_sel (owner, xv_objective e)) (objectives d) in
      case xv_body e of
        BAccepted title project conv msg \<Rightarrow>
          if found \<noteq> None then Inl ExecConflict
          else if tbl_ex (\<lambda>x. eo_owner x = owner \<and> eo_task x = xv_task e) (objectives d) then Inl ExecConflict
          else if \<not> tbl_ex (\<lambda>m. cm_id m = msg \<and> cm_owner m = owner \<and> cm_conversation m = conv
                    \<and> cm_role m = ''user'' \<and> cm_status m = ''completed'') (messages d)
          then Inl ExecNotFound
          else if tbl_ex (\<lambda>x. eo_owner x = owner \<and> eo_accepted_event x = xv_id e) (objectives d) then Inl ExecIntegrity
          else let x = new_objective owner e title project conv msg now in Inr (d\<lparr>objectives := objectives d @ [x]\<rparr>, x)
      | _ \<Rightarrow>
          (case found of
             None \<Rightarrow> Inl ExecNotFound
           | Some x \<Rightarrow>
               if eo_task x \<noteq> xv_task e \<or> eo_run x \<noteq> xv_run e then Inl ExecConflict
               else if eo_terminal_event x \<noteq> None then Inl ExecConflict
               else Inr (d, x)))"

definition new_event_row :: "string \<Rightarrow> exec_event \<Rightarrow> string \<Rightarrow> int \<Rightarrow> event_row" where
  "new_event_row owner e activity now =
     \<lparr>er_owner = owner, er_event = xv_id e, er_objective = xv_objective e, er_task = xv_task e, er_run = xv_run e,
      er_phase = xv_phase e, er_occurred = xv_occurred e, er_payload = event_payload e,
      er_evidence = (case xv_body e of BCompleted ev _ \<Rightarrow> Some ev | _ \<Rightarrow> None), er_activity = activity,
      er_generation = (if xv_phase e = ''objective.completed'' then Some GQueued else None), er_attempts = 0,
      er_assistant = None, er_error = None, er_created = now, er_updated = now\<rparr>"

definition close_objective :: "exec_event \<Rightarrow> int \<Rightarrow> exec_objective \<Rightarrow> exec_objective" where
  "close_objective e now x = x\<lparr>eo_terminal_event := Some (xv_id e), eo_terminal_phase := Some (xv_phase e), eo_updated := now\<rparr>"

text \<open>A cancellation request learns how the objective ended.\<close>

definition resolve_cancels :: "string \<Rightarrow> exec_event \<Rightarrow> int \<Rightarrow> cancel_request table \<Rightarrow> cancel_request table" where
  "resolve_cancels owner e now t =
     (if xv_phase e = ''objective.cancelled''
      then tbl_upd (\<lambda>c. cq_for owner (xv_objective e) c \<and> (cq_status c = CqRequested \<or> cq_status c = CqFailed))
             (\<lambda>c. c\<lparr>cq_status := CqObserved, cq_error := None, cq_note := NoteDelivered, cq_updated := now\<rparr>) t
      else tbl_upd (\<lambda>c. cq_for owner (xv_objective e) c \<and> cq_status c = CqRequested)
             (\<lambda>c. c\<lparr>cq_status := CqFailed, cq_error := Some ''objective_terminal'', cq_note := NoteDelivered, cq_updated := now\<rparr>) t)"

definition close_on_terminal :: "string \<Rightarrow> exec_event \<Rightarrow> int \<Rightarrow> exec_db \<Rightarrow> exec_db" where
  "close_on_terminal owner e now d =
     (if is_terminal_phase (xv_phase e)
      then d\<lparr>objectives := tbl_upd (eo_sel (owner, xv_objective e)) (close_objective e now) (objectives d),
             cancels := resolve_cancels owner e now (cancels d)\<rparr>
      else d)"

definition ingest :: "(string \<Rightarrow> exec_event \<Rightarrow> exec_objective \<Rightarrow> string option) \<Rightarrow> string \<Rightarrow> exec_event \<Rightarrow> int \<Rightarrow> exec_db
    \<Rightarrow> (exec_error, exec_db, event_row \<times> bool) outcome" where
  "ingest act owner e now d =
     (if \<not> owner_ok owner then Inl ExecValueError
      else case tbl_get (er_sel (owner, xv_id e)) (events d) of
        Some x \<Rightarrow> if er_payload x \<noteq> event_payload e then Inl ExecConflict else Inr (d, x, True)
      | None \<Rightarrow>
         (case correlate owner e now d of
            Inl err \<Rightarrow> Inl err
          | Inr (d1, ob) \<Rightarrow>
             (case act owner e ob of
                None \<Rightarrow> Inl ExecValueError
              | Some activity \<Rightarrow>
                  let row = new_event_row owner e activity now;
                      d2 = close_on_terminal owner e now (d1\<lparr>events := events d1 @ [row]\<rparr>)
                  in (case persist_state owner (xv_objective e) d2 of
                        Inl err \<Rightarrow> Inl err
                      | Inr d3 \<Rightarrow> Inr (d3, row, False)))))"

definition inspect :: "string \<Rightarrow> string \<Rightarrow> exec_db \<Rightarrow> exec_error + event_row" where
  "inspect owner event d = (case tbl_get (er_sel (owner, event)) (events d) of None \<Rightarrow> Inl ExecNotFound | Some x \<Rightarrow> Inr x)"

subsection \<open>Completion messages\<close>

definition claim_completion :: "string \<Rightarrow> string \<Rightarrow> bool \<Rightarrow> int \<Rightarrow> exec_db \<Rightarrow> (exec_error, exec_db, event_row option) outcome" where
  "claim_completion owner event retry_failed now d =
     (case tbl_get (er_sel (owner, event)) (events d) of
        None \<Rightarrow> Inl ExecNotFound
      | Some x \<Rightarrow>
          if \<not> tbl_ex (eo_sel (owner, er_objective x)) (objectives d) then Inl ExecNotFound
          else if er_phase x \<noteq> ''objective.completed'' \<or> er_evidence x = None then Inl ExecConflict
          else if \<not> (er_generation x = Some GQueued \<or> (er_generation x = Some GFailed \<and> retry_failed)) then Inr (d, None)
          else
            let sel = (\<lambda>y. er_sel (owner, event) y \<and> er_generation y = er_generation x) in
            if tbl_count sel (events d) \<noteq> 1 then Inr (d, None)
            else Inr (d\<lparr>events := tbl_upd sel (\<lambda>y. y\<lparr>er_generation := Some GGenerating, er_attempts := er_attempts y + 1,
                        er_error := None, er_updated := now\<rparr>) (events d)\<rparr>,
                      Some (x\<lparr>er_attempts := er_attempts x + 1\<rparr>)))"

definition finish_completion :: "string \<Rightarrow> string \<Rightarrow> bool \<Rightarrow> string option \<Rightarrow> int \<Rightarrow> exec_db \<Rightarrow> (exec_error, exec_db, unit) outcome" where
  "finish_completion owner event completed assistant now d =
     (if completed \<and> (assistant = None \<or> assistant = Some []) then Inl ExecValueError
      else case tbl_get (er_sel (owner, event)) (events d) of
        None \<Rightarrow> Inl ExecNotFound
      | Some x \<Rightarrow>
          if er_generation x = Some GCompleted
          then (if \<not> completed \<or> er_assistant x \<noteq> assistant then Inl ExecConflict else Inr (d, ()))
          else if er_generation x \<noteq> Some GGenerating then Inl ExecConflict
          else if (case assistant of None \<Rightarrow> False | Some a \<Rightarrow>
                 \<not> tbl_ex (\<lambda>g. gm_owner g = owner \<and> gm_key g = event \<and> gm_message g = a
                      \<and> tbl_ex (\<lambda>m. cm_id m = a \<and> cm_owner m = owner \<and> cm_role m = ''assistant'') (messages d)) (generated d))
          then Inl ExecNotFound
          else Inr (d\<lparr>events := tbl_upd (er_sel (owner, event)) (\<lambda>y. y\<lparr>
                 er_generation := Some (if completed then GCompleted else GFailed), er_assistant := assistant,
                 er_error := (if completed then None else Some ''magi_generation_failed''), er_updated := now\<rparr>) (events d)\<rparr>, ()))"

definition recover_interrupted :: "int \<Rightarrow> exec_db \<Rightarrow> exec_db \<times> nat" where
  "recover_interrupted now d =
     (d\<lparr>events := tbl_upd (\<lambda>x. er_generation x = Some GGenerating)
         (\<lambda>x. x\<lparr>er_generation := Some GQueued, er_error := None, er_updated := now\<rparr>) (events d)\<rparr>,
      tbl_count (\<lambda>x. er_generation x = Some GGenerating) (events d))"

definition queued_completions :: "personal_deployment \<Rightarrow> nat \<Rightarrow> exec_db \<Rightarrow> exec_error + (string \<times> string) list" where
  "queued_completions c limit d =
     (if limit < 1 \<or> 100 < limit then Inl ExecValueError
      else
        let owner = (if personal c then pd_owner c else None) in
        Inr (map (\<lambda>x. (er_owner x, er_event x)) (take limit (sort_key er_created
          (filter (\<lambda>x. er_generation x = Some GQueued \<and> (owner = None \<or> owner = Some (er_owner x))) (events d))))))"

subsection \<open>The service\<close>

definition billing_usage :: "measured_usage \<Rightarrow> json" where
  "billing_usage u = JObj [(''provider'', JStr (mu_provider u)), (''model'', JStr (mu_model u)), (''input_tokens'', JInt (mu_input u)),
     (''output_tokens'', JInt (mu_output u)), (''compute_milliseconds'', JInt (mu_compute u))]"

text \<open>After the event is stored, a terminal one closes the resources the objective holds: the personal
  hold if there is one, else the credit reservation. Each is a transaction of its own.\<close>

definition close_resources :: "(string \<Rightarrow> string) \<Rightarrow> catalog \<Rightarrow> bool \<Rightarrow> string \<Rightarrow> exec_event \<Rightarrow> int \<Rightarrow> exec_db \<Rightarrow> (exec_error, exec_db, unit) outcome" where
  "close_resources hx cat is_personal owner e now d =
     (if \<not> is_terminal_phase (xv_phase e) then Inr (d, ())
      else if is_personal then
        (case xv_usage e of
           None \<Rightarrow> Inl ExecValueError
         | Some u \<Rightarrow> personal_settle owner (xv_objective e) (xv_id e) (usage_json False u) now d)
      else
        (case xv_usage e of
           Some u \<Rightarrow>
             (case settle_objective hx cat owner (xv_objective e) (billing_usage u) (xv_id e) now (billing d) of
                Inl err \<Rightarrow> Inl (ExecBilling err)
              | Inr (b, _) \<Rightarrow> Inr (d\<lparr>billing := b\<rparr>, ()))
         | None \<Rightarrow>
             (case release_objective hx owner (xv_objective e) (xv_phase e) now (billing d) of
                Inl err \<Rightarrow> Inl (ExecBilling err)
              | Inr (b, _) \<Rightarrow> Inr (d\<lparr>billing := b\<rparr>, ()))))"

definition service_ingest :: "(string \<Rightarrow> exec_event \<Rightarrow> exec_objective \<Rightarrow> string option) \<Rightarrow> (string \<Rightarrow> string) \<Rightarrow> catalog \<Rightarrow> bool \<Rightarrow> string \<Rightarrow> exec_event
    \<Rightarrow> int \<Rightarrow> exec_db \<Rightarrow> exec_db \<times> (exec_error + event_row option)" where
  "service_ingest act hx cat production owner e now d =
     (let terminal = is_terminal_phase (xv_phase e);
          is_personal = tbl_ex (ph_own owner (xv_objective e)) (holds d)
      in
      if production \<and> terminal \<and> xv_usage e = None then (d, Inl ExecValueError)
      else if is_personal \<and> terminal \<and> (case xv_usage e of None \<Rightarrow> True | Some u \<Rightarrow> mu_cost u = None) then (d, Inl ExecValueError)
      else case ingest act owner e now d of
        Inl err \<Rightarrow> (d, Inl err)
      | Inr (d1, _) \<Rightarrow>
         (case close_resources hx cat is_personal owner e (now div 1000) d1 of
            Inl err \<Rightarrow> (d1, Inl err)
          | Inr (d2, _) \<Rightarrow>
              if xv_phase e \<noteq> ''objective.completed'' then (d2, Inr None)
              else (case claim_completion owner (xv_id e) False now d2 of
                      Inl err \<Rightarrow> (d2, Inl err)
                    | Inr (d3, claimed) \<Rightarrow> (d3, Inr claimed))))"

end
