(* ===== verification/Objective_Cancellation.thy ===== *)
theory Objective_Cancellation
  imports Execution_Store
begin

text \<open>
  \<open>app/objective_cancellation.py\<close>: a cancellation request is a durable row; notifying the supervisor and
  startup recovery are separate transactions around an external call. \<open>deliver\<close> stands for that call
  (the supervisor inbox, or the hosted backend for a launched run): whether it succeeded for a row.
  \<open>hx\<close> stands for \<open>hashlib.sha256(x).hexdigest()[:32]\<close>; time is in milliseconds.
\<close>

datatype cancel_error = CancelError string nat | CancelIntegrity | CancelExec exec_error

definition MAX_CANCELLATION_DELIVERY_ATTEMPTS :: int where "MAX_CANCELLATION_DELIVERY_ATTEMPTS = 8"

definition objective_ref_ok :: "string \<Rightarrow> bool" where
  "objective_ref_ok s \<longleftrightarrow> length s = 36 \<and> starts_with ''mgo_'' s \<and> list_all hex_char (drop 4 s)"

definition idempotency_ok :: "string \<Rightarrow> bool" where
  "idempotency_ok = full_class is_alnum id_char 7 127"

definition cq_sel :: "string \<Rightarrow> cancel_request \<Rightarrow> bool" where
  "cq_sel k c \<longleftrightarrow> cq_id c = k"

definition upd_cancel :: "(cancel_request \<Rightarrow> bool) \<Rightarrow> (cancel_request \<Rightarrow> cancel_request) \<Rightarrow> exec_db \<Rightarrow> exec_db" where
  "upd_cancel P f d = d\<lparr>cancels := tbl_upd P f (cancels d)\<rparr>"

text \<open>A personal hold without an execution row: acceptance by the runtime is unobserved.\<close>

definition dispatch_unobserved :: "string \<Rightarrow> string \<Rightarrow> exec_db \<Rightarrow> bool" where
  "dispatch_unobserved owner objective d \<longleftrightarrow> tbl_ex (ph_own owner objective) (holds d)
     \<and> \<not> tbl_ex (eo_sel (owner, objective)) (objectives d)"

definition ended_phase :: "string \<Rightarrow> string \<Rightarrow> exec_db \<Rightarrow> string option" where
  "ended_phase owner objective d =
     (case tbl_get (eo_sel (owner, objective)) (objectives d) of None \<Rightarrow> None | Some x \<Rightarrow> eo_terminal_phase x)"

text \<open>The partial unique index: another request of the objective is active.\<close>

definition other_active :: "cancel_request \<Rightarrow> exec_db \<Rightarrow> bool" where
  "other_active r d \<longleftrightarrow> tbl_ex (\<lambda>c. cq_for (cq_owner r) (cq_objective r) c \<and> cq_status c = CqRequested \<and> cq_id c \<noteq> cq_id r) (cancels d)"

text \<open>The task and terminal phase of the objective, from its submission joined with the execution, or
  from the execution alone.\<close>

definition cancel_target :: "string \<Rightarrow> string \<Rightarrow> exec_db \<Rightarrow> (string \<times> string option) option" where
  "cancel_target owner objective d =
     (case tbl_get (\<lambda>s. sb_owner s = owner \<and> sb_objective s = objective) (subs d) of
        Some s \<Rightarrow> Some (sb_task s,
          (case tbl_get (\<lambda>x. eo_owner x = owner \<and> (eo_objective x = objective \<or> eo_task x = sb_task s)) (objectives d) of
             None \<Rightarrow> None | Some x \<Rightarrow> eo_terminal_phase x))
      | None \<Rightarrow> map_option (\<lambda>x. (eo_task x, eo_terminal_phase x)) (tbl_get (eo_sel (owner, objective)) (objectives d)))"

definition cancel_request_id :: "(string \<Rightarrow> string) \<Rightarrow> string \<Rightarrow> string \<Rightarrow> string" where
  "cancel_request_id hx owner key = ''ocr_'' @ hx (''objective-cancel-v1'' @ CHR 0x00 # owner @ CHR 0x00 # key)"

definition new_request :: "(string \<Rightarrow> string) \<Rightarrow> string \<Rightarrow> string \<Rightarrow> string \<Rightarrow> string \<Rightarrow> string \<Rightarrow> int \<Rightarrow> cancel_request" where
  "new_request hx owner actor objective task key now =
     \<lparr>cq_id = cancel_request_id hx owner key, cq_owner = owner, cq_objective = objective, cq_task = task, cq_actor = actor,
      cq_key = key, cq_status = CqRequested, cq_error = None, cq_note = NotePending, cq_attempts = 0, cq_notified = None,
      cq_created = now, cq_updated = now\<rparr>"

text \<open>What \<open>request\<close> does after its transaction: answer with a row, or notify about it.\<close>

datatype reply = Answer cancel_request | Notify cancel_request bool

definition reactivated :: "int \<Rightarrow> cancel_request \<Rightarrow> cancel_request" where
  "reactivated now r = r\<lparr>cq_status := CqRequested, cq_error := None, cq_note := NoteFailed, cq_updated := now\<rparr>"

definition request_known :: "cancel_request \<Rightarrow> string \<Rightarrow> string \<Rightarrow> int \<Rightarrow> exec_db \<Rightarrow> (cancel_error, exec_db, reply) outcome" where
  "request_known r owner objective now d =
     (if cq_objective r \<noteq> objective then Inl (CancelError ''idempotency_conflict'' 409)
      else if cq_status r = CqFailed then
        (if ended_phase owner objective d \<noteq> None then Inl (CancelError ''already_terminal'' 409)
         else if other_active r d then Inl (CancelError ''request_conflict'' 409)
         else Inr (upd_cancel (\<lambda>c. cq_sel (cq_id r) c \<and> cq_status c = CqFailed) (reactivated now) d, Notify (reactivated now r) True))
      else if cq_status r = CqRequested \<and> cq_note r = NoteFailed then Inr (d, Notify r True)
      else Inr (d, Answer r))"

definition request_new :: "(string \<Rightarrow> string) \<Rightarrow> string \<Rightarrow> string \<Rightarrow> string \<Rightarrow> string \<Rightarrow> int \<Rightarrow> exec_db \<Rightarrow> (cancel_error, exec_db, reply) outcome" where
  "request_new hx owner actor objective key now d =
     (case tbl_get (\<lambda>c. cq_for owner objective c \<and> cq_status c = CqRequested) (cancels d) of
        Some r \<Rightarrow> Inr (d, Answer r)
      | None \<Rightarrow>
         (case cancel_target owner objective d of
            None \<Rightarrow> Inl (CancelError ''not_found'' 404)
          | Some (task, Some _) \<Rightarrow> Inl (CancelError ''already_terminal'' 409)
          | Some (task, None) \<Rightarrow>
              let r = new_request hx owner actor objective task key now in
              if tbl_ex (cq_sel (cq_id r)) (cancels d) then Inl (CancelError ''request_conflict'' 409)
              else (case persist_state owner objective (d\<lparr>cancels := cancels d @ [r]\<rparr>) of
                      Inl e \<Rightarrow> Inl (CancelExec e)
                    | Inr d1 \<Rightarrow> Inr (d1, Notify r False))))"

definition request_tx :: "(string \<Rightarrow> string) \<Rightarrow> string \<Rightarrow> string \<Rightarrow> string \<Rightarrow> string \<Rightarrow> int \<Rightarrow> exec_db \<Rightarrow> (cancel_error, exec_db, reply) outcome" where
  "request_tx hx owner actor objective key now d =
     (if \<not> objective_ref_ok objective then Inl (CancelError ''invalid_target'' 404)
      else if \<not> idempotency_ok key then Inl (CancelError ''invalid_idempotency'' 422)
      else if dispatch_unobserved owner objective d then Inl (CancelError ''dispatch_unobserved'' 409)
      else case tbl_get (\<lambda>c. cq_owner c = owner \<and> cq_key c = key) (cancels d) of
        Some r \<Rightarrow> request_known r owner objective now d
      | None \<Rightarrow> request_new hx owner actor objective key now d)"

subsection \<open>Notification\<close>

definition notify_begin :: "string \<Rightarrow> int \<Rightarrow> exec_db \<Rightarrow> exec_db" where
  "notify_begin rid now = upd_cancel (\<lambda>c. cq_sel rid c \<and> cq_status c = CqRequested)
     (\<lambda>c. c\<lparr>cq_note := NotePending, cq_error := None, cq_attempts := cq_attempts c + 1, cq_updated := now\<rparr>)"

definition notify_failed :: "string \<Rightarrow> int \<Rightarrow> exec_db \<Rightarrow> exec_db" where
  "notify_failed rid now = upd_cancel (\<lambda>c. cq_sel rid c \<and> cq_status c = CqRequested)
     (\<lambda>c. c\<lparr>cq_error := Some ''intake_unavailable'', cq_note := NoteFailed, cq_updated := now\<rparr>)"

definition notify_delivered :: "string \<Rightarrow> int \<Rightarrow> exec_db \<Rightarrow> exec_db" where
  "notify_delivered rid now = upd_cancel (cq_sel rid)
     (\<lambda>c. c\<lparr>cq_note := NoteDelivered, cq_notified := Some now, cq_updated := now\<rparr>)"

definition notify :: "(cancel_request \<Rightarrow> bool) \<Rightarrow> string \<Rightarrow> int \<Rightarrow> exec_db \<Rightarrow> exec_db \<times> (cancel_error + cancel_request)" where
  "notify deliver rid now d =
     (let d1 = notify_begin rid now d in
      case tbl_get (cq_sel rid) (cancels d1) of
        None \<Rightarrow> (d1, Inl (CancelError ''store_unavailable'' 503))
      | Some r \<Rightarrow>
          if cq_status r \<noteq> CqRequested then (d1, Inr r)
          else if \<not> deliver r then (notify_failed rid now d1, Inl (CancelError ''intake_unavailable'' 503))
          else let d2 = notify_delivered rid now d1 in
               (case tbl_get (cq_sel rid) (cancels d2) of
                  None \<Rightarrow> (d2, Inl (CancelError ''store_unavailable'' 503))
                | Some s \<Rightarrow> (d2, Inr s)))"

definition cancel_request_call :: "(string \<Rightarrow> string) \<Rightarrow> (cancel_request \<Rightarrow> bool) \<Rightarrow> string \<Rightarrow> string \<Rightarrow> string \<Rightarrow> string \<Rightarrow> int \<Rightarrow> exec_db
    \<Rightarrow> exec_db \<times> (cancel_error + cancel_request \<times> bool)" where
  "cancel_request_call hx deliver owner actor objective key now d =
     (case request_tx hx owner actor objective key now d of
        Inl e \<Rightarrow> (d, Inl e)
      | Inr (d1, Answer r) \<Rightarrow> (d1, Inr (r, True))
      | Inr (d1, Notify r dup) \<Rightarrow>
          (case notify deliver (cq_id r) now d1 of
             (d2, Inl e) \<Rightarrow> (d2, Inl e)
           | (d2, Inr s) \<Rightarrow> (d2, Inr (s, dup))))"

subsection \<open>Recovery\<close>

definition undelivered :: "int \<Rightarrow> int \<Rightarrow> exec_db \<Rightarrow> cancel_request list" where
  "undelivered maximum cutoff d = take (nat maximum) (sort_key (\<lambda>c. (cq_created c, cq_id c))
     (filter (\<lambda>c. (cq_note c = NotePending \<or> cq_note c = NoteFailed) \<and> cq_attempts c < MAX_CANCELLATION_DELIVERY_ATTEMPTS
        \<and> cq_updated c < cutoff) (cancels d)))"

record recovery_counts =
  rc_examined :: nat
  rc_recovered :: nat
  rc_failed :: nat
  rc_terminal :: nat

definition resolve_request :: "string \<Rightarrow> string \<Rightarrow> int \<Rightarrow> exec_db \<Rightarrow> exec_db" where
  "resolve_request rid phase now = upd_cancel (cq_sel rid)
     (\<lambda>c. c\<lparr>cq_status := (if phase = ''objective.cancelled'' then CqObserved else CqFailed),
            cq_error := (if phase = ''objective.cancelled'' then None else Some ''objective_terminal''),
            cq_note := NoteDelivered, cq_updated := now\<rparr>)"

definition reopen_request :: "cancel_request \<Rightarrow> exec_db \<Rightarrow> (cancel_error, exec_db, unit) outcome" where
  "reopen_request r d =
     (if tbl_ex (\<lambda>c. cq_sel (cq_id r) c \<and> cq_status c = CqFailed) (cancels d) \<and> other_active r d then Inl CancelIntegrity
      else Inr (upd_cancel (\<lambda>c. cq_sel (cq_id r) c \<and> cq_status c = CqFailed) (\<lambda>c. c\<lparr>cq_status := CqRequested, cq_error := None\<rparr>) d, ()))"

text \<open>One row of the loop; \<open>phase\<close> is the terminal phase the initial query read for it. The clock value
  passes through, and an uncaught constraint violation ends the loop.\<close>

definition recover_row :: "(cancel_request \<Rightarrow> bool) \<Rightarrow> int \<Rightarrow> cancel_request \<Rightarrow> string option \<Rightarrow> recovery_counts \<Rightarrow> exec_db
    \<Rightarrow> cancel_error + (exec_db \<times> recovery_counts)" where
  "recover_row deliver now r phase n d =
     (if dispatch_unobserved (cq_owner r) (cq_objective r) d then Inr (d, n\<lparr>rc_failed := rc_failed n + 1\<rparr>)
      else case phase of
        Some p \<Rightarrow> Inr (resolve_request (cq_id r) p now d, n\<lparr>rc_terminal := rc_terminal n + 1\<rparr>)
      | None \<Rightarrow>
         (case reopen_request r d of
            Inl e \<Rightarrow> Inl e
          | Inr (d1, _) \<Rightarrow>
             (case notify deliver (cq_id r) now d1 of
                (d2, Inl _) \<Rightarrow> Inr (d2, n\<lparr>rc_failed := rc_failed n + 1\<rparr>)
              | (d2, Inr _) \<Rightarrow> Inr (d2, n\<lparr>rc_recovered := rc_recovered n + 1\<rparr>))))"

fun recover_rows :: "(cancel_request \<Rightarrow> bool) \<Rightarrow> int \<Rightarrow> (cancel_request \<times> string option) list \<Rightarrow> recovery_counts \<Rightarrow> exec_db
    \<Rightarrow> exec_db \<times> (cancel_error + recovery_counts)" where
  "recover_rows deliver now [] n d = (d, Inr n)"
| "recover_rows deliver now ((r, phase) # rest) n d =
     (case recover_row deliver now r phase n d of
        Inl e \<Rightarrow> (d, Inl e)
      | Inr (d1, n1) \<Rightarrow> recover_rows deliver now rest n1 d1)"

definition recover_pending :: "(cancel_request \<Rightarrow> bool) \<Rightarrow> int \<Rightarrow> int \<Rightarrow> int \<Rightarrow> exec_db \<Rightarrow> exec_db \<times> (cancel_error + recovery_counts)" where
  "recover_pending deliver maximum cutoff now d =
     (if maximum < 1 \<or> 500 < maximum \<or> cutoff < 0 then (d, Inl (CancelExec ExecValueError))
      else
        let rows = undelivered maximum cutoff d in
        recover_rows deliver now (map (\<lambda>r. (r, ended_phase (cq_owner r) (cq_objective r) d)) rows)
          \<lparr>rc_examined = length rows, rc_recovered = 0, rc_failed = 0, rc_terminal = 0\<rparr> d)"

end
