(* ===== verification/Execution_Inv.thy ===== *)
theory Execution_Inv
  imports Objective_Cancellation
begin

text \<open>
  The invariant of the execution tables: events belong to the objective that accepted them, an objective
  has at most one terminal event and records it, at most one cancellation request of an objective is
  active, and a request counts as observed only if the objective was cancelled. The operations are the
  transactions of the event store, the completion queue, the resource ledger and the cancellation
  service, in any order.
\<close>

interpretation eok: keyed_rows "\<lambda>x. (eo_owner x, eo_objective x)" eo_sel
  by unfold_locales (auto simp: eo_sel_def)

interpretation erk: keyed_rows "\<lambda>x. (er_owner x, er_event x)" er_sel
  by unfold_locales (auto simp: er_sel_def)

interpretation cqk: keyed_rows cq_id cq_sel
  by unfold_locales (auto simp: cq_sel_def)

subsection \<open>Events and objectives\<close>

definition belongs :: "event_row \<Rightarrow> exec_objective \<Rightarrow> bool" where
  "belongs x ob \<longleftrightarrow> (eo_owner ob, eo_objective ob, eo_task ob, eo_run ob) = (er_owner x, er_objective x, er_task x, er_run x)
     \<and> (is_terminal_phase (er_phase x) \<longrightarrow> eo_terminal_event ob = Some (er_event x) \<and> eo_terminal_phase ob = Some (er_phase x))"

definition closed_by :: "event_row table \<Rightarrow> exec_objective \<Rightarrow> bool" where
  "closed_by evs ob \<longleftrightarrow> (case eo_terminal_event ob of
     None \<Rightarrow> eo_terminal_phase ob = None
   | Some e \<Rightarrow> \<exists>x \<in> set evs. er_owner x = eo_owner ob \<and> er_event x = e \<and> er_objective x = eo_objective ob
       \<and> is_terminal_phase (er_phase x) \<and> eo_terminal_phase ob = Some (er_phase x))"

definition store_ok :: "exec_objective table \<Rightarrow> event_row table \<Rightarrow> bool" where
  "store_ok obs evs \<longleftrightarrow> eok.uniq obs \<and> erk.uniq evs \<and> (\<forall>x \<in> set evs. \<exists>ob \<in> set obs. belongs x ob) \<and> (\<forall>ob \<in> set obs. closed_by evs ob)"

definition er_ident :: "event_row \<Rightarrow> string \<times> string \<times> string \<times> string \<times> string \<times> string \<times> json \<times> completion_evidence option" where
  "er_ident x = (er_owner x, er_event x, er_objective x, er_task x, er_run x, er_phase x, er_payload x, er_evidence x)"

lemma store_ok_events:
  assumes "store_ok obs evs" and "\<And>x. er_ident (f x) = er_ident x"
  shows "store_ok obs (tbl_upd P f evs)"
proof -
  have g: "er_owner (f x) = er_owner x" "er_event (f x) = er_event x" "er_objective (f x) = er_objective x"
    "er_task (f x) = er_task x" "er_run (f x) = er_run x" "er_phase (f x) = er_phase x" for x
    using assms(2)[of x] by (simp_all add: er_ident_def)
  have b: "belongs (f x) ob = belongs x ob" for x ob by (simp add: belongs_def g)
  have "closed_by (tbl_upd P f evs) ob" if cb: "closed_by evs ob" for ob
  proof (cases "eo_terminal_event ob")
    case (Some e)
    then obtain x where x: "x \<in> set evs" "er_owner x = eo_owner ob" "er_event x = e" "er_objective x = eo_objective ob"
      "is_terminal_phase (er_phase x)" "eo_terminal_phase ob = Some (er_phase x)"
      using cb by (auto simp: closed_by_def)
    have "(if P x then f x else x) \<in> set (tbl_upd P f evs)" using x(1) unfolding set_tbl_upd by (rule imageI)
    then show ?thesis unfolding closed_by_def Some option.case by (rule bexI[rotated]) (use x g in auto)
  qed (use cb in \<open>simp add: closed_by_def\<close>)
  moreover have "\<exists>ob \<in> set obs. belongs y ob" if "y \<in> set (tbl_upd P f evs)" for y
    using that by (cases rule: tbl_updE) (use assms(1) b in \<open>auto simp: store_ok_def\<close>)
  ultimately show ?thesis
    using assms(1) erk.uniq_upd[of evs P f] g by (simp add: store_ok_def)
qed

lemma store_ok_accept:
  assumes ok: "store_ok obs evs"
    and fresh: "tbl_get (eo_sel (eo_owner ob, eo_objective ob)) obs = None" "tbl_get (er_sel (er_owner x, er_event x)) evs = None"
    and x: "belongs x ob" "\<not> is_terminal_phase (er_phase x)" and ob: "eo_terminal_event ob = None" "eo_terminal_phase ob = None"
  shows "store_ok (obs @ [ob]) (evs @ [x])"
proof -
  have "closed_by (evs @ [x]) o'" if "closed_by evs o'" for o'
    using that by (auto simp: closed_by_def split: option.splits)
  moreover have "closed_by (evs @ [x]) ob" using ob by (simp add: closed_by_def)
  ultimately show ?thesis
    using ok x eok.uniq_insert[of obs ob] erk.uniq_insert[of evs x] fresh by (auto simp: store_ok_def)
qed

lemma store_ok_progress:
  assumes ok: "store_ok obs evs" and fresh: "tbl_get (er_sel (er_owner x, er_event x)) evs = None"
    and x: "ob \<in> set obs" "belongs x ob" "\<not> is_terminal_phase (er_phase x)"
  shows "store_ok obs (evs @ [x])"
proof -
  have "closed_by (evs @ [x]) o'" if "closed_by evs o'" for o'
    using that by (auto simp: closed_by_def split: option.splits)
  then show ?thesis using ok x erk.uniq_insert[of evs x] fresh by (auto simp: store_ok_def)
qed

lemma store_ok_terminal:
  assumes ok: "store_ok obs evs" and fresh: "tbl_get (er_sel (er_owner x, er_event x)) evs = None"
    and ob: "ob \<in> set obs" "eo_terminal_event ob = None" and tm: "is_terminal_phase (er_phase x)"
    and x: "(eo_owner ob, eo_objective ob, eo_task ob, eo_run ob) = (er_owner x, er_objective x, er_task x, er_run x)"
    and f: "\<And>y. (eo_owner (f y), eo_objective (f y), eo_task (f y), eo_run (f y)) = (eo_owner y, eo_objective y, eo_task y, eo_run y)
              \<and> eo_terminal_event (f y) = Some (er_event x) \<and> eo_terminal_phase (f y) = Some (er_phase x)"
  shows "store_ok (tbl_upd (eo_sel (er_owner x, er_objective x)) f obs) (evs @ [x])"
proof -
  let ?S = "eo_sel (er_owner x, er_objective x)"
  let ?u = "tbl_upd ?S f obs"
  have only: "y = ob" if "y \<in> set obs" "?S y" for y
    using eok.uniq_same[of obs y ob] that ob(1) ok x by (auto simp: store_ok_def eo_sel_def)
  have sob: "?S ob" using x by (simp add: eo_sel_def)
  have u1: "eok.uniq ?u" using ok eok.uniq_upd[of obs ?S f] f by (simp add: store_ok_def)
  have u2: "erk.uniq (evs @ [x])" using ok erk.uniq_insert[of evs x] fresh by (simp add: store_ok_def)
  have in_u: "f ob \<in> set ?u" using ob(1) sob by (force simp: set_tbl_upd)
  have bx: "belongs x (f ob)" using f[of ob] x by (auto simp: belongs_def)
  have "\<exists>o' \<in> set ?u. belongs y o'" if y: "y \<in> set evs" for y
  proof -
    obtain o' where o': "o' \<in> set obs" "belongs y o'" using ok y by (auto simp: store_ok_def)
    show ?thesis
    proof (cases "?S o'")
      case True
      then have "o' = ob" using only o'(1) by simp
      then have "\<not> is_terminal_phase (er_phase y)" using o'(2) ob(2) by (auto simp: belongs_def)
      then have "belongs y (f ob)" using o'(2) f[of ob] \<open>o' = ob\<close> by (auto simp: belongs_def)
      then show ?thesis using in_u by blast
    next
      case False
      then have "o' \<in> set ?u" using o'(1) by (force simp: set_tbl_upd)
      then show ?thesis using o'(2) by blast
    qed
  qed
  moreover have "closed_by (evs @ [x]) o'" if "o' \<in> set ?u" for o'
    using that
  proof (cases rule: tbl_updE)
    case (1 r)
    then show ?thesis using f[of r] tm only[OF 1(1,2)] x by (auto simp: closed_by_def)
  next
    case 2
    then have "closed_by evs o'" using ok by (simp add: store_ok_def)
    then show ?thesis by (auto simp: closed_by_def split: option.splits)
  qed
  ultimately show ?thesis using u1 u2 in_u bx by (auto simp: store_ok_def)
qed

subsection \<open>Cancellation requests\<close>

definition cancelled_in :: "exec_objective table \<Rightarrow> cancel_request \<Rightarrow> bool" where
  "cancelled_in obs c \<longleftrightarrow> (\<exists>ob \<in> set obs. eo_sel (cq_owner c, cq_objective c) ob \<and> eo_terminal_phase ob = Some ''objective.cancelled'')"

definition cq_active :: "cancel_request \<Rightarrow> (string \<times> string) option" where
  "cq_active c = (if cq_status c = CqRequested then Some (cq_owner c, cq_objective c) else None)"

definition one_active :: "cancel_request table \<Rightarrow> bool" where
  "one_active t \<longleftrightarrow> (\<forall>c \<in> set t. \<forall>c' \<in> set t. cq_active c \<noteq> None \<longrightarrow> cq_active c = cq_active c' \<longrightarrow> cq_id c = cq_id c')"

definition cancel_ok :: "exec_objective table \<Rightarrow> cancel_request table \<Rightarrow> bool" where
  "cancel_ok obs t \<longleftrightarrow> cqk.uniq t \<and> one_active t \<and> (\<forall>c \<in> set t. cq_status c = CqObserved \<longrightarrow> cancelled_in obs c)"

definition cq_target :: "cancel_request \<Rightarrow> string \<times> string \<times> string" where
  "cq_target c = (cq_id c, cq_owner c, cq_objective c)"

lemma cancelled_in_target: "cq_target c = cq_target c' \<Longrightarrow> cancelled_in obs c = cancelled_in obs c'"
  by (simp add: cancelled_in_def cq_target_def)

lemma cancel_ok_obs:
  "cancel_ok obs t \<Longrightarrow> (\<And>c. cancelled_in obs c \<Longrightarrow> cancelled_in obs' c) \<Longrightarrow> cancel_ok obs' t"
  by (auto simp: cancel_ok_def)

lemma cancel_ok_upd:
  assumes ok: "cancel_ok obs t" and tg: "\<And>c. cq_target (f c) = cq_target c"
    and st: "\<And>c. c \<in> set t \<Longrightarrow> P c \<Longrightarrow> cq_status (f c) = cq_status c \<or> cq_status (f c) = CqFailed
               \<or> (cq_status (f c) = CqObserved \<and> cancelled_in obs c)"
  shows "cancel_ok obs (tbl_upd P f t)"
proof -
  have same: "cancelled_in obs (f c) = cancelled_in obs c" for c using cancelled_in_target[OF tg] .
  have act: "cq_active (f c) = None \<or> cq_active (f c) = cq_active c" if "c \<in> set t" "P c" for c
    using st[OF that] tg[of c] by (auto simp: cq_active_def cq_target_def)
  have pre: "\<exists>c \<in> set t. cq_id c = cq_id y \<and> cq_active c = cq_active y" if "y \<in> set (tbl_upd P f t)" "cq_active y \<noteq> None" for y
    using that(1)
  proof (cases rule: tbl_updE)
    case (1 r)
    then show ?thesis using act[of r] tg[of r] that(2) by (intro bexI[of _ r]) (auto simp: cq_target_def)
  qed blast
  have "one_active (tbl_upd P f t)"
    unfolding one_active_def
  proof (intro ballI impI)
    fix y y' assume y: "y \<in> set (tbl_upd P f t)" "y' \<in> set (tbl_upd P f t)" "cq_active y \<noteq> None" "cq_active y = cq_active y'"
    obtain c where c: "c \<in> set t" "cq_id c = cq_id y" "cq_active c = cq_active y" using pre[OF y(1,3)] by blast
    obtain c' where c': "c' \<in> set t" "cq_id c' = cq_id y'" "cq_active c' = cq_active y'" using pre[OF y(2)] y(3,4) by auto
    have "cq_id c = cq_id c'" using ok c c' y(3,4) unfolding cancel_ok_def one_active_def by metis
    then show "cq_id y = cq_id y'" using c(2) c'(2) by simp
  qed
  moreover have "cancelled_in obs y" if "y \<in> set (tbl_upd P f t)" "cq_status y = CqObserved" for y
    using that(1)
  proof (cases rule: tbl_updE)
    case (1 r)
    then show ?thesis using st[OF 1(1,2)] that(2) same[of r] ok by (auto simp: cancel_ok_def)
  next
    case 2
    then show ?thesis using that(2) ok by (simp add: cancel_ok_def)
  qed
  moreover have "cqk.uniq (tbl_upd P f t)"
  proof (rule cqk.uniq_upd)
    show "cqk.uniq t" using ok by (simp add: cancel_ok_def)
    show "cq_id (f r) = cq_id r" for r using tg[of r] by (simp add: cq_target_def)
  qed
  ultimately show ?thesis by (simp add: cancel_ok_def)
qed

lemma one_active_append:
  "one_active t \<Longrightarrow> (\<And>c. c \<in> set t \<Longrightarrow> cq_active c \<noteq> cq_active r) \<Longrightarrow> one_active (t @ [r])"
  unfolding one_active_def set_append by (metis Un_iff list.set_intros(1) set_ConsD empty_iff list.set(1))

text \<open>Reactivating one row, when no other row of its objective is active.\<close>

lemma cancel_ok_reopen:
  assumes ok: "cancel_ok obs t" and tg: "\<And>c. cq_target (f c) = cq_target c" and st: "\<And>c. cq_status (f c) = CqRequested"
    and r: "\<And>c. c \<in> set t \<Longrightarrow> P c \<Longrightarrow> cq_target c = cq_target r"
    and none: "\<And>c. c \<in> set t \<Longrightarrow> cq_for (cq_owner r) (cq_objective r) c \<Longrightarrow> cq_status c = CqRequested \<Longrightarrow> cq_id c = cq_id r"
  shows "cancel_ok obs (tbl_upd P f t)"
proof -
  have act: "cq_id y = cq_id r \<or> (y \<in> set t \<and> cq_active y \<noteq> Some (cq_owner r, cq_objective r))"
    if "y \<in> set (tbl_upd P f t)" "cq_active y \<noteq> None" for y
    using that(1)
  proof (cases rule: tbl_updE)
    case (1 c)
    then show ?thesis using tg[of c] r[of c] by (simp add: cq_target_def)
  next
    case 2
    then show ?thesis using none[of y] by (auto simp: cq_active_def cq_for_def split: if_splits)
  qed
  have acr: "cq_active y = None \<or> cq_active y = Some (cq_owner r, cq_objective r)"
    if "y \<in> set (tbl_upd P f t)" "cq_id y = cq_id r" and ex: "tbl_ex P t" for y
    using that(1)
  proof (cases rule: tbl_updE)
    case (1 c)
    then show ?thesis using tg[of c] r[of c] by (simp add: cq_active_def cq_target_def)
  next
    case 2
    obtain c where c: "c \<in> set t" "P c" using ex by (auto simp: tbl_ex_iff)
    have "y = c" using cqk.uniq_same[of t y c] 2(1) c ok that(2) r[OF c] by (simp add: cancel_ok_def cq_target_def)
    with 2 c show ?thesis by simp
  qed
  show ?thesis
  proof (cases "tbl_ex P t")
    case False
    then have "tbl_upd P f t = t" by (intro tbl_upd_none) (auto simp: tbl_ex_iff)
    then show ?thesis using ok by simp
  next
    case True
    have "one_active (tbl_upd P f t)"
      unfolding one_active_def
    proof (intro ballI impI)
      fix y y' assume y: "y \<in> set (tbl_upd P f t)" "y' \<in> set (tbl_upd P f t)" "cq_active y \<noteq> None" "cq_active y = cq_active y'"
      consider "cq_id y = cq_id r" "cq_id y' = cq_id r" | "cq_id y = cq_id r" "y' \<in> set t" "cq_active y' \<noteq> Some (cq_owner r, cq_objective r)"
        | "y \<in> set t" "cq_active y \<noteq> Some (cq_owner r, cq_objective r)" "cq_id y' = cq_id r"
        | "y \<in> set t" "y' \<in> set t"
        using act[OF y(1,3)] act[OF y(2)] y(3,4) by metis
      then show "cq_id y = cq_id y'"
      proof cases
        case 2
        then show ?thesis using acr[OF y(1) 2(1) True] y(3,4) by simp
      next
        case 3
        then show ?thesis using acr[OF y(2) 3(3) True] y(3,4) by simp
      next
        case 4
        then show ?thesis using ok y(3,4) unfolding cancel_ok_def one_active_def by metis
      qed simp
    qed
    moreover have "cancelled_in obs y" if "y \<in> set (tbl_upd P f t)" "cq_status y = CqObserved" for y
      using that(1) by (cases rule: tbl_updE) (use that(2) st ok in \<open>auto simp: cancel_ok_def\<close>)
    moreover have "cqk.uniq (tbl_upd P f t)"
    proof (rule cqk.uniq_upd)
      show "cqk.uniq t" using ok by (simp add: cancel_ok_def)
      show "cq_id (f r) = cq_id r" for r using tg[of r] by (simp add: cq_target_def)
    qed
    ultimately show ?thesis by (simp add: cancel_ok_def)
  qed
qed

end
