(* ===== verification/Execution_System.thy ===== *)
theory Execution_System
  imports Execution_Inv
begin

text \<open>
  The transactions on the execution tables as one family of operations, in any order: the event store,
  the completion queue, the personal resource ledger, the credit ledger reached through a terminal event,
  and the steps of cancellation and of its recovery. \<open>OOther\<close> stands for the components that write the
  remaining tables (chat, intake and decisions). Recovery reads the terminal phase in an earlier
  transaction; because a terminal phase never changes, resolving a row is \<open>OResolve\<close> on the current one,
  while \<open>OReopen\<close> may run on any state.
\<close>

record exec_env =
  xe_act :: "string \<Rightarrow> exec_event \<Rightarrow> exec_objective \<Rightarrow> string option"
  xe_hx :: "string \<Rightarrow> string"
  xe_catalog :: catalog
  xe_policy :: personal_deployment
  xe_repo :: "string \<Rightarrow> string option \<Rightarrow> string option"

datatype exec_op =
    OIngest string exec_event int
  | OClose bool string exec_event int
  | OClaim string string bool int
  | OFinish string string bool "string option" int
  | OInterrupted int
  | OReserve principal string string "string option" int int
  | ORelease string string int
  | ORequest string string string string int
  | OBegin string int
  | ONoteFailed string int
  | ODelivered string int
  | OResolve string int
  | OReopen string
  | OOther "submission_row table" "decision_row table" "chat_message table" "generated_row table"

definition forget_value :: "('e \<Rightarrow> 'f) \<Rightarrow> ('e, 's, 'a) outcome \<Rightarrow> ('f, 's, unit) outcome" where
  "forget_value f r = (case r of Inl e \<Rightarrow> Inl (f e) | Inr (s, _) \<Rightarrow> Inr (s, ()))"

lemma forget_value_Inr [simp]: "forget_value f r = Inr (s, u) \<longleftrightarrow> (\<exists>a. r = Inr (s, a))"
  by (auto simp: forget_value_def split: sum.splits)

text \<open>The row of an earlier query is found again by its id: its target columns never change.\<close>

definition resolve_current :: "string \<Rightarrow> int \<Rightarrow> exec_db \<Rightarrow> exec_db" where
  "resolve_current rid now d = (case tbl_get (cq_sel rid) (cancels d) of
     None \<Rightarrow> d
   | Some r \<Rightarrow> (case ended_phase (cq_owner r) (cq_objective r) d of None \<Rightarrow> d | Some p \<Rightarrow> resolve_request rid p now d))"

definition reopen_current :: "string \<Rightarrow> exec_db \<Rightarrow> (cancel_error, exec_db, unit) outcome" where
  "reopen_current rid d = (case tbl_get (cq_sel rid) (cancels d) of None \<Rightarrow> Inr (d, ()) | Some r \<Rightarrow> reopen_request r d)"

fun exec_step :: "exec_env \<Rightarrow> exec_op \<Rightarrow> exec_db \<Rightarrow> (cancel_error, exec_db, unit) outcome" where
  "exec_step v (OIngest ow e now) d = forget_value CancelExec (ingest (xe_act v) ow e now d)"
| "exec_step v (OClose pers ow e now) d = forget_value CancelExec (close_resources (xe_hx v) (xe_catalog v) pers ow e now d)"
| "exec_step v (OClaim ow ev retry now) d = forget_value CancelExec (claim_completion ow ev retry now d)"
| "exec_step v (OFinish ow ev ok a now) d = forget_value CancelExec (finish_completion ow ev ok a now d)"
| "exec_step v (OInterrupted now) d = Inr (fst (recover_interrupted now d), ())"
| "exec_step v (OReserve p ob sha project w now) d =
     forget_value (CancelExec \<circ> ExecMode) (personal_reserve (xe_policy v) (xe_repo v) p ob sha project w now d)"
| "exec_step v (ORelease ow ob now) d = Inr (fst (release_unpublished ow ob now d), ())"
| "exec_step v (ORequest ow actor ob key now) d = forget_value id (request_tx (xe_hx v) ow actor ob key now d)"
| "exec_step v (OBegin rid now) d = Inr (notify_begin rid now d, ())"
| "exec_step v (ONoteFailed rid now) d = Inr (notify_failed rid now d, ())"
| "exec_step v (ODelivered rid now) d = Inr (notify_delivered rid now d, ())"
| "exec_step v (OResolve rid now) d = Inr (resolve_current rid now d, ())"
| "exec_step v (OReopen rid) d = reopen_current rid d"
| "exec_step v (OOther sbs dns ms gs) d = Inr (d\<lparr>subs := sbs, decisions := dns, messages := ms, generated := gs\<rparr>, ())"

definition empty_exec :: "billing_db \<Rightarrow> exec_db" where
  "empty_exec b = \<lparr>objectives = [], events = [], cancels = [], subs = [], decisions = [], holds = [], messages = [],
     generated = [], projections = [], billing = b\<rparr>"

text \<open>The columns of an event row are the fields of its stored payload.\<close>

definition faithful_row :: "event_row \<Rightarrow> bool" where
  "faithful_row x \<longleftrightarrow> jget (er_payload x) ''event_id'' = JStr (er_event x) \<and> jget (er_payload x) ''objective_id'' = JStr (er_objective x)
     \<and> jget (er_payload x) ''task_id'' = JStr (er_task x) \<and> jget (er_payload x) ''run_id'' = JStr (er_run x)
     \<and> jget (er_payload x) ''phase'' = JStr (er_phase x)"

definition exec_inv :: "exec_db \<Rightarrow> bool" where
  "exec_inv d \<longleftrightarrow> store_ok (objectives d) (events d) \<and> cancel_ok (objectives d) (cancels d) \<and> list_all faithful_row (events d)"

lemma empty_exec_inv: "exec_inv (empty_exec b)"
  by (simp add: exec_inv_def empty_exec_def store_ok_def cancel_ok_def one_active_def eok.uniq_Nil erk.uniq_Nil cqk.uniq_Nil)

subsection \<open>What the transactions write\<close>

lemma put_projection_writes: "\<exists>pj. put_projection k c d = d\<lparr>projections := pj\<rparr>"
proof (cases c)
  case None
  then show ?thesis by (intro exI[of _ "projections d"]) (simp add: put_projection_def)
qed (auto simp: put_projection_def)

lemma persist_state_writes: "persist_state ow ob d = Inr d' \<Longrightarrow> \<exists>pj. d' = d\<lparr>projections := pj\<rparr>"
  using put_projection_writes by (auto simp: persist_state_def split: sum.splits)

lemma correlate_cases:
  assumes "correlate ow e now d = Inr (d1, ob)"
  obtains (new) title project conv msg where "xv_body e = BAccepted title project conv msg"
      "ob = new_objective ow e title project conv msg now" "tbl_get (eo_sel (ow, xv_objective e)) (objectives d) = None"
      "d1 = d\<lparr>objectives := objectives d @ [ob]\<rparr>"
  | (known) "d1 = d" "tbl_get (eo_sel (ow, xv_objective e)) (objectives d) = Some ob" "eo_task ob = xv_task e"
      "eo_run ob = xv_run e" "eo_terminal_event ob = None"
  using assms by (cases "xv_body e") (auto simp: correlate_def Let_def split: if_splits option.splits)

lemma new_event_row_simps [simp]:
  "er_owner (new_event_row ow e a now) = ow" "er_event (new_event_row ow e a now) = xv_id e"
  "er_objective (new_event_row ow e a now) = xv_objective e" "er_task (new_event_row ow e a now) = xv_task e"
  "er_run (new_event_row ow e a now) = xv_run e" "er_phase (new_event_row ow e a now) = xv_phase e"
  "er_payload (new_event_row ow e a now) = event_payload e"
  by (simp_all add: new_event_row_def)

lemma jget_payload [simp]:
  "jget (event_payload e) ''event_id'' = JStr (xv_id e)" "jget (event_payload e) ''objective_id'' = JStr (xv_objective e)"
  "jget (event_payload e) ''task_id'' = JStr (xv_task e)" "jget (event_payload e) ''run_id'' = JStr (xv_run e)"
  "jget (event_payload e) ''phase'' = JStr (xv_phase e)"
  by (simp_all add: event_payload_def event_dump_def)

lemma new_event_row_faithful [simp]: "faithful_row (new_event_row ow e a now)"
  by (simp add: faithful_row_def)

lemma new_objective_simps [simp]:
  "eo_owner (new_objective ow e title project conv msg now) = ow"
  "eo_objective (new_objective ow e title project conv msg now) = xv_objective e"
  "eo_task (new_objective ow e title project conv msg now) = xv_task e"
  "eo_run (new_objective ow e title project conv msg now) = xv_run e"
  "eo_terminal_event (new_objective ow e title project conv msg now) = None"
  "eo_terminal_phase (new_objective ow e title project conv msg now) = None"
  by (simp_all add: new_objective_def)

lemma accepted_open: "xv_body e = BAccepted title project conv msg \<Longrightarrow> \<not> is_terminal_phase (xv_phase e)"
  by (simp add: xv_phase_def is_terminal_phase_def TERMINAL_PHASES_def)

text \<open>A committed \<open>ingest\<close> is a replay, opens an objective, reports progress or ends the objective.\<close>

lemma ingest_cases:
  assumes "ingest act ow e now d = Inr (d', row, dup)"
  obtains (replay) "d' = d" "dup" "tbl_get (er_sel (ow, xv_id e)) (events d) = Some row" "er_payload row = event_payload e"
  | (opened) a ob pj where "\<not> dup" "tbl_get (er_sel (ow, xv_id e)) (events d) = None" "row = new_event_row ow e a now"
      "tbl_get (eo_sel (ow, xv_objective e)) (objectives d) = None" "\<not> is_terminal_phase (xv_phase e)"
      "\<exists>title project conv msg. ob = new_objective ow e title project conv msg now"
      "d' = d\<lparr>objectives := objectives d @ [ob], events := events d @ [row], projections := pj\<rparr>"
  | (progress) a ob pj where "\<not> dup" "tbl_get (er_sel (ow, xv_id e)) (events d) = None" "row = new_event_row ow e a now"
      "tbl_get (eo_sel (ow, xv_objective e)) (objectives d) = Some ob" "eo_task ob = xv_task e" "eo_run ob = xv_run e"
      "eo_terminal_event ob = None" "\<not> is_terminal_phase (xv_phase e)"
      "d' = d\<lparr>events := events d @ [row], projections := pj\<rparr>"
  | (ended) a ob pj where "\<not> dup" "tbl_get (er_sel (ow, xv_id e)) (events d) = None" "row = new_event_row ow e a now"
      "tbl_get (eo_sel (ow, xv_objective e)) (objectives d) = Some ob" "eo_task ob = xv_task e" "eo_run ob = xv_run e"
      "eo_terminal_event ob = None" "is_terminal_phase (xv_phase e)"
      "d' = d\<lparr>events := events d @ [row], objectives := tbl_upd (eo_sel (ow, xv_objective e)) (close_objective e now) (objectives d),
         cancels := resolve_cancels ow e now (cancels d), projections := pj\<rparr>"
proof (cases "tbl_get (er_sel (ow, xv_id e)) (events d)")
  case (Some x)
  then show thesis using assms replay by (auto simp: ingest_def split: if_splits)
next
  case None
  obtain d1 ob a where c: "correlate ow e now d = Inr (d1, ob)" and row: "row = new_event_row ow e a now" "\<not> dup"
    and p: "persist_state ow (xv_objective e) (close_on_terminal ow e now (d1\<lparr>events := events d1 @ [row]\<rparr>)) = Inr d'"
    using assms None by (auto simp: ingest_def Let_def split: if_splits sum.splits option.splits)
  obtain pj where d': "d' = (close_on_terminal ow e now (d1\<lparr>events := events d1 @ [row]\<rparr>))\<lparr>projections := pj\<rparr>"
    using persist_state_writes[OF p] by blast
  show thesis
    using c
  proof (cases rule: correlate_cases)
    case (new title project conv msg)
    have t: "\<not> is_terminal_phase (xv_phase e)" using accepted_open[OF new(1)] .
    show thesis
      by (rule opened[OF row(2) None row(1) new(3) t]) (use new(2,4) t d' in \<open>auto simp: close_on_terminal_def\<close>)
  next
    case known
    show thesis
    proof (cases "is_terminal_phase (xv_phase e)")
      case True
      show thesis by (rule ended[OF row(2) None row(1) known(2-5) True]) (use True d' known(1) in \<open>simp add: close_on_terminal_def\<close>)
    next
      case False
      show thesis by (rule progress[OF row(2) None row(1) known(2-5) False]) (use False d' known(1) in \<open>simp add: close_on_terminal_def\<close>)
    qed
  qed
qed

subsection \<open>Every transaction keeps the invariant\<close>

lemma cancelled_in_append: "cancelled_in obs c \<Longrightarrow> cancelled_in (obs @ [ob]) c"
  by (auto simp: cancelled_in_def)

lemma close_objective_simps [simp]:
  "eo_owner (close_objective e now x) = eo_owner x" "eo_objective (close_objective e now x) = eo_objective x"
  "eo_task (close_objective e now x) = eo_task x" "eo_run (close_objective e now x) = eo_run x"
  "eo_terminal_event (close_objective e now x) = Some (xv_id e)" "eo_terminal_phase (close_objective e now x) = Some (xv_phase e)"
  by (simp_all add: close_objective_def)

lemma open_phase: "store_ok obs evs \<Longrightarrow> ob \<in> set obs \<Longrightarrow> eo_terminal_event ob = None \<longleftrightarrow> eo_terminal_phase ob = None"
  by (auto simp: store_ok_def closed_by_def split: option.splits)

lemma eo_get_only:
  "store_ok obs evs \<Longrightarrow> tbl_get (eo_sel k) obs = Some ob \<Longrightarrow> y \<in> set obs \<Longrightarrow> eo_sel k y \<Longrightarrow> y = ob"
  using eok.uniq_same[of obs y ob] tbl_get_Some_iff[of "eo_sel k" obs ob] by (simp add: store_ok_def eo_sel_def)

lemma cancelled_in_close:
  assumes ok: "store_ok obs evs" and ob: "tbl_get (eo_sel k) obs = Some ob" "eo_terminal_event ob = None" and c: "cancelled_in obs c"
  shows "cancelled_in (tbl_upd (eo_sel k) f obs) c"
proof -
  obtain y where y: "y \<in> set obs" "eo_sel (cq_owner c, cq_objective c) y" "eo_terminal_phase y = Some ''objective.cancelled''"
    using c by (auto simp: cancelled_in_def)
  have "y \<noteq> ob" using open_phase[OF ok y(1)] y(3) ob(2) by (cases "y = ob") simp_all
  then have "(if eo_sel k y then f y else y) = y" using eo_get_only[OF ok ob(1) y(1)] by (meson if_not_P)
  then have "y \<in> set (tbl_upd (eo_sel k) f obs)" unfolding set_tbl_upd by (rule image_eqI[OF sym y(1)])
  then show ?thesis unfolding cancelled_in_def by (rule bexI[rotated]) (intro conjI y(2,3))
qed

lemma cancelled_in_closed:
  assumes "tbl_get (eo_sel (cq_owner c, cq_objective c)) obs = Some ob" and "xv_phase e = ''objective.cancelled''"
  shows "cancelled_in (tbl_upd (eo_sel (cq_owner c, cq_objective c)) (close_objective e now) obs) c"
proof -
  have ob: "ob \<in> set obs" "eo_sel (cq_owner c, cq_objective c) ob" using assms(1) by auto
  then have "close_objective e now ob \<in> set (tbl_upd (eo_sel (cq_owner c, cq_objective c)) (close_objective e now) obs)"
    by (force simp: set_tbl_upd)
  then show ?thesis unfolding cancelled_in_def by (rule bexI[rotated]) (use ob(2) assms(2) in \<open>simp add: eo_sel_def\<close>)
qed

lemma resolve_cancels_ok:
  assumes ok: "cancel_ok obs t" and "xv_phase e = ''objective.cancelled'' \<Longrightarrow> (\<And>c. cq_for ow (xv_objective e) c \<Longrightarrow> cancelled_in obs c)"
  shows "cancel_ok obs (resolve_cancels ow e now t)"
proof (cases "xv_phase e = ''objective.cancelled''")
  case True
  show ?thesis unfolding resolve_cancels_def if_P[OF True]
    by (rule cancel_ok_upd[OF ok]) (use assms(2)[OF True] in \<open>auto simp: cq_target_def\<close>)
next
  case False
  show ?thesis unfolding resolve_cancels_def if_not_P[OF False]
    by (rule cancel_ok_upd[OF ok]) (auto simp: cq_target_def)
qed

lemma ingest_inv:
  assumes inv: "exec_inv d" and "ingest act ow e now d = Inr (d', row, dup)"
  shows "exec_inv d'"
  using assms(2)
proof (cases rule: ingest_cases)
  case replay
  then show ?thesis using inv by simp
next
  case (opened a ob pj)
  obtain title project conv msg where ob: "ob = new_objective ow e title project conv msg now" using opened(6) by blast
  have "store_ok (objectives d @ [ob]) (events d @ [row])"
    using inv opened(2-5) ob by (intro store_ok_accept) (auto simp: exec_inv_def belongs_def)
  then show ?thesis using inv opened(3,7) cancel_ok_obs[OF _ cancelled_in_append] by (auto simp: exec_inv_def)
next
  case (progress a ob pj)
  have "ob \<in> set (objectives d)" "eo_owner ob = ow" "eo_objective ob = xv_objective e" using progress(4) by (auto simp: eo_sel_def)
  then have "store_ok (objectives d) (events d @ [row])"
    using inv progress(2,3,5-8) by (intro store_ok_progress[of _ _ _ ob]) (auto simp: exec_inv_def belongs_def)
  then show ?thesis using inv progress(3,9) by (simp add: exec_inv_def)
next
  case (ended a ob pj)
  let ?obs = "tbl_upd (eo_sel (ow, xv_objective e)) (close_objective e now) (objectives d)"
  have ob: "ob \<in> set (objectives d)" "eo_owner ob = ow" "eo_objective ob = xv_objective e" using ended(4) by (auto simp: eo_sel_def)
  have sd: "store_ok (objectives d) (events d)" using inv by (simp add: exec_inv_def)
  have "store_ok ?obs (events d @ [row])"
    using store_ok_terminal[OF sd, of row ob "close_objective e now"] ended(2,3,5-8) ob by simp
  moreover have "cancel_ok ?obs (resolve_cancels ow e now (cancels d))"
  proof (rule resolve_cancels_ok)
    show "cancel_ok ?obs (cancels d)"
      using inv cancelled_in_close[OF sd ended(4,7)] by (auto simp: exec_inv_def intro: cancel_ok_obs)
    show "cancelled_in ?obs c" if "xv_phase e = ''objective.cancelled''" "cq_for ow (xv_objective e) c" for c
      using cancelled_in_closed[of c "objectives d" ob e now] that ended(4) by (simp add: cq_for_def)
  qed
  ultimately show ?thesis using inv ended(3,9) by (simp add: exec_inv_def)
qed

lemma exec_inv_events:
  assumes "exec_inv d" and "\<And>x. er_ident (f x) = er_ident x"
  shows "exec_inv (d\<lparr>events := tbl_upd P f (events d)\<rparr>)"
proof -
  have "faithful_row (f x) = faithful_row x" for x using assms(2)[of x] by (simp add: er_ident_def faithful_row_def)
  then have "list_all faithful_row (tbl_upd P f (events d))" using assms(1) by (auto simp: exec_inv_def tbl_upd_def list_all_iff)
  then show ?thesis using assms store_ok_events by (simp add: exec_inv_def)
qed

lemma exec_inv_cancels: "exec_inv d \<Longrightarrow> cancel_ok (objectives d) t \<Longrightarrow> exec_inv (d\<lparr>cancels := t\<rparr>)"
  by (simp add: exec_inv_def)

lemma exec_inv_frame:
  "exec_inv d \<Longrightarrow> objectives d' = objectives d \<Longrightarrow> events d' = events d \<Longrightarrow> cancels d' = cancels d \<Longrightarrow> exec_inv d'"
  by (simp add: exec_inv_def)

subsection \<open>Rows only move forward\<close>

definition eo_forward :: "exec_objective \<Rightarrow> exec_objective \<Rightarrow> bool" where
  "eo_forward a b \<longleftrightarrow> (eo_owner b, eo_objective b, eo_task b, eo_run b, eo_accepted_event b, eo_conversation b, eo_origin b, eo_created b)
       = (eo_owner a, eo_objective a, eo_task a, eo_run a, eo_accepted_event a, eo_conversation a, eo_origin a, eo_created a)
     \<and> (eo_terminal_event a \<noteq> None \<longrightarrow> (eo_terminal_event b, eo_terminal_phase b) = (eo_terminal_event a, eo_terminal_phase a))"

definition er_forward :: "event_row \<Rightarrow> event_row \<Rightarrow> bool" where
  "er_forward a b \<longleftrightarrow> er_ident b = er_ident a \<and> er_activity b = er_activity a \<and> er_created b = er_created a
     \<and> er_attempts a \<le> er_attempts b \<and> (er_generation a = None \<longleftrightarrow> er_generation b = None)
     \<and> (er_generation a = Some GCompleted \<longrightarrow> er_generation b = Some GCompleted \<and> er_assistant b = er_assistant a)"

definition cq_forward :: "cancel_request \<Rightarrow> cancel_request \<Rightarrow> bool" where
  "cq_forward a b \<longleftrightarrow> cq_target b = cq_target a \<and> (cq_task b, cq_actor b, cq_key b, cq_created b) = (cq_task a, cq_actor a, cq_key a, cq_created a)
     \<and> cq_attempts a \<le> cq_attempts b \<and> (cq_status a = CqObserved \<longrightarrow> cq_status b = CqObserved)"

definition exec_older :: "exec_db \<Rightarrow> exec_db \<Rightarrow> bool" where
  "exec_older d d' \<longleftrightarrow> rows_kept eo_forward (objectives d) (objectives d') \<and> rows_kept er_forward (events d) (events d')
     \<and> rows_kept cq_forward (cancels d) (cancels d')"

lemma eo_forward_refl: "eo_forward a a" by (simp add: eo_forward_def)
lemma er_forward_refl: "er_forward a a" by (simp add: er_forward_def)
lemma cq_forward_refl: "cq_forward a a" by (simp add: cq_forward_def)

lemmas forward_refls = eo_forward_refl er_forward_refl cq_forward_refl

lemma eo_forward_trans: "eo_forward a b \<Longrightarrow> eo_forward b c \<Longrightarrow> eo_forward a c" by (simp add: eo_forward_def)
lemma er_forward_trans: "er_forward a b \<Longrightarrow> er_forward b c \<Longrightarrow> er_forward a c" by (simp add: er_forward_def)
lemma cq_forward_trans: "cq_forward a b \<Longrightarrow> cq_forward b c \<Longrightarrow> cq_forward a c" by (simp add: cq_forward_def)

lemma exec_older_refl: "exec_older d d"
  by (simp add: exec_older_def rows_kept_subset forward_refls)

lemma exec_older_trans: "exec_older d e \<Longrightarrow> exec_older e f \<Longrightarrow> exec_older d f"
  unfolding exec_older_def
  using rows_kept_trans[of eo_forward] rows_kept_trans[of er_forward] rows_kept_trans[of cq_forward]
    eo_forward_trans er_forward_trans cq_forward_trans by meson

text \<open>A transaction that is sound keeps the invariant and moves forward.\<close>

definition sound_step :: "exec_db \<Rightarrow> exec_db \<Rightarrow> bool" where
  "sound_step d d' \<longleftrightarrow> exec_inv d' \<and> exec_older d d'"

lemma sound_frame:
  assumes "exec_inv d" and "objectives d' = objectives d" and "events d' = events d" and "cancels d' = cancels d"
  shows "sound_step d d'"
  using assms by (simp add: sound_step_def exec_inv_def exec_older_def rows_kept_subset forward_refls)

lemma sound_events:
  assumes "exec_inv d" and "\<And>x. er_ident (f x) = er_ident x" and "\<And>x. x \<in> set (events d) \<Longrightarrow> P x \<Longrightarrow> er_forward x (f x)"
  shows "sound_step d (d\<lparr>events := tbl_upd P f (events d)\<rparr>)"
  using exec_inv_events[OF assms(1,2)] rows_kept_upd[of er_forward "events d" P f, OF er_forward_refl assms(3)]
  by (simp add: sound_step_def exec_older_def rows_kept_subset forward_refls)

lemma sound_cancels:
  assumes "exec_inv d" and "cancel_ok (objectives d) (tbl_upd P f (cancels d))" and "\<And>c. c \<in> set (cancels d) \<Longrightarrow> P c \<Longrightarrow> cq_forward c (f c)"
  shows "sound_step d (upd_cancel P f d)"
  using assms(1,2) rows_kept_upd[of cq_forward "cancels d" P f, OF cq_forward_refl assms(3)]
  by (simp add: sound_step_def exec_inv_def exec_older_def upd_cancel_def rows_kept_subset forward_refls)

lemma sound_ingest:
  assumes inv: "exec_inv d" and st: "ingest act ow e now d = Inr (d', row, dup)"
  shows "sound_step d d'"
proof -
  have "exec_older d d'"
    using st
  proof (cases rule: ingest_cases)
    case replay
    then show ?thesis by (simp add: exec_older_refl)
  next
    case (opened a ob pj)
    then show ?thesis by (auto simp: exec_older_def intro!: rows_kept_subset forward_refls)
  next
    case (progress a ob pj)
    then show ?thesis by (auto simp: exec_older_def intro!: rows_kept_subset forward_refls)
  next
    case (ended a ob pj)
    have sd: "store_ok (objectives d) (events d)" using inv by (simp add: exec_inv_def)
    have "rows_kept eo_forward (objectives d) (tbl_upd (eo_sel (ow, xv_objective e)) (close_objective e now) (objectives d))"
    proof (rule rows_kept_upd[OF eo_forward_refl])
      show "eo_forward y (close_objective e now y)" if "y \<in> set (objectives d)" "eo_sel (ow, xv_objective e) y" for y
        using eo_get_only[OF sd ended(4) that] ended(7) by (simp add: eo_forward_def close_objective_def)
    qed
    moreover have "rows_kept cq_forward (cancels d) (resolve_cancels ow e now (cancels d))"
      unfolding resolve_cancels_def
      by (cases "xv_phase e = ''objective.cancelled''")
        (auto intro!: rows_kept_upd cq_forward_refl simp: cq_forward_def cq_target_def)
    moreover have "rows_kept er_forward (events d) (events d @ [row])"
      by (rule rows_kept_subset) (auto simp: er_forward_refl)
    ultimately show ?thesis using ended(9) by (simp add: exec_older_def)
  qed
  then show ?thesis using ingest_inv[OF assms] by (simp add: sound_step_def)
qed

lemma er_get_only:
  "exec_inv d \<Longrightarrow> tbl_get (er_sel k) (events d) = Some x \<Longrightarrow> y \<in> set (events d) \<Longrightarrow> er_sel k y \<Longrightarrow> y = x"
  using erk.uniq_same[of "events d" y x] tbl_get_Some_iff[of "er_sel k" "events d" x]
  by (simp add: exec_inv_def store_ok_def er_sel_def)

lemma sound_claim:
  assumes inv: "exec_inv d" and "claim_completion ow ev retry now d = Inr (d', r)"
  shows "sound_step d d'"
proof -
  obtain x where x: "tbl_get (er_sel (ow, ev)) (events d) = Some x"
    and d': "d' = d \<or> (er_generation x \<noteq> None \<and> er_generation x \<noteq> Some GCompleted
      \<and> d' = d\<lparr>events := tbl_upd (\<lambda>y. er_sel (ow, ev) y \<and> er_generation y = er_generation x)
          (\<lambda>y. y\<lparr>er_generation := Some GGenerating, er_attempts := er_attempts y + 1, er_error := None, er_updated := now\<rparr>) (events d)\<rparr>)"
    using assms(2) by (auto simp: claim_completion_def Let_def split: option.splits if_splits)
  from d' show ?thesis
  proof (elim disjE conjE)
    assume "d' = d"
    then show ?thesis using inv by (simp add: sound_frame)
  next
    assume g: "er_generation x \<noteq> None" "er_generation x \<noteq> Some GCompleted"
      and e: "d' = d\<lparr>events := tbl_upd (\<lambda>y. er_sel (ow, ev) y \<and> er_generation y = er_generation x)
          (\<lambda>y. y\<lparr>er_generation := Some GGenerating, er_attempts := er_attempts y + 1, er_error := None, er_updated := now\<rparr>) (events d)\<rparr>"
    show ?thesis unfolding e by (rule sound_events[OF inv]) (use g in \<open>simp_all add: er_ident_def er_forward_def\<close>)
  qed
qed

lemma sound_finish:
  assumes inv: "exec_inv d" and "finish_completion ow ev ok a now d = Inr (d', u)"
  shows "sound_step d d'"
proof -
  obtain x where x: "tbl_get (er_sel (ow, ev)) (events d) = Some x"
    and d': "d' = d \<or> (er_generation x = Some GGenerating
      \<and> d' = d\<lparr>events := tbl_upd (er_sel (ow, ev)) (\<lambda>y. y\<lparr>er_generation := Some (if ok then GCompleted else GFailed), er_assistant := a,
                 er_error := (if ok then None else Some ''magi_generation_failed''), er_updated := now\<rparr>) (events d)\<rparr>)"
    using assms(2) by (auto simp: finish_completion_def split: option.splits if_splits)
  from d' show ?thesis
  proof (elim disjE conjE)
    assume "d' = d"
    then show ?thesis using inv by (simp add: sound_frame)
  next
    assume g: "er_generation x = Some GGenerating"
      and e: "d' = d\<lparr>events := tbl_upd (er_sel (ow, ev)) (\<lambda>y. y\<lparr>er_generation := Some (if ok then GCompleted else GFailed), er_assistant := a,
                 er_error := (if ok then None else Some ''magi_generation_failed''), er_updated := now\<rparr>) (events d)\<rparr>"
    show ?thesis unfolding e
      by (rule sound_events[OF inv]) (use g er_get_only[OF inv x] in \<open>simp_all add: er_ident_def er_forward_def\<close>)
  qed
qed

lemma sound_interrupted: "exec_inv d \<Longrightarrow> sound_step d (fst (recover_interrupted now d))"
  unfolding recover_interrupted_def fst_conv by (rule sound_events) (simp_all add: er_ident_def er_forward_def)

lemma settle_writes: "personal_settle ow ob ev us now d = Inr (d', u) \<Longrightarrow> d' = d \<or> (\<exists>h. d' = d\<lparr>holds := h\<rparr>)"
  by (auto simp: personal_settle_def split: json.splits if_splits option.splits)

lemma sound_settle: "exec_inv d \<Longrightarrow> personal_settle ow ob ev us now d = Inr (d', u) \<Longrightarrow> sound_step d d'"
  using settle_writes[of ow ob ev us now d d' u] by (auto intro: sound_frame)

lemma sound_close:
  assumes inv: "exec_inv d" and "close_resources hx cat pers ow e now d = Inr (d', u)"
  shows "sound_step d d'"
proof (cases "is_terminal_phase (xv_phase e) \<and> pers")
  case True
  then show ?thesis using assms(2) sound_settle[OF inv] by (auto simp: close_resources_def split: option.splits)
next
  case False
  then have "d' = d \<or> (\<exists>b. d' = d\<lparr>billing := b\<rparr>)" using assms(2) by (auto simp: close_resources_def split: if_splits option.splits sum.splits)
  then show ?thesis using inv by (auto intro: sound_frame)
qed

lemma reserve_writes:
  assumes "personal_reserve c repo p ob sha project w now d = Inr (d', u)"
  obtains "d' = d"
  | repository us amount where "tbl_get (ph_sel ob) (holds d) = None" "ledger_usage (pr_user p) now d = Inr us"
      "check_personal_admission c p (Some us) w now = Inr amount" "d' = d\<lparr>holds := holds d @ [new_hold c p ob sha repository amount w now]\<rparr>"
  using assms by (auto simp: personal_reserve_def split: sum.splits option.splits if_splits)

lemma sound_reserve:
  assumes "exec_inv d" and "personal_reserve c repo p ob sha project w now d = Inr (d', u)"
  shows "sound_step d d'"
  using assms(2) by (cases rule: reserve_writes) (use assms(1) in \<open>auto intro: sound_frame\<close>)

lemma sound_release: "exec_inv d \<Longrightarrow> sound_step d (fst (release_unpublished ow ob now d))"
  by (rule sound_frame) (simp_all add: release_unpublished_def Let_def)

subsection \<open>Cancellation steps\<close>

lemma sound_cancel_status:
  assumes inv: "exec_inv d" and "\<And>c. cq_target (f c) = cq_target c" and "\<And>c. cq_status (f c) = cq_status c" and "\<And>c. cq_forward c (f c)"
  shows "sound_step d (upd_cancel P f d)"
  by (rule sound_cancels[OF inv cancel_ok_upd]) (use assms in \<open>auto simp: exec_inv_def\<close>)

lemma sound_begin: "exec_inv d \<Longrightarrow> sound_step d (notify_begin rid now d)"
  unfolding notify_begin_def by (rule sound_cancel_status) (simp_all add: cq_target_def cq_forward_def)

lemma sound_note_failed: "exec_inv d \<Longrightarrow> sound_step d (notify_failed rid now d)"
  unfolding notify_failed_def by (rule sound_cancel_status) (simp_all add: cq_target_def cq_forward_def)

lemma sound_delivered: "exec_inv d \<Longrightarrow> sound_step d (notify_delivered rid now d)"
  unfolding notify_delivered_def by (rule sound_cancel_status) (simp_all add: cq_target_def cq_forward_def)

lemma cq_get_only:
  "exec_inv d \<Longrightarrow> tbl_get (cq_sel rid) (cancels d) = Some r \<Longrightarrow> y \<in> set (cancels d) \<Longrightarrow> cq_id y = rid \<Longrightarrow> y = r"
  using cqk.uniq_same[of "cancels d" y r] tbl_get_Some_iff[of "cq_sel rid" "cancels d" r]
  by (simp add: exec_inv_def cancel_ok_def cq_sel_def)

lemma sound_reopen:
  assumes inv: "exec_inv d" and r: "r \<in> set (cancels d)" and free: "\<not> other_active r d"
    and f: "\<And>c. cq_target (f c) = cq_target c" "\<And>c. cq_status (f c) = CqRequested" "\<And>c. cq_status c = CqFailed \<Longrightarrow> cq_forward c (f c)"
  shows "sound_step d (upd_cancel (\<lambda>c. cq_sel (cq_id r) c \<and> cq_status c = CqFailed) f d)"
proof (rule sound_cancels[OF inv])
  have ok: "cancel_ok (objectives d) (cancels d)" using inv by (simp add: exec_inv_def)
  have "cq_target c = cq_target r" if "c \<in> set (cancels d)" "cq_sel (cq_id r) c \<and> cq_status c = CqFailed" for c
    using cqk.uniq_same[of "cancels d" c r] that r ok by (simp add: cancel_ok_def cq_sel_def)
  then show "cancel_ok (objectives d) (tbl_upd (\<lambda>c. cq_sel (cq_id r) c \<and> cq_status c = CqFailed) f (cancels d))"
    using free f(1,2) by (intro cancel_ok_reopen[OF ok, of f _ r]) (auto simp: other_active_def tbl_ex_iff)
qed (use f(3) in blast)

lemma sound_recover_reopen: "exec_inv d \<Longrightarrow> reopen_current rid d = Inr (d', u) \<Longrightarrow> sound_step d d'"
proof -
  assume inv: "exec_inv d" and st: "reopen_current rid d = Inr (d', u)"
  show ?thesis
  proof (cases "tbl_get (cq_sel rid) (cancels d)")
    case None
    then show ?thesis using st inv by (auto simp: reopen_current_def intro: sound_frame)
  next
    case (Some r)
    have d': "d' = upd_cancel (\<lambda>c. cq_sel (cq_id r) c \<and> cq_status c = CqFailed) (\<lambda>c. c\<lparr>cq_status := CqRequested, cq_error := None\<rparr>) d"
      and g: "\<not> tbl_ex (\<lambda>c. cq_sel (cq_id r) c \<and> cq_status c = CqFailed) (cancels d) \<or> \<not> other_active r d"
      using st Some by (auto simp: reopen_current_def reopen_request_def split: if_splits)
    have r: "r \<in> set (cancels d)" using Some by blast
    from g show ?thesis
    proof
      assume "\<not> tbl_ex (\<lambda>c. cq_sel (cq_id r) c \<and> cq_status c = CqFailed) (cancels d)"
      then have "d' = d" unfolding d' upd_cancel_def by (subst tbl_upd_none) (auto simp: tbl_ex_iff)
      then show ?thesis using inv by (simp add: sound_frame)
    next
      assume "\<not> other_active r d"
      then show ?thesis unfolding d' by (rule sound_reopen[OF inv r]) (simp_all add: cq_target_def cq_forward_def)
    qed
  qed
qed

lemma cancelled_in_ended:
  assumes inv: "exec_inv d"
  shows "cancelled_in (objectives d) c \<longleftrightarrow> ended_phase (cq_owner c) (cq_objective c) d = Some ''objective.cancelled''"
proof -
  have sd: "store_ok (objectives d) (events d)" using inv by (simp add: exec_inv_def)
  show ?thesis
  proof (cases "tbl_get (eo_sel (cq_owner c, cq_objective c)) (objectives d)")
    case None
    then have "\<not> cancelled_in (objectives d) c" by (auto simp: cancelled_in_def tbl_get_None_iff)
    then show ?thesis using None by (simp add: ended_phase_def)
  next
    case (Some ob)
    then have "ob \<in> set (objectives d)" "eo_sel (cq_owner c, cq_objective c) ob" by auto
    then have "cancelled_in (objectives d) c \<longleftrightarrow> eo_terminal_phase ob = Some ''objective.cancelled''"
      using eo_get_only[OF sd Some] unfolding cancelled_in_def by metis
    then show ?thesis using Some by (simp add: ended_phase_def)
  qed
qed

lemma sound_resolve: assumes inv: "exec_inv d" shows "sound_step d (resolve_current rid now d)"
proof (cases "tbl_get (cq_sel rid) (cancels d)")
  case None
  then show ?thesis using inv by (simp add: resolve_current_def sound_frame)
next
  case (Some r)
  have ok: "cancel_ok (objectives d) (cancels d)" using inv by (simp add: exec_inv_def)
  show ?thesis
  proof (cases "ended_phase (cq_owner r) (cq_objective r) d")
    case None
    then show ?thesis using inv Some by (simp add: resolve_current_def sound_frame)
  next
    case (Some p)
    let ?f = "\<lambda>c. c\<lparr>cq_status := (if p = ''objective.cancelled'' then CqObserved else CqFailed),
            cq_error := (if p = ''objective.cancelled'' then None else Some ''objective_terminal''),
            cq_note := NoteDelivered, cq_updated := now\<rparr>"
    have seen: "cancelled_in (objectives d) c \<longleftrightarrow> p = ''objective.cancelled''" if "c \<in> set (cancels d)" "cq_sel rid c" for c
      using cancelled_in_ended[OF inv, of r] Some cq_get_only[OF inv \<open>tbl_get (cq_sel rid) (cancels d) = Some r\<close> that(1)] that(2)
      by (simp add: cq_sel_def)
    have "sound_step d (upd_cancel (cq_sel rid) ?f d)"
    proof (rule sound_cancels[OF inv cancel_ok_upd[OF ok]])
      show "cq_forward c (?f c)" if "c \<in> set (cancels d)" "cq_sel rid c" for c
        using seen[OF that] that(1) ok by (auto simp: cq_forward_def cq_target_def cancel_ok_def)
      show "cq_status (?f c) = cq_status c \<or> cq_status (?f c) = CqFailed \<or> cq_status (?f c) = CqObserved \<and> cancelled_in (objectives d) c"
        if "c \<in> set (cancels d)" "cq_sel rid c" for c using seen[OF that] by simp
    qed (simp add: cq_target_def)
    then show ?thesis using \<open>tbl_get (cq_sel rid) (cancels d) = Some r\<close> Some by (simp add: resolve_current_def resolve_request_def)
  qed
qed

lemma sound_request_known:
  assumes inv: "exec_inv d" and r: "r \<in> set (cancels d)" and st: "request_known r ow ob now d = Inr (d', rep)"
  shows "sound_step d d'"
proof -
  have "d' = d \<or> \<not> other_active r d \<and> d' = upd_cancel (\<lambda>c. cq_sel (cq_id r) c \<and> cq_status c = CqFailed) (reactivated now) d"
    using st by (auto simp: request_known_def split: if_splits)
  then show ?thesis
  proof (elim disjE conjE)
    assume "d' = d"
    then show ?thesis using inv by (simp add: sound_frame)
  next
    assume free: "\<not> other_active r d" and d': "d' = upd_cancel (\<lambda>c. cq_sel (cq_id r) c \<and> cq_status c = CqFailed) (reactivated now) d"
    show ?thesis unfolding d' by (rule sound_reopen[OF inv r free]) (simp_all add: reactivated_def cq_target_def cq_forward_def)
  qed
qed

lemma sound_request_new:
  assumes inv: "exec_inv d" and st: "request_new hx ow actor ob key now d = Inr (d', rep)"
  shows "sound_step d d'"
proof -
  consider "d' = d" | task pj where "tbl_get (\<lambda>c. cq_for ow ob c \<and> cq_status c = CqRequested) (cancels d) = None"
      "\<not> tbl_ex (cq_sel (cq_id (new_request hx ow actor ob task key now))) (cancels d)"
      "d' = d\<lparr>cancels := cancels d @ [new_request hx ow actor ob task key now], projections := pj\<rparr>"
    using st by (fastforce simp: request_new_def Let_def split: option.splits if_splits sum.splits dest: persist_state_writes)
  then show ?thesis
  proof cases
    case 1
    then show ?thesis using inv by (simp add: sound_frame)
  next
    case (2 task pj)
    let ?r = "new_request hx ow actor ob task key now"
    have "cq_active c \<noteq> cq_active ?r" if "c \<in> set (cancels d)" for c
      using 2(1) that by (auto simp: tbl_get_None_iff cq_active_def cq_for_def new_request_def split: if_splits)
    moreover have "tbl_get (cq_sel (cq_id ?r)) (cancels d) = None" using 2(2) by (auto simp: tbl_get_None_iff tbl_ex_iff)
    ultimately have "cancel_ok (objectives d) (cancels d @ [?r])"
      using inv one_active_append cqk.uniq_insert by (auto simp: exec_inv_def cancel_ok_def new_request_def)
    moreover have "rows_kept cq_forward (cancels d) (cancels d @ [?r])" by (rule rows_kept_subset) (auto simp: cq_forward_refl)
    ultimately show ?thesis using inv 2(3)
      by (simp add: sound_step_def exec_inv_def exec_older_def rows_kept_subset forward_refls)
  qed
qed

lemma sound_request:
  assumes inv: "exec_inv d" and st: "request_tx hx ow actor ob key now d = Inr (d', rep)"
  shows "sound_step d d'"
proof (cases "tbl_get (\<lambda>c. cq_owner c = ow \<and> cq_key c = key) (cancels d)")
  case None
  then show ?thesis using st sound_request_new[OF inv] by (simp add: request_tx_def split: if_splits)
next
  case (Some r)
  then have "r \<in> set (cancels d)" by blast
  then show ?thesis using st Some sound_request_known[OF inv] by (auto simp: request_tx_def split: if_splits)
qed

lemma exec_step_sound:
  assumes inv: "exec_inv d" and "exec_step v p d = Inr (d', u)"
  shows "sound_step d d'"
  using assms(2)
  by (cases p) (auto simp: inv intro: sound_ingest[OF inv] sound_close[OF inv] sound_claim[OF inv] sound_finish[OF inv]
      sound_interrupted[OF inv] sound_reserve[OF inv] sound_release[OF inv] sound_request[OF inv] sound_begin[OF inv]
      sound_note_failed[OF inv] sound_delivered[OF inv] sound_resolve[OF inv] sound_recover_reopen[OF inv] sound_frame[OF inv])

interpretation exs: audited "exec_step v" exec_inv "\<lambda>_. True" exec_older
proof unfold_locales
  show "exec_inv d'" if "exec_inv d" "True" "exec_step v p d = Inr (d', u)" for d p d' u
    using exec_step_sound[OF that(1,3)] by (simp only: sound_step_def)
  show "exec_older d d'" if "exec_inv d" "True" "exec_step v p d = Inr (d', u)" for d p d' u
    using exec_step_sound[OF that(1,3)] by (simp only: sound_step_def)
qed (rule exec_older_refl, erule (1) exec_older_trans)

end
