(* ===== verification/Execution_Resources.thy ===== *)
theory Execution_Resources
  imports Execution_System
begin

text \<open>
  Resources of an objective: the personal holds stay inside the configured capacity whatever operations
  run, and a terminal event closes the objective and everything reserved for it.
\<close>

interpretation phk: keyed_rows ph_objective ph_sel
  by unfold_locales (auto simp: ph_sel_def)

definition ph_live :: "string \<Rightarrow> hold \<Rightarrow> bool" where
  "ph_live ow h \<longleftrightarrow> ph_owner h = ow \<and> ph_status h = Reserved"

definition policy_ok :: "personal_deployment \<Rightarrow> bool" where
  "policy_ok c \<longleftrightarrow> personal_deployment_valid c \<and> personal c"

definition within_capacity :: "personal_deployment \<Rightarrow> string \<Rightarrow> hold table \<Rightarrow> bool" where
  "within_capacity c ow t \<longleftrightarrow> int (tbl_count (ph_live ow) t) \<le> pd_workers c \<and> tbl_sum (ph_live ow) ph_workers t \<le> pd_workers c
     \<and> tbl_sum (ph_live ow) ph_reserved t \<le> the (pd_monthly_limit c)"

definition hold_inv :: "personal_deployment \<Rightarrow> hold table \<Rightarrow> bool" where
  "hold_inv c t \<longleftrightarrow> policy_ok c \<and> phk.uniq t \<and> (\<forall>h \<in> set t. 0 \<le> ph_reserved h \<and> 0 \<le> ph_workers h) \<and> (\<forall>ow. within_capacity c ow t)"

lemma hold_inv_close:
  assumes inv: "hold_inv c t" and f: "\<And>h. ph_objective (f h) = ph_objective h" "\<And>h. ph_status (f h) \<noteq> Reserved"
    "\<And>h. (ph_reserved (f h), ph_workers (f h)) = (ph_reserved h, ph_workers h)"
  shows "hold_inv c (tbl_upd P f t)"
proof -
  have nl: "\<not> ph_live ow (f h)" for ow h using f(2) by (simp add: ph_live_def)
  have nn: "0 \<le> ph_reserved h \<and> 0 \<le> ph_workers h" if "h \<in> set t" for h using inv that by (simp add: hold_inv_def)
  have "within_capacity c ow (tbl_upd P f t)" for ow
  proof -
    have "tbl_count (ph_live ow) (tbl_upd P f t) \<le> tbl_count (ph_live ow) t" by (rule tbl_count_upd_le) (simp add: nl)
    moreover have "tbl_sum (ph_live ow) ph_workers (tbl_upd P f t) \<le> tbl_sum (ph_live ow) ph_workers t"
      by (rule tbl_sum_upd_le) (use nl nn in auto)
    moreover have "tbl_sum (ph_live ow) ph_reserved (tbl_upd P f t) \<le> tbl_sum (ph_live ow) ph_reserved t"
      by (rule tbl_sum_upd_le) (use nl nn in auto)
    moreover have "within_capacity c ow t" using inv by (simp add: hold_inv_def)
    ultimately show ?thesis unfolding within_capacity_def by linarith
  qed
  moreover have "0 \<le> ph_reserved h \<and> 0 \<le> ph_workers h" if "h \<in> set (tbl_upd P f t)" for h
    using that by (cases rule: tbl_updE) (use nn f(3) in auto)
  ultimately show ?thesis using inv phk.uniq_upd[of t P f] f(1) by (simp add: hold_inv_def)
qed

lemma admission_bounds:
  assumes "check_personal_admission c p (Some u) w now = Inr amount" and "policy_ok c"
  shows "1 \<le> w \<and> pu_objectives u + 1 \<le> pd_workers c \<and> pu_workers u + w \<le> pd_workers c \<and> 0 \<le> amount
    \<and> pu_spent u + (pu_reserved u + amount) \<le> the (pd_monthly_limit c)"
  using assms by (auto simp: check_personal_admission_def policy_ok_def personal_def personal_deployment_valid_def contract_int_def Let_def
      split: sum.splits if_splits option.splits)

lemma ledger_usage_reads:
  assumes "ledger_usage ow now d = Inr u"
  shows "pu_objectives u = int (tbl_count (ph_live ow) (holds d)) \<and> pu_workers u = tbl_sum (ph_live ow) ph_workers (holds d)
    \<and> pu_reserved u = tbl_sum (ph_live ow) ph_reserved (holds d) \<and> 0 \<le> pu_spent u"
  using assms by (auto simp: ledger_usage_def Let_def personal_usage_valid_def contract_int_def ph_live_def[abs_def] split: if_splits)

lemma hold_inv_reserve:
  assumes inv: "hold_inv c (holds d)" and "personal_reserve c repo p ob sha project w now d = Inr (d', u)"
  shows "hold_inv c (holds d')"
  using assms(2)
proof (cases rule: reserve_writes)
  case 1
  then show ?thesis using inv by simp
next
  case (2 repository us amount)
  let ?h = "new_hold c p ob sha repository amount w now"
  have b: "1 \<le> w" "pu_objectives us + 1 \<le> pd_workers c" "pu_workers us + w \<le> pd_workers c" "0 \<le> amount"
    "pu_spent us + (pu_reserved us + amount) \<le> the (pd_monthly_limit c)"
    using admission_bounds[OF 2(3)] inv by (auto simp: hold_inv_def)
  have h: "ph_live ow ?h \<longleftrightarrow> ow = pr_user p" "ph_workers ?h = w" "ph_reserved ?h = amount" "ph_objective ?h = ob" for ow
    by (auto simp: ph_live_def new_hold_def)
  have "within_capacity c ow (holds d @ [?h])" for ow
  proof (cases "ow = pr_user p")
    case True
    then show ?thesis using b ledger_usage_reads[OF 2(2)] h by (simp add: within_capacity_def tbl_count_append tbl_sum_append)
  next
    case False
    then show ?thesis using inv h by (simp add: hold_inv_def within_capacity_def tbl_count_append tbl_sum_append)
  qed
  then show ?thesis using inv 2(1,4) phk.uniq_insert[of "holds d" ?h] b h by (auto simp: hold_inv_def)
qed

lemma hold_inv_settle:
  assumes inv: "hold_inv c (holds d)" and "personal_settle ow ob ev us now d = Inr (d', u)"
  shows "hold_inv c (holds d')"
proof -
  have "d' = d \<or> (\<exists>n. d' = d\<lparr>holds := tbl_upd (ph_own ow ob) (settled_hold n us ev now) (holds d)\<rparr>)"
    using assms(2) by (auto simp: personal_settle_def split: json.splits if_splits option.splits)
  then show ?thesis using inv by (auto intro!: hold_inv_close simp: settled_hold_def)
qed

lemma ingest_holds: "ingest act ow e now d = Inr (d', row, dup) \<Longrightarrow> holds d' = holds d"
  by (erule ingest_cases) simp_all

lemma request_holds: "request_tx hx ow actor ob key now d = Inr (d', rep) \<Longrightarrow> holds d' = holds d"
  by (auto simp: request_tx_def request_known_def request_new_def upd_cancel_def Let_def
      split: if_splits option.splits sum.splits dest!: persist_state_writes)

lemma close_hold_inv:
  "hold_inv c (holds d) \<Longrightarrow> close_resources hx cat pers ow e now d = Inr (d', u) \<Longrightarrow> hold_inv c (holds d')"
  by (auto simp: close_resources_def split: if_splits option.splits sum.splits intro: hold_inv_settle)

lemma exec_step_holds:
  assumes inv: "hold_inv (xe_policy v) (holds d)" and st: "exec_step v p d = Inr (d', u)"
  shows "hold_inv (xe_policy v) (holds d')"
proof (cases p)
  case OIngest
  then show ?thesis using st inv ingest_holds by fastforce
next
  case OClose
  then show ?thesis using st close_hold_inv[OF inv] by auto
next
  case OReserve
  then show ?thesis using st hold_inv_reserve[OF inv] by auto
next
  case ORelease
  then show ?thesis using st hold_inv_close[OF inv] by (auto simp: release_unpublished_def Let_def)
next
  case ORequest
  then show ?thesis using st inv request_holds by fastforce
qed (use st inv in \<open>auto simp: claim_completion_def finish_completion_def recover_interrupted_def notify_begin_def notify_failed_def
      notify_delivered_def upd_cancel_def resolve_current_def resolve_request_def reopen_current_def reopen_request_def Let_def
      split: option.splits if_splits\<close>)

interpretation hold_tx: transactional "exec_step v" "\<lambda>d. hold_inv (xe_policy v) (holds d)" "\<lambda>_. True"
  using exec_step_holds by unfold_locales

end
