(* ===== verification/Execution_Properties.thy ===== *)
theory Execution_Properties
  imports Execution_Resources Billing_System
begin

text \<open>
  The theorems about execution events, personal resources and cancellation, each with an evaluated
  example: an objective accepted, cancelled by its owner and ended in personal mode.
\<close>

subsection \<open>A sample run\<close>

definition smp_objective :: string where
  "smp_objective = ''mgo_'' @ replicate 32 (CHR ''a'')"

definition smp_event :: "string \<Rightarrow> event_body \<Rightarrow> exec_event" where
  "smp_event i b = \<lparr>xv_id = i, xv_objective = smp_objective, xv_task = ''t1'', xv_run = ''r1'', xv_occurred = 5, xv_body = b\<rparr>"

definition smp_accepted :: exec_event where
  "smp_accepted = smp_event ''e1'' (BAccepted ''Ship it'' None ''mgc_1234'' ''mgm_1234'')"

definition smp_failed :: exec_event where
  "smp_failed = smp_event ''e2'' (BTerminal ''objective.failed'' (Some \<lparr>mu_provider = ''p'', mu_model = ''m'', mu_input = 1, mu_output = 1,
     mu_compute = 1, mu_cost = Some 40\<rparr>))"

definition smp_cancelled :: exec_event where
  "smp_cancelled = smp_event ''e3'' (BTerminal ''objective.cancelled'' None)"

definition smp_env :: exec_env where
  "smp_env = \<lparr>xe_act = (\<lambda>_ _ _. Some ''act''), xe_hx = (\<lambda>s. s), xe_catalog = sample_catalog, xe_policy = sample_personal,
     xe_repo = (\<lambda>_ _. Some ''repo'')\<rparr>"

definition smp_principal :: principal where
  "smp_principal = \<lparr>pr_user = ''captain'', pr_scopes = [''command''], pr_session = ''s'', pr_expires = 100\<rparr>"

definition smp_start :: exec_db where
  "smp_start = empty_exec (empty_billing [''captain''])"

definition smp_chat :: "exec_op list" where
  "smp_chat = [OOther [] [] [\<lparr>cm_id = ''mgm_1234'', cm_owner = ''captain'', cm_conversation = ''mgc_1234'', cm_role = ''user'', cm_status = ''completed''\<rparr>] [],
     OReserve smp_principal smp_objective ''sha'' None 1 50, OIngest ''captain'' smp_accepted 1000]"

definition smp_asked :: "exec_op list" where
  "smp_asked = smp_chat @ [ORequest ''captain'' ''captain'' smp_objective ''cancel-key-1'' 2000]"

definition smp_run :: "exec_op list \<Rightarrow> exec_db" where
  "smp_run ps = run_ops (exec_step smp_env) ps smp_start"

lemma smp_inv: "exec_inv (smp_run ps)"
  unfolding smp_run_def smp_start_def by (rule exs.run_inv) (simp_all add: empty_exec_inv list_all_iff)

lemma run_exec_inv: "exec_inv (run_ops (exec_step v) ps (empty_exec b))"
  by (rule exs.run_inv) (simp_all add: empty_exec_inv list_all_iff)

subsection \<open>Events\<close>

lemma terminal_row:
  assumes inv: "exec_inv d" and x: "x \<in> set (events d)" "is_terminal_phase (er_phase x)"
  obtains ob where "tbl_get (eo_sel (er_owner x, er_objective x)) (objectives d) = Some ob"
    "eo_terminal_event ob = Some (er_event x)" "eo_terminal_phase ob = Some (er_phase x)"
proof -
  obtain ob where ob: "ob \<in> set (objectives d)" "belongs x ob" using inv x(1) by (auto simp: exec_inv_def store_ok_def)
  have "tbl_get (eo_sel (eo_owner ob, eo_objective ob)) (objectives d) = Some ob"
    using inv ob(1) by (intro eok.uniq_get) (simp_all add: exec_inv_def store_ok_def)
  then show thesis using that ob(2) x(2) by (simp add: belongs_def)
qed



text \<open>History is immutable: whatever operations follow, every objective keeps its identity and its
  terminal event once it has one; every event row keeps its payload, evidence and activity, its attempts
  only grow and a completed generation keeps its assistant message; every cancellation request keeps
  its target and, once observed, stays observed.\<close>

theorem execution_history_immutable:
  "exec_older (run_ops (exec_step v) ps (empty_exec b)) (run_ops (exec_step v) (ps @ qs) (empty_exec b))"
  unfolding exs.run_split by (rule exs.run_older) (simp_all add: run_exec_inv list_all_iff)

text \<open>C6. Event delivery is idempotent: once an event was accepted, delivering an event with its id again,
  after any other operations, changes nothing and returns the stored row if it is the same event, and is
  a conflict if it is a different one.\<close>

theorem ingest_replay:
  assumes "ingest act ow e now (run_ops (exec_step v) ps (empty_exec b)) = Inr (d1, row, dup)"
    and "d2 = run_ops (exec_step v) qs d1" and "validate_event tp e" and "validate_event tp f" and "xv_id f = xv_id e"
  shows "\<exists>row2. er_forward row row2 \<and> ingest act' ow f now' d2 = (if f = e then Inr (d2, row2, True) else Inl ExecConflict)"
proof -
  have own: "owner_ok ow" using assms(1) by (auto simp: ingest_def split: if_splits)
  have s1: "exec_inv d1" using sound_ingest[OF run_exec_inv assms(1)] by (simp add: sound_step_def)
  have inv: "exec_inv d2" and old: "exec_older d1 d2"
    unfolding assms(2) by (rule exs.run_inv, simp_all add: s1 list_all_iff) (rule exs.run_older, simp_all add: s1 list_all_iff)
  have row: "row \<in> set (events d1)" "er_owner row = ow" "er_event row = xv_id e" "er_payload row = event_payload e"
    using assms(1) by (cases rule: ingest_cases; force simp: er_sel_def dest: tbl_get_Some_iff)+
  obtain row2 where r2: "row2 \<in> set (events d2)" "er_forward row row2"
    using old row(1) by (auto simp: exec_older_def dest: rows_keptD)
  have eq: "er_owner row2 = ow" "er_event row2 = xv_id f" "er_payload row2 = event_payload e"
    using r2(2) row assms(5) by (simp_all add: er_forward_def er_ident_def)
  have "tbl_get (er_sel (er_owner row2, er_event row2)) (events d2) = Some row2"
    using inv r2(1) by (intro erk.uniq_get) (simp_all add: exec_inv_def store_ok_def)
  then have "ingest act' ow f now' d2 = (if event_payload e \<noteq> event_payload f then Inl ExecConflict else Inr (d2, row2, True))"
    using own eq by (simp add: ingest_def)
  moreover have "event_payload e = event_payload f \<longleftrightarrow> f = e" using event_payload_inj assms(3,4) by metis
  ultimately show ?thesis using r2(2) by auto
qed

definition smp_policy :: text_policy where
  "smp_policy = \<lparr>tp_sensitive = (\<lambda>_. False), tp_pull_request = (\<lambda>_. True), tp_size = (\<lambda>_. 100)\<rparr>"

theorem ingest_replay_witness:
  "\<exists>d1 d2 row2. ingest (xe_act smp_env) ''captain'' smp_failed 3000 (smp_run smp_asked) = Inr d1
     \<and> ingest (xe_act smp_env) ''captain'' smp_failed 9000 d2 = Inr (d2, row2, True)
     \<and> ingest (xe_act smp_env) ''captain'' (smp_failed\<lparr>xv_occurred := 6\<rparr>) 9000 d2 = Inl ExecConflict"
proof -
  let ?f = "smp_failed\<lparr>xv_occurred := 6\<rparr>"
  have "case ingest (xe_act smp_env) ''captain'' smp_failed 3000 (smp_run smp_asked) of Inl _ \<Rightarrow> False | Inr _ \<Rightarrow> True" by code_simp
  then obtain d1 row dup where s: "ingest (xe_act smp_env) ''captain'' smp_failed 3000 (smp_run smp_asked) = Inr (d1, row, dup)"
    by (auto split: sum.splits)
  have v: "validate_event smp_policy smp_failed" "validate_event smp_policy ?f" by code_simp+
  have ne: "?f \<noteq> smp_failed" "xv_id ?f = xv_id smp_failed" by (simp_all add: smp_failed_def smp_event_def)
  note s' = s[unfolded smp_run_def smp_start_def]
  let ?d2 = "run_ops (exec_step smp_env) [OInterrupted 4000] d1"
  obtain r where "ingest (xe_act smp_env) ''captain'' smp_failed 9000 ?d2 = Inr (?d2, r, True)"
    using ingest_replay[OF s' refl v(1) v(1) refl, of "xe_act smp_env" 9000 "[OInterrupted 4000]"] by auto
  moreover have "ingest (xe_act smp_env) ''captain'' ?f 9000 ?d2 = Inl ExecConflict"
    using ingest_replay[OF s' refl v(1) v(2) ne(2), of "xe_act smp_env" 9000 "[OInterrupted 4000]"] ne(1) by auto
  ultimately show ?thesis using s by blast
qed

subsection \<open>Cancellation\<close>

text \<open>C9. In every reachable state an objective has at most one active cancellation request, and a request
  counts as observed only when the objective's recorded terminal phase is a cancellation.\<close>

theorem cancellation_sound:
  assumes "d = run_ops (exec_step v) ps (empty_exec b)" and "c \<in> set (cancels d)" and "c' \<in> set (cancels d)"
    and "(cq_owner c, cq_objective c) = (cq_owner c', cq_objective c')"
  shows "(cq_status c = CqRequested \<and> cq_status c' = CqRequested \<longrightarrow> c = c')
    \<and> (cq_status c = CqObserved \<longrightarrow> ended_phase (cq_owner c) (cq_objective c) d = Some ''objective.cancelled'')"
proof -
  have inv: "exec_inv d" using run_exec_inv assms(1) by simp
  then have ok: "cancel_ok (objectives d) (cancels d)" by (simp add: exec_inv_def)
  have "cq_id c = cq_id c'" if "cq_status c = CqRequested" "cq_status c' = CqRequested"
  proof -
    have "cq_active c = cq_active c'" "cq_active c \<noteq> None" using that assms(4) by (simp_all add: cq_active_def)
    then show ?thesis using ok assms(2,3) unfolding cancel_ok_def one_active_def by blast
  qed
  moreover have "c = c'" if "cq_id c = cq_id c'"
    using cqk.uniq_same[of "cancels d" c c'] ok assms(2,3) that unfolding cancel_ok_def by blast
  moreover have "ended_phase (cq_owner c) (cq_objective c) d = Some ''objective.cancelled''" if "cq_status c = CqObserved"
    using cancelled_in_ended[OF inv, of c] ok assms(2) that by (simp add: cancel_ok_def)
  ultimately show ?thesis by blast
qed

theorem cancellation_sound_witness:
  "\<exists>c. c \<in> set (cancels (smp_run (smp_asked @ [OIngest ''captain'' smp_cancelled 3000]))) \<and> cq_status c = CqObserved
     \<and> ended_phase (cq_owner c) (cq_objective c) (smp_run (smp_asked @ [OIngest ''captain'' smp_cancelled 3000])) = Some ''objective.cancelled''"
proof -
  let ?d = "smp_run (smp_asked @ [OIngest ''captain'' smp_cancelled 3000])"
  have "list_ex (\<lambda>c. cq_status c = CqObserved) (cancels ?d)" by code_simp
  then obtain c where c: "c \<in> set (cancels ?d)" "cq_status c = CqObserved" by (auto simp: list_ex_iff)
  show ?thesis using cancellation_sound[OF _ c(1) c(1) refl, of smp_env _ "empty_billing [''captain'']"] c
    by (auto simp: smp_run_def smp_start_def)
qed

lemma upd_row_get:
  assumes "\<And>c. cq_id (f c) = cq_id c" and "tbl_get (cq_sel k) (cancels d) = Some c"
  shows "tbl_get (cq_sel k) (cancels (upd_cancel P f d)) = Some (if P c then f c else c)"
  using assms by (simp add: upd_cancel_def tbl_get_upd cq_sel_def[abs_def])

lemma upd_cancel_frame [simp]: "objectives (upd_cancel P f d) = objectives d" "ended_phase ow ob (upd_cancel P f d) = ended_phase ow ob d"
  by (simp_all add: upd_cancel_def ended_phase_def)

text \<open>C40. Recovery works on a snapshot. It reads the terminal phase of every undelivered request first and
  handles the rows one by one with an external call in between. For a row whose objective ended
  meanwhile, so that the request is already closed as failed, the stale snapshot (no terminal phase) makes recovery
  reopen the request and mark it delivered: it stays requested on an ended objective, and later recoveries no
  longer see it. With the current phase the request ends as failed.\<close>

theorem stale_recovery_reopens:
  assumes "tbl_get (cq_sel (cq_id r)) (cancels d) = Some c" and "cq_status c = CqFailed"
    and "(cq_owner c, cq_objective c) = (cq_owner r, cq_objective r)" and "ended_phase (cq_owner r) (cq_objective r) d = Some p"
    and "p \<noteq> ''objective.cancelled''" and "\<not> dispatch_unobserved (cq_owner r) (cq_objective r) d" and "\<not> other_active r d"
  shows "(\<exists>d' n' c'. recover_row (\<lambda>_. True) now r None n d = Inr (d', n') \<and> rc_recovered n' = rc_recovered n + 1
      \<and> tbl_get (cq_sel (cq_id r)) (cancels d') = Some c' \<and> cq_status c' = CqRequested \<and> cq_note c' = NoteDelivered
      \<and> ended_phase (cq_owner r) (cq_objective r) d' = Some p
      \<and> (\<forall>maximum cutoff. c' \<notin> set (undelivered maximum cutoff d')))
    \<and> (\<exists>d' n' c'. recover_row (\<lambda>_. True) now r (Some p) n d = Inr (d', n') \<and> tbl_get (cq_sel (cq_id r)) (cancels d') = Some c' \<and> cq_status c' = CqFailed)"
proof -
  let ?d1 = "upd_cancel (\<lambda>c. cq_sel (cq_id r) c \<and> cq_status c = CqFailed) (\<lambda>c. c\<lparr>cq_status := CqRequested, cq_error := None\<rparr>) d"
  let ?d2 = "notify_begin (cq_id r) now ?d1"
  let ?d3 = "notify_delivered (cq_id r) now ?d2"
  have sel: "cq_sel (cq_id r) c" using assms(1) by blast
  obtain c1 where c1: "tbl_get (cq_sel (cq_id r)) (cancels ?d1) = Some c1" "cq_status c1 = CqRequested" "cq_sel (cq_id r) c1"
    using upd_row_get[OF _ assms(1), of "\<lambda>c. c\<lparr>cq_status := CqRequested, cq_error := None\<rparr>"] sel assms(2) by (simp add: cq_sel_def)
  obtain c2 where c2: "tbl_get (cq_sel (cq_id r)) (cancels ?d2) = Some c2" "cq_status c2 = CqRequested" "cq_sel (cq_id r) c2"
    unfolding notify_begin_def
    using upd_row_get[OF _ c1(1), of "\<lambda>c. c\<lparr>cq_note := NotePending, cq_error := None, cq_attempts := cq_attempts c + 1, cq_updated := now\<rparr>"] c1(2,3)
    by (simp add: cq_sel_def)
  obtain c3 where c3: "tbl_get (cq_sel (cq_id r)) (cancels ?d3) = Some c3" "cq_status c3 = CqRequested" "cq_note c3 = NoteDelivered"
    unfolding notify_delivered_def
    using upd_row_get[OF _ c2(1), of "\<lambda>c. c\<lparr>cq_note := NoteDelivered, cq_notified := Some now, cq_updated := now\<rparr>"] c2(2,3)
    by (simp add: cq_sel_def)
  have run: "recover_row (\<lambda>_. True) now r None n d = Inr (?d3, n\<lparr>rc_recovered := rc_recovered n + 1\<rparr>)"
    using assms(6,7) c2 c3 by (simp add: recover_row_def reopen_request_def notify_def)
  have ph: "ended_phase (cq_owner r) (cq_objective r) ?d3 = Some p" using assms(4) by (simp add: notify_begin_def notify_delivered_def)
  have hid: "c3 \<notin> set (undelivered maximum cutoff ?d3)" for maximum cutoff
    using c3(3) by (auto simp: undelivered_def dest: in_set_takeD)
  have "\<exists>d' n' c'. recover_row (\<lambda>_. True) now r None n d = Inr (d', n') \<and> rc_recovered n' = rc_recovered n + 1
      \<and> tbl_get (cq_sel (cq_id r)) (cancels d') = Some c' \<and> cq_status c' = CqRequested \<and> cq_note c' = NoteDelivered
      \<and> ended_phase (cq_owner r) (cq_objective r) d' = Some p \<and> (\<forall>maximum cutoff. c' \<notin> set (undelivered maximum cutoff d'))"
    using run c3 ph hid by (intro exI[of _ ?d3] exI[of _ "n\<lparr>rc_recovered := rc_recovered n + 1\<rparr>"] exI[of _ c3]) simp
  moreover have "\<exists>d' n' c'. recover_row (\<lambda>_. True) now r (Some p) n d = Inr (d', n') \<and> tbl_get (cq_sel (cq_id r)) (cancels d') = Some c' \<and> cq_status c' = CqFailed"
    using assms(5,6) sel upd_row_get[OF _ assms(1), of "\<lambda>c. c\<lparr>cq_status := (if p = ''objective.cancelled'' then CqObserved else CqFailed),
            cq_error := (if p = ''objective.cancelled'' then None else Some ''objective_terminal''), cq_note := NoteDelivered, cq_updated := now\<rparr>"]
    by (simp add: recover_row_def resolve_request_def)
  ultimately show ?thesis ..
qed

definition smp_snapshot :: cancel_request where
  "smp_snapshot = new_request (\<lambda>s. s) ''captain'' ''captain'' smp_objective ''t1'' ''cancel-key-1'' 2000"

definition smp_raced :: exec_db where
  "smp_raced = smp_run (smp_asked @ [OIngest ''captain'' smp_failed 3000])"

theorem stale_recovery_reopens_witness:
  "undelivered 100 2500 (smp_run smp_asked) = [smp_snapshot] \<and> ended_phase (cq_owner smp_snapshot) (cq_objective smp_snapshot) (smp_run smp_asked) = None \<and> (\<exists>d' n' c'. recover_row (\<lambda>_. True) 4000 smp_snapshot None \<lparr>rc_examined = 1, rc_recovered = 0, rc_failed = 0, rc_terminal = 0\<rparr> smp_raced = Inr (d', n')
     \<and> cq_status c' = CqRequested \<and> tbl_get (cq_sel (cq_id smp_snapshot)) (cancels d') = Some c'
     \<and> ended_phase (cq_owner smp_snapshot) (cq_objective smp_snapshot) d' = Some ''objective.failed'')"
proof -
  have s: "undelivered 100 2500 (smp_run smp_asked) = [smp_snapshot]" by code_simp
  have s0: "ended_phase (cq_owner smp_snapshot) (cq_objective smp_snapshot) (smp_run smp_asked) = None" by code_simp
  have "case tbl_get (cq_sel (cq_id smp_snapshot)) (cancels smp_raced) of None \<Rightarrow> False
      | Some c \<Rightarrow> cq_status c = CqFailed \<and> cq_owner c = cq_owner smp_snapshot \<and> cq_objective c = cq_objective smp_snapshot" by code_simp
  then obtain c where c: "tbl_get (cq_sel (cq_id smp_snapshot)) (cancels smp_raced) = Some c" "cq_status c = CqFailed"
    "(cq_owner c, cq_objective c) = (cq_owner smp_snapshot, cq_objective smp_snapshot)" by (auto split: option.splits)
  have e: "ended_phase (cq_owner smp_snapshot) (cq_objective smp_snapshot) smp_raced = Some ''objective.failed''"
    "\<not> dispatch_unobserved (cq_owner smp_snapshot) (cq_objective smp_snapshot) smp_raced" "\<not> other_active smp_snapshot smp_raced"
    by (code_simp, code_simp, code_simp)
  have ne: "''objective.failed'' \<noteq> ''objective.cancelled''" by simp
  show ?thesis
    apply (intro conjI s s0)
    using stale_recovery_reopens[OF c e(1) ne e(2,3), of 4000 "\<lparr>rc_examined = 1, rc_recovered = 0, rc_failed = 0, rc_terminal = 0\<rparr>", THEN conjunct1]
    by (elim exE conjE) (intro exI conjI, assumption+)
qed

subsection \<open>Resources\<close>

text \<open>C8. Personal capacity holds at all times: whatever sequence of operations runs under a loaded personal
  configuration, the objectives an owner has reserved, their workers and their reserved spend never exceed the configured
  worker and monthly limits.\<close>

theorem personal_holds_bounded:
  assumes "from_env env = Inr (xe_policy v)" and "personal (xe_policy v)"
  shows "within_capacity (xe_policy v) ow (holds (run_ops (exec_step v) ps (empty_exec b)))"
proof -
  have "personal_deployment_valid (xe_policy v)" using from_env_valid[OF assms(1)] .
  then have "hold_inv (xe_policy v) []"
    using assms(2) by (auto simp: hold_inv_def policy_ok_def within_capacity_def phk.uniq_Nil personal_def personal_deployment_valid_def
        contract_int_def split: option.splits)
  then have "hold_inv (xe_policy v) (holds (run_ops (exec_step v) ps (empty_exec b)))"
    by (intro hold_tx.run_inv) (simp_all add: empty_exec_def list_all_iff)
  then show ?thesis by (simp add: hold_inv_def)
qed

theorem personal_holds_bounded_witness:
  "tbl_count (ph_live ''captain'') (holds (smp_run smp_chat)) = 1 \<and> within_capacity sample_personal ''captain'' (holds (smp_run smp_chat))"
proof -
  have "tbl_count (ph_live ''captain'') (holds (smp_run smp_chat)) = 1" by code_simp
  moreover have "personal (xe_policy smp_env)" by (simp add: smp_env_def sample_personal_def personal_def)
  moreover have "from_env sample_personal_env = Inr (xe_policy smp_env)" using sample_personal_loads by (simp add: smp_env_def)
  ultimately show ?thesis using personal_holds_bounded[of sample_personal_env smp_env "''captain''" smp_chat "empty_billing [''captain'']"]
    by (simp add: smp_run_def smp_start_def) (simp add: smp_env_def)
qed

lemma ingest_ended:
  assumes inv: "exec_inv d" and st: "ingest act ow e now d = Inr (d1, row, dup)" and tm: "is_terminal_phase (xv_phase e)"
  shows "ended_phase ow (xv_objective e) d1 = Some (xv_phase e)"
proof -
  have inv1: "exec_inv d1" using ingest_inv[OF inv st] .
  have row: "row \<in> set (events d1)" "er_owner row = ow" "er_payload row = event_payload e"
    using st by (cases rule: ingest_cases; force simp: er_sel_def dest: tbl_get_Some_iff)+
  have "faithful_row row" using inv1 row(1) by (simp add: exec_inv_def list_all_iff)
  then have "er_objective row = xv_objective e" "er_phase row = xv_phase e" using row(3) by (simp_all add: faithful_row_def)
  moreover obtain ob where "tbl_get (eo_sel (er_owner row, er_objective row)) (objectives d1) = Some ob" "eo_terminal_phase ob = Some (er_phase row)"
    using terminal_row[OF inv1 row(1)] tm \<open>er_phase row = xv_phase e\<close> by metis
  ultimately show ?thesis using row(2) by (simp add: ended_phase_def)
qed

lemma settle_closes_hold:
  assumes uniq: "phk.uniq (holds d)" and st: "personal_settle ow ob ev us now d = Inr (d', u)" and h: "h \<in> set (holds d')" "ph_own ow ob h"
  shows "ph_status h = Settled"
proof -
  obtain g where g: "tbl_get (ph_own ow ob) (holds d) = Some g"
    and d': "d' = d \<and> ph_status g = Settled \<or> (\<exists>n. d' = d\<lparr>holds := tbl_upd (ph_own ow ob) (settled_hold n us ev now) (holds d)\<rparr>)"
    using st by (auto simp: personal_settle_def split: json.splits if_splits option.splits)
  from d' show ?thesis
  proof
    assume k: "d' = d \<and> ph_status g = Settled"
    have "g \<in> set (holds d)" "ph_own ow ob g" using g by auto
    then have "h = g" using phk.uniq_same[of "holds d" h g] uniq h k by (simp add: ph_own_def)
    then show ?thesis using k by simp
  next
    assume "\<exists>n. d' = d\<lparr>holds := tbl_upd (ph_own ow ob) (settled_hold n us ev now) (holds d)\<rparr>"
    then obtain n where "h \<in> set (tbl_upd (ph_own ow ob) (settled_hold n us ev now) (holds d))" using h(1) by auto
    then show ?thesis by (cases rule: tbl_updE) (use h(2) in \<open>auto simp: settled_hold_def\<close>)
  qed
qed

lemma insert_ledger_reservations [simp]: "reservations (fst (insert_ledger e d)) = reservations d"
  by (simp add: insert_ledger_def)

lemma same_row: "rs.uniq t \<Longrightarrow> tbl_get (rs_sel k) t = Some r \<Longrightarrow> x \<in> set t \<Longrightarrow> rs_sel k x \<Longrightarrow> x = r"
  using rs.uniq_same[of t x r] tbl_get_Some_iff[of "rs_sel k" t r] by (cases k) (simp add: rs_sel_def)

lemma row_closed:
  assumes "rs.uniq t" and "tbl_get (rs_sel k) t = Some r" and "x \<in> set (tbl_upd (rs_id_sel (rs_id r)) f t)" and "rs_sel k x"
    and "\<And>y. (rs_owner (f y), rs_objective (f y)) = (rs_owner y, rs_objective y) \<and> rs_status (f y) \<noteq> Reserved"
  shows "rs_status x \<noteq> Reserved"
  using assms(3)
proof (cases rule: tbl_updE)
  case 2
  then have "x = r" using same_row[OF assms(1,2) _ assms(4)] by simp
  then show ?thesis using 2 by (simp add: rs_id_sel_def)
qed (use assms(5) in auto)

lemma release_closes:
  assumes uniq: "rs.uniq (reservations d)" and st: "release_objective hx ow ob why now d = Inr (d', u)"
    and x: "x \<in> set (reservations d')" "rs_sel (ow, ob) x"
  shows "rs_status x \<noteq> Reserved"
proof (cases "tbl_get (rs_sel (ow, ob)) (reservations d)")
  case None
  then have "d' = d" using st by (simp add: release_objective_def)
  then show ?thesis using None x by (simp add: tbl_get_None_iff)
next
  case (Some r)
  show ?thesis
  proof (cases "rs_status r = Reserved")
    case True
    then have "reservations d' = tbl_upd (rs_id_sel (rs_id r)) (\<lambda>x. x\<lparr>rs_status := Released, rs_updated_at := now\<rparr>) (reservations d)"
      using st Some by (auto simp: release_objective_def Let_def upd_reservation_def upd_account_def insert_ledger_def split: option.splits if_splits)
    then show ?thesis using row_closed[OF uniq Some _ x(2)] x(1) by simp
  next
    case False
    then show ?thesis using st Some x same_row[OF uniq Some] by (auto simp: release_objective_def)
  qed
qed

lemma settle_closes:
  assumes uniq: "rs.uniq (reservations d)" and st: "settle_objective hx cat ow ob us ev now d = Inr (d', u)"
    and x: "x \<in> set (reservations d')" "rs_sel (ow, ob) x"
  shows "rs_status x \<noteq> Reserved"
proof -
  obtain r where r: "tbl_get (rs_sel (ow, ob)) (reservations d) = Some r"
    and c: "(rs_status r = Settled \<and> d' = d) \<or> (\<exists>a us' actual. settle_new hx ow ob us' actual ev now r a d = Inr (d', u))"
    using st by (auto simp: settle_objective_def split: sum.splits option.splits rs_status.splits if_splits) blast
  from c show ?thesis
  proof (elim disjE exE conjE)
    assume "rs_status r = Settled" "d' = d"
    then show ?thesis using same_row[OF uniq r] x by auto
  next
    fix a us' actual assume "settle_new hx ow ob us' actual ev now r a d = Inr (d', u)"
    then have "reservations d' = tbl_upd (rs_id_sel (rs_id r)) (\<lambda>x. x\<lparr>rs_status := Settled, rs_actual := Some actual,
                 rs_usage := Some us', rs_updated_at := now\<rparr>) (reservations d)"
      by (auto simp: settle_new_def Let_def upd_reservation_def upd_account_def insert_ledger_def split: if_splits)
    then show ?thesis using row_closed[OF uniq r _ x(2)] x(1) by simp
  qed
qed

lemma ingest_billing: "ingest act ow e now d = Inr (d', row, dup) \<Longrightarrow> billing d' = billing d"
  by (erule ingest_cases) simp_all

lemma claim_frame:
  "claim_completion ow ev retry now d = Inr (d', r) \<Longrightarrow> holds d' = holds d \<and> billing d' = billing d \<and> objectives d' = objectives d"
  by (auto simp: claim_completion_def Let_def split: option.splits if_splits)

lemma close_resources_closes:
  assumes uniq: "phk.uniq (holds d)" "rs.uniq (reservations (billing d))" and tm: "is_terminal_phase (xv_phase e)"
    and st: "close_resources hx cat (tbl_ex (ph_own ow (xv_objective e)) (holds d)) ow e now d = Inr (d', u)"
  shows "(\<forall>h \<in> set (holds d'). ph_own ow (xv_objective e) h \<longrightarrow> ph_status h = Settled)
    \<and> (tbl_ex (ph_own ow (xv_objective e)) (holds d')
       \<or> (\<forall>r \<in> set (reservations (billing d')). rs_sel (ow, xv_objective e) r \<longrightarrow> rs_status r \<noteq> Reserved))
    \<and> objectives d' = objectives d"
proof (cases "tbl_ex (ph_own ow (xv_objective e)) (holds d)")
  case True
  then obtain us where s: "personal_settle ow (xv_objective e) (xv_id e) us now d = Inr (d', u)"
    using st tm by (auto simp: close_resources_def split: option.splits)
  have "tbl_ex (ph_own ow (xv_objective e)) (tbl_upd (ph_own ow (xv_objective e)) (settled_hold n us (xv_id e) now) (holds d))" for n
    using True by (rule tbl_ex_upd) (simp add: ph_own_def settled_hold_def)
  then have "tbl_ex (ph_own ow (xv_objective e)) (holds d') \<and> objectives d' = objectives d"
    using s True by (auto simp: personal_settle_def split: json.splits if_splits option.splits)
  then show ?thesis using settle_closes_hold[OF uniq(1) s] by blast
next
  case False
  then have "holds d' = holds d \<and> objectives d' = objectives d"
    using st tm by (auto simp: close_resources_def split: option.splits sum.splits)
  moreover have "rs_status r \<noteq> Reserved" if "r \<in> set (reservations (billing d'))" "rs_sel (ow, xv_objective e) r" for r
    using st tm False that release_closes[OF uniq(2)] settle_closes[OF uniq(2)]
    by (auto simp: close_resources_def split: option.splits sum.splits)
  ultimately show ?thesis using False by (auto simp: tbl_ex_iff)
qed

text \<open>C7. A terminal event that the service accepts leaves nothing reserved: the objective's row carries the
  event's phase, its personal hold is settled, and without a personal hold its credit reservation is no
  longer reserved; the same holds when the delivery repeats an event stored before a crash.\<close>

theorem terminal_event_closes_resources:
  assumes "exec_inv d" and "distinct (map ph_objective (holds d))" and "key_inv hx (billing d)"
    and "service_ingest act hx cat production ow e now d = (d', Inr r)" and "is_terminal_phase (xv_phase e)"
  shows "ended_phase ow (xv_objective e) d' = Some (xv_phase e)
    \<and> (\<forall>h \<in> set (holds d'). ph_own ow (xv_objective e) h \<longrightarrow> ph_status h = Settled)
    \<and> (tbl_ex (ph_own ow (xv_objective e)) (holds d')
       \<or> (\<forall>x \<in> set (reservations (billing d')). rs_sel (ow, xv_objective e) x \<longrightarrow> rs_status x \<noteq> Reserved))"
proof -
  obtain d1 row dup d2 u where i: "ingest act ow e now d = Inr (d1, row, dup)"
    and c: "close_resources hx cat (tbl_ex (ph_own ow (xv_objective e)) (holds d)) ow e (now div 1000) d1 = Inr (d2, u)"
    and d': "holds d' = holds d2" "billing d' = billing d2" "objectives d' = objectives d2"
    using assms(4) claim_frame by (fastforce simp: service_ingest_def Let_def split: if_splits sum.splits)
  have "phk.uniq (holds d1)" "rs.uniq (reservations (billing d1))"
    using assms(2,3) ingest_holds[OF i] ingest_billing[OF i] by (simp_all add: phk.uniq_def key_inv_def)
  note close = close_resources_closes[OF this assms(5), unfolded ingest_holds[OF i], OF c]
  have "ended_phase ow (xv_objective e) d' = ended_phase ow (xv_objective e) d1"
    using close d'(3) by (simp add: ended_phase_def)
  then show ?thesis using close d'(1,2) ingest_ended[OF assms(1) i assms(5)] by simp
qed

theorem terminal_event_closes_resources_witness:
  "\<exists>d'. service_ingest (xe_act smp_env) (\<lambda>s. s) sample_catalog True ''captain'' smp_failed 3000 (smp_run smp_chat) = (d', Inr None)
     \<and> ended_phase ''captain'' smp_objective d' = Some ''objective.failed''
     \<and> (\<forall>h \<in> set (holds d'). ph_own ''captain'' smp_objective h \<longrightarrow> ph_status h = Settled) \<and> map ph_objective (holds d') = [smp_objective]"
proof -
  let ?s = "service_ingest (xe_act smp_env) (\<lambda>s. s) sample_catalog True ''captain'' smp_failed 3000 (smp_run smp_chat)"
  have "snd ?s = Inr None \<and> map ph_objective (holds (fst ?s)) = [smp_objective]" by code_simp
  then have s: "?s = (fst ?s, Inr None)" "map ph_objective (holds (fst ?s)) = [smp_objective]" by (simp_all add: prod_eq_iff)
  have k: "distinct (map ph_objective (holds (smp_run smp_chat)))" by code_simp
  have "billing (smp_run smp_chat) = empty_billing [''captain'']" by code_simp
  moreover have n: "nul_free ''captain''" by code_simp
  ultimately have b: "key_inv (\<lambda>s. s) (billing (smp_run smp_chat))"
    by (simp add: key_inv_def empty_billing_def acc.uniq_Nil le.uniq_Nil rs.uniq_Nil rk.uniq_Nil ri.uniq_Nil ur.uniq_Nil n)
  have e: "xv_objective smp_failed = smp_objective" "xv_phase smp_failed = ''objective.failed''" "is_terminal_phase (xv_phase smp_failed)"
    by (simp_all add: smp_failed_def smp_event_def xv_phase_def is_terminal_phase_def TERMINAL_PHASES_def)
  show ?thesis using terminal_event_closes_resources[OF smp_inv k b s(1) e(3)] s e(1,2) by (intro exI[of _ "fst ?s"]) simp
qed

end
