(* ===== verification/Hosted_Config.thy ===== *)
theory Hosted_Config
  imports OAuth_Transactions Hosted_Execution
begin

text \<open>
  \<open>HostedExecutionConfig.from_env\<close> of \<open>app/hosted_execution.py\<close>: the isolation boundary is either off or
  completely configured. \<open>env\<close> is the process environment; \<open>private_file\<close> stands for the file system
  checks of \<open>_private_file\<close> (path, secret). A failure is \<open>RuntimeError\<close>, or the \<open>ValueError\<close> of \<open>urlparse\<close>.
\<close>

datatype config_error = ConfigRuntime | ConfigValue

definition getenv :: "(string \<rightharpoonup> string) \<Rightarrow> string \<Rightarrow> string \<Rightarrow> string" where
  "getenv env name dflt = (case env name of None \<Rightarrow> dflt | Some v \<Rightarrow> v)"

definition enabled_word :: "string \<Rightarrow> bool" where
  "enabled_word s \<longleftrightarrow> py_lower (py_strip s) \<in> {''1'', ''true'', ''yes'', ''on''}"

definition hosted_execution_enabled :: "(string \<rightharpoonup> string) \<Rightarrow> bool" where
  "hosted_execution_enabled env \<longleftrightarrow> enabled_word (getenv env ''MAGISTRATE_HOSTED_EXECUTION_ENABLED'' [])"

definition hosted_integer :: "(string \<rightharpoonup> string) \<Rightarrow> string \<Rightarrow> int \<Rightarrow> int \<Rightarrow> int \<Rightarrow> config_error + int" where
  "hosted_integer env name dflt lo hi =
     (case (case env name of None \<Rightarrow> Some dflt | Some s \<Rightarrow> py_int s) of
        None \<Rightarrow> Inl ConfigRuntime
      | Some n \<Rightarrow> if lo \<le> n \<and> n \<le> hi then Inr n else Inl ConfigRuntime)"

text \<open>\<open>urlparse\<close> cuts \<open>;params\<close> off the last path segment of an \<open>https\<close> URL.\<close>

definition path_no_params :: "string \<Rightarrow> string" where
  "path_no_params p =
     (let seg = rev (takeWhile (\<lambda>c. c \<noteq> CHR ''/'') (rev p));
          dir = rev (dropWhile (\<lambda>c. c \<noteq> CHR ''/'') (rev p))
      in dir @ fst (py_partition CHR '';'' seg))"

definition rstrip_slash :: "string \<Rightarrow> string" where
  "rstrip_slash s = rev (dropWhile (\<lambda>c. c = CHR ''/'') (rev s))"

definition https_url :: "(string \<Rightarrow> bool) \<Rightarrow> (string \<rightharpoonup> string) \<Rightarrow> string \<Rightarrow> config_error + string" where
  "https_url ip_ok env name =
     (let value = rstrip_slash (py_strip (getenv env name [])) in
      case urlsplit ip_ok value of
        None \<Rightarrow> Inl ConfigValue
      | Some p \<Rightarrow>
          if su_scheme p \<noteq> ''https'' \<or> url_hostname p = None \<or> url_userinfo p \<or> su_fragment p \<noteq> [] \<or> su_query p \<noteq> []
             \<or> path_no_params (su_path p) \<notin> {[], ''/''}
          then Inl ConfigRuntime else Inr value)"

definition hex_low :: "char \<Rightarrow> bool" where
  "hex_low c \<longleftrightarrow> is_digit c \<or> (97 \<le> code c \<and> code c \<le> 102)"

definition image_ok :: "string \<Rightarrow> bool" where
  "image_ok s \<longleftrightarrow> 73 \<le> length s \<and> list_all hex_low (drop (length s - 64) s)
     \<and> take 8 (drop (length s - 72) s) = ''@sha256:''
     \<and> list_all (\<lambda>c. is_alnum c \<or> c \<in> {CHR ''.'', CHR ''_'', CHR ''/'', CHR '':'', CHR ''@'', CHR ''-''}) (take (length s - 72) s)"

text \<open>The number of bytes of \<open>s.encode()\<close>, for code points up to 255.\<close>

definition utf8_len :: "string \<Rightarrow> nat" where
  "utf8_len s = length s + length (filter (\<lambda>c. 128 \<le> code c) s)"

definition label_ok :: "string \<Rightarrow> bool" where
  "label_ok s \<longleftrightarrow> s \<noteq> [] \<and> length s \<le> 63 \<and> list_all (\<lambda>c. is_lower c \<or> is_digit c \<or> c = CHR ''-'') s
     \<and> hd s \<noteq> CHR ''-'' \<and> last s \<noteq> CHR ''-''"

definition host_ok :: "string \<Rightarrow> bool" where
  "host_ok s \<longleftrightarrow> list_all label_ok (py_split CHR ''.'' s)"

definition permission_ok :: "string \<Rightarrow> bool" where
  "permission_ok s \<longleftrightarrow> (case py_partition CHR '':'' s of (a, sep, b) \<Rightarrow>
     sep \<and> a \<in> {''contents'', ''pull_requests'', ''issues'', ''workflows''} \<and> b \<in> {''read'', ''write''})"

text \<open>\<open>tuple(dict.fromkeys(...))\<close>: the first occurrences in order.\<close>

definition env_list :: "(string \<Rightarrow> string) \<Rightarrow> (string \<rightharpoonup> string) \<Rightarrow> string \<Rightarrow> string list" where
  "env_list f env name = rev (remdups (rev (map f (filter (\<lambda>s. py_strip s \<noteq> []) (py_split CHR '','' (getenv env name []))))))"

record hosted_settings =
  hs_image :: string
  hs_gateway :: string
  hs_backend :: string
  hs_broker :: string
  hs_identity_key :: string
  hs_hosts :: "string list"
  hs_permissions :: "string list"
  hs_global :: int
  hs_tenant :: int
  hs_cpu :: int
  hs_memory :: int
  hs_workspace :: int
  hs_deadline :: int
  hs_cleanup :: int
  hs_poll :: int

fun all_right :: "('e + 'a) list \<Rightarrow> 'e + 'a list" where
  "all_right [] = Inr []"
| "all_right (Inl e # xs) = Inl e"
| "all_right (Inr x # xs) = (case all_right xs of Inl e \<Rightarrow> Inl e | Inr ys \<Rightarrow> Inr (x # ys))"

definition hosted_from_env :: "(string \<Rightarrow> bool) \<Rightarrow> (string \<Rightarrow> bool \<Rightarrow> bool) \<Rightarrow> (string \<rightharpoonup> string) \<Rightarrow> config_error + hosted_settings option" where
  "hosted_from_env ip_ok private_file env =
     (if \<not> hosted_execution_enabled env then Inr None
      else
        let image = py_strip (getenv env ''MAGISTRATE_WORKER_IMAGE'' []);
            key = getenv env ''MAGISTRATE_WORKER_IDENTITY_KEY'' [];
            hosts = env_list (\<lambda>s. py_lower (py_strip s)) env ''MAGISTRATE_WORKER_NETWORK_HOSTS'';
            permissions = env_list py_strip env ''MAGISTRATE_GITHUB_PERMISSIONS''
        in
        if \<not> image_ok image then Inl ConfigRuntime
        else if utf8_len key < 32 then Inl ConfigRuntime
        else case https_url ip_ok env ''MAGISTRATE_WORKER_GATEWAY_URL'' of
          Inl e \<Rightarrow> Inl e
        | Inr gateway \<Rightarrow>
            let host = (case urlsplit ip_ok gateway of None \<Rightarrow> None | Some p \<Rightarrow> url_hostname p) in
            if hosts = [] \<or> (case host of None \<Rightarrow> [] | Some h \<Rightarrow> py_lower h) \<notin> set hosts \<or> \<not> list_all host_ok hosts
            then Inl ConfigRuntime
            else if permissions = [] \<or> \<not> list_all permission_ok permissions then Inl ConfigRuntime
            else case all_right [https_url ip_ok env ''MAGISTRATE_ISOLATION_BACKEND_URL'', https_url ip_ok env ''MAGISTRATE_GITHUB_TOKEN_BROKER_URL''] of
              Inl e \<Rightarrow> Inl e
            | Inr urls \<Rightarrow>
                if \<not> (private_file (getenv env ''MAGISTRATE_ISOLATION_CLIENT_CERT'' []) False
                     \<and> private_file (getenv env ''MAGISTRATE_ISOLATION_CLIENT_KEY'' []) True
                     \<and> private_file (getenv env ''MAGISTRATE_ISOLATION_CA'' []) False)
                then Inl ConfigRuntime
                else case all_right [hosted_integer env ''MAGISTRATE_WORKER_MAX_GLOBAL'' 20 1 1000,
                       hosted_integer env ''MAGISTRATE_WORKER_MAX_PER_TENANT'' 2 1 100,
                       hosted_integer env ''MAGISTRATE_WORKER_CPU_MILLIS'' 2000 100 32000,
                       hosted_integer env ''MAGISTRATE_WORKER_MEMORY_MIB'' 2048 128 131072,
                       hosted_integer env ''MAGISTRATE_WORKER_WORKSPACE_MIB'' 8192 128 1048576,
                       hosted_integer env ''MAGISTRATE_WORKER_DEADLINE_SECONDS'' 3600 60 86400,
                       hosted_integer env ''MAGISTRATE_WORKER_CLEANUP_SECONDS'' 300 0 86400,
                       hosted_integer env ''MAGISTRATE_WORKER_POLL_SECONDS'' 5 1 300] of
                  Inl e \<Rightarrow> Inl e
                | Inr ns \<Rightarrow> Inr (Some \<lparr>hs_image = image, hs_gateway = gateway, hs_backend = urls ! 0, hs_broker = urls ! 1,
                    hs_identity_key = key, hs_hosts = hosts, hs_permissions = permissions, hs_global = ns ! 0, hs_tenant = ns ! 1,
                    hs_cpu = ns ! 2, hs_memory = ns ! 3, hs_workspace = ns ! 4, hs_deadline = ns ! 5, hs_cleanup = ns ! 6, hs_poll = ns ! 7\<rparr>))"

subsection \<open>What a loaded configuration guarantees\<close>

lemma all_right_Cons: "all_right (x # xs) = Inr ys \<longleftrightarrow> (\<exists>z zs. x = Inr z \<and> all_right xs = Inr zs \<and> ys = z # zs)"
  by (cases x) (auto split: sum.splits)

lemma all_right_Nil: "all_right [] = Inr ys \<longleftrightarrow> ys = []"
  by auto

lemma hosted_integer_bounds: "hosted_integer env name dflt lo hi = Inr n \<Longrightarrow> lo \<le> n \<and> n \<le> hi"
  by (auto simp: hosted_integer_def split: option.splits if_splits)

lemma https_url_secure:
  "https_url ip_ok env name = Inr u \<Longrightarrow> \<exists>p. urlsplit ip_ok u = Some p \<and> su_scheme p = ''https'' \<and> url_hostname p \<noteq> None \<and> \<not> url_userinfo p \<and> su_query p = [] \<and> su_fragment p = []"
  by (auto simp: https_url_def Let_def split: option.splits if_splits)

definition secure_origin :: "(string \<Rightarrow> bool) \<Rightarrow> string \<Rightarrow> bool" where
  "secure_origin ip_ok u \<longleftrightarrow> (case urlsplit ip_ok u of None \<Rightarrow> False
     | Some p \<Rightarrow> su_scheme p = ''https'' \<and> url_hostname p \<noteq> None \<and> \<not> url_userinfo p \<and> su_query p = [] \<and> su_fragment p = [])"

lemma secure_urls: "https_url ip_ok env name = Inr u \<Longrightarrow> secure_origin ip_ok u"
  using https_url_secure by (fastforce simp: secure_origin_def)


definition sample_hosted_env :: "string \<rightharpoonup> string" where
  "sample_hosted_env = map_of [(''MAGISTRATE_HOSTED_EXECUTION_ENABLED'', '' On''),
     (''MAGISTRATE_WORKER_IMAGE'', ''w@sha256:'' @ replicate 64 CHR ''a''), (''MAGISTRATE_WORKER_IDENTITY_KEY'', replicate 32 CHR ''k''),
     (''MAGISTRATE_WORKER_GATEWAY_URL'', ''https://g.io/''), (''MAGISTRATE_WORKER_NETWORK_HOSTS'', ''g.io, a.b''),
     (''MAGISTRATE_GITHUB_PERMISSIONS'', ''contents:read''), (''MAGISTRATE_ISOLATION_BACKEND_URL'', ''https://b.io''),
     (''MAGISTRATE_GITHUB_TOKEN_BROKER_URL'', ''https://t.io''), (''MAGISTRATE_WORKER_MAX_GLOBAL'', ''7'')]"

lemma sample_hosted_loads: "(case hosted_from_env (\<lambda>_. False) (\<lambda>_ _. True) sample_hosted_env of Inr (Some s) \<Rightarrow> hs_global s = 7 \<and> hs_hosts s = [''g.io'', ''a.b''] | _ \<Rightarrow> False)"
  by code_simp


end
