(* ===== verification/Sessions.thy ===== *)
theory Sessions
  imports Deployment_Mode Hosted_Config Push_Receipts
    "HOL-Library.List_Lexorder"
begin

text \<open>
  \<open>app/auth.py\<close>: gateway sessions and friend-beta grants, over the tables of \<open>db.py\<close> they share with
  \<open>provider_auth.py\<close> (the records of that module's tables are here too). Only digests of bearers are
  stored: \<open>sha\<close> stands for \<open>hashlib.sha256(x).hexdigest()\<close>; tokens and ids of \<open>secrets\<close> are arguments of the
  operation that draws them, and drawing one that exists violates a key of the table.

  A scopes column holds \<open>",".join(sorted(scopes))\<close>; scope names contain no comma, so it is the list of
  names, and a set of known scopes is that list in the order of \<open>KNOWN_SCOPES\<close>. A call reads the clock
  once.
\<close>

datatype auth_fail =
    HttpError nat
  | AuthValue
  | AuthRuntime
  | AuthIntegrity
  | AuthType
  | AuthMode mode_error

record gateway_session =
  gs_id :: string
  gs_hash :: string
  gs_user :: string
  gs_scopes :: "string list"
  gs_issued :: int
  gs_expires :: int
  gs_revoked :: "int option"
  gs_grant :: "string option"
  gs_family :: "string option"
  gs_account :: "string option"

record beta_grant =
  bg_id :: string
  bg_code :: string
  bg_user :: string
  bg_scopes :: "string list"
  bg_created :: int
  bg_expires :: int
  bg_first :: "int option"
  bg_last :: "int option"
  bg_revoked :: "int option"

record profile =
  pr_id :: string
  pr_name :: string
  pr_email :: string
  pr_updated :: int

record session_family =
  sf_id :: string
  sf_user :: string
  sf_account :: string
  sf_provider :: string
  sf_platform :: string
  sf_scopes :: "string list"
  sf_created :: int
  sf_expires :: int
  sf_rotated :: int
  sf_revoked :: "int option"
  sf_reason :: "string option"

record refresh_token =
  rt_hash :: string
  rt_family :: string
  rt_issued :: int
  rt_expires :: int
  rt_consumed :: "int option"

record login_account =
  la_id :: string
  la_user :: string
  la_provider :: string
  la_subject :: string
  la_username :: string
  la_status :: string
  la_created :: int
  la_updated :: int
  la_kind :: string
  la_verified :: bool
  la_authenticated :: "int option"

record challenge =
  ch_id :: string
  ch_provider :: string
  ch_action :: string
  ch_nonce :: string
  ch_owner :: "string option"
  ch_platform :: string
  ch_redirect :: "string option"
  ch_created :: int
  ch_expires :: int
  ch_consumed :: "int option"

record assertion =
  as_hash :: string
  as_challenge :: string
  as_account :: string
  as_accepted :: int

record auth_db =
  sessions :: "gateway_session table"
  beta_grants :: "beta_grant table"
  families :: "session_family table"
  refreshes :: "refresh_token table"
  logins :: "login_account table"
  challenges :: "challenge table"
  assertions :: "assertion table"
  people :: "profile table"
  onboarding :: "string list"
  devices :: "push_token table"

definition gs_sel :: "string \<Rightarrow> gateway_session \<Rightarrow> bool" where "gs_sel k s \<longleftrightarrow> gs_hash s = k"
definition bg_sel :: "string \<Rightarrow> beta_grant \<Rightarrow> bool" where "bg_sel k g \<longleftrightarrow> bg_id g = k"
definition sf_sel :: "string \<Rightarrow> session_family \<Rightarrow> bool" where "sf_sel k f \<longleftrightarrow> sf_id f = k"
definition rt_sel :: "string \<Rightarrow> refresh_token \<Rightarrow> bool" where "rt_sel k r \<longleftrightarrow> rt_hash r = k"
definition la_sel :: "string \<Rightarrow> login_account \<Rightarrow> bool" where "la_sel k a \<longleftrightarrow> la_id a = k"
definition ch_sel :: "string \<Rightarrow> challenge \<Rightarrow> bool" where "ch_sel k c \<longleftrightarrow> ch_id c = k"

subsection \<open>Configuration\<close>

definition SESSION_TTL_SECONDS :: int where "SESSION_TTL_SECONDS = 3600"

definition SESSION_RETENTION_SECONDS :: int where "SESSION_RETENTION_SECONDS = 30 * 24 * 3600"

definition FRIEND_BETA_GRANT_MAX_TTL_SECONDS :: int where "FRIEND_BETA_GRANT_MAX_TTL_SECONDS = 30 * 24 * 3600"

definition KNOWN_SCOPES :: "string list" where
  "KNOWN_SCOPES = [''account'', ''command'', ''notifications'', ''providers'', ''read'', ''response'', ''voice'']"

definition FRIEND_BETA_REQUIRED_SCOPES :: "string list" where "FRIEND_BETA_REQUIRED_SCOPES = [''account'', ''read'']"

definition FRIEND_BETA_SHARED_RUNTIME_SCOPES :: "string list" where "FRIEND_BETA_SHARED_RUNTIME_SCOPES = [''command'', ''voice'']"

definition user_char :: "char \<Rightarrow> bool" where
  "user_char c \<longleftrightarrow> is_alnum c \<or> c \<in> {CHR ''.'', CHR ''_'', CHR ''-''}"

definition valid_user_id :: "string \<Rightarrow> bool" where
  "valid_user_id = full_class is_alnum user_char 0 127"

definition beta_user_ok :: "string \<Rightarrow> bool" where
  "beta_user_ok = full_class is_alnum user_char 0 63"

definition prefixed_token :: "string \<Rightarrow> nat \<Rightarrow> nat \<Rightarrow> string \<Rightarrow> bool" where
  "prefixed_token prefix lo hi s \<longleftrightarrow> starts_with prefix s
     \<and> (let body = drop (length prefix) s in lo \<le> length body \<and> length body \<le> hi
        \<and> list_all (\<lambda>c. is_alnum c \<or> c = CHR ''_'' \<or> c = CHR ''-'') body)"

definition hash_token :: "(string \<Rightarrow> string) \<Rightarrow> string \<Rightarrow> string option" where
  "hash_token sha t = (if list_all (\<lambda>c. code c < 128) t then Some (sha t) else None)"

text \<open>The truth of an optional string.\<close>

definition present :: "string option \<Rightarrow> string option" where
  "present x = (case x of Some s \<Rightarrow> if s = [] then None else Some s | None \<Rightarrow> None)"

definition validated_scopes :: "string list \<Rightarrow> auth_fail + string list" where
  "validated_scopes vs =
     (let items = filter (\<lambda>s. s \<noteq> []) (map py_strip vs) in
      if items = [] \<or> \<not> set items \<subseteq> set KNOWN_SCOPES then Inl AuthValue
      else Inr (filter (\<lambda>s. s \<in> set items) KNOWN_SCOPES))"

definition configured_scopes :: "(string \<rightharpoonup> string) \<Rightarrow> auth_fail + string list" where
  "configured_scopes env = validated_scopes (py_split CHR '',''
     (getenv env ''MAGISTRATE_SESSION_SCOPES'' ''read,account,providers,notifications,voice,command''))"

definition configured_session_ttl :: "(string \<rightharpoonup> string) \<Rightarrow> int \<Rightarrow> int option \<Rightarrow> auth_fail + int" where
  "configured_session_ttl env now cap =
     (case (case env ''MAGISTRATE_SESSION_TTL_SECONDS'' of None \<Rightarrow> Some SESSION_TTL_SECONDS | Some s \<Rightarrow> py_int s) of
        None \<Rightarrow> Inl AuthValue
      | Some ttl \<Rightarrow>
          let expires = now + ttl in
          if expires \<le> now \<or> now + 86400 < expires then Inl AuthValue
          else Inr (case cap of None \<Rightarrow> expires | Some c \<Rightarrow> min expires c))"

text \<open>\<open>None\<close> is \<open>RuntimeError\<close>.\<close>

definition friend_beta_enabled :: "(string \<rightharpoonup> string) \<Rightarrow> bool option" where
  "friend_beta_enabled env =
     (let v = py_lower (py_strip (getenv env ''MAGISTRATE_FRIEND_BETA_ENABLED'' ''false'')) in
      if v \<in> {''1'', ''true'', ''yes'', ''on''} then Some True
      else if v \<in> {''0'', ''false'', ''no'', ''off'', []} then Some False
      else None)"

subsection \<open>Shared writes\<close>

definition revoke_push_delivery :: "string \<Rightarrow> int \<Rightarrow> auth_db \<Rightarrow> auth_db" where
  "revoke_push_delivery user now d =
     d\<lparr>devices := tbl_upd (\<lambda>p. pt_user p = user \<and> pt_revoked p = None) (\<lambda>p. p\<lparr>pt_revoked := Some now\<rparr>) (devices d)\<rparr>"

definition revoke_sessions :: "(gateway_session \<Rightarrow> bool) \<Rightarrow> int \<Rightarrow> auth_db \<Rightarrow> auth_db" where
  "revoke_sessions P now d =
     d\<lparr>sessions := tbl_upd (\<lambda>s. P s \<and> gs_revoked s = None) (\<lambda>s. s\<lparr>gs_revoked := Some now\<rparr>) (sessions d)\<rparr>"

fun revoke_push_users :: "string list \<Rightarrow> int \<Rightarrow> auth_db \<Rightarrow> auth_db" where
  "revoke_push_users [] now d = d"
| "revoke_push_users (u # us) now d = revoke_push_users us now (revoke_push_delivery u now d)"

definition suspend_friend_beta :: "int \<Rightarrow> auth_db \<Rightarrow> auth_db" where
  "suspend_friend_beta now d =
     (let d1 = revoke_sessions (\<lambda>s. gs_grant s \<noteq> None) now d in
      revoke_push_users (remdups (map bg_user (beta_grants d1))) now d1)"

definition insert_session :: "(string \<Rightarrow> string) \<Rightarrow> string \<Rightarrow> string \<Rightarrow> string \<Rightarrow> string list \<Rightarrow> int \<Rightarrow> int \<Rightarrow> string option \<Rightarrow> string option
    \<Rightarrow> string option \<Rightarrow> auth_db \<Rightarrow> (auth_fail, auth_db, gateway_session) outcome" where
  "insert_session sha token sid user scopes now expires grant family account d =
     (let s = \<lparr>gs_id = sid, gs_hash = sha token, gs_user = user, gs_scopes = scopes, gs_issued = now, gs_expires = expires,
               gs_revoked = None, gs_grant = grant, gs_family = family, gs_account = account\<rparr>
      in if tbl_ex (\<lambda>x. gs_id x = sid \<or> gs_hash x = sha token) (sessions d) then Inl AuthIntegrity
         else Inr (d\<lparr>sessions := sessions d @ [s]\<rparr>, s))"

text \<open>\<open>INSERT OR IGNORE INTO user_profiles\<close>.\<close>

definition ensure_profile :: "string \<Rightarrow> string \<Rightarrow> string \<Rightarrow> int \<Rightarrow> auth_db \<Rightarrow> auth_db" where
  "ensure_profile user name email now d =
     (if tbl_ex (\<lambda>p. pr_id p = user) (people d) then d
      else d\<lparr>people := people d @ [\<lparr>pr_id = user, pr_name = name, pr_email = email, pr_updated = now\<rparr>]\<rparr>)"

definition cleanup_sessions :: "int \<Rightarrow> auth_db \<Rightarrow> auth_db \<times> nat" where
  "cleanup_sessions now d =
     (let cutoff = now - SESSION_RETENTION_SECONDS;
          old = (\<lambda>s. (case gs_revoked s of None \<Rightarrow> False | Some t \<Rightarrow> t < cutoff) \<or> gs_expires s < cutoff)
      in (d\<lparr>sessions := filter (\<lambda>s. \<not> old s) (sessions d)\<rparr>, tbl_count old (sessions d)))"

subsection \<open>Friend-beta grants\<close>

definition create_friend_beta_access_grant :: "(string \<Rightarrow> string) \<Rightarrow> (string \<rightharpoonup> string) \<Rightarrow> (config_error + hosted_settings option) \<Rightarrow> string \<Rightarrow> string list option
    \<Rightarrow> int \<Rightarrow> bool \<Rightarrow> string \<Rightarrow> string \<Rightarrow> int \<Rightarrow> auth_db \<Rightarrow> (auth_fail, auth_db, beta_grant) outcome" where
  "create_friend_beta_access_grant sha env hosted raw scopes ttl allow_shared acode gid now d =
     (let user = py_strip raw in
      if \<not> valid_user_id user \<or> \<not> beta_user_ok user then Inl AuthValue
      else if user = py_strip (getenv env ''MAGISTRATE_BOOTSTRAP_USER_ID'' ''default_user'') then Inl AuthValue
      else case validated_scopes (case scopes of None \<Rightarrow> [''read'', ''account'', ''notifications''] | Some s \<Rightarrow> s) of
        Inl e \<Rightarrow> Inl e
      | Inr selected \<Rightarrow>
          let elevated = list_ex (\<lambda>s. s \<in> set FRIEND_BETA_SHARED_RUNTIME_SCOPES) selected;
              hosted_on = hosted_execution_enabled env
          in
          if \<not> set FRIEND_BETA_REQUIRED_SCOPES \<subseteq> set selected then Inl AuthValue
          else if ''response'' \<in> set selected then Inl AuthValue
          else if elevated \<and> hosted_on \<and> (case hosted of Inl _ \<Rightarrow> True | Inr _ \<Rightarrow> False) then Inl AuthValue
          else if elevated \<and> \<not> hosted_on \<and> \<not> allow_shared then Inl AuthValue
          else if ttl < 3600 \<or> FRIEND_BETA_GRANT_MAX_TTL_SECONDS < ttl then Inl AuthValue
          else if tbl_ex (\<lambda>g. bg_user g = user \<and> bg_revoked g = None \<and> now < bg_expires g) (beta_grants d) then Inl AuthValue
          else if tbl_ex (\<lambda>g. bg_id g = ''fbg_'' @ gid \<or> bg_code g = sha (''mgb_'' @ acode)) (beta_grants d) then Inl AuthIntegrity
          else
            let g = \<lparr>bg_id = ''fbg_'' @ gid, bg_code = sha (''mgb_'' @ acode), bg_user = user, bg_scopes = selected, bg_created = now, bg_expires = now + ttl,
                     bg_first = None, bg_last = None, bg_revoked = None\<rparr>;
                d1 = ensure_profile user [] [] now (d\<lparr>beta_grants := beta_grants d @ [g]\<rparr>)
            in Inr (revoke_push_delivery user now d1, g))"

definition grant_state :: "int \<Rightarrow> beta_grant \<Rightarrow> string" where
  "grant_state now g = (if bg_revoked g \<noteq> None then ''revoked'' else if bg_expires g \<le> now then ''expired'' else ''active'')"

text \<open>Rows in the order of \<open>created_at\<close>, then id; each with its state.\<close>

definition list_friend_beta_access_grants :: "string option \<Rightarrow> int \<Rightarrow> auth_db \<Rightarrow> auth_fail + (beta_grant \<times> string) list" where
  "list_friend_beta_access_grants user now d =
     (case user of
        Some u \<Rightarrow>
          if \<not> valid_user_id u \<or> \<not> beta_user_ok u then Inl AuthValue
          else Inr (map (\<lambda>g. (g, grant_state now g)) (sort_key bg_created (sort_key (map code \<circ> bg_id) (filter (\<lambda>g. bg_user g = u) (beta_grants d)))))
      | None \<Rightarrow> Inr (map (\<lambda>g. (g, grant_state now g)) (sort_key bg_created (sort_key (map code \<circ> bg_id) (beta_grants d)))))"

definition revoke_grant_row :: "string \<Rightarrow> int \<Rightarrow> auth_db \<Rightarrow> auth_db" where
  "revoke_grant_row gid now d =
     revoke_sessions (\<lambda>s. gs_grant s = Some gid) now
       (d\<lparr>beta_grants := tbl_upd (\<lambda>g. bg_sel gid g \<and> bg_revoked g = None) (\<lambda>g. g\<lparr>bg_revoked := Some now\<rparr>) (beta_grants d)\<rparr>)"

definition revoke_friend_beta_access_grant :: "string \<Rightarrow> int \<Rightarrow> auth_db \<Rightarrow> (auth_fail, auth_db, bool) outcome" where
  "revoke_friend_beta_access_grant gid now d =
     (if \<not> prefixed_token ''fbg_'' 20 32 gid then Inl AuthValue
      else
        let d1 = revoke_grant_row gid now d in
        Inr (case tbl_get (bg_sel gid) (beta_grants d) of None \<Rightarrow> d1 | Some g \<Rightarrow> revoke_push_delivery (bg_user g) now d1,
             tbl_count (\<lambda>g. bg_sel gid g \<and> bg_revoked g = None) (beta_grants d) = 1))"

definition issue_friend_beta_session :: "(string \<Rightarrow> string) \<Rightarrow> (string \<rightharpoonup> string) \<Rightarrow> string \<Rightarrow> string \<Rightarrow> string \<Rightarrow> int \<Rightarrow> auth_db
    \<Rightarrow> (auth_fail, auth_db, gateway_session) outcome" where
  "issue_friend_beta_session sha env acode token sid now d =
     (if friend_beta_enabled env \<noteq> Some True then Inl (HttpError 503)
      else if \<not> prefixed_token ''mgb_'' 32 64 acode then Inl (HttpError 401)
      else case tbl_get (\<lambda>g. bg_code g = sha acode) (beta_grants d) of
        None \<Rightarrow> Inl (HttpError 401)
      | Some g \<Rightarrow>
          if bg_revoked g \<noteq> None \<or> bg_expires g \<le> now \<or> \<not> valid_user_id (bg_user g) then Inl (HttpError 401)
          else case (validated_scopes (bg_scopes g), configured_session_ttl env now (Some (bg_expires g))) of
            (Inr scopes, Inr expires) \<Rightarrow>
              if \<not> set FRIEND_BETA_REQUIRED_SCOPES \<subseteq> set scopes \<or> ''response'' \<in> set scopes then Inl (HttpError 503)
              else
                let d1 = revoke_sessions (\<lambda>s. gs_grant s = Some (bg_id g)) now (fst (cleanup_sessions now d)) in
                (case insert_session sha token sid (bg_user g) scopes now expires (Some (bg_id g)) None None d1 of
                   Inl e \<Rightarrow> Inl e
                 | Inr (d2, s) \<Rightarrow>
                     Inr (d2\<lparr>beta_grants := tbl_upd (bg_sel (bg_id g)) (\<lambda>x. x\<lparr>bg_first := (case bg_first x of None \<Rightarrow> Some now | y \<Rightarrow> y),
                            bg_last := Some now\<rparr>) (beta_grants d2)\<rparr>, s))
          | _ \<Rightarrow> Inl (HttpError 503))"

text \<open>\<open>validate_friend_beta_configuration\<close> at startup: a disabled beta suspends its sessions.\<close>

definition validate_friend_beta_configuration :: "(string \<rightharpoonup> string) \<Rightarrow> int \<Rightarrow> auth_db \<Rightarrow> (auth_fail, auth_db, bool) outcome" where
  "validate_friend_beta_configuration env now d =
     (case friend_beta_enabled env of
        None \<Rightarrow> Inl AuthRuntime
      | Some True \<Rightarrow> (case configured_session_ttl env now None of Inl _ \<Rightarrow> Inl AuthRuntime | Inr _ \<Rightarrow> Inr (d, True))
      | Some False \<Rightarrow> Inr (suspend_friend_beta now d, False))"

subsection \<open>Owner sessions\<close>

definition dev_env :: "(string \<rightharpoonup> string) \<Rightarrow> bool" where
  "dev_env env \<longleftrightarrow> py_lower (getenv env ''MAGISTRATE_ENV'' []) \<in> {''dev'', ''development'', ''test'', ''testing''}
     \<and> enabled_word (getenv env ''MAGISTRATE_DEV_AUTO_SESSION'' [])"

text \<open>The cleanup is a transaction of its own, so it stays when the insertion fails. \<open>compare_digest\<close> raises on non-ASCII
  strings.\<close>

definition issue_session :: "(string \<Rightarrow> string) \<Rightarrow> (string \<rightharpoonup> string) \<Rightarrow> string option \<Rightarrow> string \<Rightarrow> string \<Rightarrow> int \<Rightarrow> auth_db
    \<Rightarrow> auth_db \<times> (auth_fail + gateway_session)" where
  "issue_session sha env secret token sid now d =
     (let configured = getenv env ''MAGISTRATE_BOOTSTRAP_SECRET'' [];
          user = py_strip (getenv env ''MAGISTRATE_BOOTSTRAP_USER_ID'' ''default_user'')
      in
      if configured \<noteq> [] \<and> present secret = None then (d, Inl (HttpError 401))
      else if configured \<noteq> [] \<and> (hash_token id configured = None \<or> hash_token id (the secret) = None) then (d, Inl AuthType)
      else if configured \<noteq> [] \<and> secret \<noteq> Some configured then (d, Inl (HttpError 401))
      else if configured = [] \<and> \<not> dev_env env then (d, Inl (HttpError 503))
      else if \<not> valid_user_id user then (d, Inl (HttpError 503))
      else case (configured_scopes env, configured_session_ttl env now None) of
        (Inr scopes, Inr expires) \<Rightarrow>
          let d1 = fst (cleanup_sessions now d) in
          (case insert_session sha token sid user scopes now expires None None None (ensure_profile user [] [] now d1) of
             Inl e \<Rightarrow> (d1, Inl e)
           | Inr (d2, s) \<Rightarrow> (d2, Inr s))
      | _ \<Rightarrow> (d, Inl (HttpError 503)))"

text \<open>\<open>revoke_provider_family\<close> of \<open>provider_auth.py\<close>.\<close>

definition revoke_family :: "string \<Rightarrow> int \<Rightarrow> (session_family \<Rightarrow> string option) \<Rightarrow> auth_db \<Rightarrow> auth_db" where
  "revoke_family fid now reason d =
     revoke_sessions (\<lambda>s. gs_family s = Some fid) now
       (d\<lparr>families := tbl_upd (sf_sel fid) (\<lambda>f. f\<lparr>sf_revoked := (case sf_revoked f of None \<Rightarrow> Some now | t \<Rightarrow> t), sf_reason := reason f\<rparr>) (families d)\<rparr>)"

definition revoke_provider_family :: "string \<Rightarrow> string \<Rightarrow> int \<Rightarrow> auth_db \<Rightarrow> auth_db" where
  "revoke_provider_family fid user now d =
     revoke_push_delivery user now (revoke_family fid now (\<lambda>f. case sf_reason f of None \<Rightarrow> Some ''logout'' | r \<Rightarrow> r) d)"

definition revoke_session :: "(string \<Rightarrow> string) \<Rightarrow> string \<Rightarrow> int \<Rightarrow> auth_db \<Rightarrow> auth_db" where
  "revoke_session sha token now d =
     (case hash_token sha token of
        None \<Rightarrow> d
      | Some h \<Rightarrow>
          let d1 = d\<lparr>sessions := tbl_upd (gs_sel h) (\<lambda>s. s\<lparr>gs_revoked := Some now\<rparr>) (sessions d)\<rparr> in
          (case tbl_get (gs_sel h) (sessions d) of
             None \<Rightarrow> d1
           | Some s \<Rightarrow>
              (case (present (gs_grant s), present (gs_family s)) of
                 (Some gid, _) \<Rightarrow> revoke_push_delivery (gs_user s) now (revoke_grant_row gid now d1)
               | (None, Some fid) \<Rightarrow> revoke_provider_family fid (gs_user s) now d1
               | (None, None) \<Rightarrow> d1)))"

subsection \<open>Verification\<close>

record auth_principal = principal +
  ap_grant :: "string option"
  ap_family :: "string option"
  ap_account :: "string option"
  ap_provider :: "string option"
  ap_refresh_expires :: "int option"

definition session_grant_ok :: "int \<Rightarrow> auth_db \<Rightarrow> gateway_session \<Rightarrow> bool" where
  "session_grant_ok now d s \<longleftrightarrow>
     (case present (gs_grant s) of
        None \<Rightarrow> True
      | Some gid \<Rightarrow>
         (case tbl_get (bg_sel gid) (beta_grants d) of None \<Rightarrow> False | Some g \<Rightarrow> now < bg_expires g \<and> bg_revoked g = None))"

definition session_family_of :: "auth_db \<Rightarrow> gateway_session \<Rightarrow> session_family option" where
  "session_family_of d s = tbl_get (\<lambda>f. Some (sf_id f) = gs_family s \<and> Some (sf_account f) = gs_account s \<and> sf_user f = gs_user s) (families d)"

definition session_login_of :: "auth_db \<Rightarrow> gateway_session \<Rightarrow> login_account option" where
  "session_login_of d s = tbl_get (\<lambda>a. Some (la_id a) = gs_account s \<and> la_user a = gs_user s) (logins d)"

definition session_provider_ok :: "int \<Rightarrow> auth_db \<Rightarrow> gateway_session \<Rightarrow> bool" where
  "session_provider_ok now d s \<longleftrightarrow>
     (case present (gs_family s) of
        None \<Rightarrow> True
      | Some _ \<Rightarrow>
         (case (session_family_of d s, session_login_of d s) of
            (Some f, Some a) \<Rightarrow> now < sf_expires f \<and> sf_revoked f = None \<and> sf_provider f \<in> {''apple'', ''google''}
               \<and> la_status a = ''connected'' \<and> la_kind a = ''login''
          | _ \<Rightarrow> False))"

definition session_principal :: "auth_db \<Rightarrow> gateway_session \<Rightarrow> auth_principal" where
  "session_principal d s = \<lparr>pr_user = gs_user s, pr_scopes = filter (\<lambda>x. x \<noteq> []) (gs_scopes s), pr_session = gs_id s, pr_expires = gs_expires s,
     ap_grant = gs_grant s, ap_family = gs_family s, ap_account = gs_account s,
     ap_provider = map_option sf_provider (session_family_of d s), ap_refresh_expires = map_option sf_expires (session_family_of d s)\<rparr>"

definition session_ok :: "int \<Rightarrow> auth_db \<Rightarrow> gateway_session \<Rightarrow> bool" where
  "session_ok now d s \<longleftrightarrow> gs_revoked s = None \<and> now < gs_expires s \<and> session_grant_ok now d s \<and> session_provider_ok now d s
     \<and> (gs_family s = None \<longleftrightarrow> gs_account s = None) \<and> valid_user_id (gs_user s)
     \<and> filter (\<lambda>x. x \<noteq> []) (gs_scopes s) \<noteq> [] \<and> set (filter (\<lambda>x. x \<noteq> []) (gs_scopes s)) \<subseteq> set KNOWN_SCOPES"

text \<open>A session of a grant is refused while the beta is off, and the refusal suspends all of them.\<close>

definition verified_session :: "(string \<rightharpoonup> string) \<Rightarrow> personal_deployment \<Rightarrow> (gateway_session \<Rightarrow> bool) \<Rightarrow> int \<Rightarrow> auth_db
    \<Rightarrow> auth_db \<times> (auth_fail + auth_principal)" where
  "verified_session env policy sel now d =
     (case tbl_get sel (sessions d) of
        None \<Rightarrow> (d, Inl (HttpError 401))
      | Some s \<Rightarrow>
          let beta = present (gs_grant s) \<noteq> None in
          if beta \<and> friend_beta_enabled env = None then (d, Inl (HttpError 503))
          else if beta \<and> friend_beta_enabled env = Some False then (suspend_friend_beta now d, Inl (HttpError 401))
          else if \<not> session_ok now d s then (d, Inl (HttpError 401))
          else let p = session_principal d s in
            (case require_principal policy (principal.truncate p) None now of
               Inl e \<Rightarrow> (d, Inl (AuthMode e))
             | Inr _ \<Rightarrow> (d, Inr p)))"

definition principal_from_token :: "(string \<Rightarrow> string) \<Rightarrow> (string \<rightharpoonup> string) \<Rightarrow> personal_deployment \<Rightarrow> string \<Rightarrow> int \<Rightarrow> auth_db
    \<Rightarrow> auth_db \<times> (auth_fail + auth_principal)" where
  "principal_from_token sha env policy token now d =
     (if token = [] \<or> 512 < length token then (d, Inl (HttpError 401))
      else case hash_token sha token of
        None \<Rightarrow> (d, Inl (HttpError 401))
      | Some h \<Rightarrow> verified_session env policy (gs_sel h) now d)"

text \<open>The revalidation of a session id that the server stored itself.\<close>

definition principal_for_execution_session :: "(string \<rightharpoonup> string) \<Rightarrow> personal_deployment \<Rightarrow> string \<Rightarrow> int \<Rightarrow> auth_db
    \<Rightarrow> auth_db \<times> (auth_fail + auth_principal)" where
  "principal_for_execution_session env policy sid now d = verified_session env policy (\<lambda>s. gs_id s = sid) now d"

definition authenticate_request :: "(string \<Rightarrow> string) \<Rightarrow> (string \<rightharpoonup> string) \<Rightarrow> personal_deployment \<Rightarrow> string option \<Rightarrow> int \<Rightarrow> auth_db
    \<Rightarrow> auth_db \<times> (auth_fail + auth_principal)" where
  "authenticate_request sha env policy authorization now d =
     (case authorization of
        None \<Rightarrow> (d, Inl (HttpError 401))
      | Some a \<Rightarrow>
         (case py_partition CHR '' '' a of (scheme, sep, token) \<Rightarrow>
            if py_lower scheme \<noteq> ''bearer'' \<or> \<not> sep \<or> token = [] \<or> 512 < length token then (d, Inl (HttpError 401))
            else principal_from_token sha env policy token now d))"

definition require_scope :: "string \<Rightarrow> auth_principal \<Rightarrow> auth_fail + auth_principal" where
  "require_scope scope p = (if scope \<in> set (pr_scopes p) then Inr p else Inl (HttpError 403))"

definition require_any_scope :: "string list \<Rightarrow> auth_principal \<Rightarrow> auth_fail + auth_principal" where
  "require_any_scope scopes p = (if list_ex (\<lambda>s. s \<in> set (pr_scopes p)) scopes then Inr p else Inl (HttpError 403))"

end
