(* ===== verification/Provider_Auth.thy ===== *)
theory Provider_Auth
  imports Sessions
begin

text \<open>
  \<open>app/provider_auth.py\<close>: sign-in with Apple or Google. A challenge with a nonce is exchanged once for a
  verified identity assertion; the assertion signs in (a session family with a rotating refresh token) or
  links a login to an account.

  Parameters: the record \<open>id_provider\<close> stands for \<open>base64.urlsafe_b64decode\<close>, \<open>json.loads\<close> with the duplicate
  key check, RSA signature verification and the key set the provider publishes (\<open>_jwks\<close> after its refresh);
  \<open>apple\<close> for the answer of Apple's token endpoint; \<open>ip_ok\<close> is as in \<open>urlsplit\<close>. Bytes are characters.
\<close>

definition PROVIDER_CHALLENGE_TTL_SECONDS :: int where "PROVIDER_CHALLENGE_TTL_SECONDS = 10 * 60"

definition PROVIDER_REFRESH_TTL_SECONDS :: int where "PROVIDER_REFRESH_TTL_SECONDS = 30 * 24 * 60 * 60"

definition PROVIDER_REFRESH_MAX_TTL_SECONDS :: int where "PROVIDER_REFRESH_MAX_TTL_SECONDS = 90 * 24 * 60 * 60"

definition MAX_ID_TOKEN_BYTES :: nat where "MAX_ID_TOKEN_BYTES = 24 * 1024"

definition MAX_ACTIVE_CHALLENGES :: nat where "MAX_ACTIVE_CHALLENGES = 10000"

definition MAX_EXPIRED_SESSION_FAMILY_CLEANUP :: nat where "MAX_EXPIRED_SESSION_FAMILY_CLEANUP = 100"

definition provider_known :: "string \<Rightarrow> bool" where
  "provider_known p \<longleftrightarrow> p \<in> {''apple'', ''google''}"

definition safe_subject :: "string \<Rightarrow> bool" where
  "safe_subject s \<longleftrightarrow> 1 \<le> length s \<and> length s \<le> 255 \<and> list_all (\<lambda>c. \<not> (code c < 32 \<or> (127 \<le> code c \<and> code c \<le> 159))) s"

definition ISSUERS :: "string \<Rightarrow> string list" where
  "ISSUERS p = (if p = ''apple'' then [''https://appleid.apple.com''] else [''https://accounts.google.com'', ''accounts.google.com''])"

subsection \<open>Configuration\<close>

definition client_id_ok :: "string \<Rightarrow> bool" where
  "client_id_ok s \<longleftrightarrow> length s \<le> 255 \<and> full_class is_alnum user_char 1 254 s"

definition validated_client_ids :: "(string \<rightharpoonup> string) \<Rightarrow> string \<Rightarrow> auth_fail + string list" where
  "validated_client_ids env setting =
     (let values = filter (\<lambda>s. s \<noteq> []) (map py_strip (py_split CHR '','' (getenv env setting []))) in
      if list_all client_id_ok values then Inr values else Inl (HttpError 503))"

definition configured_ids :: "(string \<rightharpoonup> string) \<Rightarrow> string \<Rightarrow> auth_fail + string list" where
  "configured_ids env p =
     (if p = ''apple'' then
        (case validated_client_ids env ''MAGISTRATE_APPLE_CLIENT_IDS'' of
           Inl e \<Rightarrow> Inl e
         | Inr ids \<Rightarrow>
             let service = py_strip (getenv env ''MAGISTRATE_APPLE_SERVICE_ID'' []) in
             if service = [] then Inr ids
             else if client_id_ok service then Inr (ids @ [service]) else Inl (HttpError 503))
      else
        (case all_right (map (validated_client_ids env)
                [''MAGISTRATE_GOOGLE_CLIENT_IDS'', ''MAGISTRATE_GOOGLE_WEB_CLIENT_IDS'', ''MAGISTRATE_GOOGLE_IOS_CLIENT_IDS'']) of
           Inl e \<Rightarrow> Inl e
         | Inr idss \<Rightarrow> Inr (concat idss)))"

definition platform_client_ids :: "(string \<rightharpoonup> string) \<Rightarrow> string \<Rightarrow> string \<Rightarrow> auth_fail + string list" where
  "platform_client_ids env p platform =
     (if p = ''apple'' then
        (if platform = ''web'' then
           (let v = py_strip (getenv env ''MAGISTRATE_APPLE_SERVICE_ID'' []) in Inr (if v = [] then [] else [v]))
         else validated_client_ids env ''MAGISTRATE_APPLE_CLIENT_IDS'')
      else validated_client_ids env (if platform = ''web'' then ''MAGISTRATE_GOOGLE_WEB_CLIENT_IDS'' else ''MAGISTRATE_GOOGLE_IOS_CLIENT_IDS''))"

definition apple_web_configured :: "(string \<rightharpoonup> string) \<Rightarrow> bool" where
  "apple_web_configured env \<longleftrightarrow> list_all (\<lambda>n. py_strip (getenv env n []) \<noteq> [])
     [''MAGISTRATE_APPLE_TEAM_ID'', ''MAGISTRATE_APPLE_KEY_ID'', ''MAGISTRATE_APPLE_PRIVATE_KEY'', ''MAGISTRATE_APPLE_SERVICE_ID'']"

text \<open>The Boolean entries; an invalid list of ids raises.\<close>

definition provider_availability :: "(string \<rightharpoonup> string) \<Rightarrow> auth_fail + (string \<times> bool) list" where
  "provider_availability env =
     (case all_right [platform_client_ids env ''apple'' ''native'', platform_client_ids env ''google'' ''native'',
            platform_client_ids env ''google'' ''web'', configured_ids env ''apple'', configured_ids env ''google''] of
        Inl e \<Rightarrow> Inl e
      | Inr idss \<Rightarrow> Inr [(''apple'', idss ! 3 \<noteq> []), (''apple_native'', idss ! 0 \<noteq> []), (''apple_web'', apple_web_configured env),
            (''google'', idss ! 4 \<noteq> []), (''google_native'', idss ! 1 \<noteq> []), (''google_web'', idss ! 2 \<noteq> [])])"

definition provider_scopes :: "(string \<rightharpoonup> string) \<Rightarrow> auth_fail + string list" where
  "provider_scopes env =
     (case validated_scopes (py_split CHR '',''
             (getenv env ''MAGISTRATE_PROVIDER_SESSION_SCOPES'' ''read,account,providers,notifications,voice,command'')) of
        Inl _ \<Rightarrow> Inl (HttpError 503)
      | Inr scopes \<Rightarrow>
          if ''response'' \<in> set scopes \<or> \<not> set [''account'', ''read''] \<subseteq> set scopes then Inl (HttpError 503) else Inr scopes)"

definition refresh_expiry :: "(string \<rightharpoonup> string) \<Rightarrow> int \<Rightarrow> auth_fail + int" where
  "refresh_expiry env now =
     (case (case env ''MAGISTRATE_PROVIDER_REFRESH_TTL_SECONDS'' of None \<Rightarrow> Some PROVIDER_REFRESH_TTL_SECONDS | Some s \<Rightarrow> py_int s) of
        None \<Rightarrow> Inl (HttpError 503)
      | Some ttl \<Rightarrow> if ttl < 3600 \<or> PROVIDER_REFRESH_MAX_TTL_SECONDS < ttl then Inl (HttpError 503) else Inr (now + ttl))"

definition production :: "(string \<rightharpoonup> string) \<Rightarrow> bool" where
  "production env \<longleftrightarrow> py_lower (py_strip (getenv env ''MAGISTRATE_ENV'' [])) \<notin> {''dev'', ''development'', ''test'', ''testing''}"

definition allowed_redirects :: "(string \<rightharpoonup> string) \<Rightarrow> string list" where
  "allowed_redirects env = filter (\<lambda>s. s \<noteq> []) (map py_strip (py_split CHR '','' (getenv env ''MAGISTRATE_AUTH_REDIRECT_URIS'' [])))"

definition validate_redirect_uri :: "(string \<Rightarrow> bool) \<Rightarrow> (string \<rightharpoonup> string) \<Rightarrow> string option \<Rightarrow> bool \<Rightarrow> auth_fail + string option" where
  "validate_redirect_uri ip_ok env value required =
     (case value of
        None \<Rightarrow> if required then Inl (HttpError 422) else Inr None
      | Some v \<Rightarrow>
          if v = [] \<or> 1024 < length v \<or> list_ex (\<lambda>c. code c < 32) v then Inl (HttpError 422)
          else case urlsplit ip_ok v of
            None \<Rightarrow> Inl (HttpError 422)
          | Some p \<Rightarrow>
              let local = url_hostname p \<in> {Some ''localhost'', Some ''127.0.0.1'', Some ''::1''};
                  native = su_scheme p \<notin> {''http'', ''https''} \<and> su_scheme p \<noteq> [] \<and> su_netloc p = [];
                  allowed = allowed_redirects env
              in
              if su_fragment p \<noteq> [] \<or> url_userinfo p
                 \<or> \<not> (su_scheme p = ''https'' \<and> su_netloc p \<noteq> [] \<or> local \<and> su_scheme p = ''http'' \<or> native)
              then Inl (HttpError 422)
              else if (allowed \<noteq> [] \<and> v \<notin> set allowed) \<or> (production env \<and> allowed = []) then Inl (HttpError 422)
              else Inr (Some v))"

text \<open>Startup: partial configuration is an error, an absent provider is not. \<open>apple_secret_ok\<close> stands for building the
  signed client secret.\<close>

definition apple_secret_names :: "string list" where
  "apple_secret_names = [''MAGISTRATE_APPLE_TEAM_ID'', ''MAGISTRATE_APPLE_KEY_ID'', ''MAGISTRATE_APPLE_PRIVATE_KEY'', ''MAGISTRATE_APPLE_SERVICE_ID'']"

definition redirects_ready :: "(string \<Rightarrow> bool) \<Rightarrow> (string \<rightharpoonup> string) \<Rightarrow> bool \<Rightarrow> bool" where
  "redirects_ready ip_ok env google \<longleftrightarrow>
     (let ok = (\<lambda>v. case validate_redirect_uri ip_ok env (Some v) True of Inl _ \<Rightarrow> False | Inr _ \<Rightarrow> True);
          urls = allowed_redirects env;
          web = (\<lambda>v. case urlsplit ip_ok v of None \<Rightarrow> False | Some u \<Rightarrow> su_scheme u = ''https'');
          native = (\<lambda>v. case urlsplit ip_ok v of None \<Rightarrow> False
                     | Some u \<Rightarrow> su_scheme u \<notin> {''http'', ''https''} \<and> su_scheme u \<noteq> [] \<and> su_netloc u = [])
      in list_all ok urls \<and> list_ex web urls \<and> (google \<longrightarrow> list_ex native urls))"

definition validate_provider_auth_configuration :: "(string \<Rightarrow> bool) \<Rightarrow> bool \<Rightarrow> (string \<rightharpoonup> string) \<Rightarrow> int \<Rightarrow> auth_fail + unit" where
  "validate_provider_auth_configuration ip_ok apple_secret_ok env now =
     (case all_right [configured_ids env ''apple'', configured_ids env ''google'', platform_client_ids env ''apple'' ''native'',
             platform_client_ids env ''google'' ''native'', platform_client_ids env ''google'' ''web''] of
        Inl e \<Rightarrow> Inl e
      | Inr ids \<Rightarrow>
          let supplied = map (\<lambda>n. py_strip (getenv env n []) \<noteq> []) apple_secret_names;
              full = list_all id supplied;
              apple = (ids ! 0 \<noteq> []);
              google = (ids ! 1 \<noteq> [])
          in
          if list_ex id supplied \<and> \<not> full then Inl AuthRuntime
          else if production env \<and> apple \<and> (ids ! 2 = [] \<or> \<not> full) then Inl AuthRuntime
          else if production env \<and> google \<and> (ids ! 3 = [] \<or> ids ! 4 = []) then Inl AuthRuntime
          else if production env \<and> (apple \<or> google) \<and> \<not> redirects_ready ip_ok env google then Inl AuthRuntime
          else if production env \<and> apple \<and> \<not> apple_secret_ok then Inl AuthRuntime
          else if (case provider_scopes env of Inl _ \<Rightarrow> True | Inr _ \<Rightarrow> False) \<or> (case refresh_expiry env now of Inl _ \<Rightarrow> True | Inr _ \<Rightarrow> False) then Inl AuthRuntime
          else (case configured_session_ttl env now None of Inl e \<Rightarrow> Inl e | Inr _ \<Rightarrow> Inr ()))"

subsection \<open>Challenges\<close>

text \<open>Expired families go first, with their sessions and refresh tokens.\<close>

definition expired_families :: "int \<Rightarrow> auth_db \<Rightarrow> string list" where
  "expired_families now d = take MAX_EXPIRED_SESSION_FAMILY_CLEANUP
     (map sf_id (sort_key sf_expires (filter (\<lambda>f. sf_expires f \<le> now) (families d))))"

definition cleanup_families :: "int \<Rightarrow> auth_db \<Rightarrow> auth_db" where
  "cleanup_families now d =
     (let ids = expired_families now d in
      d\<lparr>sessions := filter (\<lambda>s. case gs_family s of None \<Rightarrow> True | Some f \<Rightarrow> f \<notin> set ids) (sessions d),
        refreshes := filter (\<lambda>r. rt_family r \<notin> set ids) (refreshes d),
        families := filter (\<lambda>f. sf_id f \<notin> set ids) (families d)\<rparr>)"

definition cleanup_challenges :: "int \<Rightarrow> auth_db \<Rightarrow> auth_db" where
  "cleanup_challenges now d =
     (let kept = filter (\<lambda>a. now - 86400 \<le> as_accepted a) (assertions d) in
      d\<lparr>assertions := kept,
        challenges := filter (\<lambda>c. now - 86400 \<le> ch_expires c \<or> ch_id c \<in> set (map as_challenge kept)) (challenges d)\<rparr>)"

definition redirect_fits :: "(string \<Rightarrow> bool) \<Rightarrow> string \<Rightarrow> string \<Rightarrow> string option \<Rightarrow> bool" where
  "redirect_fits ip_ok p platform redirect \<longleftrightarrow>
     (let scheme = (case redirect of None \<Rightarrow> None | Some v \<Rightarrow> map_option su_scheme (urlsplit ip_ok v));
          web = (scheme = Some ''http'' \<or> scheme = Some ''https'')
      in \<not> (platform = ''web'' \<and> \<not> web) \<and> \<not> (platform = ''native'' \<and> p = ''google'' \<and> web)
         \<and> \<not> (platform = ''native'' \<and> p = ''apple'' \<and> redirect \<noteq> None))"

definition challenge_checks :: "(string \<Rightarrow> bool) \<Rightarrow> (string \<rightharpoonup> string) \<Rightarrow> string \<Rightarrow> string \<Rightarrow> string \<Rightarrow> string option \<Rightarrow> auth_principal option
    \<Rightarrow> auth_fail + string option" where
  "challenge_checks ip_ok env p action platform redirect who =
     (if \<not> provider_known p then Inl (HttpError 503)
      else case configured_ids env p of
        Inl e \<Rightarrow> Inl e
      | Inr ids \<Rightarrow>
          if ids = [] then Inl (HttpError 503)
          else if action = ''link'' \<and> who = None then Inl (HttpError 401)
          else if action = ''sign_in'' \<and> who \<noteq> None then Inl (HttpError 409)
          else case validate_redirect_uri ip_ok env redirect (platform = ''web'' \<or> p = ''google'') of
            Inl e \<Rightarrow> Inl e
          | Inr uri \<Rightarrow>
              if \<not> redirect_fits ip_ok p platform uri then Inl (HttpError 422)
              else case platform_client_ids env p platform of
                Inl e \<Rightarrow> Inl e
              | Inr pids \<Rightarrow>
                  if production env \<and> pids = [] then Inl (HttpError 503)
                  else (case provider_availability env of
                          Inl e \<Rightarrow> Inl e
                        | Inr _ \<Rightarrow> if p = ''apple'' \<and> platform = ''web'' \<and> \<not> apple_web_configured env then Inl (HttpError 503) else Inr uri))"

definition new_challenge :: "(string \<Rightarrow> string) \<Rightarrow> string \<Rightarrow> string \<Rightarrow> string \<Rightarrow> string option \<Rightarrow> auth_principal option \<Rightarrow> string \<Rightarrow> string \<Rightarrow> int \<Rightarrow> challenge" where
  "new_challenge sha p action platform uri who cid nonce now =
     \<lparr>ch_id = ''pac_'' @ cid, ch_provider = p, ch_action = action, ch_nonce = sha nonce, ch_owner = map_option pr_user who,
      ch_platform = platform, ch_redirect = uri, ch_created = now, ch_expires = now + PROVIDER_CHALLENGE_TTL_SECONDS, ch_consumed = None\<rparr>"

definition create_challenge :: "(string \<Rightarrow> string) \<Rightarrow> (string \<Rightarrow> bool) \<Rightarrow> (string \<rightharpoonup> string) \<Rightarrow> string \<Rightarrow> string \<Rightarrow> string \<Rightarrow> string option
    \<Rightarrow> auth_principal option \<Rightarrow> string \<Rightarrow> string \<Rightarrow> int \<Rightarrow> auth_db \<Rightarrow> (auth_fail, auth_db, challenge) outcome" where
  "create_challenge sha ip_ok env p action platform redirect who cid nonce now d =
     (case challenge_checks ip_ok env p action platform redirect who of
        Inl e \<Rightarrow> Inl e
      | Inr uri \<Rightarrow>
          let d1 = cleanup_challenges now (cleanup_families now d);
              c = new_challenge sha p action platform uri who cid nonce now
          in
          if MAX_ACTIVE_CHALLENGES \<le> tbl_count (\<lambda>x. ch_consumed x = None \<and> now < ch_expires x) (challenges d1) then Inl (HttpError 503)
          else if tbl_ex (ch_sel (ch_id c)) (challenges d1) then Inl AuthIntegrity
          else Inr (d1\<lparr>challenges := challenges d1 @ [c]\<rparr>, c))"

subsection \<open>Identity assertions\<close>

record id_provider =
  ip_b64 :: "string \<Rightarrow> string option"
  ip_loads :: "string \<Rightarrow> json option"
  ip_rsa :: "int \<Rightarrow> int \<Rightarrow> string \<Rightarrow> string \<Rightarrow> bool"
  ip_keys :: "string \<Rightarrow> json list"

record provider_claims =
  pc_provider :: string
  pc_subject :: string
  pc_email :: "string option"
  pc_verified :: bool
  pc_name :: "string option"
  pc_assertion :: string
  pc_audience :: string

definition decode_segment :: "id_provider \<Rightarrow> nat \<Rightarrow> string \<Rightarrow> string option" where
  "decode_segment ip maximum v =
     (if v = [] \<or> maximum * 2 < length v \<or> \<not> list_all (\<lambda>c. is_alnum c \<or> c = CHR ''_'' \<or> c = CHR ''-'') v then None
      else case ip_b64 ip v of None \<Rightarrow> None | Some b \<Rightarrow> if maximum < length b then None else Some b)"

definition json_object :: "id_provider \<Rightarrow> string \<Rightarrow> json option" where
  "json_object ip raw = (case ip_loads ip raw of Some (JObj kvs) \<Rightarrow> Some (JObj kvs) | _ \<Rightarrow> None)"

definition big_endian :: "string \<Rightarrow> int" where
  "big_endian b = foldl (\<lambda>n c. n * 256 + int (code c)) 0 b"

definition rsa_key :: "id_provider \<Rightarrow> json \<Rightarrow> (int \<times> int) option" where
  "rsa_key ip jwk =
     (case (jget jwk ''n'', jget jwk ''e'') of
        (JStr n, JStr e) \<Rightarrow>
          if jget jwk ''kty'' \<noteq> JStr ''RSA'' \<or> jget jwk ''alg'' \<notin> {JNull, JStr ''RS256''} \<or> jget jwk ''use'' \<notin> {JNull, JStr ''sig''} then None
          else (case (decode_segment ip 1024 n, decode_segment ip 8 e) of
                  (Some nb, Some eb) \<Rightarrow>
                    if big_endian nb < 2 ^ 2047 \<or> big_endian eb \<notin> {3, 65537} then None else Some (big_endian nb, big_endian eb)
                | _ \<Rightarrow> None)
      | _ \<Rightarrow> None)"

definition signature_ok :: "id_provider \<Rightarrow> string \<Rightarrow> string \<Rightarrow> string \<Rightarrow> string \<Rightarrow> bool" where
  "signature_ok ip p kid msg sig \<longleftrightarrow>
     (case List.find (\<lambda>k. jget k ''kid'' = JStr kid) (ip_keys ip p) of
        None \<Rightarrow> False
      | Some jwk \<Rightarrow> (case rsa_key ip jwk of None \<Rightarrow> False | Some (n, e) \<Rightarrow> ip_rsa ip n e sig msg))"

fun json_strings :: "json list \<Rightarrow> string list option" where
  "json_strings [] = Some []"
| "json_strings (JStr s # xs) = map_option (Cons s) (json_strings xs)"
| "json_strings (_ # xs) = None"

definition audiences_of :: "json \<Rightarrow> string list" where
  "audiences_of v = (case v of JStr s \<Rightarrow> [s]
     | JList xs \<Rightarrow> (case json_strings xs of None \<Rightarrow> [] | Some ss \<Rightarrow> remdups ss) | _ \<Rightarrow> [])"

definition ascii :: "string \<Rightarrow> bool" where
  "ascii s \<longleftrightarrow> list_all (\<lambda>c. code c < 128) s"

text \<open>The registered claims, except the nonce.\<close>

definition claims_ok :: "string \<Rightarrow> string list \<Rightarrow> json \<Rightarrow> int \<Rightarrow> bool" where
  "claims_ok p configured claims now \<longleftrightarrow>
     (case (jget claims ''iss'', jget claims ''sub'', jget claims ''exp'', jget claims ''iat'') of
        (JStr iss, JStr sub, JInt until, JInt since) \<Rightarrow>
          iss \<in> set (ISSUERS p) \<and> safe_subject sub \<and> list_ex (\<lambda>a. a \<in> set configured) (audiences_of (jget claims ''aud''))
          \<and> now - 30 < until \<and> since < until \<and> until \<le> now + 86400 \<and> since \<le> now + 120 \<and> now - 86400 \<le> since
      | _ \<Rightarrow> False)"

definition party_ok :: "string list \<Rightarrow> json \<Rightarrow> bool" where
  "party_ok configured claims \<longleftrightarrow>
     (case jget claims ''azp'' of
        JNull \<Rightarrow> True
      | JStr a \<Rightarrow> a \<in> set configured \<and> a \<in> set (audiences_of (jget claims ''aud''))
      | _ \<Rightarrow> False)"

definition claimed_email :: "json \<Rightarrow> string option" where
  "claimed_email claims =
     (if jget claims ''email_verified'' = JBool True \<or> jget claims ''email_verified'' = JStr ''true'' then
        (case jget claims ''email'' of
           JStr s \<Rightarrow> if 320 < length s \<or> CHR ''@'' \<notin> set s \<or> list_ex (\<lambda>c. code c < 32) s then None else Some s
         | _ \<Rightarrow> None)
      else None)"

definition claimed_name :: "json \<Rightarrow> string option" where
  "claimed_name claims =
     (case jget claims ''name'' of
        JStr s \<Rightarrow> if py_strip s = [] \<or> 120 < length s \<or> list_ex (\<lambda>c. code c < 32) s then None else Some (py_strip s)
      | _ \<Rightarrow> None)"

definition claims_of :: "(string \<Rightarrow> string) \<Rightarrow> string \<Rightarrow> string \<Rightarrow> json \<Rightarrow> provider_claims" where
  "claims_of sha p token claims =
     \<lparr>pc_provider = p, pc_subject = (case jget claims ''sub'' of JStr s \<Rightarrow> s | _ \<Rightarrow> []), pc_email = claimed_email claims,
      pc_verified = (claimed_email claims \<noteq> None), pc_name = claimed_name claims, pc_assertion = sha token,
      pc_audience = (case jget claims ''azp'' of JStr a \<Rightarrow> a | _ \<Rightarrow> hd (audiences_of (jget claims ''aud'')))\<rparr>"

text \<open>An unhashable issuer and a non-ASCII nonce make Python raise \<open>TypeError\<close>.\<close>

definition verify_identity_token :: "(string \<Rightarrow> string) \<Rightarrow> id_provider \<Rightarrow> (string \<rightharpoonup> string) \<Rightarrow> string \<Rightarrow> string \<Rightarrow> string \<Rightarrow> int
    \<Rightarrow> auth_fail + provider_claims" where
  "verify_identity_token sha ip env p token nonce now =
     (if token = [] \<or> MAX_ID_TOKEN_BYTES < utf8_len token \<or> length nonce < 32 \<or> 128 < length nonce then Inl (HttpError 401)
      else case py_split CHR ''.'' token of
        [a, b, c] \<Rightarrow>
          (case (Option.bind (decode_segment ip 4096 a) (json_object ip), Option.bind (decode_segment ip (16 * 1024) b) (json_object ip),
                 decode_segment ip 1024 c) of
             (Some header, Some claims, Some sig) \<Rightarrow>
               (case jget header ''kid'' of
                  JStr kid \<Rightarrow>
                    if jget header ''alg'' \<noteq> JStr ''RS256'' \<or> kid = [] \<or> 128 < length kid then Inl (HttpError 401)
                    else if \<not> signature_ok ip p kid (a @ ''.'' @ b) sig then Inl (HttpError 401)
                    else (case configured_ids env p of
                       Inl e \<Rightarrow> Inl e
                     | Inr configured \<Rightarrow>
                         if p = ''apple'' \<and> \<not> ascii nonce then Inl AuthValue
                         else if \<not> party_ok configured claims then Inl (HttpError 401)
                         else if \<not> hashable (jget claims ''iss'') then Inl AuthType
                         else if \<not> claims_ok p configured claims now then Inl (HttpError 401)
                         else (case jget claims ''nonce'' of
                            JStr n \<Rightarrow>
                              if \<not> ascii n \<or> \<not> ascii nonce then Inl AuthType
                              else if n \<noteq> (if p = ''apple'' then sha nonce else nonce) then Inl (HttpError 401)
                              else if 1 < length (audiences_of (jget claims ''aud'')) \<and> jget claims ''azp'' = JNull then Inl (HttpError 401)
                              else Inr (claims_of sha p token claims)
                          | _ \<Rightarrow> Inl (HttpError 401)))
                | _ \<Rightarrow> Inl (HttpError 401))
           | _ \<Rightarrow> Inl (HttpError 401))
      | _ \<Rightarrow> Inl (HttpError 401))"

text \<open>The exchange of an authorization code; \<open>apple\<close> is the endpoint's answer for a code and redirect.\<close>

definition exchange_apple_code :: "(string \<Rightarrow> string \<Rightarrow> auth_fail + string) \<Rightarrow> (string \<rightharpoonup> string) \<Rightarrow> string \<Rightarrow> string \<Rightarrow> auth_fail + string" where
  "exchange_apple_code apple env acode redirect =
     (if length acode < 8 \<or> 4096 < length acode \<or> list_ex (\<lambda>c. code c < 32) acode then Inl (HttpError 401)
      else if \<not> apple_web_configured env then Inl (HttpError 503)
      else apple acode redirect)"

fun py_words :: "string \<Rightarrow> string list" where
  "py_words [] = []"
| "py_words (c # cs) =
     (if is_space c then py_words cs
      else (case cs of
              [] \<Rightarrow> [[c]]
            | x # _ \<Rightarrow> if is_space x then [c] # py_words cs
                       else (case py_words cs of [] \<Rightarrow> [[c]] | w # ws \<Rightarrow> (c # w) # ws)))"

fun join_words :: "string list \<Rightarrow> string" where
  "join_words [] = []"
| "join_words [w] = w"
| "join_words (w # ws) = w @ '' '' @ join_words ws"

definition display_name :: "string option \<Rightarrow> string option" where
  "display_name v =
     (case v of
        None \<Rightarrow> None
      | Some s \<Rightarrow>
          let n = join_words (py_words s) in
          if n = [] \<or> 80 < length n \<or> list_ex (\<lambda>c. code c < 32) n then None else Some n)"

subsection \<open>Exchange\<close>

text \<open>The random parts of the ids and tokens an operation draws; the code prefixes all but the bearer and its id.\<close>

record drawn =
  fr_user :: string
  fr_account :: string
  fr_family :: string
  fr_refresh :: string
  fr_token :: string
  fr_session :: string

definition family_id :: "drawn \<Rightarrow> string" where "family_id fr = ''psf_'' @ fr_family fr"

definition account_id :: "drawn \<Rightarrow> string" where "account_id fr = ''login_'' @ fr_account fr"

definition new_refresh_token :: "drawn \<Rightarrow> string" where "new_refresh_token fr = ''mgr_'' @ fr_refresh fr"

definition challenge_fits :: "(string \<Rightarrow> string) \<Rightarrow> string \<Rightarrow> string \<Rightarrow> auth_principal option \<Rightarrow> int \<Rightarrow> challenge \<Rightarrow> bool" where
  "challenge_fits sha p nonce who now c \<longleftrightarrow>
     ch_provider c = p \<and> ch_consumed c = None \<and> now < ch_expires c \<and> ch_nonce c = sha nonce
     \<and> (ch_action c = ''link'' \<longrightarrow> (case who of None \<Rightarrow> False | Some w \<Rightarrow> ch_owner c = Some (pr_user w)))
     \<and> (ch_action c = ''sign_in'' \<longrightarrow> who = None)"

definition login_sel :: "string \<Rightarrow> string \<Rightarrow> login_account \<Rightarrow> bool" where
  "login_sel p subject a \<longleftrightarrow> la_provider a = p \<and> la_subject a = subject \<and> la_kind a = ''login''"

definition new_login :: "string \<Rightarrow> string \<Rightarrow> provider_claims \<Rightarrow> int \<Rightarrow> login_account" where
  "new_login aid user c now =
     \<lparr>la_id = aid, la_user = user, la_provider = pc_provider c, la_subject = pc_subject c, la_username = (case pc_email c of None \<Rightarrow> [] | Some e \<Rightarrow> e),
      la_status = ''connected'', la_created = now, la_updated = now, la_kind = ''login'', la_verified = pc_verified c, la_authenticated = Some now\<rparr>"

definition seen_login :: "provider_claims \<Rightarrow> int \<Rightarrow> login_account \<Rightarrow> login_account" where
  "seen_login c now a = a\<lparr>la_status := ''connected'',
     la_username := (if la_username a = [] then (case pc_email c of None \<Rightarrow> [] | Some e \<Rightarrow> e) else la_username a),
     la_verified := (la_verified a \<or> pc_verified c), la_authenticated := Some now, la_updated := now\<rparr>"

text \<open>The login of the verified subject, created or updated, with its user.\<close>

definition bind_login :: "drawn \<Rightarrow> string \<Rightarrow> provider_claims \<Rightarrow> string option \<Rightarrow> string option \<Rightarrow> int \<Rightarrow> auth_db
    \<Rightarrow> (auth_fail, auth_db, string \<times> string) outcome" where
  "bind_login fr action c name owner now d =
     (case tbl_get (login_sel (pc_provider c) (pc_subject c)) (logins d) of
        Some a \<Rightarrow>
          if action = ''link'' \<and> Some (la_user a) \<noteq> owner then Inl (HttpError 409)
          else if action = ''sign_in'' \<and> la_status a \<noteq> ''connected'' then Inl (HttpError 403)
          else Inr (d\<lparr>logins := tbl_upd (\<lambda>x. la_sel (la_id a) x \<and> la_kind x = ''login'') (seen_login c now) (logins d)\<rparr>, la_user a, la_id a)
      | None \<Rightarrow>
          if action = ''link'' \<and> tbl_ex (\<lambda>x. Some (la_user x) = owner \<and> la_provider x = pc_provider c \<and> la_kind x = ''login'' \<and> la_status x = ''connected'') (logins d)
          then Inl (HttpError 409)
          else
            let user = (case owner of None \<Rightarrow> ''usr_'' @ fr_user fr | Some u \<Rightarrow> u);
                d1 = ensure_profile user (case name of None \<Rightarrow> [] | Some n \<Rightarrow> n) (case pc_email c of None \<Rightarrow> [] | Some e \<Rightarrow> e) now d
            in if tbl_ex (la_sel (account_id fr)) (logins d) then Inl AuthIntegrity
               else Inr (d1\<lparr>logins := logins d1 @ [new_login (account_id fr) user c now]\<rparr>, user, account_id fr))"

definition fill_profile :: "string \<Rightarrow> string option \<Rightarrow> string option \<Rightarrow> int \<Rightarrow> auth_db \<Rightarrow> auth_db" where
  "fill_profile user name email now d =
     d\<lparr>people := tbl_upd (\<lambda>p. pr_id p = user)
        (\<lambda>p. p\<lparr>pr_name := (if pr_name p = [] then (case name of None \<Rightarrow> [] | Some n \<Rightarrow> n) else pr_name p),
               pr_email := (if pr_email p = [] then (case email of None \<Rightarrow> [] | Some e \<Rightarrow> e) else pr_email p), pr_updated := now\<rparr>) (people d)\<rparr>"

definition consume_challenge :: "string \<Rightarrow> string \<Rightarrow> string \<Rightarrow> int \<Rightarrow> auth_db \<Rightarrow> (auth_fail, auth_db, unit) outcome" where
  "consume_challenge cid assertion account now d =
     (let d1 = d\<lparr>challenges := tbl_upd (\<lambda>x. ch_sel cid x \<and> ch_consumed x = None) (\<lambda>x. x\<lparr>ch_consumed := Some now\<rparr>) (challenges d)\<rparr> in
      if tbl_ex (\<lambda>x. as_hash x = assertion \<or> as_challenge x = cid) (assertions d) then Inl AuthIntegrity
      else Inr (d1\<lparr>assertions := assertions d1 @ [\<lparr>as_hash = assertion, as_challenge = cid, as_account = account, as_accepted = now\<rparr>]\<rparr>, ()))"

text \<open>\<open>_session_payload\<close>: a short bearer inside the family.\<close>

definition session_payload :: "(string \<Rightarrow> string) \<Rightarrow> (string \<rightharpoonup> string) \<Rightarrow> drawn \<Rightarrow> string \<Rightarrow> string \<Rightarrow> string \<Rightarrow> string list \<Rightarrow> int \<Rightarrow> int \<Rightarrow> auth_db
    \<Rightarrow> (auth_fail, auth_db, gateway_session) outcome" where
  "session_payload sha env fr user account family scopes now until d =
     (case configured_session_ttl env now (Some until) of
        Inl e \<Rightarrow> Inl e
      | Inr expires \<Rightarrow> insert_session sha (fr_token fr) (fr_session fr) user scopes now expires None (Some family) (Some account) d)"

definition add_refresh :: "(string \<Rightarrow> string) \<Rightarrow> string \<Rightarrow> string \<Rightarrow> int \<Rightarrow> int \<Rightarrow> auth_db \<Rightarrow> (auth_fail, auth_db, unit) outcome" where
  "add_refresh sha token family now until d =
     (if tbl_ex (rt_sel (sha token)) (refreshes d) then Inl AuthIntegrity
      else Inr (d\<lparr>refreshes := refreshes d @ [\<lparr>rt_hash = sha token, rt_family = family, rt_issued = now, rt_expires = until, rt_consumed = None\<rparr>]\<rparr>, ()))"

definition open_family :: "(string \<Rightarrow> string) \<Rightarrow> (string \<rightharpoonup> string) \<Rightarrow> drawn \<Rightarrow> challenge \<Rightarrow> string \<Rightarrow> string \<Rightarrow> string list \<Rightarrow> int \<Rightarrow> auth_db
    \<Rightarrow> (auth_fail, auth_db, gateway_session) outcome" where
  "open_family sha env fr ch user account scopes now d =
     (case refresh_expiry env now of
        Inl e \<Rightarrow> Inl e
      | Inr until \<Rightarrow>
          if tbl_ex (sf_sel (family_id fr)) (families d) then Inl AuthIntegrity
          else
            let f = \<lparr>sf_id = family_id fr, sf_user = user, sf_account = account, sf_provider = ch_provider ch, sf_platform = ch_platform ch,
                     sf_scopes = scopes, sf_created = now, sf_expires = until, sf_rotated = now, sf_revoked = None, sf_reason = None\<rparr>;
                d1 = d\<lparr>onboarding := (if user \<in> set (onboarding d) then onboarding d else onboarding d @ [user]), families := families d @ [f]\<rparr>
            in (case add_refresh sha (new_refresh_token fr) (family_id fr) now until d1 of
                  Inl e \<Rightarrow> Inl e
                | Inr (d2, _) \<Rightarrow> session_payload sha env fr user account (family_id fr) scopes now until d2))"

text \<open>The transaction of \<open>exchange_challenge\<close>; a link returns no session.\<close>

definition exchange_commit :: "(string \<Rightarrow> string) \<Rightarrow> (string \<rightharpoonup> string) \<Rightarrow> drawn \<Rightarrow> string \<Rightarrow> provider_claims \<Rightarrow> string option \<Rightarrow> string list
    \<Rightarrow> auth_principal option \<Rightarrow> int \<Rightarrow> auth_db \<Rightarrow> (auth_fail, auth_db, gateway_session option) outcome" where
  "exchange_commit sha env fr cid c name scopes who now d =
     (case tbl_get (ch_sel cid) (challenges d) of
        None \<Rightarrow> Inl (HttpError 409)
      | Some ch \<Rightarrow>
          if ch_consumed ch \<noteq> None \<or> ch_expires ch \<le> now \<or> ch_provider ch \<noteq> pc_provider c then Inl (HttpError 409)
          else if tbl_ex (\<lambda>x. as_hash x = pc_assertion c) (assertions d) then Inl (HttpError 409)
          else case bind_login fr (ch_action ch) c name (map_option pr_user who) now d of
            Inl e \<Rightarrow> Inl e
          | Inr (d1, user, account) \<Rightarrow>
              if \<not> tbl_ex (\<lambda>p. pr_id p = user) (people d1) then Inl (HttpError 503)
              else case consume_challenge cid (pc_assertion c) account now (fill_profile user name (pc_email c) now d1) of
                Inl e \<Rightarrow> Inl e
              | Inr (d2, _) \<Rightarrow>
                  if ch_action ch = ''link'' then Inr (d2, None)
                  else (case open_family sha env fr ch user account scopes now d2 of
                          Inl e \<Rightarrow> Inl e
                        | Inr (d3, s) \<Rightarrow> Inr (d3, Some s)))"

definition exchange_challenge :: "(string \<Rightarrow> string) \<Rightarrow> id_provider \<Rightarrow> (string \<Rightarrow> string \<Rightarrow> auth_fail + string) \<Rightarrow> (string \<rightharpoonup> string) \<Rightarrow> drawn
    \<Rightarrow> string \<Rightarrow> string \<Rightarrow> string \<Rightarrow> string option \<Rightarrow> string option \<Rightarrow> string option \<Rightarrow> string option \<Rightarrow> auth_principal option \<Rightarrow> int \<Rightarrow> auth_db
    \<Rightarrow> (auth_fail, auth_db, gateway_session option) outcome" where
  "exchange_challenge sha ip apple env fr p cid nonce token acode redirect shown who now d =
     (if \<not> provider_known p \<or> \<not> prefixed_token ''pac_'' 20 40 cid then Inl (HttpError 401)
      else case tbl_get (ch_sel cid) (challenges d) of
        None \<Rightarrow> Inl (HttpError 401)
      | Some ch \<Rightarrow>
          if \<not> challenge_fits sha p nonce who now ch then Inl (HttpError 401)
          else if redirect \<noteq> ch_redirect ch then Inl (HttpError 401)
          else if present acode \<noteq> None \<and> (p \<noteq> ''apple'' \<or> present token \<noteq> None) then Inl (HttpError 422)
          else case (case present acode of
                 Some k \<Rightarrow> map_sum id Some (exchange_apple_code apple env k (case ch_redirect ch of None \<Rightarrow> ''None'' | Some r \<Rightarrow> r))
               | None \<Rightarrow> Inr token) of
            Inl e \<Rightarrow> Inl e
          | Inr tok \<Rightarrow>
              (case present tok of
                 None \<Rightarrow> Inl (HttpError 422)
               | Some t \<Rightarrow>
                  (case verify_identity_token sha ip env p t nonce now of
                     Inl e \<Rightarrow> Inl e
                   | Inr c \<Rightarrow>
                      (case platform_client_ids env p (ch_platform ch) of
                         Inl e \<Rightarrow> Inl e
                       | Inr pids \<Rightarrow>
                          if pids \<noteq> [] \<and> pc_audience c \<notin> set pids then Inl (HttpError 401)
                          else (case provider_scopes env of
                                  Inl e \<Rightarrow> Inl e
                                | Inr scopes \<Rightarrow>
                                    exchange_commit sha env fr cid c (case display_name shown of None \<Rightarrow> pc_name c | n \<Rightarrow> n) scopes who now d)))))"

subsection \<open>Refresh\<close>

text \<open>A refused token may still have written (the family of a reused token is revoked): the database is part
  of every result.\<close>

definition refresh_ready :: "int \<Rightarrow> session_family \<Rightarrow> refresh_token \<Rightarrow> login_account \<Rightarrow> bool" where
  "refresh_ready now f r a \<longleftrightarrow> sf_revoked f = None \<and> now < sf_expires f \<and> now < rt_expires r \<and> la_status a = ''connected''
     \<and> la_kind a = ''login'' \<and> provider_known (sf_provider f)"

definition rotate :: "(string \<Rightarrow> string) \<Rightarrow> (string \<rightharpoonup> string) \<Rightarrow> drawn \<Rightarrow> session_family \<Rightarrow> refresh_token \<Rightarrow> int \<Rightarrow> auth_db
    \<Rightarrow> (auth_fail, auth_db, gateway_session) outcome" where
  "rotate sha env fr f r now d =
     (let scopes = filter (\<lambda>s. s \<noteq> []) (sf_scopes f) in
      if scopes = [] \<or> \<not> set scopes \<subseteq> set KNOWN_SCOPES \<or> ''response'' \<in> set scopes then Inl (HttpError 503)
      else
        let d1 = revoke_sessions (\<lambda>s. gs_family s = Some (sf_id f)) now
                   (d\<lparr>refreshes := tbl_upd (\<lambda>x. rt_sel (rt_hash r) x \<and> rt_consumed x = None) (\<lambda>x. x\<lparr>rt_consumed := Some now\<rparr>) (refreshes d)\<rparr>)
        in (case add_refresh sha (new_refresh_token fr) (sf_id f) now (sf_expires f) d1 of
              Inl e \<Rightarrow> Inl e
            | Inr (d2, _) \<Rightarrow>
                session_payload sha env fr (sf_user f) (sf_account f) (sf_id f) scopes now (sf_expires f)
                  (d2\<lparr>families := tbl_upd (sf_sel (sf_id f)) (\<lambda>x. x\<lparr>sf_rotated := now\<rparr>) (families d2)\<rparr>)))"

definition refresh_session :: "(string \<Rightarrow> string) \<Rightarrow> (string \<rightharpoonup> string) \<Rightarrow> drawn \<Rightarrow> string \<Rightarrow> string \<Rightarrow> int \<Rightarrow> auth_db
    \<Rightarrow> auth_db \<times> (auth_fail + gateway_session)" where
  "refresh_session sha env fr token platform now d =
     (if platform \<noteq> ''native'' \<and> platform \<noteq> ''web'' then (d, Inl (HttpError 400))
      else if \<not> prefixed_token ''mgr_'' 32 80 token then (d, Inl (HttpError 401))
      else
        let d1 = cleanup_families now d in
        case tbl_get (rt_sel (sha token)) (refreshes d1) of
          None \<Rightarrow> (d, Inl (HttpError 401))
        | Some r \<Rightarrow>
           (case tbl_get (sf_sel (rt_family r)) (families d1) of
              None \<Rightarrow> (d, Inl (HttpError 401))
            | Some f \<Rightarrow>
               (case tbl_get (la_sel (sf_account f)) (logins d1) of
                  None \<Rightarrow> (d, Inl (HttpError 401))
                | Some a \<Rightarrow>
                    if rt_consumed r \<noteq> None \<or> sf_platform f \<noteq> platform
                    then (revoke_push_delivery (sf_user f) now (revoke_family (sf_id f) now
                            (\<lambda>_. Some (if rt_consumed r \<noteq> None then ''refresh-reuse'' else ''refresh-channel-mismatch'')) d1), Inl (HttpError 401))
                    else if \<not> refresh_ready now f r a
                    then (revoke_family (sf_id f) now (\<lambda>x. case sf_reason x of None \<Rightarrow> Some ''expired'' | y \<Rightarrow> y) d1, Inl (HttpError 401))
                    else (case rotate sha env fr f r now d1 of Inl e \<Rightarrow> (d, Inl e) | Inr (d2, s) \<Rightarrow> (d2, Inr s)))))"

subsection \<open>Login methods\<close>

definition login_methods :: "string \<Rightarrow> auth_db \<Rightarrow> login_account list" where
  "login_methods user d = filter (\<lambda>a. la_user a = user \<and> la_kind a = ''login'' \<and> la_status a = ''connected'') (logins d)"

definition list_login_methods :: "auth_principal \<Rightarrow> auth_db \<Rightarrow> (string \<times> string \<times> bool \<times> int \<times> int option) list" where
  "list_login_methods p d = map (\<lambda>a. (la_provider a, la_username a, Some (la_id a) = ap_account p, la_created a, la_authenticated a))
     (sort_key la_created (sort_key la_provider (login_methods (pr_user p) d)))"

fun revoke_families :: "string list \<Rightarrow> int \<Rightarrow> auth_db \<Rightarrow> auth_db" where
  "revoke_families [] now d = d"
| "revoke_families (f # fs) now d = revoke_families fs now (revoke_family f now (\<lambda>_. Some ''login-method-removed'') d)"

definition unlink_login_method :: "auth_principal \<Rightarrow> string \<Rightarrow> int \<Rightarrow> auth_db \<Rightarrow> (auth_fail, auth_db, unit) outcome" where
  "unlink_login_method p provider now d =
     (if \<not> provider_known provider then Inl (HttpError 404)
      else case List.find (\<lambda>a. la_provider a = provider) (login_methods (pr_user p) d) of
        None \<Rightarrow> Inl (HttpError 404)
      | Some target \<Rightarrow>
          if Some (la_id target) = ap_account p then Inl (HttpError 409)
          else if length (login_methods (pr_user p) d) \<le> 1 then Inl (HttpError 409)
          else
            let fids = map sf_id (filter (\<lambda>f. sf_account f = la_id target \<and> sf_revoked f = None) (families d));
                d1 = d\<lparr>logins := tbl_upd (la_sel (la_id target)) (\<lambda>a. a\<lparr>la_status := ''disconnected'', la_updated := now\<rparr>) (logins d)\<rparr>
            in Inr (revoke_families fids now d1, ()))"

end
