(* ===== verification/Session_Inv.thy ===== *)
theory Session_Inv
  imports Provider_Auth
begin

text \<open>
  The invariant of the authentication tables: a bearer never outlives its grant or family and dies with it,
  a grant and a family have at most one live bearer, a family has at most one unused refresh token, and the
  producer scope is never delegated. Each write the operations are made of keeps it.
\<close>

interpretation gsk: keyed_rows gs_hash gs_sel by unfold_locales (simp add: gs_sel_def)
interpretation bgk: keyed_rows bg_id bg_sel by unfold_locales (simp add: bg_sel_def)
interpretation sfk: keyed_rows sf_id sf_sel by unfold_locales (simp add: sf_sel_def)
interpretation rtk: keyed_rows rt_hash rt_sel by unfold_locales (simp add: rt_sel_def)

definition one_live :: "('r \<Rightarrow> bool) \<Rightarrow> ('r \<Rightarrow> 'k option) \<Rightarrow> 'r table \<Rightarrow> bool" where
  "one_live L K t \<longleftrightarrow> (\<forall>x \<in> set t. \<forall>y \<in> set t. L x \<longrightarrow> L y \<longrightarrow> K x \<noteq> None \<longrightarrow> K x = K y \<longrightarrow> x = y)"

lemma one_live_filter: "one_live L K t \<Longrightarrow> one_live L K (filter Q t)"
  unfolding one_live_def by auto

lemma one_live_retire:
  assumes "one_live L K t" and "\<And>x. x \<in> set t \<Longrightarrow> P x \<Longrightarrow> \<not> L (f x)"
  shows "one_live L K (tbl_upd P f t)"
proof -
  have "x \<in> set t" if "x \<in> set (tbl_upd P f t)" "L x" for x
    using that(1) by (cases rule: tbl_updE) (use that(2) assms(2) in auto)
  then show ?thesis using assms(1) unfolding one_live_def by blast
qed

lemma one_live_add: "one_live L K t \<Longrightarrow> (\<And>x. x \<in> set t \<Longrightarrow> L x \<Longrightarrow> K x \<noteq> None \<Longrightarrow> K x \<noteq> K r) \<Longrightarrow> one_live L K (t @ [r])"
  unfolding one_live_def by (metis Un_iff empty_iff list.set(1) set_ConsD set_append)

definition gs_live :: "gateway_session \<Rightarrow> bool" where "gs_live s \<longleftrightarrow> gs_revoked s = None"

definition rt_live :: "refresh_token \<Rightarrow> bool" where "rt_live r \<longleftrightarrow> rt_consumed r = None"

definition family_row :: "gateway_session \<Rightarrow> session_family \<Rightarrow> bool" where
  "family_row s x \<longleftrightarrow> gs_family s = Some (sf_id x) \<and> gs_expires s \<le> sf_expires x \<and> (gs_live s \<longrightarrow> sf_revoked x = None)
     \<and> sf_user x = gs_user s \<and> gs_account s = Some (sf_account x)"

definition grant_row :: "gateway_session \<Rightarrow> beta_grant \<Rightarrow> bool" where
  "grant_row s g \<longleftrightarrow> gs_grant s = Some (bg_id g) \<and> gs_expires s \<le> bg_expires g \<and> (gs_live s \<longrightarrow> bg_revoked g = None) \<and> bg_user g = gs_user s"

definition bound_session :: "beta_grant table \<Rightarrow> session_family table \<Rightarrow> gateway_session \<Rightarrow> bool" where
  "bound_session gs fs s \<longleftrightarrow> (gs_family s \<noteq> None \<longrightarrow> (\<exists>x \<in> set fs. family_row s x)) \<and> (gs_grant s \<noteq> None \<longrightarrow> (\<exists>g \<in> set gs. grant_row s g))
     \<and> (gs_family s \<noteq> None \<or> gs_grant s \<noteq> None \<longrightarrow> ''response'' \<notin> set (gs_scopes s))"

definition refresh_row :: "session_family table \<Rightarrow> refresh_token \<Rightarrow> bool" where
  "refresh_row fs r \<longleftrightarrow> (\<exists>x \<in> set fs. sf_id x = rt_family r \<and> rt_expires r \<le> sf_expires x)"

definition sess_ok :: "gateway_session table \<Rightarrow> beta_grant table \<Rightarrow> session_family table \<Rightarrow> refresh_token table \<Rightarrow> bool" where
  "sess_ok ss gs fs rs \<longleftrightarrow> gsk.uniq ss \<and> bgk.uniq gs \<and> sfk.uniq fs \<and> rtk.uniq rs
     \<and> one_live gs_live gs_family ss \<and> one_live gs_live gs_grant ss \<and> one_live rt_live (\<lambda>r. Some (rt_family r)) rs
     \<and> (\<forall>s \<in> set ss. bound_session gs fs s) \<and> (\<forall>r \<in> set rs. refresh_row fs r)
     \<and> (\<forall>x \<in> set fs. sf_id x \<noteq> []) \<and> (\<forall>g \<in> set gs. bg_id g \<noteq> [])"

definition auth_inv :: "auth_db \<Rightarrow> bool" where
  "auth_inv d \<longleftrightarrow> sess_ok (sessions d) (beta_grants d) (families d) (refreshes d)"

subsection \<open>Retiring sessions\<close>

text \<open>Marking sessions as revoked, whatever they were.\<close>

lemma bound_revoked: "bound_session gs fs s \<Longrightarrow> bound_session gs fs (s\<lparr>gs_revoked := Some n\<rparr>)"
  by (auto simp: bound_session_def family_row_def grant_row_def gs_live_def)

lemma sess_ok_revoke: "sess_ok ss gs fs rs \<Longrightarrow> sess_ok (tbl_upd P (\<lambda>s. s\<lparr>gs_revoked := Some n\<rparr>) ss) gs fs rs"
proof -
  assume ok: "sess_ok ss gs fs rs"
  have "bound_session gs fs s" if "s \<in> set (tbl_upd P (\<lambda>s. s\<lparr>gs_revoked := Some n\<rparr>) ss)" for s
    using that by (cases rule: tbl_updE) (use ok bound_revoked in \<open>auto simp: sess_ok_def\<close>)
  then show ?thesis using ok
    by (auto simp: sess_ok_def gs_live_def intro!: one_live_retire gsk.uniq_upd)
qed

lemma sess_ok_filter: "sess_ok ss gs fs rs \<Longrightarrow> sess_ok (filter Q ss) gs fs rs"
  by (auto simp: sess_ok_def gsk.uniq_def one_live_filter distinct_map_filter)

text \<open>Closing a family: its sessions are revoked in the same transaction.\<close>

lemma sess_ok_family:
  assumes ok: "sess_ok ss gs fs rs" and f: "\<And>x. (sf_id (f x), sf_expires (f x), sf_user (f x), sf_account (f x)) = (sf_id x, sf_expires x, sf_user x, sf_account x)"
  shows "sess_ok (tbl_upd (\<lambda>s. gs_family s = Some fid \<and> gs_revoked s = None) (\<lambda>s. s\<lparr>gs_revoked := Some n\<rparr>) ss) gs (tbl_upd (sf_sel fid) f fs) rs"
    (is "sess_ok ?ss gs ?fs rs")
proof -
  have kept: "(if sf_sel fid x then f x else x) \<in> set ?fs" if "x \<in> set fs" for x
    using that unfolding set_tbl_upd by (rule imageI)
  have "bound_session gs ?fs s" if s: "s \<in> set ?ss" for s
  proof -
    have b: "bound_session gs fs s" using s sess_ok_revoke[OF ok] unfolding sess_ok_def by blast
    have dead: "\<not> gs_live s" if "gs_family s = Some fid"
      using s by (cases rule: tbl_updE) (use that in \<open>auto simp: gs_live_def\<close>)
    have "\<exists>x \<in> set ?fs. family_row s x" if fam: "gs_family s \<noteq> None"
    proof -
      obtain x where x: "x \<in> set fs" "family_row s x" using b fam by (auto simp: bound_session_def)
      have "family_row s (if sf_sel fid x then f x else x)"
        using x(2) f[of x] dead by (auto simp: family_row_def sf_sel_def)
      then show ?thesis using kept[OF x(1)] by blast
    qed
    then show ?thesis using b by (simp add: bound_session_def)
  qed
  moreover have "refresh_row ?fs r" if r: "r \<in> set rs" for r
  proof -
    obtain x where x: "x \<in> set fs" "sf_id x = rt_family r" "rt_expires r \<le> sf_expires x" using ok r by (auto simp: sess_ok_def refresh_row_def)
    show ?thesis unfolding refresh_row_def by (rule bexI[OF _ kept[OF x(1)]]) (use x(2,3) f[of x] in simp)
  qed
  moreover have "sf_id x \<noteq> []" if "x \<in> set ?fs" for x
    using that by (cases rule: tbl_updE) (use ok f in \<open>auto simp: sess_ok_def\<close>)
  moreover have "sfk.uniq ?fs" using ok f by (intro sfk.uniq_upd) (auto simp: sess_ok_def)
  ultimately show ?thesis using sess_ok_revoke[OF ok] by (simp add: sess_ok_def)
qed

lemma sess_ok_grant:
  assumes ok: "sess_ok ss gs fs rs"
  shows "sess_ok (tbl_upd (\<lambda>s. gs_grant s = Some gid \<and> gs_revoked s = None) (\<lambda>s. s\<lparr>gs_revoked := Some n\<rparr>) ss)
    (tbl_upd (\<lambda>g. bg_sel gid g \<and> bg_revoked g = None) (\<lambda>g. g\<lparr>bg_revoked := Some n\<rparr>) gs) fs rs" (is "sess_ok ?ss ?gs fs rs")
proof -
  let ?P = "\<lambda>g. bg_sel gid g \<and> bg_revoked g = None"
  have kept: "(if ?P g then g\<lparr>bg_revoked := Some n\<rparr> else g) \<in> set ?gs" if "g \<in> set gs" for g
    using that unfolding set_tbl_upd by (rule imageI)
  have "bound_session ?gs fs s" if s: "s \<in> set ?ss" for s
  proof -
    have b: "bound_session gs fs s" using s sess_ok_revoke[OF ok] unfolding sess_ok_def by blast
    have dead: "\<not> gs_live s" if "gs_grant s = Some gid"
      using s by (cases rule: tbl_updE) (use that in \<open>auto simp: gs_live_def\<close>)
    have "\<exists>g \<in> set ?gs. grant_row s g" if gr: "gs_grant s \<noteq> None"
    proof -
      obtain g where g: "g \<in> set gs" "grant_row s g" using b gr by (auto simp: bound_session_def)
      have "grant_row s (if ?P g then g\<lparr>bg_revoked := Some n\<rparr> else g)"
        using g(2) dead by (auto simp: grant_row_def bg_sel_def)
      then show ?thesis using kept[OF g(1)] by blast
    qed
    then show ?thesis using b by (simp add: bound_session_def)
  qed
  moreover have "bg_id g \<noteq> []" if "g \<in> set ?gs" for g
    using that by (cases rule: tbl_updE) (use ok in \<open>auto simp: sess_ok_def\<close>)
  moreover have "bgk.uniq ?gs" using ok by (intro bgk.uniq_upd) (auto simp: sess_ok_def)
  ultimately show ?thesis using sess_ok_revoke[OF ok] by (simp add: sess_ok_def)
qed

subsection \<open>New rows\<close>

lemma sess_ok_insert:
  assumes ok: "sess_ok ss gs fs rs" and fresh: "\<not> tbl_ex (\<lambda>x. gs_id x = i \<or> gs_hash x = gs_hash s) ss" and b: "bound_session gs fs s"
    and one: "\<And>x. x \<in> set ss \<Longrightarrow> gs_live x \<Longrightarrow> gs_family x \<noteq> None \<Longrightarrow> gs_family x \<noteq> gs_family s"
      "\<And>x. x \<in> set ss \<Longrightarrow> gs_live x \<Longrightarrow> gs_grant x \<noteq> None \<Longrightarrow> gs_grant x \<noteq> gs_grant s"
  shows "sess_ok (ss @ [s]) gs fs rs"
proof -
  have "tbl_get (gs_sel (gs_hash s)) ss = None" using fresh by (auto simp: tbl_ex_iff tbl_get_None_iff gs_sel_def)
  then have "gsk.uniq (ss @ [s])" using ok by (auto simp: sess_ok_def intro: gsk.uniq_insert)
  moreover have "one_live gs_live gs_family (ss @ [s])" "one_live gs_live gs_grant (ss @ [s])"
    using ok one by (auto simp: sess_ok_def intro!: one_live_add)
  ultimately show ?thesis using ok b by (auto simp: sess_ok_def)
qed

lemma bound_more: "bound_session gs fs s \<Longrightarrow> set gs \<subseteq> set gs' \<Longrightarrow> set fs \<subseteq> set fs' \<Longrightarrow> bound_session gs' fs' s"
  unfolding bound_session_def by blast

lemma sess_ok_add_family:
  assumes ok: "sess_ok ss gs fs rs" and x: "\<not> tbl_ex (sf_sel (sf_id x)) fs" "sf_id x \<noteq> []"
  shows "sess_ok ss gs (fs @ [x]) rs"
proof -
  have "sfk.uniq (fs @ [x])" using ok x(1) by (intro sfk.uniq_insert) (auto simp: sess_ok_def tbl_ex_iff tbl_get_None_iff)
  moreover have "bound_session gs (fs @ [x]) s" if "s \<in> set ss" for s using ok that bound_more[of gs fs s gs "fs @ [x]"] by (auto simp: sess_ok_def)
  moreover have "refresh_row (fs @ [x]) r" if "r \<in> set rs" for r using ok that by (auto simp: sess_ok_def refresh_row_def)
  ultimately show ?thesis using ok x(2) by (auto simp: sess_ok_def)
qed

lemma sess_ok_add_grant:
  assumes ok: "sess_ok ss gs fs rs" and g: "\<not> tbl_ex (bg_sel (bg_id g)) gs" "bg_id g \<noteq> []"
  shows "sess_ok ss (gs @ [g]) fs rs"
proof -
  have "bgk.uniq (gs @ [g])" using ok g(1) by (intro bgk.uniq_insert) (auto simp: sess_ok_def tbl_ex_iff tbl_get_None_iff)
  moreover have "bound_session (gs @ [g]) fs s" if "s \<in> set ss" for s using ok that bound_more[of gs fs s "gs @ [g]" fs] by (auto simp: sess_ok_def)
  ultimately show ?thesis using ok g(2) by (auto simp: sess_ok_def)
qed

lemma sess_ok_add_refresh:
  assumes ok: "sess_ok ss gs fs rs" and r: "\<not> tbl_ex (rt_sel (rt_hash r)) rs" "refresh_row fs r"
    and one: "\<And>x. x \<in> set rs \<Longrightarrow> rt_live x \<Longrightarrow> rt_family x \<noteq> rt_family r"
  shows "sess_ok ss gs fs (rs @ [r])"
proof -
  have "rtk.uniq (rs @ [r])" using ok r(1) by (intro rtk.uniq_insert) (auto simp: sess_ok_def tbl_ex_iff tbl_get_None_iff)
  moreover have "one_live rt_live (\<lambda>r. Some (rt_family r)) (rs @ [r])" using ok one by (auto simp: sess_ok_def intro!: one_live_add)
  ultimately show ?thesis using ok r(2) by (auto simp: sess_ok_def)
qed

lemma sess_ok_consume:
  assumes ok: "sess_ok ss gs fs rs"
  shows "sess_ok ss gs fs (tbl_upd P (\<lambda>x. x\<lparr>rt_consumed := Some n\<rparr>) rs)"
proof -
  have "refresh_row fs r" if "r \<in> set (tbl_upd P (\<lambda>x. x\<lparr>rt_consumed := Some n\<rparr>) rs)" for r
    using that by (cases rule: tbl_updE) (use ok in \<open>auto simp: sess_ok_def refresh_row_def\<close>)
  then show ?thesis using ok by (auto simp: sess_ok_def rt_live_def intro!: one_live_retire rtk.uniq_upd)
qed

text \<open>Updates of columns the invariant does not mention.\<close>

lemma sess_ok_touch_grant:
  assumes ok: "sess_ok ss gs fs rs" and f: "\<And>g. (bg_id (f g), bg_expires (f g), bg_revoked (f g), bg_user (f g)) = (bg_id g, bg_expires g, bg_revoked g, bg_user g)"
  shows "sess_ok ss (tbl_upd P f gs) fs rs"
proof -
  have kept: "(if P g then f g else g) \<in> set (tbl_upd P f gs)" if "g \<in> set gs" for g using that unfolding set_tbl_upd by (rule imageI)
  have "bound_session (tbl_upd P f gs) fs s" if s: "s \<in> set ss" for s
  proof -
    have b: "bound_session gs fs s" using ok s by (simp add: sess_ok_def)
    have "\<exists>g \<in> set (tbl_upd P f gs). grant_row s g" if gr: "gs_grant s \<noteq> None"
    proof -
      obtain g where g: "g \<in> set gs" "grant_row s g" using b gr by (auto simp: bound_session_def)
      have "grant_row s (if P g then f g else g)" using g(2) f[of g] by (auto simp: grant_row_def)
      then show ?thesis using kept[OF g(1)] by blast
    qed
    then show ?thesis using b by (simp add: bound_session_def)
  qed
  moreover have "bg_id g \<noteq> []" if "g \<in> set (tbl_upd P f gs)" for g
    using that by (cases rule: tbl_updE) (use ok f in \<open>auto simp: sess_ok_def\<close>)
  moreover have "bgk.uniq (tbl_upd P f gs)" using ok f by (intro bgk.uniq_upd) (auto simp: sess_ok_def)
  ultimately show ?thesis using ok by (simp add: sess_ok_def)
qed

lemma sess_ok_touch_family:
  assumes ok: "sess_ok ss gs fs rs" and f: "\<And>x. (sf_id (f x), sf_expires (f x), sf_revoked (f x), sf_user (f x), sf_account (f x))
      = (sf_id x, sf_expires x, sf_revoked x, sf_user x, sf_account x)"
  shows "sess_ok ss gs (tbl_upd P f fs) rs"
proof -
  have kept: "(if P x then f x else x) \<in> set (tbl_upd P f fs)" if "x \<in> set fs" for x using that unfolding set_tbl_upd by (rule imageI)
  have "bound_session gs (tbl_upd P f fs) s" if s: "s \<in> set ss" for s
  proof -
    have b: "bound_session gs fs s" using ok s by (simp add: sess_ok_def)
    have "\<exists>x \<in> set (tbl_upd P f fs). family_row s x" if fam: "gs_family s \<noteq> None"
    proof -
      obtain x where x: "x \<in> set fs" "family_row s x" using b fam by (auto simp: bound_session_def)
      have "family_row s (if P x then f x else x)" using x(2) f[of x] by (auto simp: family_row_def)
      then show ?thesis using kept[OF x(1)] by blast
    qed
    then show ?thesis using b by (simp add: bound_session_def)
  qed
  moreover have "refresh_row (tbl_upd P f fs) r" if r: "r \<in> set rs" for r
  proof -
    obtain x where x: "x \<in> set fs" "sf_id x = rt_family r" "rt_expires r \<le> sf_expires x" using ok r by (auto simp: sess_ok_def refresh_row_def)
    show ?thesis unfolding refresh_row_def by (rule bexI[OF _ kept[OF x(1)]]) (use x(2,3) f[of x] in simp)
  qed
  moreover have "sf_id x \<noteq> []" if "x \<in> set (tbl_upd P f fs)" for x
    using that by (cases rule: tbl_updE) (use ok f in \<open>auto simp: sess_ok_def\<close>)
  moreover have "sfk.uniq (tbl_upd P f fs)" using ok f by (intro sfk.uniq_upd) (auto simp: sess_ok_def)
  ultimately show ?thesis using ok by (simp add: sess_ok_def)
qed

lemma sess_ok_drop_families:
  assumes ok: "sess_ok ss gs fs rs"
  shows "sess_ok (filter (\<lambda>s. case gs_family s of None \<Rightarrow> True | Some f \<Rightarrow> f \<notin> X) ss) gs (filter (\<lambda>f. sf_id f \<notin> X) fs) (filter (\<lambda>r. rt_family r \<notin> X) rs)"
    (is "sess_ok ?ss gs ?fs ?rs")
proof -
  have "bound_session gs ?fs s" if s: "s \<in> set ?ss" for s
  proof -
    have b: "bound_session gs fs s" using ok s by (simp add: sess_ok_def)
    then show ?thesis using s by (auto simp: bound_session_def family_row_def split: option.splits)
  qed
  moreover have "refresh_row ?fs r" if r: "r \<in> set ?rs" for r
  proof -
    obtain x where "x \<in> set fs" "sf_id x = rt_family r" "rt_expires r \<le> sf_expires x" using ok r by (auto simp: sess_ok_def refresh_row_def)
    then show ?thesis using r unfolding refresh_row_def by (intro bexI[of _ x]) auto
  qed
  ultimately show ?thesis using sess_ok_filter[OF ok, of "\<lambda>s. case gs_family s of None \<Rightarrow> True | Some f \<Rightarrow> f \<notin> X"] ok
    by (auto simp: sess_ok_def one_live_filter sfk.uniq_def rtk.uniq_def distinct_map_filter)
qed

end
