(* ===== verification/Session_System.thy ===== *)
theory Session_System
  imports Session_Inv
begin

text \<open>
  The calls of \<open>auth.py\<close> and \<open>provider_auth.py\<close> as one family of operations. An operation that commits although
  it raises (a refused refresh token, a disabled beta) is one that succeeds with its new database. \<open>AOther\<close>
  stands for the other writers of profiles, devices and onboarding rows.
\<close>

record auth_env =
  ae_sha :: "string \<Rightarrow> string"
  ae_vars :: "string \<rightharpoonup> string"
  ae_ip_ok :: "string \<Rightarrow> bool"
  ae_hosted :: "config_error + hosted_settings option"
  ae_policy :: personal_deployment
  ae_idp :: id_provider
  ae_apple :: "string \<Rightarrow> string \<Rightarrow> auth_fail + string"

datatype auth_op =
    AIssue "string option" string string int
  | ARedeem string string string int
  | AGrant string "string list option" int bool string string int
  | ARevokeGrant string int
  | ALogout string int
  | ACleanup int
  | ASuspend int
  | AVerify string int
  | AChallenge string string string "string option" "auth_principal option" string string int
  | AExchange drawn string string string "string option" "string option" "string option" "string option" "auth_principal option" int
  | ARefresh drawn string string int
  | AUnlink auth_principal string int
  | AOther "profile table" "string list" "push_token table"

definition committed :: "('e, 's, 'a) outcome \<Rightarrow> ('e, 's, unit) outcome" where
  "committed r = (case r of Inl e \<Rightarrow> Inl e | Inr (s, _) \<Rightarrow> Inr (s, ()))"

lemma committed_Inr [simp]: "committed r = Inr (s, u) \<longleftrightarrow> (\<exists>a. r = Inr (s, a))"
  by (auto simp: committed_def split: sum.splits)

fun exec_auth :: "auth_env \<Rightarrow> auth_op \<Rightarrow> auth_db \<Rightarrow> (auth_fail, auth_db, unit) outcome" where
  "exec_auth v (AIssue secret token sid now) d = Inr (fst (issue_session (ae_sha v) (ae_vars v) secret token sid now d), ())"
| "exec_auth v (ARedeem acode token sid now) d = committed (issue_friend_beta_session (ae_sha v) (ae_vars v) acode token sid now d)"
| "exec_auth v (AGrant raw scopes ttl allow acode gid now) d =
     committed (create_friend_beta_access_grant (ae_sha v) (ae_vars v) (ae_hosted v) raw scopes ttl allow acode gid now d)"
| "exec_auth v (ARevokeGrant gid now) d = committed (revoke_friend_beta_access_grant gid now d)"
| "exec_auth v (ALogout token now) d = Inr (revoke_session (ae_sha v) token now d, ())"
| "exec_auth v (ACleanup now) d = Inr (fst (cleanup_sessions now d), ())"
| "exec_auth v (ASuspend now) d = Inr (suspend_friend_beta now d, ())"
| "exec_auth v (AVerify token now) d = Inr (fst (principal_from_token (ae_sha v) (ae_vars v) (ae_policy v) token now d), ())"
| "exec_auth v (AChallenge p action platform redirect who cid nonce now) d =
     committed (create_challenge (ae_sha v) (ae_ip_ok v) (ae_vars v) p action platform redirect who cid nonce now d)"
| "exec_auth v (AExchange fr p cid nonce token acode redirect shown who now) d =
     committed (exchange_challenge (ae_sha v) (ae_idp v) (ae_apple v) (ae_vars v) fr p cid nonce token acode redirect shown who now d)"
| "exec_auth v (ARefresh fr token platform now) d = Inr (fst (refresh_session (ae_sha v) (ae_vars v) fr token platform now d), ())"
| "exec_auth v (AUnlink who p now) d = committed (unlink_login_method who p now d)"
| "exec_auth v (AOther ps ob ds) d = Inr (d\<lparr>people := ps, onboarding := ob, devices := ds\<rparr>, ())"

definition empty_auth :: auth_db where
  "empty_auth = \<lparr>sessions = [], beta_grants = [], families = [], refreshes = [], logins = [], challenges = [], assertions = [],
     people = [], onboarding = [], devices = []\<rparr>"

lemma empty_auth_inv: "auth_inv empty_auth"
  by (simp add: auth_inv_def sess_ok_def empty_auth_def gsk.uniq_Nil bgk.uniq_Nil sfk.uniq_Nil rtk.uniq_Nil one_live_def)

subsection \<open>Writes that leave the session tables alone\<close>

definition same_auth :: "auth_db \<Rightarrow> auth_db \<Rightarrow> bool" where
  "same_auth d d' \<longleftrightarrow> (sessions d', beta_grants d', families d', refreshes d') = (sessions d, beta_grants d, families d, refreshes d)"

lemma same_auth_inv: "same_auth d d' \<Longrightarrow> auth_inv d' = auth_inv d"
  by (simp add: same_auth_def auth_inv_def)

lemma push_same [simp]: "sessions (revoke_push_delivery u n d) = sessions d" "beta_grants (revoke_push_delivery u n d) = beta_grants d"
  "families (revoke_push_delivery u n d) = families d" "refreshes (revoke_push_delivery u n d) = refreshes d"
  "logins (revoke_push_delivery u n d) = logins d" "challenges (revoke_push_delivery u n d) = challenges d"
  by (simp_all add: revoke_push_delivery_def)

lemma push_users_same [simp]: "sessions (revoke_push_users us n d) = sessions d" "beta_grants (revoke_push_users us n d) = beta_grants d"
  "families (revoke_push_users us n d) = families d" "refreshes (revoke_push_users us n d) = refreshes d"
  "challenges (revoke_push_users us n d) = challenges d"
  by (induction us arbitrary: d) simp_all

lemma profile_same [simp]: "sessions (ensure_profile u a b n d) = sessions d" "beta_grants (ensure_profile u a b n d) = beta_grants d"
  "families (ensure_profile u a b n d) = families d" "refreshes (ensure_profile u a b n d) = refreshes d"
  "logins (ensure_profile u a b n d) = logins d" "challenges (ensure_profile u a b n d) = challenges d"
  by (simp_all add: ensure_profile_def)

lemma fill_same [simp]: "sessions (fill_profile u a b n d) = sessions d" "beta_grants (fill_profile u a b n d) = beta_grants d"
  "families (fill_profile u a b n d) = families d" "refreshes (fill_profile u a b n d) = refreshes d"
  "challenges (fill_profile u a b n d) = challenges d"
  by (simp_all add: fill_profile_def)

lemma revoke_sessions_tables [simp]: "beta_grants (revoke_sessions P n d) = beta_grants d" "families (revoke_sessions P n d) = families d"
  "refreshes (revoke_sessions P n d) = refreshes d" "challenges (revoke_sessions P n d) = challenges d" "logins (revoke_sessions P n d) = logins d"
  "sessions (revoke_sessions P n d) = tbl_upd (\<lambda>s. P s \<and> gs_revoked s = None) (\<lambda>s. s\<lparr>gs_revoked := Some n\<rparr>) (sessions d)"
  by (simp_all add: revoke_sessions_def)

lemma challenges_same [simp]: "sessions (cleanup_challenges n d) = sessions d" "beta_grants (cleanup_challenges n d) = beta_grants d"
  "families (cleanup_challenges n d) = families d" "refreshes (cleanup_challenges n d) = refreshes d"
  by (simp_all add: cleanup_challenges_def Let_def)

lemma bind_login_same:
  "bind_login fr action c name owner now d = Inr (d', x) \<Longrightarrow> same_auth d d' \<and> challenges d' = challenges d"
  by (auto simp: bind_login_def same_auth_def Let_def split: option.splits if_splits)

lemma consume_same: "consume_challenge cid h a now d = Inr (d', x) \<Longrightarrow> same_auth d d'"
  by (auto simp: consume_challenge_def same_auth_def Let_def split: if_splits)

subsection \<open>The writes\<close>

lemma revoke_sessions_inv: "auth_inv d \<Longrightarrow> auth_inv (revoke_sessions P now d)"
  by (simp add: auth_inv_def sess_ok_revoke)

lemma revoke_family_inv: "auth_inv d \<Longrightarrow> auth_inv (revoke_family fid now reason d)"
  unfolding auth_inv_def revoke_family_def by simp (rule sess_ok_family, simp_all)

lemma revoke_grant_row_inv: "auth_inv d \<Longrightarrow> auth_inv (revoke_grant_row gid now d)"
  unfolding auth_inv_def revoke_grant_row_def by simp (rule sess_ok_grant)

lemma cleanup_families_inv: "auth_inv d \<Longrightarrow> auth_inv (cleanup_families now d)"
  unfolding auth_inv_def cleanup_families_def Let_def by simp (rule sess_ok_drop_families)

lemma cleanup_sessions_inv: "auth_inv d \<Longrightarrow> auth_inv (fst (cleanup_sessions now d))"
  by (simp add: auth_inv_def cleanup_sessions_def Let_def sess_ok_filter)

lemma revoke_families_inv: "auth_inv d \<Longrightarrow> auth_inv (revoke_families fs now d)"
  by (induction fs arbitrary: d) (simp_all add: revoke_family_inv)

lemma suspend_inv: "auth_inv d \<Longrightarrow> auth_inv (suspend_friend_beta now d)"
  using revoke_sessions_inv[of d "\<lambda>s. gs_grant s \<noteq> None" now] by (simp add: auth_inv_def suspend_friend_beta_def Let_def)

lemma verify_inv: "auth_inv d \<Longrightarrow> auth_inv (fst (verified_session env policy sel now d))"
  using suspend_inv by (auto simp: verified_session_def Let_def split: option.splits sum.splits)

lemma push_inv [simp]: "auth_inv (revoke_push_delivery u n d) = auth_inv d"
  by (simp add: auth_inv_def)

lemma revoke_session_inv: "auth_inv d \<Longrightarrow> auth_inv (revoke_session sha token now d)"
proof -
  assume inv: "auth_inv d"
  have "auth_inv (d\<lparr>sessions := tbl_upd (gs_sel h) (\<lambda>s. s\<lparr>gs_revoked := Some now\<rparr>) (sessions d)\<rparr>)" for h
    using inv by (simp add: auth_inv_def sess_ok_revoke)
  then show ?thesis using inv
    by (simp add: revoke_session_def Let_def revoke_provider_family_def revoke_grant_row_inv revoke_family_inv split: option.split)
qed

subsection \<open>Grants and sessions\<close>

lemma insert_sessionD:
  assumes "insert_session sha token sid user scopes now expires g f a d = Inr (d', s)"
  shows "s = \<lparr>gs_id = sid, gs_hash = sha token, gs_user = user, gs_scopes = scopes, gs_issued = now, gs_expires = expires,
               gs_revoked = None, gs_grant = g, gs_family = f, gs_account = a\<rparr>"
    and "\<not> tbl_ex (\<lambda>x. gs_id x = sid \<or> gs_hash x = gs_hash s) (sessions d)" and "d' = d\<lparr>sessions := sessions d @ [s]\<rparr>"
  using assms by (auto simp: insert_session_def Let_def split: if_splits)

lemma insert_session_inv:
  assumes inv: "auth_inv d" and st: "insert_session sha token sid user scopes now expires g f a d = Inr (d', s)"
    and b: "bound_session (beta_grants d) (families d) s"
    and one: "\<And>x. x \<in> set (sessions d) \<Longrightarrow> gs_live x \<Longrightarrow> gs_family x \<noteq> None \<Longrightarrow> gs_family x \<noteq> f"
      "\<And>x. x \<in> set (sessions d) \<Longrightarrow> gs_live x \<Longrightarrow> gs_grant x \<noteq> None \<Longrightarrow> gs_grant x \<noteq> g"
  shows "auth_inv d'"
proof -
  have s: "gs_family s = f" "gs_grant s = g" using insert_sessionD(1)[OF st] by simp_all
  have "sess_ok (sessions d @ [s]) (beta_grants d) (families d) (refreshes d)"
    using inv by (intro sess_ok_insert[OF _ insert_sessionD(2)[OF st] b]) (simp_all add: auth_inv_def s one)
  then show ?thesis using insert_sessionD(3)[OF st] by (simp add: auth_inv_def)
qed

lemma issue_inv: "auth_inv d \<Longrightarrow> auth_inv (fst (issue_session sha env secret token sid now d))"
proof -
  assume inv: "auth_inv d"
  let ?d1 = "fst (cleanup_sessions now d)"
  have i1: "auth_inv ?d1" using cleanup_sessions_inv[OF inv] .
  have "auth_inv d2" if "insert_session sha token sid user scopes now expires None None None (ensure_profile user [] [] now ?d1) = Inr (d2, s)"
    for d2 s user scopes expires
  proof (rule insert_session_inv[OF _ that])
    show "auth_inv (ensure_profile user [] [] now ?d1)" using i1 by (simp add: auth_inv_def)
    show "bound_session (beta_grants (ensure_profile user [] [] now ?d1)) (families (ensure_profile user [] [] now ?d1)) s"
      using insert_sessionD(1)[OF that] by (simp add: bound_session_def)
  qed simp_all
  then show ?thesis using inv i1 by (auto simp: issue_session_def Let_def split: sum.splits)
qed

lemma grant_inv:
  assumes inv: "auth_inv d" and st: "create_friend_beta_access_grant sha env hosted raw scopes ttl allow acode gid now d = Inr (d', g)"
  shows "auth_inv d'"
proof -
  have g: "\<not> tbl_ex (bg_sel (bg_id g)) (beta_grants d)" "bg_id g \<noteq> []"
    and d': "sessions d' = sessions d" "beta_grants d' = beta_grants d @ [g]" "families d' = families d" "refreshes d' = refreshes d"
    using st by (auto simp: create_friend_beta_access_grant_def Let_def tbl_ex_iff bg_sel_def split: sum.splits if_splits)
  show ?thesis using inv sess_ok_add_grant[OF _ g] by (simp add: auth_inv_def d')
qed

lemma revoke_grant_inv: "auth_inv d \<Longrightarrow> revoke_friend_beta_access_grant gid now d = Inr (d', b) \<Longrightarrow> auth_inv d'"
  using revoke_grant_row_inv[of d gid now] by (auto simp: revoke_friend_beta_access_grant_def Let_def split: if_splits option.splits)

lemma validated_known: "validated_scopes vs = Inr s \<Longrightarrow> set s \<subseteq> set KNOWN_SCOPES"
  by (auto simp: validated_scopes_def Let_def split: if_splits)

lemma ttl_capped: "configured_session_ttl env now (Some c) = Inr e \<Longrightarrow> e \<le> c"
  by (auto simp: configured_session_ttl_def Let_def split: option.splits if_splits)

lemma redeemD:
  assumes "issue_friend_beta_session sha env acode token sid now d = Inr (d', s)"
  obtains g scopes expires d2 where "tbl_get (\<lambda>g. bg_code g = sha acode) (beta_grants d) = Some g" "bg_revoked g = None" "now < bg_expires g"
    "configured_session_ttl env now (Some (bg_expires g)) = Inr expires" "''response'' \<notin> set scopes"
    "insert_session sha token sid (bg_user g) scopes now expires (Some (bg_id g)) None None
       (revoke_sessions (\<lambda>s. gs_grant s = Some (bg_id g)) now (fst (cleanup_sessions now d))) = Inr (d2, s)"
    "d' = d2\<lparr>beta_grants := tbl_upd (bg_sel (bg_id g)) (\<lambda>x. x\<lparr>bg_first := (case bg_first x of None \<Rightarrow> Some now | y \<Rightarrow> y),
                            bg_last := Some now\<rparr>) (beta_grants d2)\<rparr>"
  using assms by (auto simp: issue_friend_beta_session_def Let_def split: if_splits option.splits sum.splits)

lemma redeem_inv:
  assumes inv: "auth_inv d" and st: "issue_friend_beta_session sha env acode token sid now d = Inr (d', s)"
  shows "auth_inv d'"
using st proof (rule redeemD)
  fix g scopes expires d2
  assume g: "tbl_get (\<lambda>g. bg_code g = sha acode) (beta_grants d) = Some g" "bg_revoked g = None"
    and t: "configured_session_ttl env now (Some (bg_expires g)) = Inr expires" and r: "''response'' \<notin> set scopes"
    and i: "insert_session sha token sid (bg_user g) scopes now expires (Some (bg_id g)) None None
              (revoke_sessions (\<lambda>s. gs_grant s = Some (bg_id g)) now (fst (cleanup_sessions now d))) = Inr (d2, s)"
    and d': "d' = d2\<lparr>beta_grants := tbl_upd (bg_sel (bg_id g)) (\<lambda>x. x\<lparr>bg_first := (case bg_first x of None \<Rightarrow> Some now | y \<Rightarrow> y),
                            bg_last := Some now\<rparr>) (beta_grants d2)\<rparr>"
  let ?d1 = "revoke_sessions (\<lambda>s. gs_grant s = Some (bg_id g)) now (fst (cleanup_sessions now d))"
  have bg: "beta_grants ?d1 = beta_grants d" by (simp add: cleanup_sessions_def Let_def)
  have "auth_inv d2"
  proof (rule insert_session_inv[OF _ i])
    show "auth_inv ?d1" using revoke_sessions_inv[OF cleanup_sessions_inv[OF inv]] .
    have "grant_row s g" using insert_sessionD(1)[OF i] ttl_capped[OF t] g(2) by (simp add: grant_row_def)
    then show "bound_session (beta_grants ?d1) (families ?d1) s"
      unfolding bg bound_session_def using tbl_get_Some_iff[OF g(1)] insert_sessionD(1)[OF i] r by auto
    show "gs_grant x \<noteq> Some (bg_id g)" if "x \<in> set (sessions ?d1)" "gs_live x" for x
      using that(1) unfolding revoke_sessions_tables by (cases rule: tbl_updE) (use that(2) in \<open>auto simp: gs_live_def\<close>)
  qed simp
  then show ?thesis unfolding d' auth_inv_def by simp (rule sess_ok_touch_grant, simp_all)
qed

subsection \<open>Challenges, exchange and rotation\<close>

lemma create_challenge_inv:
  assumes inv: "auth_inv d" and st: "create_challenge sha ip_ok env p action platform redirect who cid nonce now d = Inr (d', c)"
  shows "auth_inv d'"
proof -
  have "same_auth (cleanup_families now d) d'"
    using st by (auto simp: create_challenge_def same_auth_def Let_def split: sum.splits if_splits)
  then show ?thesis using cleanup_families_inv[OF inv] same_auth_inv by blast
qed

lemma add_refreshD:
  assumes "add_refresh sha token f now until d = Inr (d', x)"
  shows "d' = d\<lparr>refreshes := refreshes d @ [\<lparr>rt_hash = sha token, rt_family = f, rt_issued = now, rt_expires = until, rt_consumed = None\<rparr>]\<rparr>"
    and "\<not> tbl_ex (rt_sel (sha token)) (refreshes d)"
  using assms by (auto simp: add_refresh_def split: if_splits)

lemma add_refresh_inv:
  assumes inv: "auth_inv d" and st: "add_refresh sha token f now until d = Inr (d', x)"
    and fam: "\<exists>y \<in> set (families d). sf_id y = f \<and> until \<le> sf_expires y"
    and one: "\<And>r. r \<in> set (refreshes d) \<Longrightarrow> rt_live r \<Longrightarrow> rt_family r \<noteq> f"
  shows "auth_inv d'"
proof -
  let ?r = "\<lparr>rt_hash = sha token, rt_family = f, rt_issued = now, rt_expires = until, rt_consumed = None\<rparr>"
  have "sess_ok (sessions d) (beta_grants d) (families d) (refreshes d @ [?r])"
    using inv add_refreshD(2)[OF st] fam one by (intro sess_ok_add_refresh) (auto simp: auth_inv_def refresh_row_def)
  then show ?thesis unfolding add_refreshD(1)[OF st] auth_inv_def by simp
qed

lemma payload_inv:
  assumes inv: "auth_inv d" and st: "session_payload sha env fr user account f scopes now until d = Inr (d', s)"
    and fam: "\<exists>y \<in> set (families d). sf_id y = f \<and> sf_expires y = until \<and> sf_revoked y = None \<and> sf_user y = user \<and> sf_account y = account"
    and r: "''response'' \<notin> set scopes"
    and one: "\<And>x. x \<in> set (sessions d) \<Longrightarrow> gs_live x \<Longrightarrow> gs_family x \<noteq> Some f"
  shows "auth_inv d'"
proof -
  obtain e where e: "configured_session_ttl env now (Some until) = Inr e"
    and i: "insert_session sha (fr_token fr) (fr_session fr) user scopes now e None (Some f) (Some account) d = Inr (d', s)"
    using st by (auto simp: session_payload_def split: sum.splits)
  show ?thesis
  proof (rule insert_session_inv[OF inv i])
    obtain y where y: "y \<in> set (families d)" "sf_id y = f" "sf_expires y = until" "sf_revoked y = None" "sf_user y = user" "sf_account y = account"
      using fam by blast
    have "family_row s y" using y insert_sessionD(1)[OF i] ttl_capped[OF e] by (simp add: family_row_def)
    then show "bound_session (beta_grants d) (families d) s"
      using y(1) insert_sessionD(1)[OF i] r by (auto simp: bound_session_def)
  qed (use one in auto)
qed

lemma open_familyD:
  assumes st: "open_family sha env fr ch user account scopes now d = Inr (d', s)"
  obtains until f d1 d2 where "\<not> tbl_ex (sf_sel (family_id fr)) (families d)"
    "(sf_id f, sf_user f, sf_account f, sf_expires f, sf_revoked f) = (family_id fr, user, account, until, None)"
    "d1 = d\<lparr>onboarding := (if user \<in> set (onboarding d) then onboarding d else onboarding d @ [user]), families := families d @ [f]\<rparr>"
    "add_refresh sha (new_refresh_token fr) (family_id fr) now until d1 = Inr (d2, ())"
    "session_payload sha env fr user account (family_id fr) scopes now until d2 = Inr (d', s)"
proof -
  obtain until where u: "refresh_expiry env now = Inr until" using st by (auto simp: open_family_def split: sum.splits)
  have fresh: "\<not> tbl_ex (sf_sel (family_id fr)) (families d)" using st u by (auto simp: open_family_def)
  define f where f: "f = \<lparr>sf_id = family_id fr, sf_user = user, sf_account = account, sf_provider = ch_provider ch, sf_platform = ch_platform ch,
                 sf_scopes = scopes, sf_created = now, sf_expires = until, sf_rotated = now, sf_revoked = None, sf_reason = None\<rparr>"
  define d1 where d1_def: "d1 = d\<lparr>onboarding := (if user \<in> set (onboarding d) then onboarding d else onboarding d @ [user]), families := families d @ [f]\<rparr>"
  obtain d2 where ar: "add_refresh sha (new_refresh_token fr) (family_id fr) now until d1 = Inr (d2, ())"
    and sp: "session_payload sha env fr user account (family_id fr) scopes now until d2 = Inr (d', s)"
    using st u fresh by (auto simp: open_family_def Let_def d1_def f split: sum.splits)
  show ?thesis by (rule that[OF fresh _ d1_def ar sp]) (simp add: f)
qed

lemma open_family_inv:
  assumes inv: "auth_inv d" and st: "open_family sha env fr ch user account scopes now d = Inr (d', s)" and r: "''response'' \<notin> set scopes"
  shows "auth_inv d'"
using st proof (rule open_familyD)
  fix until f d1 d2
  assume fresh: "\<not> tbl_ex (sf_sel (family_id fr)) (families d)"
    and f: "(sf_id f, sf_user f, sf_account f, sf_expires f, sf_revoked f) = (family_id fr, user, account, until, None)"
    and d1_def: "d1 = d\<lparr>onboarding := (if user \<in> set (onboarding d) then onboarding d else onboarding d @ [user]), families := families d @ [f]\<rparr>"
    and ar: "add_refresh sha (new_refresh_token fr) (family_id fr) now until d1 = Inr (d2, ())"
    and sp: "session_payload sha env fr user account (family_id fr) scopes now until d2 = Inr (d', s)"
  have d1: "sessions d1 = sessions d" "beta_grants d1 = beta_grants d" "families d1 = families d @ [f]" "refreshes d1 = refreshes d" by (simp_all add: d1_def)
  have i1: "auth_inv d1" using inv sess_ok_add_family[of "sessions d" "beta_grants d" "families d" "refreshes d" f] fresh f
    by (simp add: auth_inv_def d1 family_id_def)
  have new: "sf_id y \<noteq> family_id fr" if "y \<in> set (families d)" for y using fresh that by (auto simp: tbl_ex_iff sf_sel_def)
  have i2: "auth_inv d2"
  proof (rule add_refresh_inv[OF i1 ar])
    show "rt_family r \<noteq> family_id fr" if "r \<in> set (refreshes d1)" for r
      using inv that new by (auto simp: auth_inv_def sess_ok_def refresh_row_def d1)
  qed (use f in \<open>auto simp: d1\<close>)
  have d2: "sessions d2 = sessions d" "families d2 = families d @ [f]" using add_refreshD(1)[OF ar] d1 by simp_all
  show ?thesis
  proof (rule payload_inv[OF i2 sp _ r])
    show "\<exists>y \<in> set (families d2). sf_id y = family_id fr \<and> sf_expires y = until \<and> sf_revoked y = None \<and> sf_user y = user \<and> sf_account y = account"
      unfolding d2 by (rule bexI[of _ f]) (use f in simp_all)
    show "gs_family x \<noteq> Some (family_id fr)" if "x \<in> set (sessions d2)" for x
      using inv that new by (auto simp: auth_inv_def sess_ok_def bound_session_def family_row_def d2)
  qed
qed

lemma exchange_commitD:
  assumes st: "exchange_commit sha env fr cid c name scopes who now d = Inr (d', s)"
  obtains ch d1 d2 user account where "tbl_get (ch_sel cid) (challenges d) = Some ch" "ch_consumed ch = None" "now < ch_expires ch"
    "bind_login fr (ch_action ch) c name (map_option pr_user who) now d = Inr (d1, user, account)"
    "consume_challenge cid (pc_assertion c) account now (fill_profile user name (pc_email c) now d1) = Inr (d2, ())"
    "(ch_action ch = ''link'' \<and> s = None \<and> d' = d2) \<or> (\<exists>s'. s = Some s' \<and> open_family sha env fr ch user account scopes now d2 = Inr (d', s'))"
proof -
  obtain ch where ch: "tbl_get (ch_sel cid) (challenges d) = Some ch" using st by (auto simp: exchange_commit_def split: option.splits)
  obtain d1 user account where b: "bind_login fr (ch_action ch) c name (map_option pr_user who) now d = Inr (d1, user, account)"
    using st ch by (auto simp: exchange_commit_def split: sum.splits if_splits)
  obtain d2 where c: "consume_challenge cid (pc_assertion c) account now (fill_profile user name (pc_email c) now d1) = Inr (d2, ())"
    using st ch b by (auto simp: exchange_commit_def split: sum.splits if_splits)
  show ?thesis using st ch b c by (intro that[OF ch _ _ b c]) (auto simp: exchange_commit_def split: sum.splits if_splits)
qed

lemma exchange_commit_inv:
  assumes inv: "auth_inv d" and st: "exchange_commit sha env fr cid c name scopes who now d = Inr (d', s)" and r: "''response'' \<notin> set scopes"
  shows "auth_inv d'"
using st proof (rule exchange_commitD)
  fix ch d1 d2 user account
  assume b: "bind_login fr (ch_action ch) c name (map_option pr_user who) now d = Inr (d1, user, account)"
    and c: "consume_challenge cid (pc_assertion c) account now (fill_profile user name (pc_email c) now d1) = Inr (d2, ())"
    and rest: "(ch_action ch = ''link'' \<and> s = None \<and> d' = d2) \<or> (\<exists>s'. s = Some s' \<and> open_family sha env fr ch user account scopes now d2 = Inr (d', s'))"
  have "same_auth d d1" using bind_login_same[OF b] by simp
  moreover have "same_auth (fill_profile user name (pc_email c) now d1) d2" by (rule consume_same[OF c])
  ultimately have "auth_inv d2" using inv by (simp add: same_auth_def auth_inv_def)
  then show ?thesis using rest r by (auto intro: open_family_inv)
qed

lemma provider_scopes_no_response: "provider_scopes env = Inr scopes \<Longrightarrow> ''response'' \<notin> set scopes \<and> set scopes \<subseteq> set KNOWN_SCOPES"
  using validated_known by (auto simp: provider_scopes_def split: sum.splits if_splits)

lemma exchange_challengeD:
  assumes "exchange_challenge sha ip apple env fr p cid nonce token acode redirect shown who now d = Inr (d', s)"
  obtains ch c name scopes where "tbl_get (ch_sel cid) (challenges d) = Some ch" "challenge_fits sha p nonce who now ch" "redirect = ch_redirect ch"
    "provider_scopes env = Inr scopes" "exchange_commit sha env fr cid c name scopes who now d = Inr (d', s)"
  using assms by (auto simp: exchange_challenge_def split: if_splits option.splits sum.splits)

lemma exchange_inv:
  "auth_inv d \<Longrightarrow> exchange_challenge sha ip apple env fr p cid nonce token acode redirect shown who now d = Inr (d', s) \<Longrightarrow> auth_inv d'"
  by (erule exchange_challengeD) (use exchange_commit_inv provider_scopes_no_response in blast)

lemma rotate_inv:
  assumes inv: "auth_inv d" and st: "rotate sha env fr f r now d = Inr (d', s)"
    and f: "f \<in> set (families d)" "sf_revoked f = None" and r: "r \<in> set (refreshes d)" "rt_family r = sf_id f" "rt_consumed r = None"
  shows "auth_inv d'"
proof -
  define d1 where "d1 = revoke_sessions (\<lambda>s. gs_family s = Some (sf_id f)) now
      (d\<lparr>refreshes := tbl_upd (\<lambda>x. rt_sel (rt_hash r) x \<and> rt_consumed x = None) (\<lambda>x. x\<lparr>rt_consumed := Some now\<rparr>) (refreshes d)\<rparr>)"
  define scopes where "scopes = filter (\<lambda>s. s \<noteq> []) (sf_scopes f)"
  obtain d2 where resp: "''response'' \<notin> set scopes"
    and ar: "add_refresh sha (new_refresh_token fr) (sf_id f) now (sf_expires f) d1 = Inr (d2, ())"
    and sp: "session_payload sha env fr (sf_user f) (sf_account f) (sf_id f) scopes now (sf_expires f)
               (d2\<lparr>families := tbl_upd (sf_sel (sf_id f)) (\<lambda>x. x\<lparr>sf_rotated := now\<rparr>) (families d2)\<rparr>) = Inr (d', s)"
    using st by (auto simp: rotate_def Let_def d1_def scopes_def split: sum.splits if_splits)
  have "auth_inv (d\<lparr>refreshes := tbl_upd (\<lambda>x. rt_sel (rt_hash r) x \<and> rt_consumed x = None) (\<lambda>x. x\<lparr>rt_consumed := Some now\<rparr>) (refreshes d)\<rparr>)"
    using inv by (simp add: auth_inv_def sess_ok_consume)
  then have i1: "auth_inv d1" unfolding d1_def by (rule revoke_sessions_inv)
  have used: "rt_family x \<noteq> sf_id f" if x: "x \<in> set (refreshes d1)" "rt_live x" for x
  proof -
    have "x \<in> set (tbl_upd (\<lambda>x. rt_sel (rt_hash r) x \<and> rt_consumed x = None) (\<lambda>x. x\<lparr>rt_consumed := Some now\<rparr>) (refreshes d))"
      using x(1) by (simp add: d1_def)
    then have "x \<in> set (refreshes d) \<and> \<not> rt_sel (rt_hash r) x"
      by (cases rule: tbl_updE) (use x(2) in \<open>auto simp: rt_live_def\<close>)
    then show ?thesis using inv r x(2) unfolding auth_inv_def sess_ok_def one_live_def rt_live_def rt_sel_def by (metis option.discI)
  qed
  have fam: "families d2 = families d" "sessions d2 = sessions d1" using add_refreshD(1)[OF ar] by (simp_all add: d1_def)
  have i2: "auth_inv d2" by (rule add_refresh_inv[OF i1 ar _ used]) (use f(1) in \<open>auto simp: d1_def\<close>)
  show ?thesis
  proof (rule payload_inv[OF _ sp _ resp])
    show "auth_inv (d2\<lparr>families := tbl_upd (sf_sel (sf_id f)) (\<lambda>x. x\<lparr>sf_rotated := now\<rparr>) (families d2)\<rparr>)"
      using i2 unfolding auth_inv_def by simp (rule sess_ok_touch_family, simp_all)
    have touched: "(if sf_sel (sf_id f) f then f\<lparr>sf_rotated := now\<rparr> else f) \<in> set (tbl_upd (sf_sel (sf_id f)) (\<lambda>x. x\<lparr>sf_rotated := now\<rparr>) (families d))"
      unfolding set_tbl_upd by (rule imageI) (rule f(1))
    show "\<exists>y \<in> set (families (d2\<lparr>families := tbl_upd (sf_sel (sf_id f)) (\<lambda>x. x\<lparr>sf_rotated := now\<rparr>) (families d2)\<rparr>)).
        sf_id y = sf_id f \<and> sf_expires y = sf_expires f \<and> sf_revoked y = None \<and> sf_user y = sf_user f \<and> sf_account y = sf_account f"
      by (rule bexI[of _ "f\<lparr>sf_rotated := now\<rparr>"]) (use f(2) touched in \<open>simp_all add: fam sf_sel_def\<close>)
    show "gs_family x \<noteq> Some (sf_id f)"
      if "x \<in> set (sessions (d2\<lparr>families := tbl_upd (sf_sel (sf_id f)) (\<lambda>x. x\<lparr>sf_rotated := now\<rparr>) (families d2)\<rparr>))" "gs_live x" for x
    proof -
      have "x \<in> set (tbl_upd (\<lambda>s. gs_family s = Some (sf_id f) \<and> gs_revoked s = None) (\<lambda>s. s\<lparr>gs_revoked := Some now\<rparr>) (sessions d))"
        using that(1) by (simp add: fam d1_def)
      then show ?thesis by (cases rule: tbl_updE) (use that(2) in \<open>auto simp: gs_live_def\<close>)
    qed
  qed
qed

lemma refresh_inv:
  assumes inv: "auth_inv d"
  shows "auth_inv (fst (refresh_session sha env fr token platform now d))"
proof -
  let ?d1 = "cleanup_families now d"
  have i1: "auth_inv ?d1" by (rule cleanup_families_inv[OF inv])
  have "auth_inv d2" if "rotate sha env fr f r now ?d1 = Inr (d2, s)" "tbl_get (sf_sel (rt_family r)) (families ?d1) = Some f"
    "tbl_get (rt_sel h) (refreshes ?d1) = Some r" "rt_consumed r = None" "refresh_ready now f r a" for d2 s f r h a
    using rotate_inv[OF i1 that(1)] tbl_get_Some_iff[OF that(2)] tbl_get_Some_iff[OF that(3)] that(4,5)
    by (simp add: refresh_ready_def sf_sel_def)
  then show ?thesis using inv i1
    by (auto simp: refresh_session_def Let_def revoke_family_inv split: option.splits sum.splits)
qed

lemma unlink_inv:
  assumes "auth_inv d" and "unlink_login_method who p now d = Inr (d', x)"
  shows "auth_inv d'"
proof -
  have "auth_inv (d\<lparr>logins := l\<rparr>)" for l using assms(1) by (simp add: auth_inv_def)
  then show ?thesis using assms(2) by (auto simp: unlink_login_method_def Let_def revoke_families_inv split: option.splits if_splits)
qed

subsection \<open>All operations\<close>

lemma other_inv: "auth_inv (d\<lparr>people := ps, onboarding := ob, devices := ds\<rparr>) = auth_inv d"
  by (simp add: auth_inv_def)

lemma exec_auth_inv: "auth_inv d \<Longrightarrow> exec_auth v q d = Inr (d', a) \<Longrightarrow> auth_inv d'"
proof (cases q)
  case (AVerify token now)
  show "auth_inv d \<Longrightarrow> exec_auth v q d = Inr (d', a) \<Longrightarrow> auth_inv d'"
    using verify_inv unfolding AVerify by (auto simp: principal_from_token_def split: option.splits)
next
  case (AExchange fr p cid nonce token acode redirect shown who now)
  show "auth_inv d \<Longrightarrow> exec_auth v q d = Inr (d', a) \<Longrightarrow> auth_inv d'"
    unfolding AExchange by (auto intro: exchange_inv)
qed (auto intro: issue_inv redeem_inv grant_inv revoke_grant_inv revoke_session_inv cleanup_sessions_inv suspend_inv create_challenge_inv
      refresh_inv unlink_inv simp: other_inv)

interpretation gateway_auth: transactional "exec_auth v" auth_inv "\<lambda>_. True" for v
  by unfold_locales (rule exec_auth_inv)

end
