(* ===== verification/Session_History.thy ===== *)
theory Session_History
  imports Session_System
begin

text \<open>
  What no operation undoes: a revoked bearer, family or grant, a used refresh token and a used challenge stay
  so (or their rows are deleted), as long as nobody draws the same random token or id again. \<open>after H I\<close> is this
  order on databases for the digests \<open>H\<close> and the ids \<open>I\<close>.
\<close>

definition rows_from :: "('r \<Rightarrow> bool) \<Rightarrow> ('r \<Rightarrow> 'r \<Rightarrow> bool) \<Rightarrow> 'r table \<Rightarrow> 'r table \<Rightarrow> bool" where
  "rows_from Q R t u \<longleftrightarrow> (\<forall>y \<in> set u. Q y \<longrightarrow> (\<exists>x \<in> set t. Q x \<and> R x y))"

lemma rows_from_sub: "(\<And>x. R x x) \<Longrightarrow> set u \<subseteq> set t \<Longrightarrow> rows_from Q R t u"
  unfolding rows_from_def by blast

lemma rows_from_upd:
  assumes "\<And>x. R x x" and "\<And>x. P x \<Longrightarrow> R x (f x)" and "\<And>x. P x \<Longrightarrow> Q (f x) \<Longrightarrow> Q x"
  shows "rows_from Q R t (tbl_upd P f t)"
proof -
  have "\<exists>x \<in> set t. Q x \<and> R x y" if "y \<in> set (tbl_upd P f t)" "Q y" for y
    using that(1) by (cases rule: tbl_updE) (use assms that(2) in blast)+
  then show ?thesis by (simp add: rows_from_def)
qed

lemma rows_from_add: "(\<And>x. R x x) \<Longrightarrow> \<not> Q r \<Longrightarrow> rows_from Q R t (t @ [r])"
  unfolding rows_from_def by auto

lemma rows_from_trans: "(\<And>a b c. R a b \<Longrightarrow> R b c \<Longrightarrow> R a c) \<Longrightarrow> rows_from Q R t u \<Longrightarrow> rows_from Q R u v \<Longrightarrow> rows_from Q R t v"
  unfolding rows_from_def by meson

definition gs_after :: "gateway_session \<Rightarrow> gateway_session \<Rightarrow> bool" where
  "gs_after s s' \<longleftrightarrow> (gs_hash s', gs_family s', gs_grant s') = (gs_hash s, gs_family s, gs_grant s) \<and> (gs_revoked s \<noteq> None \<longrightarrow> gs_revoked s' \<noteq> None)"

definition sf_after :: "session_family \<Rightarrow> session_family \<Rightarrow> bool" where
  "sf_after f f' \<longleftrightarrow> sf_id f' = sf_id f \<and> (sf_revoked f \<noteq> None \<longrightarrow> sf_revoked f' \<noteq> None)"

definition bg_after :: "beta_grant \<Rightarrow> beta_grant \<Rightarrow> bool" where
  "bg_after g g' \<longleftrightarrow> (bg_id g', bg_code g') = (bg_id g, bg_code g) \<and> (bg_revoked g \<noteq> None \<longrightarrow> bg_revoked g' \<noteq> None)"

definition rt_after :: "refresh_token \<Rightarrow> refresh_token \<Rightarrow> bool" where
  "rt_after r r' \<longleftrightarrow> (rt_hash r', rt_family r') = (rt_hash r, rt_family r) \<and> (rt_consumed r \<noteq> None \<longrightarrow> rt_consumed r' \<noteq> None)"

definition ch_after :: "challenge \<Rightarrow> challenge \<Rightarrow> bool" where
  "ch_after c c' \<longleftrightarrow> ch_id c' = ch_id c \<and> (ch_consumed c \<noteq> None \<longrightarrow> ch_consumed c' \<noteq> None)"

lemmas row_after = gs_after_def sf_after_def bg_after_def rt_after_def ch_after_def

lemma row_after_refl [simp]: "gs_after s s" "sf_after f f" "bg_after g g" "rt_after r r" "ch_after c c"
  by (simp_all add: row_after)

definition after :: "string set \<Rightarrow> string set \<Rightarrow> auth_db \<Rightarrow> auth_db \<Rightarrow> bool" where
  "after H I d d' \<longleftrightarrow> rows_from (\<lambda>s. gs_hash s \<in> H) gs_after (sessions d) (sessions d')
     \<and> rows_from (\<lambda>f. sf_id f \<in> I) sf_after (families d) (families d')
     \<and> rows_from (\<lambda>g. bg_id g \<in> I) bg_after (beta_grants d) (beta_grants d')
     \<and> rows_from (\<lambda>r. rt_hash r \<in> H) rt_after (refreshes d) (refreshes d')
     \<and> rows_from (\<lambda>c. ch_id c \<in> I) ch_after (challenges d) (challenges d')"

lemma after_refl [simp]: "after H I d d"
  by (simp add: after_def rows_from_sub)

lemma after_trans: "after H I a b \<Longrightarrow> after H I b c \<Longrightarrow> after H I a c"
  unfolding after_def by (intro conjI; elim conjE; erule (1) rows_from_trans[rotated 1]) (auto simp: row_after)

fun drawn_tokens :: "auth_op \<Rightarrow> string list" where
  "drawn_tokens (AIssue secret token sid now) = [token]"
| "drawn_tokens (ARedeem acode token sid now) = [token]"
| "drawn_tokens (AExchange fr p cid nonce token acode redirect shown who now) = [fr_token fr, new_refresh_token fr]"
| "drawn_tokens (ARefresh fr token platform now) = [fr_token fr, new_refresh_token fr]"
| "drawn_tokens _ = []"

fun drawn_ids :: "auth_op \<Rightarrow> string list" where
  "drawn_ids (AGrant raw scopes ttl allow acode gid now) = [''fbg_'' @ gid]"
| "drawn_ids (AChallenge p action platform redirect who cid nonce now) = [''pac_'' @ cid]"
| "drawn_ids (AExchange fr p cid nonce token acode redirect shown who now) = [family_id fr]"
| "drawn_ids _ = []"

definition draws_clear :: "auth_env \<Rightarrow> string set \<Rightarrow> string set \<Rightarrow> auth_op \<Rightarrow> bool" where
  "draws_clear v H I q \<longleftrightarrow> (\<forall>t \<in> set (drawn_tokens q). ae_sha v t \<notin> H) \<and> set (drawn_ids q) \<inter> I = {}"

subsection \<open>The writes\<close>

lemma after_same: "same_auth d d' \<Longrightarrow> challenges d' = challenges d \<Longrightarrow> after H I d d'"
  by (simp add: after_def same_auth_def rows_from_sub)

lemma after_push: "after H I d (revoke_push_delivery u n d)" "after H I d (revoke_push_users us n d)" "after H I d (ensure_profile u a b n d)"
  "after H I d (fill_profile u x y n d)"
  by (simp_all add: after_same same_auth_def)

lemma after_revoke: "after H I d (revoke_sessions P n d)"
  by (simp add: after_def rows_from_sub) (rule rows_from_upd, simp_all add: row_after)

lemma after_family: "after H I d (revoke_family fid n reason d)"
proof -
  let ?d = "d\<lparr>families := tbl_upd (sf_sel fid) (\<lambda>f. f\<lparr>sf_revoked := (case sf_revoked f of None \<Rightarrow> Some n | t \<Rightarrow> t), sf_reason := reason f\<rparr>) (families d)\<rparr>"
  have "after H I d ?d" by (simp add: after_def rows_from_sub) (rule rows_from_upd, auto simp: row_after split: option.split)
  then show ?thesis unfolding revoke_family_def using after_revoke after_trans by blast
qed

lemma after_grant_row: "after H I d (revoke_grant_row gid n d)"
proof -
  let ?d = "d\<lparr>beta_grants := tbl_upd (\<lambda>g. bg_sel gid g \<and> bg_revoked g = None) (\<lambda>g. g\<lparr>bg_revoked := Some n\<rparr>) (beta_grants d)\<rparr>"
  have "after H I d ?d" by (simp add: after_def rows_from_sub) (rule rows_from_upd, auto simp: row_after)
  then show ?thesis unfolding revoke_grant_row_def using after_revoke after_trans by blast
qed

lemma after_cleanup: "after H I d (cleanup_families n d)" "after H I d (cleanup_challenges n d)" "after H I d (fst (cleanup_sessions n d))"
  by (auto simp: after_def cleanup_families_def cleanup_challenges_def cleanup_sessions_def Let_def intro!: rows_from_sub)

lemma after_suspend: "after H I d (suspend_friend_beta n d)"
  unfolding suspend_friend_beta_def Let_def using after_revoke after_push(2) after_trans by blast

lemma after_insert: "insert_session sha token sid user scopes now e g f a d = Inr (d', s) \<Longrightarrow> sha token \<notin> H \<Longrightarrow> after H I d d'"
  using insert_sessionD[of sha token sid user scopes now e g f a d d' s] by (simp add: after_def rows_from_sub rows_from_add)

lemma after_add_refresh: "add_refresh sha token f now until d = Inr (d', x) \<Longrightarrow> sha token \<notin> H \<Longrightarrow> after H I d d'"
  using add_refreshD[of sha token f now until d d' x] by (simp add: after_def rows_from_sub rows_from_add)

lemma after_consume: "consume_challenge cid h a now d = Inr (d', x) \<Longrightarrow> after H I d d'"
  by (auto simp: consume_challenge_def Let_def after_def rows_from_sub row_after split: if_splits intro!: rows_from_upd)

subsection \<open>The operations\<close>

lemma after_families: "after H I d (revoke_families fs n d)"
proof (induction fs arbitrary: d)
  case (Cons f fs)
  show ?case using after_trans[OF after_family Cons] by simp
qed simp

lemma after_touch_grant: "after H I d d2 \<Longrightarrow> (\<And>g. bg_after g (f g)) \<Longrightarrow> after H I d (d2\<lparr>beta_grants := tbl_upd P f (beta_grants d2)\<rparr>)"
  by (erule after_trans) (auto simp: after_def rows_from_sub row_after intro!: rows_from_upd)

lemma after_touch_family: "after H I d d2 \<Longrightarrow> (\<And>x. sf_after x (f x)) \<Longrightarrow> after H I d (d2\<lparr>families := tbl_upd P f (families d2)\<rparr>)"
  by (erule after_trans) (auto simp: after_def rows_from_sub row_after intro!: rows_from_upd)

lemma after_issue:
  assumes "sha token \<notin> H"
  shows "after H I d (fst (issue_session sha env secret token sid now d))"
proof -
  let ?d1 = "fst (cleanup_sessions now d)"
  have "after H I d d2" if "insert_session sha token sid user scopes now expires None None None (ensure_profile user [] [] now ?d1) = Inr (d2, s)"
    for d2 s user scopes expires
    using after_insert[OF that assms] after_cleanup(3) after_push(3) after_trans by meson
  then show ?thesis using after_cleanup(3) by (auto simp: issue_session_def Let_def split: sum.splits)
qed

lemma after_redeem:
  assumes st: "issue_friend_beta_session sha env acode token sid now d = Inr (d', s)" and H: "sha token \<notin> H"
  shows "after H I d d'"
using st proof (rule redeemD)
  fix g scopes expires d2
  assume i: "insert_session sha token sid (bg_user g) scopes now expires (Some (bg_id g)) None None
              (revoke_sessions (\<lambda>s. gs_grant s = Some (bg_id g)) now (fst (cleanup_sessions now d))) = Inr (d2, s)"
    and d': "d' = d2\<lparr>beta_grants := tbl_upd (bg_sel (bg_id g)) (\<lambda>x. x\<lparr>bg_first := (case bg_first x of None \<Rightarrow> Some now | y \<Rightarrow> y),
                            bg_last := Some now\<rparr>) (beta_grants d2)\<rparr>"
  have "after H I d d2" using after_insert[OF i H] after_cleanup(3) after_revoke after_trans by meson
  then show ?thesis unfolding d' by (rule after_touch_grant) (simp_all add: row_after)
qed

lemma after_create_grant:
  assumes st: "create_friend_beta_access_grant sha env hosted raw scopes ttl allow acode gid now d = Inr (d', g)" and I: "''fbg_'' @ gid \<notin> I"
  shows "after H I d d'"
proof -
  have "bg_id g = ''fbg_'' @ gid" "same_auth (d\<lparr>beta_grants := beta_grants d @ [g]\<rparr>) d'" "challenges d' = challenges d"
    using st by (auto simp: create_friend_beta_access_grant_def Let_def same_auth_def split: sum.splits if_splits)
  then show ?thesis using I by (simp add: after_def same_auth_def rows_from_sub rows_from_add)
qed

lemma after_logout: "after H I d (revoke_session sha token now d)"
proof -
  have a: "after H I d (d\<lparr>sessions := tbl_upd (gs_sel h) (\<lambda>s. s\<lparr>gs_revoked := Some now\<rparr>) (sessions d)\<rparr>)" for h
    by (simp add: after_def rows_from_sub) (rule rows_from_upd, simp_all add: row_after)
  have "after H I d (revoke_push_delivery u now (revoke_grant_row gid now d2))" "after H I d (revoke_provider_family fid u now d2)"
    if "after H I d d2" for d2 u gid fid
    using that after_push(1) after_grant_row after_family after_trans unfolding revoke_provider_family_def by meson+
  then show ?thesis using a by (simp add: revoke_session_def Let_def split: option.split)
qed

lemma after_challenge:
  assumes st: "create_challenge sha ip_ok env p action platform redirect who cid nonce now d = Inr (d', c)" and I: "''pac_'' @ cid \<notin> I"
  shows "after H I d d'"
proof -
  let ?d1 = "cleanup_challenges now (cleanup_families now d)"
  have "d' = ?d1\<lparr>challenges := challenges ?d1 @ [c]\<rparr>" "ch_id c = ''pac_'' @ cid"
    using st by (auto simp: create_challenge_def new_challenge_def Let_def split: sum.splits if_splits)
  then have "after H I ?d1 d'" using I by (simp add: after_def rows_from_sub rows_from_add)
  then show ?thesis by (rule after_trans[OF after_trans[OF after_cleanup(1) after_cleanup(2)]])
qed

lemma after_payload: "session_payload sha env fr user account f scopes now until d = Inr (d', s) \<Longrightarrow> sha (fr_token fr) \<notin> H \<Longrightarrow> after H I d d'"
  by (auto simp: session_payload_def split: sum.splits intro: after_insert)

lemma after_open:
  assumes st: "open_family sha env fr ch user account scopes now d = Inr (d', s)"
    and H: "sha (fr_token fr) \<notin> H" "sha (new_refresh_token fr) \<notin> H" and I: "family_id fr \<notin> I"
  shows "after H I d d'"
using st proof (rule open_familyD)
  fix until f d1 d2
  assume d1: "(sf_id f, sf_user f, sf_account f, sf_expires f, sf_revoked f) = (family_id fr, user, account, until, None)"
      "d1 = d\<lparr>onboarding := (if user \<in> set (onboarding d) then onboarding d else onboarding d @ [user]), families := families d @ [f]\<rparr>"
    and ar: "add_refresh sha (new_refresh_token fr) (family_id fr) now until d1 = Inr (d2, ())"
    and sp: "session_payload sha env fr user account (family_id fr) scopes now until d2 = Inr (d', s)"
  have "after H I d d1" using I d1(1) by (simp add: d1(2) after_def rows_from_sub rows_from_add)
  then show ?thesis using after_add_refresh[OF ar H(2)] after_payload[OF sp H(1)] after_trans by blast
qed

lemma after_exchange:
  assumes st: "exchange_commit sha env fr cid c name scopes who now d = Inr (d', s)"
    and H: "sha (fr_token fr) \<notin> H" "sha (new_refresh_token fr) \<notin> H" and I: "family_id fr \<notin> I"
  shows "after H I d d'"
using st proof (rule exchange_commitD)
  fix ch d1 d2 user account
  assume b: "bind_login fr (ch_action ch) c name (map_option pr_user who) now d = Inr (d1, user, account)"
    and c: "consume_challenge cid (pc_assertion c) account now (fill_profile user name (pc_email c) now d1) = Inr (d2, ())"
    and rest: "(ch_action ch = ''link'' \<and> s = None \<and> d' = d2) \<or> (\<exists>s'. s = Some s' \<and> open_family sha env fr ch user account scopes now d2 = Inr (d', s'))"
  have "after H I d d1" using bind_login_same[OF b] by (simp add: after_same)
  then have a2: "after H I d d2" using after_consume[OF c] after_push(4) after_trans by meson
  show ?thesis using rest a2 by (auto intro: after_trans[OF a2 after_open[OF _ H I]])
qed

lemma after_rotate:
  assumes st: "rotate sha env fr f r now d = Inr (d', s)" and H: "sha (fr_token fr) \<notin> H" "sha (new_refresh_token fr) \<notin> H"
  shows "after H I d d'"
proof -
  let ?u = "d\<lparr>refreshes := tbl_upd (\<lambda>x. rt_sel (rt_hash r) x \<and> rt_consumed x = None) (\<lambda>x. x\<lparr>rt_consumed := Some now\<rparr>) (refreshes d)\<rparr>"
  obtain scopes d2 where ar: "add_refresh sha (new_refresh_token fr) (sf_id f) now (sf_expires f) (revoke_sessions (\<lambda>s. gs_family s = Some (sf_id f)) now ?u) = Inr (d2, ())"
    and sp: "session_payload sha env fr (sf_user f) (sf_account f) (sf_id f) scopes now (sf_expires f)
               (d2\<lparr>families := tbl_upd (sf_sel (sf_id f)) (\<lambda>x. x\<lparr>sf_rotated := now\<rparr>) (families d2)\<rparr>) = Inr (d', s)"
    using st by (auto simp: rotate_def Let_def split: sum.splits if_splits)
  have "after H I d ?u" by (simp add: after_def rows_from_sub) (rule rows_from_upd, auto simp: row_after)
  then have "after H I d d2" using after_add_refresh[OF ar H(2)] after_revoke after_trans by meson
  then have "after H I d (d2\<lparr>families := tbl_upd (sf_sel (sf_id f)) (\<lambda>x. x\<lparr>sf_rotated := now\<rparr>) (families d2)\<rparr>)"
    by (rule after_touch_family) (simp_all add: row_after)
  then show ?thesis using after_payload[OF sp H(1)] after_trans by blast
qed

lemma after_refresh:
  assumes H: "sha (fr_token fr) \<notin> H" "sha (new_refresh_token fr) \<notin> H"
  shows "after H I d (fst (refresh_session sha env fr token platform now d))"
proof -
  let ?d1 = "cleanup_families now d"
  have "after H I d (revoke_push_delivery u now (revoke_family fid now reason ?d1))" "after H I d (revoke_family fid now reason ?d1)" for u fid reason
    using after_cleanup(1) after_family after_push(1) after_trans by meson+
  moreover have "after H I d d2" if "rotate sha env fr f r now ?d1 = Inr (d2, s)" for f r d2 s
    using after_cleanup(1) after_rotate[OF that H] after_trans by blast
  ultimately show ?thesis by (auto simp: refresh_session_def Let_def split: option.splits sum.splits)
qed

lemma after_unlink: "unlink_login_method who p now d = Inr (d', x) \<Longrightarrow> after H I d d'"
proof -
  have "after H I d (revoke_families fs now (d\<lparr>logins := l\<rparr>))" for fs l
    using after_trans[OF _ after_families] after_same[of d "d\<lparr>logins := l\<rparr>"] by (simp add: same_auth_def)
  then show "unlink_login_method who p now d = Inr (d', x) \<Longrightarrow> after H I d d'"
    by (auto simp: unlink_login_method_def Let_def split: option.splits if_splits)
qed

lemma after_verify: "after H I d (fst (verified_session env policy sel now d))"
  using after_suspend by (auto simp: verified_session_def Let_def split: option.splits sum.splits)

lemma after_revoke_grant: "revoke_friend_beta_access_grant gid now d = Inr (d', b) \<Longrightarrow> after H I d d'"
  using after_trans[OF after_grant_row after_push(1)] after_grant_row
  by (auto simp: revoke_friend_beta_access_grant_def Let_def split: if_splits option.splits)

lemma exec_auth_after: "draws_clear v H I q \<Longrightarrow> exec_auth v q d = Inr (d', a) \<Longrightarrow> after H I d d'"
proof (cases q)
  case (AVerify token now)
  show "exec_auth v q d = Inr (d', a) \<Longrightarrow> after H I d d'"
    using after_verify unfolding AVerify by (auto simp: principal_from_token_def split: option.splits)
next
  case (AExchange fr p cid nonce token acode redirect shown who now)
  show "draws_clear v H I q \<Longrightarrow> exec_auth v q d = Inr (d', a) \<Longrightarrow> after H I d d'"
    unfolding AExchange by (auto simp: draws_clear_def elim!: exchange_challengeD intro: after_exchange)
next
  case (AOther ps ob ds)
  show "exec_auth v q d = Inr (d', a) \<Longrightarrow> after H I d d'" unfolding AOther by (auto simp: after_def rows_from_sub)
qed (auto simp: draws_clear_def intro: after_issue after_redeem after_create_grant after_revoke_grant after_logout after_cleanup after_suspend
      after_challenge after_refresh after_unlink)

interpretation auth_history: audited "exec_auth v" auth_inv "draws_clear v H I" "after H I" for v H I
  by unfold_locales (auto intro: exec_auth_inv after_trans exec_auth_after)

end
