(* ===== verification/Session_Properties.thy ===== *)
theory Session_Properties
  imports Session_History
begin

text \<open>The properties of gateway sessions and provider sign-in over every sequence of operations.\<close>

lemma verifiedD:
  assumes "verified_session env policy sel now d = (d', Inr p)"
  obtains s where "tbl_get sel (sessions d) = Some s" "session_ok now d s" "p = session_principal d s" "d' = d"
proof (cases "tbl_get sel (sessions d)")
  case None
  then show ?thesis using assms by (simp add: verified_session_def)
next
  case (Some s)
  have "session_ok now d s" using assms Some by (auto simp: verified_session_def Let_def split: if_split_asm)
  moreover have "p = session_principal d s \<and> d' = d"
    using assms Some unfolding verified_session_def Let_def by (simp split: if_split_asm) (auto split: sum.split_asm)
  ultimately show ?thesis using that Some by blast
qed

lemma authenticated:
  assumes "principal_from_token sha env policy token now d = (d', Inr p)"
  obtains s where "s \<in> set (sessions d)" "gs_hash s = sha token" "session_ok now d s" "p = session_principal d s" "d' = d"
proof -
  have "verified_session env policy (gs_sel (sha token)) now d = (d', Inr p)"
    using assms by (simp add: principal_from_token_def hash_token_def split: if_splits)
  then show ?thesis
  proof (rule verifiedD)
    fix s assume s: "tbl_get (gs_sel (sha token)) (sessions d) = Some s" and k: "session_ok now d s" "p = session_principal d s" "d' = d"
    show ?thesis using tbl_get_Some_iff[OF s] by (intro that[OF _ _ k]) (simp_all add: gs_sel_def)
  qed
qed

lemma authority_rows:
  assumes inv: "auth_inv d" and s: "s \<in> set (sessions d)" "gs_revoked s = None"
  shows "gs_family s = Some f \<Longrightarrow> \<exists>x \<in> set (families d). sf_id x = f \<and> sf_revoked x = None \<and> gs_expires s \<le> sf_expires x"
    and "gs_grant s = Some g \<Longrightarrow> \<exists>x \<in> set (beta_grants d). bg_id x = g \<and> bg_revoked x = None \<and> gs_expires s \<le> bg_expires x \<and> bg_user x = gs_user s"
  using assms by (fastforce simp: auth_inv_def sess_ok_def bound_session_def family_row_def grant_row_def gs_live_def)+

lemma no_response: "auth_inv d \<Longrightarrow> s \<in> set (sessions d) \<Longrightarrow> gs_family s \<noteq> None \<or> gs_grant s \<noteq> None \<Longrightarrow> ''response'' \<notin> set (gs_scopes s)"
  unfolding auth_inv_def sess_ok_def bound_session_def by blast

lemma one_bearer:
  assumes "auth_inv d" "s \<in> set (sessions d)" "s' \<in> set (sessions d)" "gs_revoked s = None" "gs_revoked s' = None"
  shows "gs_family s \<noteq> None \<Longrightarrow> gs_family s' = gs_family s \<Longrightarrow> s' = s" "gs_grant s \<noteq> None \<Longrightarrow> gs_grant s' = gs_grant s \<Longrightarrow> s' = s"
  using assms unfolding auth_inv_def sess_ok_def one_live_def gs_live_def by metis+

lemma one_refresh:
  "auth_inv d \<Longrightarrow> r \<in> set (refreshes d) \<Longrightarrow> r' \<in> set (refreshes d) \<Longrightarrow> rt_family r = rt_family r' \<Longrightarrow> rt_consumed r = None \<Longrightarrow> rt_consumed r' = None \<Longrightarrow> r = r'"
  unfolding auth_inv_def sess_ok_def one_live_def rt_live_def by (metis option.discI)

subsection \<open>Closed families and grants\<close>

definition closed_family :: "auth_db \<Rightarrow> string \<Rightarrow> bool" where
  "closed_family d k \<longleftrightarrow> (\<forall>f \<in> set (families d). sf_id f = k \<longrightarrow> sf_revoked f \<noteq> None)"

definition closed_grant :: "auth_db \<Rightarrow> string \<Rightarrow> bool" where
  "closed_grant d k \<longleftrightarrow> (\<forall>g \<in> set (beta_grants d). bg_id g = k \<longrightarrow> bg_revoked g \<noteq> None)"

definition closed_hash :: "auth_db \<Rightarrow> string \<Rightarrow> bool" where
  "closed_hash d h \<longleftrightarrow> (\<forall>s \<in> set (sessions d). gs_hash s = h \<longrightarrow> gs_revoked s \<noteq> None)"

lemma closed_after:
  "after H I d d' \<Longrightarrow> k \<in> I \<Longrightarrow> closed_family d k \<Longrightarrow> closed_family d' k" "after H I d d' \<Longrightarrow> k \<in> I \<Longrightarrow> closed_grant d k \<Longrightarrow> closed_grant d' k"
  unfolding after_def closed_family_def closed_grant_def rows_from_def by (fastforce simp: row_after)+

lemma closed_hash_after: "after H I d d' \<Longrightarrow> h \<in> H \<Longrightarrow> closed_hash d h \<Longrightarrow> closed_hash d' h"
  unfolding after_def closed_hash_def rows_from_def by (fastforce simp: row_after)

lemma closed_silent:
  assumes inv: "auth_inv d" and p: "principal_from_token sha env policy token now d = (d', Inr p)"
  shows "closed_family d k \<Longrightarrow> ap_family p \<noteq> Some k" "closed_grant d k \<Longrightarrow> ap_grant p \<noteq> Some k"
    "closed_hash d h \<Longrightarrow> sha token \<noteq> h"
proof -
  obtain s where s: "s \<in> set (sessions d)" "gs_hash s = sha token" "gs_revoked s = None" and ps: "ap_family p = gs_family s" "ap_grant p = gs_grant s"
    using p by (rule authenticated) (auto simp: session_ok_def session_principal_def)
  show "closed_family d k \<Longrightarrow> ap_family p \<noteq> Some k"
    using authority_rows(1)[OF inv s(1,3), of k] unfolding closed_family_def ps by fastforce
  show "closed_grant d k \<Longrightarrow> ap_grant p \<noteq> Some k"
    using authority_rows(2)[OF inv s(1,3), of k] unfolding closed_grant_def ps by fastforce
  show "closed_hash d h \<Longrightarrow> sha token \<noteq> h" using s unfolding closed_hash_def by fastforce
qed

lemma rotated_family:
  assumes "refresh_session sha env fr token platform now d = (d', Inr s)"
  obtains f r where "f \<in> set (families d)" "gs_family s = Some (sf_id f)" "sf_revoked f = None" "r \<in> set (refreshes d)" "rt_hash r = sha token" "rt_consumed r = None"
proof -
  let ?d1 = "cleanup_families now d"
  obtain r f a where r: "tbl_get (rt_sel (sha token)) (refreshes ?d1) = Some r" and f: "tbl_get (sf_sel (rt_family r)) (families ?d1) = Some f"
    and k: "rt_consumed r = None" "refresh_ready now f r a" and ro: "rotate sha env fr f r now ?d1 = Inr (d', s)"
    using assms by (auto simp: refresh_session_def Let_def split: if_splits option.splits sum.splits)
  have "gs_family s = Some (sf_id f)"
    using ro insert_sessionD(1) by (fastforce simp: rotate_def session_payload_def Let_def split: if_splits sum.splits)
  then show ?thesis using tbl_get_Some_iff[OF r] tbl_get_Some_iff[OF f] k
    by (intro that[of f r]) (auto simp: cleanup_families_def Let_def refresh_ready_def rt_sel_def)
qed

lemma closed_family_no_refresh:
  "closed_family d k \<Longrightarrow> refresh_session sha env fr token platform now d = (d', Inr s) \<Longrightarrow> gs_family s \<noteq> Some k"
  by (erule rotated_family) (auto simp: closed_family_def)

lemma families_revoked: "f \<in> set (families (revoke_family fid now reason d)) \<Longrightarrow> sf_id f = fid \<Longrightarrow> sf_revoked f \<noteq> None"
  unfolding revoke_family_def by simp (erule tbl_updE, auto simp: sf_sel_def split: option.splits)

lemma revoked_closed:
  "closed_family (revoke_family fid now reason d) fid" "closed_family (revoke_push_delivery u now (revoke_family fid now reason d)) fid"
  using families_revoked by (simp_all add: closed_family_def)

lemma grant_closed: "closed_grant (revoke_push_delivery u now (revoke_grant_row gid now d)) gid"
proof -
  have "bg_revoked g \<noteq> None" if "g \<in> set (tbl_upd (\<lambda>g. bg_sel gid g \<and> bg_revoked g = None) (\<lambda>g. g\<lparr>bg_revoked := Some now\<rparr>) (beta_grants d))" "bg_id g = gid" for g
    using that(1) by (cases rule: tbl_updE) (use that(2) in \<open>auto simp: bg_sel_def\<close>)
  then show ?thesis by (simp add: closed_grant_def revoke_grant_row_def)
qed

subsection \<open>Logout\<close>

lemma logout_closes:
  assumes h: "hash_token sha token = Some h" and s: "tbl_get (gs_sel h) (sessions d) = Some s"
  shows "closed_hash (revoke_session sha token now d) h"
    and "gs_grant s = Some g \<Longrightarrow> g \<noteq> [] \<Longrightarrow> closed_grant (revoke_session sha token now d) g"
    and "gs_grant s = None \<Longrightarrow> gs_family s = Some f \<Longrightarrow> f \<noteq> [] \<Longrightarrow> closed_family (revoke_session sha token now d) f"
proof -
  let ?d1 = "d\<lparr>sessions := tbl_upd (gs_sel h) (\<lambda>s. s\<lparr>gs_revoked := Some now\<rparr>) (sessions d)\<rparr>"
  have "gs_revoked x \<noteq> None" if "x \<in> set (tbl_upd (gs_sel h) (\<lambda>s. s\<lparr>gs_revoked := Some now\<rparr>) (sessions d))" "gs_hash x = h" for x
    using that(1) by (cases rule: tbl_updE) (use that(2) in \<open>auto simp: gs_sel_def\<close>)
  then have c: "closed_hash ?d1 h" by (simp add: closed_hash_def)
  have "after {h} {} ?d1 (revoke_session sha token now d)"
    using h s after_trans[OF after_grant_row after_push(1)] after_trans[OF after_family after_push(1)]
    by (simp add: revoke_session_def Let_def revoke_provider_family_def split: option.split)
  then show "closed_hash (revoke_session sha token now d) h" by (rule closed_hash_after[OF _ _ c]) simp
  show "gs_grant s = Some g \<Longrightarrow> g \<noteq> [] \<Longrightarrow> closed_grant (revoke_session sha token now d) g"
    using h s by (simp add: revoke_session_def Let_def present_def grant_closed)
  show "gs_grant s = None \<Longrightarrow> gs_family s = Some f \<Longrightarrow> f \<noteq> [] \<Longrightarrow> closed_family (revoke_session sha token now d) f"
    using h s by (simp add: revoke_session_def Let_def present_def revoke_provider_family_def revoked_closed)
qed

text \<open>C10. After a logout, whatever operations follow (none of which draws the same random token or id again),
  no bearer with its digest authenticates, nor does any bearer of its grant or of its sign-in family, and no
  refresh token of the family yields a session.\<close>

theorem logout_final:
  assumes inv: "auth_inv d" and h: "hash_token (ae_sha v) token = Some h" and s: "tbl_get (gs_sel h) (sessions d) = Some s"
    and qs: "list_all (draws_clear v {h} {k. gs_grant s = Some k \<or> gs_family s = Some k}) qs"
    and d': "d' = run_ops (exec_auth v) qs (revoke_session (ae_sha v) token now d)"
  shows "(\<forall>t p d2. principal_from_token (ae_sha v) env policy t now' d' = (d2, Inr p) \<longrightarrow>
        ae_sha v t \<noteq> h \<and> (gs_grant s \<noteq> None \<longrightarrow> ap_grant p \<noteq> gs_grant s) \<and> (gs_grant s = None \<and> gs_family s \<noteq> None \<longrightarrow> ap_family p \<noteq> gs_family s))
    \<and> (\<forall>fr t platform d2 s2. refresh_session (ae_sha v) env fr t platform now' d' = (d2, Inr s2) \<longrightarrow>
        gs_grant s = None \<and> gs_family s \<noteq> None \<longrightarrow> gs_family s2 \<noteq> gs_family s)"
proof -
  let ?I = "{k. gs_grant s = Some k \<or> gs_family s = Some k}"
  let ?d = "revoke_session (ae_sha v) token now d"
  have inv': "auth_inv ?d" using revoke_session_inv[OF inv] .
  have i: "auth_inv d'" unfolding d' by (rule gateway_auth.run_inv[OF inv']) (simp add: list_all_iff)
  have a: "after {h} ?I ?d d'" unfolding d' by (rule auth_history.run_older[OF inv' qs])
  have "bound_session (beta_grants d) (families d) s" using inv tbl_get_Some_iff[OF s] by (simp add: auth_inv_def sess_ok_def)
  then have ne: "gs_grant s \<noteq> Some []" "gs_family s \<noteq> Some []" using inv by (auto simp: bound_session_def auth_inv_def sess_ok_def grant_row_def family_row_def)
  have hash: "closed_hash d' h" by (rule closed_hash_after[OF a _ logout_closes(1)[OF h s]]) simp
  have gr: "closed_grant d' g" if "gs_grant s = Some g" for g
    using ne that by (intro closed_after(2)[OF a _ logout_closes(2)[OF h s that]]) auto
  have fa: "closed_family d' f" if "gs_grant s = None" "gs_family s = Some f" for f
    using ne that by (intro closed_after(1)[OF a _ logout_closes(3)[OF h s that]]) auto
  show ?thesis
    using closed_silent(1)[OF i _ fa] closed_silent(2)[OF i _ gr] closed_silent(3)[OF i _ hash] closed_family_no_refresh[OF fa] by auto
qed

subsection \<open>A signed-in account for the witnesses\<close>

definition sample_auth_env :: auth_env where
  "sample_auth_env = \<lparr>ae_sha = (\<lambda>s. CHR ''#'' # s), ae_vars = Map.empty, ae_ip_ok = (\<lambda>_. False), ae_hosted = Inr None, ae_policy = public_deployment,
     ae_idp = \<lparr>ip_b64 = Some, ip_loads = (\<lambda>_. None), ip_rsa = (\<lambda>_ _ _ _. False), ip_keys = (\<lambda>_. [])\<rparr>, ae_apple = (\<lambda>_ _. Inl (HttpError 401))\<rparr>"

definition old_refresh :: string where "old_refresh = ''mgr_'' @ replicate 32 CHR ''a''"

definition live_refresh :: string where "live_refresh = ''mgr_'' @ replicate 32 CHR ''b''"

definition sample_family :: session_family where
  "sample_family = \<lparr>sf_id = ''psf_1'', sf_user = ''usr_1'', sf_account = ''login_1'', sf_provider = ''apple'', sf_platform = ''native'',
     sf_scopes = [''account'', ''read''], sf_created = 10, sf_expires = 9000, sf_rotated = 20, sf_revoked = None, sf_reason = None\<rparr>"

definition sample_bearer :: gateway_session where
  "sample_bearer = \<lparr>gs_id = ''s1'', gs_hash = ''#bearer'', gs_user = ''usr_1'', gs_scopes = [''account'', ''read''], gs_issued = 20, gs_expires = 3620,
     gs_revoked = None, gs_grant = None, gs_family = Some ''psf_1'', gs_account = Some ''login_1''\<rparr>"

definition sample_login :: login_account where
  "sample_login = \<lparr>la_id = ''login_1'', la_user = ''usr_1'', la_provider = ''apple'', la_subject = ''sub'', la_username = [], la_status = ''connected'',
     la_created = 10, la_updated = 10, la_kind = ''login'', la_verified = True, la_authenticated = Some 10\<rparr>"

definition sample_signed_in :: auth_db where
  "sample_signed_in = empty_auth\<lparr>sessions := [sample_bearer], families := [sample_family], logins := [sample_login],
     refreshes := [\<lparr>rt_hash = CHR ''#'' # old_refresh, rt_family = ''psf_1'', rt_issued = 10, rt_expires = 9000, rt_consumed = Some 20\<rparr>,
                   \<lparr>rt_hash = CHR ''#'' # live_refresh, rt_family = ''psf_1'', rt_issued = 20, rt_expires = 9000, rt_consumed = None\<rparr>]\<rparr>"

definition sample_draw :: drawn where
  "sample_draw = \<lparr>fr_user = ''u2'', fr_account = ''a2'', fr_family = ''f2'', fr_refresh = ''r2'', fr_token = ''t2'', fr_session = ''s2''\<rparr>"

lemma sample_signed_in_inv: "auth_inv sample_signed_in"
  by (simp add: auth_inv_def sess_ok_def sample_signed_in_def empty_auth_def sample_bearer_def sample_family_def old_refresh_def live_refresh_def
      gsk.uniq_def bgk.uniq_def sfk.uniq_def rtk.uniq_def one_live_def bound_session_def refresh_row_def family_row_def gs_live_def rt_live_def)

theorem logout_final_witness:
  "\<forall>p d2. principal_from_token (ae_sha sample_auth_env) Map.empty public_deployment ''bearer'' 70
     (run_ops (exec_auth sample_auth_env) [ACleanup 50, ARefresh sample_draw live_refresh ''native'' 60]
        (revoke_session (ae_sha sample_auth_env) ''bearer'' 30 sample_signed_in)) \<noteq> (d2, Inr p)"
proof -
  have h: "hash_token (ae_sha sample_auth_env) ''bearer'' = Some ''#bearer''" by (simp add: hash_token_def sample_auth_env_def, code_simp)
  have s: "tbl_get (gs_sel ''#bearer'') (sessions sample_signed_in) = Some sample_bearer"
    by (simp add: sample_signed_in_def gs_sel_def sample_bearer_def)
  have qs: "list_all (draws_clear sample_auth_env {''#bearer''} {k. gs_grant sample_bearer = Some k \<or> gs_family sample_bearer = Some k})
      [ACleanup 50, ARefresh sample_draw live_refresh ''native'' 60]"
    by (simp add: draws_clear_def sample_auth_env_def sample_draw_def new_refresh_token_def)
  have t: "ae_sha sample_auth_env ''bearer'' = ''#bearer''" by (simp add: sample_auth_env_def)
  show ?thesis using logout_final[OF sample_signed_in_inv h s qs refl, where now = 30 and now' = 70 and env = Map.empty and policy = public_deployment] t by blast
qed

subsection \<open>Refresh token reuse\<close>

text \<open>C11. Presenting a refresh token that was already exchanged closes its family: the call is refused, and whatever
  operations follow, no bearer of the family authenticates and none of its refresh tokens yields a session, not even
  the newest one.\<close>

theorem refresh_reuse_detected:
  assumes inv: "auth_inv d" and r: "r \<in> set (refreshes d)" "rt_hash r = ae_sha v token" "rt_consumed r \<noteq> None"
    and f: "f \<in> set (families d)" "sf_id f = rt_family r" "now < sf_expires f"
    and la: "tbl_get (la_sel (sf_account f)) (logins d) = Some a" and tok: "prefixed_token ''mgr_'' 32 80 token" "platform = ''native'' \<or> platform = ''web''"
    and st: "refresh_session (ae_sha v) (ae_vars v) fr token platform now d = (d1, x)"
    and qs: "list_all (draws_clear v {} {sf_id f}) qs" and d': "d' = run_ops (exec_auth v) qs d1"
  shows "x = Inl (HttpError 401)
    \<and> (\<forall>t p d2. principal_from_token (ae_sha v) env policy t now' d' = (d2, Inr p) \<longrightarrow> ap_family p \<noteq> Some (sf_id f))
    \<and> (\<forall>fr' t pl d2 s. refresh_session (ae_sha v) env fr' t pl now' d' = (d2, Inr s) \<longrightarrow> gs_family s \<noteq> Some (sf_id f))"
proof -
  let ?c = "cleanup_families now d"
  have ic: "auth_inv ?c" by (rule cleanup_families_inv[OF inv])
  have old: "sf_id f \<notin> set (expired_families now d)"
  proof
    assume "sf_id f \<in> set (expired_families now d)"
    then obtain g where "g \<in> set (families d)" "sf_expires g \<le> now" "sf_id g = sf_id f"
      unfolding expired_families_def by (auto dest!: in_set_takeD)
    then show False using f inv sfk.uniq_same[of "families d" g f] by (auto simp: auth_inv_def sess_ok_def)
  qed
  have rr: "tbl_get (rt_sel (ae_sha v token)) (refreshes ?c) = Some r"
    using r f(2) old ic rtk.uniq_get[of "refreshes ?c" r] by (simp add: auth_inv_def sess_ok_def cleanup_families_def Let_def)
  have ff: "tbl_get (sf_sel (rt_family r)) (families ?c) = Some f"
    using f old ic sfk.uniq_get[of "families ?c" f] by (simp add: auth_inv_def sess_ok_def cleanup_families_def Let_def)
  have la': "tbl_get (la_sel (sf_account f)) (logins ?c) = Some a" using la by (simp add: cleanup_families_def Let_def)
  have out: "d1 = revoke_push_delivery (sf_user f) now (revoke_family (sf_id f) now (\<lambda>_. Some ''refresh-reuse'') ?c)" "x = Inl (HttpError 401)"
    using st tok r(3) rr ff la' by (auto simp: refresh_session_def Let_def)
  have i1: "auth_inv d1" unfolding out push_inv by (rule revoke_family_inv[OF ic])
  have i: "auth_inv d'" unfolding d' by (rule gateway_auth.run_inv[OF i1]) (simp add: list_all_iff)
  have "closed_family d1 (sf_id f)" unfolding out by (rule revoked_closed)
  then have "closed_family d' (sf_id f)" unfolding d' by (intro closed_after(1)[OF auth_history.run_older[OF i1 qs]]) simp_all
  then show ?thesis using out(2) closed_silent(1)[OF i] closed_family_no_refresh by blast
qed

theorem refresh_reuse_detected_witness:
  "snd (refresh_session (ae_sha sample_auth_env) (ae_vars sample_auth_env) sample_draw old_refresh ''native'' 30 sample_signed_in) = Inl (HttpError 401)
   \<and> \<not> (\<exists>d2 s. refresh_session (ae_sha sample_auth_env) Map.empty sample_draw live_refresh ''native'' 70
       (run_ops (exec_auth sample_auth_env) [ACleanup 50]
          (fst (refresh_session (ae_sha sample_auth_env) (ae_vars sample_auth_env) sample_draw old_refresh ''native'' 30 sample_signed_in))) = (d2, Inr s)
       \<and> gs_family s = Some ''psf_1'')"
proof -
  have rows: "\<lparr>rt_hash = CHR ''#'' # old_refresh, rt_family = ''psf_1'', rt_issued = 10, rt_expires = 9000, rt_consumed = Some 20\<rparr> \<in> set (refreshes sample_signed_in)"
    "sample_family \<in> set (families sample_signed_in)" by (simp_all add: sample_signed_in_def)
  have la: "tbl_get (la_sel (sf_account sample_family)) (logins sample_signed_in) = Some sample_login"
    by (simp add: sample_signed_in_def la_sel_def sample_family_def sample_login_def)
  have tok: "prefixed_token ''mgr_'' 32 80 old_refresh" unfolding old_refresh_def by code_simp
  have qs: "list_all (draws_clear sample_auth_env {} {sf_id sample_family}) [ACleanup 50]" by (simp add: draws_clear_def)
  show ?thesis
    using refresh_reuse_detected[OF sample_signed_in_inv rows(1) _ _ rows(2) _ _ la tok _ prod.collapse[symmetric] qs refl,
        where now = 30 and platform = "''native''" and env = Map.empty]
    by (simp add: sample_auth_env_def sample_family_def)
qed

subsection \<open>Credentials at any time\<close>

text \<open>C13. Whatever operations run from a consistent database: a grant or a sign-in family has at most one live
  bearer and a family at most one unused refresh token; a live bearer of a family or grant belongs to an open family
  or grant and does not outlive it, and no such bearer carries the producer scope.\<close>

theorem single_live_credential:
  assumes "auth_inv d" and "d' = run_ops (exec_auth v) qs d" and "s \<in> set (sessions d')" "gs_revoked s = None"
  shows "(\<forall>s' \<in> set (sessions d'). gs_revoked s' = None \<longrightarrow>
        gs_family s \<noteq> None \<and> gs_family s' = gs_family s \<or> gs_grant s \<noteq> None \<and> gs_grant s' = gs_grant s \<longrightarrow> s' = s)
    \<and> (\<forall>f. gs_family s = Some f \<longrightarrow> (\<exists>x \<in> set (families d'). sf_id x = f \<and> sf_revoked x = None \<and> gs_expires s \<le> sf_expires x
          \<and> (\<forall>r \<in> set (refreshes d'). \<forall>r' \<in> set (refreshes d'). rt_family r = f \<and> rt_family r' = f \<and> rt_consumed r = None \<and> rt_consumed r' = None \<longrightarrow> r = r')))
    \<and> (\<forall>g. gs_grant s = Some g \<longrightarrow> (\<exists>x \<in> set (beta_grants d'). bg_id x = g \<and> bg_revoked x = None \<and> gs_expires s \<le> bg_expires x \<and> bg_user x = gs_user s))
    \<and> (gs_family s \<noteq> None \<or> gs_grant s \<noteq> None \<longrightarrow> ''response'' \<notin> set (gs_scopes s))"
proof -
  have i: "auth_inv d'" unfolding assms(2) by (rule gateway_auth.run_inv[OF assms(1)]) (simp add: list_all_iff)
  have f: "\<exists>x \<in> set (families d'). sf_id x = f \<and> sf_revoked x = None \<and> gs_expires s \<le> sf_expires x
          \<and> (\<forall>r \<in> set (refreshes d'). \<forall>r' \<in> set (refreshes d'). rt_family r = f \<and> rt_family r' = f \<and> rt_consumed r = None \<and> rt_consumed r' = None \<longrightarrow> r = r')"
    if fam: "gs_family s = Some f" for f
  proof -
    obtain x where x: "x \<in> set (families d')" "sf_id x = f" "sf_revoked x = None" "gs_expires s \<le> sf_expires x"
      using authority_rows(1)[OF i assms(3,4) fam] by blast
    have "r = r'" if "r \<in> set (refreshes d')" "r' \<in> set (refreshes d')" "rt_family r = f \<and> rt_family r' = f \<and> rt_consumed r = None \<and> rt_consumed r' = None" for r r'
      using one_refresh[OF i that(1,2)] that(3) by simp
    then show ?thesis by (intro bexI[OF _ x(1)] conjI x(2-) ballI impI)
  qed
  show ?thesis
  proof (intro conjI ballI allI impI)
    show "s' = s" if "s' \<in> set (sessions d')" "gs_revoked s' = None" "gs_family s \<noteq> None \<and> gs_family s' = gs_family s \<or> gs_grant s \<noteq> None \<and> gs_grant s' = gs_grant s" for s'
      using one_bearer[OF i assms(3) that(1) assms(4) that(2)] that(3) by blast
    show "\<exists>x \<in> set (families d'). sf_id x = f \<and> sf_revoked x = None \<and> gs_expires s \<le> sf_expires x
          \<and> (\<forall>r \<in> set (refreshes d'). \<forall>r' \<in> set (refreshes d'). rt_family r = f \<and> rt_family r' = f \<and> rt_consumed r = None \<and> rt_consumed r' = None \<longrightarrow> r = r')"
      if "gs_family s = Some f" for f using that by (rule f)
    show "\<exists>x \<in> set (beta_grants d'). bg_id x = g \<and> bg_revoked x = None \<and> gs_expires s \<le> bg_expires x \<and> bg_user x = gs_user s"
      if "gs_grant s = Some g" for g using that by (rule authority_rows(2)[OF i assms(3,4)])
    show "''response'' \<notin> set (gs_scopes s)" if "gs_family s \<noteq> None \<or> gs_grant s \<noteq> None" using that by (rule no_response[OF i assms(3)])
  qed
qed

text \<open>C23. A bearer that authenticates has authority: the session is unexpired and its scopes are known; under a grant
  or a sign-in the grant or family is open, the bearer does not outlive it and lacks the producer scope, and the
  login of a sign-in is connected. The database is unchanged.\<close>

theorem principal_authority:
  assumes "auth_inv d" and "d' = run_ops (exec_auth v) qs d" and p: "principal_from_token sha env policy token now d' = (d2, Inr p)"
  shows "d2 = d' \<and> now < pr_expires p \<and> pr_scopes p \<noteq> [] \<and> set (pr_scopes p) \<subseteq> set KNOWN_SCOPES \<and> valid_user_id (pr_user p)
    \<and> (\<forall>g. ap_grant p = Some g \<longrightarrow> ''response'' \<notin> set (pr_scopes p) \<and>
         (\<exists>x \<in> set (beta_grants d'). bg_id x = g \<and> bg_revoked x = None \<and> pr_expires p \<le> bg_expires x \<and> bg_user x = pr_user p))
    \<and> (\<forall>f. ap_family p = Some f \<longrightarrow> ''response'' \<notin> set (pr_scopes p) \<and>
         (\<exists>x \<in> set (families d'). sf_id x = f \<and> sf_revoked x = None \<and> pr_expires p \<le> sf_expires x) \<and>
         (\<exists>a \<in> set (logins d'). Some (la_id a) = ap_account p \<and> la_user a = pr_user p \<and> la_status a = ''connected'' \<and> la_kind a = ''login''))"
proof -
  have i: "auth_inv d'" unfolding assms(2) by (rule gateway_auth.run_inv[OF assms(1)]) (simp add: list_all_iff)
  obtain s where s: "s \<in> set (sessions d')" "session_ok now d' s" "p = session_principal d' s" "d2 = d'"
    using p by (rule authenticated)
  have live: "gs_revoked s = None" using s(2) by (simp add: session_ok_def)
  note resp = no_response[OF i s(1)]
  have login: "\<exists>a \<in> set (logins d'). Some (la_id a) = gs_account s \<and> la_user a = gs_user s \<and> la_status a = ''connected'' \<and> la_kind a = ''login''"
    if f: "gs_family s = Some f" for f
  proof -
    have "f \<noteq> []" using authority_rows(1)[OF i s(1) live f] i by (auto simp: auth_inv_def sess_ok_def)
    then obtain a where a: "session_login_of d' s = Some a" "la_status a = ''connected''" "la_kind a = ''login''"
      using s(2) f by (auto simp: session_ok_def session_provider_ok_def present_def split: option.splits)
    from tbl_get_Some_iff[OF a(1)[unfolded session_login_of_def]] show ?thesis using a(2,3) by (intro bexI[of _ a]) simp_all
  qed
  have ps: "pr_user p = gs_user s" "pr_scopes p = filter (\<lambda>x. x \<noteq> []) (gs_scopes s)" "pr_expires p = gs_expires s"
    "ap_grant p = gs_grant s" "ap_family p = gs_family s" "ap_account p = gs_account s" by (simp_all add: s(3) session_principal_def)
  have ok: "now < gs_expires s" "valid_user_id (gs_user s)" "filter (\<lambda>x. x \<noteq> []) (gs_scopes s) \<noteq> []"
    "set (filter (\<lambda>x. x \<noteq> []) (gs_scopes s)) \<subseteq> set KNOWN_SCOPES" using s(2) by (simp_all add: session_ok_def)
  have scopes: "''response'' \<notin> set (filter (\<lambda>x. x \<noteq> []) (gs_scopes s))" if "gs_family s \<noteq> None \<or> gs_grant s \<noteq> None"
    using resp[OF that] by auto
  show ?thesis unfolding ps
  proof (intro conjI allI impI s(4) ok)
    fix g assume g: "gs_grant s = Some g"
    show "''response'' \<notin> set (filter (\<lambda>x. x \<noteq> []) (gs_scopes s))" by (rule scopes) (simp add: g)
    show "\<exists>x \<in> set (beta_grants d'). bg_id x = g \<and> bg_revoked x = None \<and> gs_expires s \<le> bg_expires x \<and> bg_user x = gs_user s"
      using g by (rule authority_rows(2)[OF i s(1) live])
  next
    fix f assume f: "gs_family s = Some f"
    show "''response'' \<notin> set (filter (\<lambda>x. x \<noteq> []) (gs_scopes s))" by (rule scopes) (simp add: f)
    show "\<exists>x \<in> set (families d'). sf_id x = f \<and> sf_revoked x = None \<and> gs_expires s \<le> sf_expires x" using f by (rule authority_rows(1)[OF i s(1) live])
    show "\<exists>a \<in> set (logins d'). Some (la_id a) = gs_account s \<and> la_user a = gs_user s \<and> la_status a = ''connected'' \<and> la_kind a = ''login''"
      using f by (rule login)
  qed
qed

theorem single_live_credential_witness:
  "\<not> (\<exists>s' \<in> set (sessions (run_ops (exec_auth sample_auth_env) [] sample_signed_in)). gs_revoked s' = None \<and> gs_family s' = Some ''psf_1'' \<and> s' \<noteq> sample_bearer)"
proof -
  have "sample_bearer \<in> set (sessions (run_ops (exec_auth sample_auth_env) [] sample_signed_in))" "gs_revoked sample_bearer = None"
    by (simp_all add: sample_signed_in_def sample_bearer_def)
  from single_live_credential[OF sample_signed_in_inv refl this]
  have "\<forall>s' \<in> set (sessions (run_ops (exec_auth sample_auth_env) [] sample_signed_in)).
      gs_revoked s' = None \<longrightarrow> gs_family s' = gs_family sample_bearer \<longrightarrow> s' = sample_bearer" by (simp add: sample_bearer_def)
  moreover have "gs_family sample_bearer = Some ''psf_1''" by (simp add: sample_bearer_def)
  ultimately show ?thesis by force
qed

theorem principal_authority_witness:
  "\<exists>p. principal_from_token (ae_sha sample_auth_env) Map.empty public_deployment ''bearer'' 30 sample_signed_in = (sample_signed_in, Inr p)
     \<and> pr_user p = ''usr_1'' \<and> 30 < pr_expires p \<and> ''response'' \<notin> set (pr_scopes p)"
proof -
  have p: "principal_from_token (ae_sha sample_auth_env) Map.empty public_deployment ''bearer'' 30 sample_signed_in
      = (sample_signed_in, Inr (session_principal sample_signed_in sample_bearer))"
    by code_simp
  have "session_principal sample_signed_in sample_bearer = session_principal sample_signed_in sample_bearer
     \<and> pr_user (session_principal sample_signed_in sample_bearer) = ''usr_1'' \<and> ap_family (session_principal sample_signed_in sample_bearer) = Some ''psf_1''"
    by (simp add: session_principal_def sample_bearer_def)
  then show ?thesis using p principal_authority[OF sample_signed_in_inv, of sample_signed_in sample_auth_env "[]", OF _ p] by auto
qed

subsection \<open>Single-use challenges\<close>

definition closed_challenge :: "auth_db \<Rightarrow> string \<Rightarrow> bool" where
  "closed_challenge d k \<longleftrightarrow> (\<forall>c \<in> set (challenges d). ch_id c = k \<longrightarrow> ch_consumed c \<noteq> None)"

lemma closed_challenge_after: "after H I d d' \<Longrightarrow> k \<in> I \<Longrightarrow> closed_challenge d k \<Longrightarrow> closed_challenge d' k"
  unfolding after_def closed_challenge_def rows_from_def by (fastforce simp: row_after)

lemma consumed_closes: "consume_challenge cid h a now d = Inr (d', x) \<Longrightarrow> closed_challenge d' cid"
proof -
  have "ch_consumed c \<noteq> None" if "c \<in> set (tbl_upd (\<lambda>x. ch_sel cid x \<and> ch_consumed x = None) (\<lambda>x. x\<lparr>ch_consumed := Some now\<rparr>) (challenges d))" "ch_id c = cid" for c
    using that(1) by (cases rule: tbl_updE) (use that(2) in \<open>auto simp: ch_sel_def\<close>)
  then show "consume_challenge cid h a now d = Inr (d', x) \<Longrightarrow> closed_challenge d' cid"
    by (auto simp: consume_challenge_def closed_challenge_def Let_def split: if_splits)
qed

lemma closed_challenge_refused:
  "closed_challenge d cid \<Longrightarrow> exchange_challenge sha ip apple env fr p cid nonce token acode redirect shown who now d \<noteq> Inr (d', s)"
proof
  assume "closed_challenge d cid" and "exchange_challenge sha ip apple env fr p cid nonce token acode redirect shown who now d = Inr (d', s)"
  from this(2) obtain ch where "tbl_get (ch_sel cid) (challenges d) = Some ch" "challenge_fits sha p nonce who now ch"
    by (rule exchange_challengeD)
  then show False using \<open>closed_challenge d cid\<close> tbl_get_Some_iff[of "ch_sel cid" "challenges d" ch]
    by (auto simp: challenge_fits_def closed_challenge_def ch_sel_def)
qed

lemma exchange_closes:
  assumes st: "exchange_challenge sha ip apple env fr p cid nonce token acode redirect shown who now d = Inr (d', s)"
  shows "closed_challenge d' cid"
proof -
  have "starts_with ''pac_'' cid" using st by (auto simp: exchange_challenge_def prefixed_token_def split: if_splits)
  then have fid: "family_id fr \<noteq> cid" by (auto simp: family_id_def starts_with_def)
  obtain c name scopes where "exchange_commit sha env fr cid c name scopes who now d = Inr (d', s)" using st by (rule exchange_challengeD)
  then show ?thesis
  proof (rule exchange_commitD)
    fix ch d1 d2 user account
    assume c: "consume_challenge cid (pc_assertion c) account now (fill_profile user name (pc_email c) now d1) = Inr (d2, ())"
      and rest: "(ch_action ch = ''link'' \<and> s = None \<and> d' = d2) \<or> (\<exists>s'. s = Some s' \<and> open_family sha env fr ch user account scopes now d2 = Inr (d', s'))"
    have "after {} {cid} d2 d'" using rest fid by (auto intro: after_open)
    then show ?thesis by (rule closed_challenge_after[OF _ _ consumed_closes[OF c]]) simp
  qed
qed

text \<open>C12. A sign-in challenge is exchanged at most once: after a successful exchange, no call with that challenge succeeds,
  whatever its nonce, assertion or caller and whatever operations lie between.\<close>

theorem exchange_single_use:
  assumes inv: "auth_inv d"
    and st: "exchange_challenge (ae_sha v) (ae_idp v) (ae_apple v) (ae_vars v) fr p cid nonce token acode redirect shown who now d = Inr (d1, s)"
    and qs: "list_all (draws_clear v {} {cid}) qs" and d': "d' = run_ops (exec_auth v) qs d1"
  shows "exchange_challenge (ae_sha v) ip apple env fr' p' cid nonce' token' acode' redirect' shown' who' now' d' \<noteq> Inr (d2, s2)"
proof -
  have i: "auth_inv d1" using inv st by (rule exchange_inv)
  have "closed_challenge d' cid" unfolding d' by (rule closed_challenge_after[OF auth_history.run_older[OF i qs] _ exchange_closes[OF st]]) simp
  then show ?thesis by (rule closed_challenge_refused)
qed

text \<open>A provider with one key and one assertion, and an open challenge.\<close>

definition sample_nonce :: string where "sample_nonce = replicate 32 CHR ''n''"

definition sample_cid :: string where "sample_cid = ''pac_'' @ replicate 20 CHR ''c''"

definition sample_idp :: id_provider where
  "sample_idp = \<lparr>ip_b64 = (\<lambda>s. Some (if s = ''n'' then char_of (128::nat) # replicate 255 (char_of (0::nat)) else if s = ''e'' then [char_of (3::nat)] else s)),
     ip_loads = (\<lambda>s. if s = ''h'' then Some (JObj [(''alg'', JStr ''RS256''), (''kid'', JStr ''k'')])
       else if s = ''c'' then Some (JObj [(''iss'', JStr ''https://appleid.apple.com''), (''sub'', JStr ''sub''), (''aud'', JStr ''app''),
         (''exp'', JInt 600), (''iat'', JInt 10), (''nonce'', JStr (CHR ''#'' # sample_nonce))]) else None),
     ip_rsa = (\<lambda>n e sig msg. e = 3 \<and> sig = ''s'' \<and> msg = ''h.c''),
     ip_keys = (\<lambda>_. [JObj [(''kid'', JStr ''k''), (''kty'', JStr ''RSA''), (''n'', JStr ''n''), (''e'', JStr ''e'')]])\<rparr>"

definition sample_sign_in_env :: auth_env where
  "sample_sign_in_env = sample_auth_env\<lparr>ae_vars := [''MAGISTRATE_APPLE_CLIENT_IDS'' \<mapsto> ''app''], ae_idp := sample_idp\<rparr>"

definition sample_challenge :: challenge where
  "sample_challenge = \<lparr>ch_id = sample_cid, ch_provider = ''apple'', ch_action = ''sign_in'', ch_nonce = CHR ''#'' # sample_nonce,
     ch_owner = None, ch_platform = ''native'', ch_redirect = None, ch_created = 10, ch_expires = 610, ch_consumed = None\<rparr>"

definition sample_challenged :: auth_db where
  "sample_challenged = empty_auth\<lparr>challenges := [sample_challenge]\<rparr>"

definition sample_exchange :: "auth_db \<Rightarrow> (auth_fail, auth_db, gateway_session option) outcome" where
  "sample_exchange = exchange_challenge (ae_sha sample_sign_in_env) (ae_idp sample_sign_in_env) (ae_apple sample_sign_in_env) (ae_vars sample_sign_in_env)
     sample_draw ''apple'' sample_cid sample_nonce (Some ''h.c.s'') None None (Some '' Ada  L '') None 20"

lemma big_endian_zeros: "foldl (\<lambda>n c. n * 256 + int (code c)) a (replicate k (char_of (0::nat))) = a * 256 ^ k"
  by (induction k arbitrary: a) (simp_all add: code_def)

lemma big_endian_shift: "big_endian (c # replicate k (char_of (0::nat))) = int (code c) * 256 ^ k"
  by (simp add: big_endian_def big_endian_zeros)

lemma sample_modulus: "big_endian (char_of (128::nat) # replicate 255 (char_of (0::nat))) = 2 ^ 2047"
proof -
  have "big_endian (char_of (128::nat) # replicate 255 (char_of (0::nat))) = int (code (char_of (128::nat))) * 256 ^ 255"
    by (rule big_endian_shift)
  also have "int (code (char_of (128::nat))) = 2 ^ 7" by (simp add: code_def)
  also have "(256::int) = 2 ^ 8" by simp
  also have "(2::int) ^ 7 * (2 ^ 8) ^ 255 = 2 ^ 2047" unfolding power_mult[symmetric] power_add[symmetric] by (rule arg_cong) simp
  finally show ?thesis .
qed

lemma sample_key: "rsa_key sample_idp (JObj [(''kid'', JStr ''k''), (''kty'', JStr ''RSA''), (''n'', JStr ''n''), (''e'', JStr ''e'')]) = Some (2 ^ 2047, 3)"
proof -
  have "decode_segment sample_idp 1024 ''n'' = Some (char_of (128::nat) # replicate 255 (char_of (0::nat)))"
    unfolding decode_segment_def sample_idp_def by (simp add: is_alnum_def is_lower_def is_upper_def is_digit_def code_def)
  moreover have "decode_segment sample_idp 8 ''e'' = Some [char_of (3::nat)]" "big_endian [char_of (3::nat)] = 3" by code_simp+
  ultimately show ?thesis unfolding rsa_key_def by (simp add: sample_modulus)
qed

lemma sample_signature: "signature_ok sample_idp ''apple'' ''k'' ''h.c'' ''s''"
proof -
  have keys: "ip_keys sample_idp ''apple'' = [JObj [(''kid'', JStr ''k''), (''kty'', JStr ''RSA''), (''n'', JStr ''n''), (''e'', JStr ''e'')]]"
    and rsa: "ip_rsa sample_idp = (\<lambda>n e sig msg. e = 3 \<and> sig = ''s'' \<and> msg = ''h.c'')" by (simp_all add: sample_idp_def)
  show ?thesis unfolding signature_ok_def keys rsa by (simp add: sample_key)
qed

lemma sample_verifies: "verify_identity_token (ae_sha sample_sign_in_env) sample_idp (ae_vars sample_sign_in_env) ''apple'' ''h.c.s'' sample_nonce 20
    = Inr \<lparr>pc_provider = ''apple'', pc_subject = ''sub'', pc_email = None, pc_verified = False, pc_name = None, pc_assertion = ''#h.c.s'', pc_audience = ''app''\<rparr>"
proof -
  have "py_split CHR ''.'' ''h.c.s'' = [''h'', ''c'', ''s'']" "utf8_len ''h.c.s'' = 5" "MAX_ID_TOKEN_BYTES = 24576" by code_simp+
  moreover have "length sample_nonce = 32" "ascii sample_nonce" "ascii (CHR ''#'' # sample_nonce)" by code_simp+
  moreover have "ae_sha sample_sign_in_env = Cons CHR ''#''" by (simp add: sample_sign_in_env_def sample_auth_env_def)
  moreover have "decode_segment sample_idp 1024 ''s'' = Some ''s''"
    "Option.bind (decode_segment sample_idp 4096 ''h'') (json_object sample_idp) = Some (JObj [(''alg'', JStr ''RS256''), (''kid'', JStr ''k'')])"
    "Option.bind (decode_segment sample_idp (16 * 1024) ''c'') (json_object sample_idp) = Some (JObj [(''iss'', JStr ''https://appleid.apple.com''), (''sub'', JStr ''sub''), (''aud'', JStr ''app''),
         (''exp'', JInt 600), (''iat'', JInt 10), (''nonce'', JStr (CHR ''#'' # sample_nonce))])"
    by (simp_all add: decode_segment_def json_object_def sample_idp_def is_alnum_def is_lower_def is_upper_def is_digit_def code_def)
  moreover have "configured_ids (ae_vars sample_sign_in_env) ''apple'' = Inr [''app'']" by code_simp
  ultimately show ?thesis unfolding verify_identity_token_def
    by (simp add: sample_signature party_ok_def claims_ok_def audiences_of_def claims_of_def claimed_email_def claimed_name_def ISSUERS_def safe_subject_def code_def)
qed

definition sample_claims :: provider_claims where
  "sample_claims = \<lparr>pc_provider = ''apple'', pc_subject = ''sub'', pc_email = None, pc_verified = False, pc_name = None, pc_assertion = ''#h.c.s'', pc_audience = ''app''\<rparr>"

lemma sample_exchange_eq:
  "sample_exchange sample_challenged = exchange_commit (ae_sha sample_sign_in_env) (ae_vars sample_sign_in_env) sample_draw sample_cid sample_claims
     (Some ''Ada L'') [''account'', ''command'', ''notifications'', ''providers'', ''read'', ''voice''] None 20 sample_challenged"
proof -
  have "provider_known ''apple''" "prefixed_token ''pac_'' 20 40 sample_cid" by code_simp+
  moreover have "tbl_get (ch_sel sample_cid) (challenges sample_challenged) = Some sample_challenge"
    by (simp add: sample_challenged_def ch_sel_def sample_challenge_def)
  moreover have "challenge_fits (ae_sha sample_sign_in_env) ''apple'' sample_nonce None 20 sample_challenge"
    by (simp add: challenge_fits_def sample_challenge_def sample_sign_in_env_def sample_auth_env_def)
  moreover have "ch_redirect sample_challenge = None" "ch_platform sample_challenge = ''native''" by (simp_all add: sample_challenge_def)
  moreover have "platform_client_ids (ae_vars sample_sign_in_env) ''apple'' ''native'' = Inr [''app'']"
    "provider_scopes (ae_vars sample_sign_in_env) = Inr [''account'', ''command'', ''notifications'', ''providers'', ''read'', ''voice'']"
    "display_name (Some '' Ada  L '') = Some ''Ada L''" by code_simp+
  moreover have "verify_identity_token (ae_sha sample_sign_in_env) (ae_idp sample_sign_in_env) (ae_vars sample_sign_in_env) ''apple'' ''h.c.s'' sample_nonce 20 = Inr sample_claims"
    using sample_verifies by (simp add: sample_claims_def sample_sign_in_env_def)
  ultimately show ?thesis by (simp add: sample_exchange_def exchange_challenge_def present_def) (simp add: sample_claims_def)
qed

lemma sample_exchange_ok: "(case sample_exchange sample_challenged of Inl _ \<Rightarrow> False
    | Inr (d, s) \<Rightarrow> map_option gs_user s = Some ''usr_u2'' \<and> map pr_name (people d) = [''Ada L''])"
  unfolding sample_exchange_eq by code_simp

theorem exchange_single_use_witness:
  "\<exists>d1 s. sample_exchange sample_challenged = Inr (d1, s) \<and> (\<forall>d2 s2. sample_exchange (run_ops (exec_auth sample_sign_in_env) [ACleanup 30] d1) \<noteq> Inr (d2, s2))"
proof -
  obtain d1 s where st: "sample_exchange sample_challenged = Inr (d1, s)" using sample_exchange_ok by (auto split: sum.splits)
  have inv: "auth_inv sample_challenged" using empty_auth_inv by (simp add: auth_inv_def sample_challenged_def)
  have qs: "list_all (draws_clear sample_sign_in_env {} {sample_cid}) [ACleanup 30]" by (simp add: draws_clear_def)
  show ?thesis using exchange_single_use[OF inv st[unfolded sample_exchange_def] qs refl] st unfolding sample_exchange_def by blast
qed

subsection \<open>Linking a second login\<close>

text \<open>A known subject skips the check that a provider is linked only once: linking a disconnected login of the caller
  reconnects it even when another login of that provider is connected, and then two are; for a new subject the same call
  is refused.\<close>

theorem relink_second_login:
  assumes a: "tbl_get (login_sel (pc_provider c) (pc_subject c)) (logins d) = Some a" "la_user a = u"
    and b: "b \<in> set (logins d)" "la_id b \<noteq> la_id a" "la_user b = u" "la_provider b = pc_provider c" "la_kind b = ''login''" "la_status b = ''connected''"
    and new: "tbl_get (login_sel (pc_provider c) sub) (logins d) = None"
  shows "(\<exists>d'. bind_login fr ''link'' c name (Some u) now d = Inr (d', u, la_id a) \<and>
            b \<in> set (logins d') \<and> (\<exists>a' \<in> set (logins d'). la_id a' = la_id a \<and> la_user a' = u \<and> la_provider a' = pc_provider c \<and> la_status a' = ''connected''))
    \<and> bind_login fr ''link'' (c\<lparr>pc_subject := sub\<rparr>) name (Some u) now d = Inl (HttpError 409)"
proof
  let ?l = "tbl_upd (\<lambda>x. la_sel (la_id a) x \<and> la_kind x = ''login'') (seen_login c now) (logins d)"
  have row: "a \<in> set (logins d)" "la_provider a = pc_provider c" "la_kind a = ''login''" using tbl_get_Some_iff[OF a(1)] by (simp_all add: login_sel_def)
  have kept: "(if la_sel (la_id a) x \<and> la_kind x = ''login'' then seen_login c now x else x) \<in> set ?l" if "x \<in> set (logins d)" for x
    using that unfolding set_tbl_upd by (rule imageI)
  have "b \<in> set ?l" using kept[OF b(1)] b(2) by (simp add: la_sel_def)
  moreover have "seen_login c now a \<in> set ?l" using kept[OF row(1)] row(3) by (simp add: la_sel_def)
  ultimately show "\<exists>d'. bind_login fr ''link'' c name (Some u) now d = Inr (d', u, la_id a) \<and>
      b \<in> set (logins d') \<and> (\<exists>a' \<in> set (logins d'). la_id a' = la_id a \<and> la_user a' = u \<and> la_provider a' = pc_provider c \<and> la_status a' = ''connected'')"
    using a row by (intro exI[of _ "d\<lparr>logins := ?l\<rparr>"]) (auto simp: bind_login_def seen_login_def intro!: bexI[of _ "seen_login c now a"])
  show "bind_login fr ''link'' (c\<lparr>pc_subject := sub\<rparr>) name (Some u) now d = Inl (HttpError 409)"
    using new b by (auto simp: bind_login_def tbl_ex_iff)
qed

definition second_login :: login_account where
  "second_login = sample_login\<lparr>la_id := ''login_2'', la_subject := ''other'', la_status := ''disconnected''\<rparr>"

theorem relink_second_login_witness:
  "\<exists>d'. bind_login sample_draw ''link'' (sample_claims\<lparr>pc_subject := ''other''\<rparr>) None (Some ''usr_1'') 50 (empty_auth\<lparr>logins := [sample_login, second_login]\<rparr>)
        = Inr (d', ''usr_1'', ''login_2'')
     \<and> sample_login \<in> set (logins d') \<and> (\<exists>a' \<in> set (logins d'). la_id a' = ''login_2'' \<and> la_status a' = ''connected'')"
proof -
  have "tbl_get (login_sel (pc_provider (sample_claims\<lparr>pc_subject := ''other''\<rparr>)) (pc_subject (sample_claims\<lparr>pc_subject := ''other''\<rparr>)))
      (logins (empty_auth\<lparr>logins := [sample_login, second_login]\<rparr>)) = Some second_login"
    by (simp add: sample_claims_def login_sel_def sample_login_def second_login_def)
  moreover have "sample_login \<in> set (logins (empty_auth\<lparr>logins := [sample_login, second_login]\<rparr>))" "la_id sample_login \<noteq> la_id second_login"
    "la_id second_login = ''login_2''" "la_user second_login = ''usr_1''" "la_user sample_login = ''usr_1''"
    "la_provider sample_login = pc_provider (sample_claims\<lparr>pc_subject := ''other''\<rparr>)" "la_kind sample_login = ''login''" "la_status sample_login = ''connected''"
    "tbl_get (login_sel (pc_provider (sample_claims\<lparr>pc_subject := ''other''\<rparr>)) ''third'') (logins (empty_auth\<lparr>logins := [sample_login, second_login]\<rparr>)) = None"
    by (simp_all add: sample_login_def second_login_def sample_claims_def login_sel_def)
  ultimately show ?thesis using relink_second_login[of "sample_claims\<lparr>pc_subject := ''other''\<rparr>" "empty_auth\<lparr>logins := [sample_login, second_login]\<rparr>" second_login "''usr_1''" sample_login "''third''" sample_draw None 50]
    by metis
qed

subsection \<open>Rotation\<close>

lemma rotate_rows:
  assumes st: "rotate sha env fr f r now d = Inr (d', s)"
  shows "sessions d' = tbl_upd (\<lambda>x. gs_family x = Some (sf_id f) \<and> gs_revoked x = None) (\<lambda>x. x\<lparr>gs_revoked := Some now\<rparr>) (sessions d) @ [s]"
    and "refreshes d' = tbl_upd (\<lambda>x. rt_sel (rt_hash r) x \<and> rt_consumed x = None) (\<lambda>x. x\<lparr>rt_consumed := Some now\<rparr>) (refreshes d)
      @ [\<lparr>rt_hash = sha (new_refresh_token fr), rt_family = sf_id f, rt_issued = now, rt_expires = sf_expires f, rt_consumed = None\<rparr>]"
    and "families d' = tbl_upd (sf_sel (sf_id f)) (\<lambda>x. x\<lparr>sf_rotated := now\<rparr>) (families d)"
    and "gs_family s = Some (sf_id f) \<and> gs_user s = sf_user f \<and> set (gs_scopes s) \<subseteq> set (sf_scopes f) \<and> gs_expires s \<le> sf_expires f \<and> gs_revoked s = None"
proof -
  let ?u = "revoke_sessions (\<lambda>s. gs_family s = Some (sf_id f)) now
      (d\<lparr>refreshes := tbl_upd (\<lambda>x. rt_sel (rt_hash r) x \<and> rt_consumed x = None) (\<lambda>x. x\<lparr>rt_consumed := Some now\<rparr>) (refreshes d)\<rparr>)"
  let ?scopes = "filter (\<lambda>s. s \<noteq> []) (sf_scopes f)"
  obtain d2 where ar: "add_refresh sha (new_refresh_token fr) (sf_id f) now (sf_expires f) ?u = Inr (d2, ())"
    and sp: "session_payload sha env fr (sf_user f) (sf_account f) (sf_id f) ?scopes now (sf_expires f)
               (d2\<lparr>families := tbl_upd (sf_sel (sf_id f)) (\<lambda>x. x\<lparr>sf_rotated := now\<rparr>) (families d2)\<rparr>) = Inr (d', s)"
    using st by (auto simp: rotate_def Let_def split: sum.splits if_splits)
  obtain e where e: "configured_session_ttl env now (Some (sf_expires f)) = Inr e"
    and i: "insert_session sha (fr_token fr) (fr_session fr) (sf_user f) ?scopes now e None (Some (sf_id f)) (Some (sf_account f))
        (d2\<lparr>families := tbl_upd (sf_sel (sf_id f)) (\<lambda>x. x\<lparr>sf_rotated := now\<rparr>) (families d2)\<rparr>) = Inr (d', s)"
    using sp by (auto simp: session_payload_def split: sum.splits)
  note d2 = add_refreshD(1)[OF ar] and d' = insert_sessionD(3)[OF i] and s = insert_sessionD(1)[OF i]
  show "sessions d' = tbl_upd (\<lambda>x. gs_family x = Some (sf_id f) \<and> gs_revoked x = None) (\<lambda>x. x\<lparr>gs_revoked := Some now\<rparr>) (sessions d) @ [s]"
    "refreshes d' = tbl_upd (\<lambda>x. rt_sel (rt_hash r) x \<and> rt_consumed x = None) (\<lambda>x. x\<lparr>rt_consumed := Some now\<rparr>) (refreshes d)
      @ [\<lparr>rt_hash = sha (new_refresh_token fr), rt_family = sf_id f, rt_issued = now, rt_expires = sf_expires f, rt_consumed = None\<rparr>]"
    "families d' = tbl_upd (sf_sel (sf_id f)) (\<lambda>x. x\<lparr>sf_rotated := now\<rparr>) (families d)"
    unfolding d' d2 by simp_all
  show "gs_family s = Some (sf_id f) \<and> gs_user s = sf_user f \<and> set (gs_scopes s) \<subseteq> set (sf_scopes f) \<and> gs_expires s \<le> sf_expires f \<and> gs_revoked s = None"
    using ttl_capped[OF e] by (auto simp: s)
qed

text \<open>A successful refresh rotates: the presented token is used up, the new token is the only unused one of its family,
  the new bearer is the family's only live one, it carries the family's user and scopes, and neither it nor the new token
  outlives the family, whose own expiry is unchanged.\<close>

theorem refresh_rotates:
  assumes inv: "auth_inv d" and st: "refresh_session sha env fr token platform now d = (d', Inr s)"
  shows "\<exists>f r n. f \<in> set (families d) \<and> r \<in> set (refreshes d) \<and> rt_hash r = sha token \<and> rt_family r = sf_id f \<and> rt_consumed r = None
      \<and> r\<lparr>rt_consumed := Some now\<rparr> \<in> set (refreshes d')
      \<and> n \<in> set (refreshes d') \<and> rt_hash n = sha (new_refresh_token fr) \<and> rt_expires n = sf_expires f
      \<and> (\<forall>x \<in> set (refreshes d'). rt_family x = sf_id f \<and> rt_consumed x = None \<longrightarrow> x = n)
      \<and> s \<in> set (sessions d') \<and> (\<forall>x \<in> set (sessions d'). gs_family x = Some (sf_id f) \<and> gs_revoked x = None \<longrightarrow> x = s)
      \<and> gs_family s = Some (sf_id f) \<and> gs_user s = sf_user f \<and> set (gs_scopes s) \<subseteq> set (sf_scopes f) \<and> gs_expires s \<le> sf_expires f
      \<and> f\<lparr>sf_rotated := now\<rparr> \<in> set (families d')"
proof -
  let ?c = "cleanup_families now d"
  obtain r f a where r: "tbl_get (rt_sel (sha token)) (refreshes ?c) = Some r" and f: "tbl_get (sf_sel (rt_family r)) (families ?c) = Some f"
    and k: "rt_consumed r = None" "refresh_ready now f r a" and ro: "rotate sha env fr f r now ?c = Inr (d', s)"
    using st by (auto simp: refresh_session_def Let_def split: if_splits option.splits sum.splits)
    let ?n = "\<lparr>rt_hash = sha (new_refresh_token fr), rt_family = sf_id f, rt_issued = now, rt_expires = sf_expires f, rt_consumed = None\<rparr>"
  note rows = rotate_rows[OF ro]
  have i: "auth_inv d'" using refresh_inv[OF inv, of sha env fr token platform now] st by simp
  have fr: "f \<in> set (families ?c)" "r \<in> set (refreshes ?c)" "rt_hash r = sha token" "rt_family r = sf_id f"
    using tbl_get_Some_iff[OF r] tbl_get_Some_iff[OF f] by (simp_all add: rt_sel_def sf_sel_def)
  have sub: "f \<in> set (families d)" "r \<in> set (refreshes d)" using fr(1,2) by (simp_all add: cleanup_families_def Let_def)
  have "(if rt_sel (rt_hash r) r \<and> rt_consumed r = None then r\<lparr>rt_consumed := Some now\<rparr> else r) \<in> set (tbl_upd (\<lambda>x. rt_sel (rt_hash r) x \<and> rt_consumed x = None) (\<lambda>x. x\<lparr>rt_consumed := Some now\<rparr>) (refreshes ?c))"
    unfolding set_tbl_upd by (rule imageI) (rule fr(2))
  then have used: "r\<lparr>rt_consumed := Some now\<rparr> \<in> set (refreshes d')" using k(1) by (simp add: rows(2) rt_sel_def)
  have "(if sf_sel (sf_id f) f then f\<lparr>sf_rotated := now\<rparr> else f) \<in> set (tbl_upd (sf_sel (sf_id f)) (\<lambda>x. x\<lparr>sf_rotated := now\<rparr>) (families ?c))"
    unfolding set_tbl_upd by (rule imageI) (rule fr(1))
  then have fam: "f\<lparr>sf_rotated := now\<rparr> \<in> set (families d')" by (simp add: rows(3) sf_sel_def)
  have n: "?n \<in> set (refreshes d')" and s: "s \<in> set (sessions d')" by (simp_all add: rows(1,2))
  show ?thesis
  proof (rule exI[of _ f], rule exI[of _ r], rule exI[of _ ?n], intro conjI ballI impI)
    fix x assume x: "x \<in> set (refreshes d')" "rt_family x = sf_id f \<and> rt_consumed x = None"
    show "x = ?n" by (rule one_refresh[OF i x(1) n]) (simp_all add: x(2))
  next
    fix x assume x: "x \<in> set (sessions d')" "gs_family x = Some (sf_id f) \<and> gs_revoked x = None"
    show "x = s" using one_bearer(1)[OF i s x(1)] rows(4) x(2) by simp
  qed (use sub fr(3,4) k(1) used fam n s rows(4) in simp_all)
qed

lemma sample_refresh: "(case refresh_session (ae_sha sample_auth_env) (ae_vars sample_auth_env) sample_draw live_refresh ''native'' 30 sample_signed_in of
    (d, Inr s) \<Rightarrow> gs_hash s = ''#t2'' | _ \<Rightarrow> False)"
  by code_simp

theorem refresh_rotates_witness:
  "\<exists>d' s. refresh_session (ae_sha sample_auth_env) (ae_vars sample_auth_env) sample_draw live_refresh ''native'' 30 sample_signed_in = (d', Inr s)
     \<and> (\<exists>f \<in> set (families d'). sf_rotated f = 30) \<and> (\<exists>n \<in> set (refreshes d'). rt_consumed n = Some 30)"
proof -
  obtain d' s where st: "refresh_session (ae_sha sample_auth_env) (ae_vars sample_auth_env) sample_draw live_refresh ''native'' 30 sample_signed_in = (d', Inr s)"
    using sample_refresh by (auto split: prod.splits sum.splits)
  obtain f r where "r\<lparr>rt_consumed := Some 30\<rparr> \<in> set (refreshes d')" "f\<lparr>sf_rotated := 30\<rparr> \<in> set (families d')"
    using refresh_rotates[OF sample_signed_in_inv st] by blast
  then show ?thesis using st by (intro exI conjI) (auto intro: rev_bexI)
qed

end
