(* ===== verification/Onboarding.thy ===== *)
theory Onboarding
  imports Provider_Auth Credit_Ledger
begin

text \<open>
  \<open>app/onboarding.py\<close>: the first-run state of an account, derived from what other components recorded.
  \<open>github_ready\<close> and \<open>billing_ready\<close> stand for \<open>is_configured()\<close> of the GitHub adapter and \<open>billing_available()\<close>.
\<close>

record onboarding_row =
  ob_user :: string
  ob_welcome :: "int option"
  ob_created :: int
  ob_updated :: int

record credential =
  cr_account :: string
  cr_expires :: "int option"

datatype onboarding_step = Welcome | ProfileName | GithubLink | BillingPlan

record onboarding_view =
  ov_required :: bool
  ov_next :: "onboarding_step option"
  ov_welcome :: bool
  ov_profile :: bool
  ov_github :: bool
  ov_billing :: bool
  ov_linked_steps :: bool
  ov_billing_offered :: bool
  ov_status :: string

definition ensure_provider_onboarding :: "string \<Rightarrow> int \<Rightarrow> onboarding_row table \<Rightarrow> onboarding_row table" where
  "ensure_provider_onboarding user now t =
     (if tbl_ex (\<lambda>r. ob_user r = user) t then t else t @ [\<lparr>ob_user = user, ob_welcome = None, ob_created = now, ob_updated = now\<rparr>])"

definition acknowledge_welcome :: "string \<Rightarrow> int \<Rightarrow> onboarding_row table \<Rightarrow> (auth_fail, onboarding_row table, unit) outcome" where
  "acknowledge_welcome user now t =
     (if \<not> tbl_ex (\<lambda>r. ob_user r = user) t then Inl (HttpError 409)
      else Inr (tbl_upd (\<lambda>r. ob_user r = user)
             (\<lambda>r. r\<lparr>ob_welcome := (case ob_welcome r of None \<Rightarrow> Some now | w \<Rightarrow> w), ob_updated := now\<rparr>) t, ()))"

text \<open>The latest GitHub account with a credential.\<close>

definition github_link :: "string \<Rightarrow> login_account table \<Rightarrow> credential table \<Rightarrow> (string \<times> int option) option" where
  "github_link user accs creds =
     (case sort_key (\<lambda>(a, c). - la_updated a)
             [(a, c). a \<leftarrow> filter (\<lambda>a. la_user a = user \<and> la_provider a = ''github'' \<and> la_kind a = ''oauth'') accs, c \<leftarrow> filter (\<lambda>c. cr_account c = la_id a) creds] of
        [] \<Rightarrow> None
      | (a, c) # _ \<Rightarrow> Some (la_status a, cr_expires c))"

definition billing_observed :: "account option \<Rightarrow> bool" where
  "billing_observed b \<longleftrightarrow> (case b of None \<Rightarrow> False
     | Some x \<Rightarrow> acc_status x \<in> {''active'', ''trialing''} \<and> present (acc_subscription x) \<noteq> None \<and> provider_event_created x \<noteq> None)"

definition onboarding_state :: "personal_deployment \<Rightarrow> bool \<Rightarrow> bool \<Rightarrow> onboarding_row table \<Rightarrow> profile table \<Rightarrow> login_account table \<Rightarrow> credential table
    \<Rightarrow> account table \<Rightarrow> int \<Rightarrow> string \<Rightarrow> onboarding_view" where
  "onboarding_state policy github_ready billing_ready obs users accs creds bills now user =
     (let progress = tbl_get (\<lambda>r. ob_user r = user) obs;
          bill = tbl_get (\<lambda>b. acc_owner b = user) bills;
          provider = (progress \<noteq> None);
          welcome = (case progress of None \<Rightarrow> True | Some r \<Rightarrow> ob_welcome r \<noteq> None);
          named = (case tbl_get (\<lambda>p. pr_id p = user) users of None \<Rightarrow> False | Some p \<Rightarrow> py_strip (pr_name p) \<noteq> []);
          github = github_ready \<and> (case github_link user accs creds of None \<Rightarrow> False
                     | Some (st, e) \<Rightarrow> st = ''connected'' \<and> (case e of None \<Rightarrow> True | Some t \<Rightarrow> now < t));
          paid = billing_observed bill;
          owner = personal policy \<and> Some user = pd_owner policy;
          required = (if owner then \<not> (welcome \<and> named) else if \<not> provider then \<not> named else \<not> (welcome \<and> named \<and> github \<and> paid))
      in \<lparr>ov_required = required,
          ov_next = (if \<not> required then None
                     else Some (if provider \<and> \<not> welcome then Welcome else if \<not> named then ProfileName else if provider \<and> \<not> github then GithubLink else BillingPlan)),
          ov_welcome = welcome, ov_profile = named, ov_github = github, ov_billing = paid, ov_linked_steps = \<not> owner,
          ov_billing_offered = (\<not> owner \<and> billing_ready), ov_status = (case bill of None \<Rightarrow> ''none'' | Some b \<Rightarrow> acc_status b)\<rparr>)"

text \<open>\<open>account_onboarding_required\<close> of \<open>auth.py\<close>; \<open>view\<close> is the state of a provider account.\<close>

definition account_onboarding_required :: "onboarding_view \<Rightarrow> profile table \<Rightarrow> auth_principal \<Rightarrow> bool" where
  "account_onboarding_required view users p =
     (if ''account'' \<notin> set (pr_scopes p) then False
      else if ap_family p \<noteq> None then ov_required view
      else if ap_grant p = None then False
      else (case tbl_get (\<lambda>x. pr_id x = pr_user p) users of None \<Rightarrow> True | Some x \<Rightarrow> py_strip (pr_name x) = []))"

subsection \<open>The next step\<close>

text \<open>The completeness of one step in a view.\<close>

definition step_done :: "onboarding_view \<Rightarrow> onboarding_step \<Rightarrow> bool" where
  "step_done v s = (case s of Welcome \<Rightarrow> ov_welcome v | ProfileName \<Rightarrow> ov_profile v | GithubLink \<Rightarrow> ov_github v | BillingPlan \<Rightarrow> ov_billing v)"

fun step_rank :: "onboarding_step \<Rightarrow> nat" where
  "step_rank Welcome = 0" | "step_rank ProfileName = 1" | "step_rank GithubLink = 2" | "step_rank BillingPlan = 3"

lemma onboarding_next:
  assumes "v = onboarding_state policy gr br obs users accs creds bills now user" and "ov_next v = Some s"
  shows "ov_required v \<and> \<not> step_done v s \<and> (tbl_ex (\<lambda>r. ob_user r = user) obs \<longrightarrow> (\<forall>t. step_rank t < step_rank s \<longrightarrow> step_done v t))"
proof (intro conjI impI allI)
  have n: "ov_required v" using assms by (auto simp: onboarding_state_def Let_def split: if_split_asm)
  then show "ov_required v" .
  show "\<not> step_done v s" using assms by (auto simp: onboarding_state_def step_done_def Let_def split: if_split_asm)
  show "step_done v t" if "tbl_ex (\<lambda>r. ob_user r = user) obs" "step_rank t < step_rank s" for t
    using assms that(2) by (cases t; cases s) (auto simp: onboarding_state_def step_done_def Let_def tbl_get_None_iff tbl_ex_iff split: if_split_asm option.splits)
qed

end
