(* ===== verification/Provider_Keys.thy ===== *)
theory Provider_Keys
  imports Provider_Auth
begin

text \<open>
  The signing-key cache of \<open>provider_auth.py\<close> (\<open>_jwks\<close>) for one provider: a key set is kept for an hour, and
  an unknown key id may force a download, but never within a minute of the last attempt. The lock serializes the
  part that writes, so a sequence of calls is a sequence of these steps. \<open>answer\<close> is what the download of a call
  would return or raise, \<open>done\<close> the clock after it.
\<close>

definition JWKS_UNKNOWN_KEY_REFRESH_SECONDS :: int where "JWKS_UNKNOWN_KEY_REFRESH_SECONDS = 60"

record jwks_state =
  jk_cache :: "(int \<times> json list) option"
  jk_refreshed :: "int option"

record jwks_call =
  jc_force :: bool
  jc_now :: int
  jc_done :: int
  jc_answer :: "auth_fail + json list"

text \<open>\<open>_download_jwks\<close>: the checks on a downloaded payload.\<close>

definition jwks_payload :: "json option \<Rightarrow> auth_fail + json list" where
  "jwks_payload p =
     (case p of
        Some (JObj kvs) \<Rightarrow>
          (case jget (JObj kvs) ''keys'' of
             JList ks \<Rightarrow> if 1 \<le> length ks \<and> length ks \<le> 20 \<and> list_all (\<lambda>k. case k of JObj _ \<Rightarrow> True | _ \<Rightarrow> False) ks then Inr ks else Inl (HttpError 503)
           | _ \<Rightarrow> Inl (HttpError 503))
      | _ \<Rightarrow> Inl (HttpError 401))"

text \<open>The result and whether a download was made.\<close>

definition jwks :: "jwks_call \<Rightarrow> jwks_state \<Rightarrow> jwks_state \<times> (auth_fail + json list) \<times> bool" where
  "jwks c s =
     (case jk_cache s of
        Some (until, ks) \<Rightarrow>
          if \<not> jc_force c \<and> jc_now c < until then (s, Inr ks, False)
          else if jc_now c < (case jk_refreshed s of None \<Rightarrow> 0 | Some t \<Rightarrow> t) + JWKS_UNKNOWN_KEY_REFRESH_SECONDS then (s, Inr ks, False)
          else (case jc_answer c of
                  Inl _ \<Rightarrow> (s\<lparr>jk_refreshed := Some (jc_now c)\<rparr>, Inr ks, True)
                | Inr new \<Rightarrow> (s\<lparr>jk_refreshed := Some (jc_now c), jk_cache := Some (jc_done c + 3600, new)\<rparr>, Inr new, True))
      | None \<Rightarrow>
          if jc_now c < (case jk_refreshed s of None \<Rightarrow> 0 | Some t \<Rightarrow> t) + JWKS_UNKNOWN_KEY_REFRESH_SECONDS then (s, Inl (HttpError 503), False)
          else (case jc_answer c of
                  Inl e \<Rightarrow> (s\<lparr>jk_refreshed := Some (jc_now c)\<rparr>, Inl e, True)
                | Inr new \<Rightarrow> (s\<lparr>jk_refreshed := Some (jc_now c), jk_cache := Some (jc_done c + 3600, new)\<rparr>, Inr new, True)))"

text \<open>The times of the downloads a sequence of calls makes.\<close>

fun downloads :: "jwks_call list \<Rightarrow> jwks_state \<Rightarrow> int list" where
  "downloads [] s = []"
| "downloads (c # cs) s = (case jwks c s of (s', _, d) \<Rightarrow> (if d then [jc_now c] else []) @ downloads cs s')"

lemma jwks_step:
  "jwks c s = (s', r, True) \<Longrightarrow> jk_refreshed s' = Some (jc_now c) \<and> (\<forall>t. jk_refreshed s = Some t \<longrightarrow> t + 60 \<le> jc_now c)"
  "jwks c s = (s', r, False) \<Longrightarrow> jk_refreshed s' = jk_refreshed s"
  by (auto simp: jwks_def JWKS_UNKNOWN_KEY_REFRESH_SECONDS_def split: option.splits sum.splits if_splits)

lemma downloads_first: "downloads cs s = t # ts \<Longrightarrow> jk_refreshed s = Some r \<Longrightarrow> r + 60 \<le> t"
proof (induction cs arbitrary: s)
  case (Cons c cs)
  obtain s' x d where st: "jwks c s = (s', x, d)" by (cases "jwks c s") auto
  show ?case
  proof (cases d)
    case True
    then show ?thesis using jwks_step(1)[of c s s' x] st Cons.prems by auto
  next
    case False
    then show ?thesis using jwks_step(2)[of c s s' x] st Cons by auto
  qed
qed simp

fun spaced :: "int \<Rightarrow> int list \<Rightarrow> bool" where
  "spaced g (a # b # xs) \<longleftrightarrow> a + g \<le> b \<and> spaced g (b # xs)"
| "spaced g _ \<longleftrightarrow> True"

text \<open>However many assertions with unknown key ids arrive, and whether downloads fail or not, two downloads of the
  key set are at least a minute apart.\<close>

theorem jwks_downloads_spaced: "spaced 60 (downloads cs s)"
proof (induction cs arbitrary: s)
  case (Cons c cs)
  obtain s' x d where st: "jwks c s = (s', x, d)" by (cases "jwks c s") auto
  show ?case
  proof (cases "d \<and> downloads cs s' \<noteq> []")
    case True
    then obtain t ts where ts: "downloads cs s' = t # ts" by (cases "downloads cs s'") auto
    have "jc_now c + 60 \<le> t" using downloads_first[OF ts] jwks_step(1)[of c s s' x] st True by auto
    then show ?thesis using Cons[of s'] st True ts by simp
  next
    case False
    then show ?thesis using Cons[of s'] st by (cases "downloads cs s'") auto
  qed
qed simp

end
