(* ===== verification/Chat_Store.thy ===== *)
theory Chat_Store
  imports Prelude Py_Values
begin

text \<open>
  \<open>app/magi_chat_store.py\<close>: the store of native Magi conversations. A submission is one user message and the
  assistant message reserved for its answer; every write of a message appends a row to the change log of its
  conversation, from which clients replay. Each method is one transaction.

  Ids drawn by \<open>_new_id\<close> are arguments. \<open>attachments_json\<close> is the canonical list it encodes. The clock is read
  once per call.
\<close>

definition MAX_MAGI_HISTORY_MESSAGES :: nat where "MAX_MAGI_HISTORY_MESSAGES = 200"

definition MAX_MAGI_CONTEXT_MESSAGES :: nat where "MAX_MAGI_CONTEXT_MESSAGES = 40"

definition MAX_ATTACHMENTS_PER_MESSAGE :: nat where "MAX_ATTACHMENTS_PER_MESSAGE = 10"

datatype chat_error = ChatNotFound | ChatConflict | ChatValue | ChatIntegrity

datatype chat_status = ChatPending | ChatCompleted | ChatFailed | ChatCancelled

record attachment =
  at_id :: string
  at_name :: string
  at_media :: string
  at_size :: int

record conversation =
  cv_id :: string
  cv_owner :: string
  cv_default :: bool
  cv_created :: int
  cv_updated :: int

record magi_message =
  mm_id :: string
  mm_conversation :: string
  mm_owner :: string
  mm_turn :: string
  mm_role :: string
  mm_content :: string
  mm_status :: chat_status
  mm_source :: string
  mm_client :: "string option"
  mm_reply :: "string option"
  mm_attachments :: "attachment list"
  mm_sequence :: int
  mm_revision :: int
  mm_attempt :: int
  mm_error :: "string option"
  mm_created :: int
  mm_updated :: int

record change =
  mc_conversation :: string
  mc_sequence :: int
  mc_message :: string
  mc_revision :: int
  mc_changed :: int

record binding =
  gb_owner :: string
  gb_key :: string
  gb_facts :: string
  gb_conversation :: string
  gb_reply :: string
  gb_message :: string
  gb_created :: int

record turn_route =
  tr_message :: string
  tr_owner :: string
  tr_category :: string
  tr_permission :: bool
  tr_confirmation :: bool
  tr_outcome :: string
  tr_created :: int
  tr_updated :: int

record diagnostics =
  dg_owner :: string
  dg_submitted :: int
  dg_completed :: int
  dg_failed :: int
  dg_duplicates :: int
  dg_latency :: int
  dg_latency_total :: int
  dg_latency_max :: int
  dg_characters :: int
  dg_characters_last :: int
  dg_characters_max :: int
  dg_retries :: int
  dg_tool_calls :: int
  dg_legacy :: int
  dg_terminal :: int
  dg_ownership :: int
  dg_updated :: int

record chat_db =
  conversations :: "conversation table"
  chat_rows :: "magi_message table"
  changes :: "change table"
  bindings :: "binding table"
  turn_routes :: "turn_route table"
  counters :: "diagnostics table"

definition cv_sel :: "string \<Rightarrow> conversation \<Rightarrow> bool" where "cv_sel k c \<longleftrightarrow> cv_id c = k"
definition mm_sel :: "string \<Rightarrow> magi_message \<Rightarrow> bool" where "mm_sel k m \<longleftrightarrow> mm_id m = k"
definition gb_sel :: "string \<times> string \<Rightarrow> binding \<Rightarrow> bool" where "gb_sel k b \<longleftrightarrow> (gb_owner b, gb_key b) = k"
definition tr_sel :: "string \<Rightarrow> turn_route \<Rightarrow> bool" where "tr_sel k t \<longleftrightarrow> tr_message t = k"
definition dg_sel :: "string \<Rightarrow> diagnostics \<Rightarrow> bool" where "dg_sel k g \<longleftrightarrow> dg_owner g = k"

subsection \<open>Attachments\<close>

definition upload_id_ok :: "string \<Rightarrow> bool" where
  "upload_id_ok s \<longleftrightarrow> 16 \<le> length s \<and> length s \<le> 64
     \<and> (let body = filter (\<lambda>c. c \<noteq> CHR ''-'' \<and> c \<noteq> CHR ''_'') s in body \<noteq> [] \<and> list_all py_alnum body)"

definition canonical_attachment :: "json \<Rightarrow> attachment option" where
  "canonical_attachment a =
     (case (jget a ''upload_id'', if ''filename'' \<in> jkeys a then jget a ''filename'' else jget a ''name'', jget a ''media_type'', jget a ''size'') of
        (JStr i, JStr n, JStr m, JInt sz) \<Rightarrow>
          if upload_id_ok i \<and> n \<noteq> [] \<and> length n \<le> 160 \<and> m \<noteq> [] \<and> length m \<le> 128 \<and> 0 \<le> sz \<and> sz \<le> 25 * 1024 * 1024
          then Some \<lparr>at_id = i, at_name = n, at_media = m, at_size = sz\<rparr> else None
      | _ \<Rightarrow> None)"

fun canonical_each :: "json list \<Rightarrow> attachment list option" where
  "canonical_each [] = Some []"
| "canonical_each (a # as) =
     (case canonical_attachment a of None \<Rightarrow> None | Some r \<Rightarrow> map_option (Cons r) (canonical_each as))"

definition canonical_attachments :: "json list \<Rightarrow> attachment list option" where
  "canonical_attachments as = (if MAX_ATTACHMENTS_PER_MESSAGE < length as then None else canonical_each as)"

subsection \<open>Shared statements\<close>

definition last_change :: "string \<Rightarrow> chat_db \<Rightarrow> int" where
  "last_change conv d = foldr max (map mc_sequence (filter (\<lambda>c. mc_conversation c = conv) (changes d))) 0"

definition append_change :: "string \<Rightarrow> string \<Rightarrow> int \<Rightarrow> int \<Rightarrow> chat_db \<Rightarrow> (chat_error, chat_db, unit) outcome" where
  "append_change conv msg r now d =
     (if tbl_ex (\<lambda>c. mc_conversation c = conv \<and> mc_message c = msg \<and> mc_revision c = r) (changes d) then Inl ChatIntegrity
      else Inr (d\<lparr>changes := changes d @ [\<lparr>mc_conversation = conv, mc_sequence = last_change conv d + 1, mc_message = msg, mc_revision = r,
                    mc_changed = now\<rparr>]\<rparr>, ()))"

definition new_diagnostics :: "string \<Rightarrow> int \<Rightarrow> diagnostics" where
  "new_diagnostics owner now = \<lparr>dg_owner = owner, dg_submitted = 0, dg_completed = 0, dg_failed = 0, dg_duplicates = 0, dg_latency = 0,
     dg_latency_total = 0, dg_latency_max = 0, dg_characters = 0, dg_characters_last = 0, dg_characters_max = 0, dg_retries = 0, dg_tool_calls = 0,
     dg_legacy = 0, dg_terminal = 0, dg_ownership = 0, dg_updated = now\<rparr>"

text \<open>\<open>_increment_diagnostics\<close>; \<open>f\<close> adds to the named counters.\<close>

definition count_up :: "string \<Rightarrow> (diagnostics \<Rightarrow> diagnostics) \<Rightarrow> int \<Rightarrow> chat_db \<Rightarrow> chat_db" where
  "count_up owner f now d =
     (let t = (if tbl_ex (dg_sel owner) (counters d) then counters d else counters d @ [new_diagnostics owner now])
      in d\<lparr>counters := tbl_upd (dg_sel owner) (\<lambda>g. (f g)\<lparr>dg_updated := now\<rparr>) t\<rparr>)"

definition completion_metrics :: "int \<Rightarrow> int \<Rightarrow> int \<Rightarrow> diagnostics \<Rightarrow> diagnostics" where
  "completion_metrics latency characters tools g = g\<lparr>dg_completed := dg_completed g + 1, dg_latency := latency,
     dg_latency_total := dg_latency_total g + latency, dg_latency_max := max (dg_latency_max g) latency,
     dg_characters := dg_characters g + characters, dg_characters_last := characters, dg_characters_max := max (dg_characters_max g) characters,
     dg_tool_calls := dg_tool_calls g + max 0 tools\<rparr>"

definition touch_conversation :: "string \<Rightarrow> int \<Rightarrow> chat_db \<Rightarrow> chat_db" where
  "touch_conversation conv now d = d\<lparr>conversations := tbl_upd (cv_sel conv) (\<lambda>c. c\<lparr>cv_updated := now\<rparr>) (conversations d)\<rparr>"

definition conversation_row :: "string \<Rightarrow> string \<Rightarrow> chat_db \<Rightarrow> (chat_error, chat_db, conversation) outcome" where
  "conversation_row owner conv d =
     (case tbl_get (\<lambda>c. cv_id c = conv \<and> cv_owner c = owner) (conversations d) of None \<Rightarrow> Inl ChatNotFound | Some c \<Rightarrow> Inr (d, c))"

text \<open>\<open>_default_conversation\<close> with \<open>create=True\<close>; an id that exists makes the insertion fail, and there is no row
  to fall back to.\<close>

definition default_conversation :: "string \<Rightarrow> string \<Rightarrow> int \<Rightarrow> chat_db \<Rightarrow> (chat_error, chat_db, conversation) outcome" where
  "default_conversation owner cid now d =
     (case tbl_get (\<lambda>c. cv_owner c = owner \<and> cv_default c) (conversations d) of
        Some c \<Rightarrow> Inr (d, c)
      | None \<Rightarrow>
          if tbl_ex (cv_sel cid) (conversations d) then Inl ChatIntegrity
          else let c = \<lparr>cv_id = cid, cv_owner = owner, cv_default = True, cv_created = now, cv_updated = now\<rparr>
               in Inr (d\<lparr>conversations := conversations d @ [c]\<rparr>, c))"

definition find_conversation :: "string \<Rightarrow> string option \<Rightarrow> string \<Rightarrow> int \<Rightarrow> chat_db \<Rightarrow> (chat_error, chat_db, conversation) outcome" where
  "find_conversation owner conv cid now d =
     (case conv of
        None \<Rightarrow> default_conversation owner cid now d
      | Some k \<Rightarrow> if k = [] then default_conversation owner cid now d else conversation_row owner k d)"

text \<open>The two rows of a submission: no submission, a reserved answer that is missing, or both.\<close>

definition submission_rows :: "string \<Rightarrow> string \<Rightarrow> chat_db \<Rightarrow> chat_error + (magi_message \<times> magi_message) option" where
  "submission_rows owner client d =
     (case tbl_get (\<lambda>m. mm_owner m = owner \<and> mm_client m = Some client \<and> mm_role m = ''user'') (chat_rows d) of
        None \<Rightarrow> Inr None
      | Some u \<Rightarrow>
         (case tbl_get (\<lambda>m. mm_owner m = owner \<and> mm_conversation m = mm_conversation u \<and> mm_turn m = mm_turn u \<and> mm_role m = ''assistant'') (chat_rows d) of
            None \<Rightarrow> Inl ChatConflict
          | Some a \<Rightarrow> Inr (Some (u, a))))"

definition generated_rows :: "string \<Rightarrow> string \<Rightarrow> chat_db \<Rightarrow> chat_error + (binding \<times> magi_message) option" where
  "generated_rows owner key d =
     (case tbl_get (gb_sel (owner, key)) (bindings d) of
        None \<Rightarrow> Inr None
      | Some b \<Rightarrow>
         (case tbl_get (\<lambda>m. mm_id m = gb_message b \<and> mm_owner m = owner \<and> mm_role m = ''assistant'') (chat_rows d) of
            None \<Rightarrow> Inl ChatConflict
          | Some a \<Rightarrow> Inr (Some (b, a))))"

definition next_sequence :: "string \<Rightarrow> chat_db \<Rightarrow> int" where
  "next_sequence conv d = foldr max (map mm_sequence (filter (\<lambda>m. mm_conversation m = conv) (chat_rows d))) (- 1) + 1"

text \<open>An insertion into \<open>magi_messages\<close> with its keys.\<close>

definition insert_message :: "magi_message \<Rightarrow> chat_db \<Rightarrow> (chat_error, chat_db, unit) outcome" where
  "insert_message m d =
     (if tbl_ex (\<lambda>x. mm_id x = mm_id m
            \<or> (mm_client m \<noteq> None \<and> mm_owner x = mm_owner m \<and> mm_client x = mm_client m)
            \<or> (mm_conversation x = mm_conversation m \<and> mm_turn x = mm_turn m \<and> mm_role x = mm_role m)
            \<or> (mm_conversation x = mm_conversation m \<and> mm_sequence x = mm_sequence m)) (chat_rows d)
      then Inl ChatIntegrity else Inr (d\<lparr>chat_rows := chat_rows d @ [m]\<rparr>, ()))"

text \<open>An update of one message: the revision goes up and the change log records it.\<close>

definition revise :: "magi_message \<Rightarrow> (magi_message \<Rightarrow> magi_message) \<Rightarrow> int \<Rightarrow> chat_db \<Rightarrow> (chat_error, chat_db, unit) outcome" where
  "revise m f now d =
     append_change (mm_conversation m) (mm_id m) (mm_revision m + 1) now
       (d\<lparr>chat_rows := tbl_upd (mm_sel (mm_id m)) (\<lambda>x. (f x)\<lparr>mm_revision := mm_revision m + 1, mm_updated := now\<rparr>) (chat_rows d)\<rparr>)"

subsection \<open>Submissions\<close>

record prepared =
  ps_conversation :: string
  ps_user :: "string option"
  ps_assistant :: string
  ps_turn :: string
  ps_attempt :: int
  ps_claimed :: bool
  ps_duplicate :: bool
  ps_status :: chat_status

definition prepared_of :: "string \<Rightarrow> magi_message option \<Rightarrow> magi_message \<Rightarrow> bool \<Rightarrow> bool \<Rightarrow> prepared" where
  "prepared_of conv u a claimed duplicate = \<lparr>ps_conversation = conv, ps_user = map_option mm_id u, ps_assistant = mm_id a,
     ps_turn = (case u of None \<Rightarrow> mm_turn a | Some x \<Rightarrow> mm_turn x), ps_attempt = mm_attempt a, ps_claimed = claimed, ps_duplicate = duplicate,
     ps_status = mm_status a\<rparr>"

definition user_message :: "string \<Rightarrow> string \<Rightarrow> string \<Rightarrow> string \<Rightarrow> string \<Rightarrow> string \<Rightarrow> string \<Rightarrow> attachment list \<Rightarrow> int \<Rightarrow> int \<Rightarrow> magi_message" where
  "user_message owner conv turn mid client content source as seq now =
     \<lparr>mm_id = mid, mm_conversation = conv, mm_owner = owner, mm_turn = turn, mm_role = ''user'', mm_content = content, mm_status = ChatCompleted,
      mm_source = source, mm_client = Some client, mm_reply = None, mm_attachments = as, mm_sequence = seq, mm_revision = 1, mm_attempt = 1,
      mm_error = None, mm_created = now, mm_updated = now\<rparr>"

definition assistant_message :: "string \<Rightarrow> string \<Rightarrow> string \<Rightarrow> string \<Rightarrow> string \<Rightarrow> int \<Rightarrow> int \<Rightarrow> magi_message" where
  "assistant_message owner conv turn mid reply seq now =
     \<lparr>mm_id = mid, mm_conversation = conv, mm_owner = owner, mm_turn = turn, mm_role = ''assistant'', mm_content = [], mm_status = ChatPending,
      mm_source = ''magi-native'', mm_client = None, mm_reply = Some reply, mm_attachments = [], mm_sequence = seq, mm_revision = 1, mm_attempt = 1,
      mm_error = None, mm_created = now, mm_updated = now\<rparr>"

definition retried :: "magi_message \<Rightarrow> magi_message" where
  "retried m = m\<lparr>mm_status := ChatPending, mm_content := [], mm_error := None, mm_attempt := mm_attempt m + 1\<rparr>"

text \<open>The retry of a failed answer: the row it leaves and the new state.\<close>

definition retry :: "string \<Rightarrow> magi_message \<Rightarrow> int \<Rightarrow> chat_db \<Rightarrow> (chat_error, chat_db, magi_message) outcome" where
  "retry owner a now d =
     (case revise a retried now d of
        Inl e \<Rightarrow> Inl e
      | Inr (d1, _) \<Rightarrow> Inr (count_up owner (\<lambda>g. g\<lparr>dg_retries := dg_retries g + 1\<rparr>) now d1,
                          (retried a)\<lparr>mm_revision := mm_revision a + 1, mm_updated := now\<rparr>))"

text \<open>A submission id that is already bound.\<close>

definition resubmit :: "string \<Rightarrow> string \<Rightarrow> string \<Rightarrow> string \<Rightarrow> attachment list \<Rightarrow> bool \<Rightarrow> magi_message \<Rightarrow> magi_message \<Rightarrow> int \<Rightarrow> chat_db
    \<Rightarrow> (chat_error, chat_db, prepared) outcome" where
  "resubmit owner conv content source as retry_failed u a now d =
     (let d1 = count_up owner (\<lambda>g. g\<lparr>dg_duplicates := dg_duplicates g + 1\<rparr>) now d in
      if mm_conversation u \<noteq> conv \<or> mm_content u \<noteq> content \<or> mm_source u \<noteq> source \<or> mm_attachments u \<noteq> as then Inl ChatConflict
      else if retry_failed \<and> mm_status a = ChatFailed then
        (case retry owner a now d1 of
           Inl e \<Rightarrow> Inl e
         | Inr (d2, a') \<Rightarrow> Inr (d2, prepared_of conv (Some u) a' True True))
      else Inr (d1, prepared_of conv (Some u) a False True))"

record chat_ids =
  di_conversation :: string
  di_turn :: string
  di_user :: string
  di_assistant :: string

definition submit_new :: "string \<Rightarrow> string \<Rightarrow> string \<Rightarrow> string \<Rightarrow> string \<Rightarrow> attachment list \<Rightarrow> chat_ids \<Rightarrow> int \<Rightarrow> chat_db
    \<Rightarrow> (chat_error, chat_db, prepared) outcome" where
  "submit_new owner conv client content source as ids now d =
     (let seq = next_sequence conv d;
          u = user_message owner conv (di_turn ids) (di_user ids) client content source as seq now;
          a = assistant_message owner conv (di_turn ids) (di_assistant ids) (di_user ids) (seq + 1) now
      in case insert_message u d of
        Inl e \<Rightarrow> Inl e
      | Inr (d1, _) \<Rightarrow>
         (case insert_message a d1 of
            Inl e \<Rightarrow> Inl e
          | Inr (d2, _) \<Rightarrow>
             (case append_change conv (mm_id u) 1 now (touch_conversation conv now d2) of
                Inl e \<Rightarrow> Inl e
              | Inr (d3, _) \<Rightarrow>
                 (case append_change conv (mm_id a) 1 now d3 of
                    Inl e \<Rightarrow> Inl e
                  | Inr (d4, _) \<Rightarrow> Inr (count_up owner (\<lambda>g. g\<lparr>dg_submitted := dg_submitted g + 1\<rparr>) now d4, prepared_of conv (Some u) a True False)))))"

text \<open>\<open>attachments\<close> is \<open>None\<close> when they are invalid.\<close>

definition prepare_submission :: "string \<Rightarrow> string \<Rightarrow> string \<Rightarrow> string option \<Rightarrow> string \<Rightarrow> attachment list option \<Rightarrow> bool \<Rightarrow> chat_ids \<Rightarrow> int \<Rightarrow> chat_db
    \<Rightarrow> (chat_error, chat_db, prepared) outcome" where
  "prepare_submission owner client content conv source attachments retry_failed ids now d =
     (if source \<notin> {''text'', ''voice''} then Inl ChatValue
      else case attachments of
        None \<Rightarrow> Inl ChatValue
      | Some as \<Rightarrow>
         (case find_conversation owner conv (di_conversation ids) now d of
            Inl e \<Rightarrow> Inl e
          | Inr (d1, c) \<Rightarrow>
             (case submission_rows owner client d1 of
                Inl e \<Rightarrow> Inl e
              | Inr (Some (u, a)) \<Rightarrow> resubmit owner (cv_id c) content source as retry_failed u a now d1
              | Inr None \<Rightarrow> submit_new owner (cv_id c) client content source as ids now d1)))"

subsection \<open>Generated messages\<close>

definition generation_key_char :: "char \<Rightarrow> bool" where
  "generation_key_char c \<longleftrightarrow> is_alnum c \<or> c \<in> {CHR ''.'', CHR ''_'', CHR '':'', CHR ''-''}"

definition generation_ok :: "string \<Rightarrow> string \<Rightarrow> bool" where
  "generation_ok key facts \<longleftrightarrow> full_class is_alnum generation_key_char 0 199 key
     \<and> length facts = 64 \<and> list_all (\<lambda>c. is_digit c \<or> (97 \<le> code c \<and> code c \<le> 102)) facts"

definition regenerate :: "string \<Rightarrow> string \<Rightarrow> string \<Rightarrow> string \<Rightarrow> bool \<Rightarrow> binding \<Rightarrow> magi_message \<Rightarrow> int \<Rightarrow> chat_db
    \<Rightarrow> (chat_error, chat_db, prepared) outcome" where
  "regenerate owner facts conv reply retry_failed b a now d =
     (if gb_facts b \<noteq> facts \<or> gb_conversation b \<noteq> conv \<or> gb_reply b \<noteq> reply \<or> mm_conversation a \<noteq> conv
         \<or> mm_reply a \<noteq> Some reply \<or> mm_source a \<noteq> ''magi-native'' then Inl ChatConflict
      else if retry_failed \<and> mm_status a = ChatFailed then
        (case retry owner a now d of
           Inl e \<Rightarrow> Inl e
         | Inr (d1, a') \<Rightarrow> Inr (d1, prepared_of conv None a' True True))
      else Inr (d, prepared_of conv None a False True))"

definition generate_new :: "string \<Rightarrow> string \<Rightarrow> string \<Rightarrow> string \<Rightarrow> string \<Rightarrow> chat_ids \<Rightarrow> int \<Rightarrow> chat_db \<Rightarrow> (chat_error, chat_db, prepared) outcome" where
  "generate_new owner key facts conv reply ids now d =
     (let a = assistant_message owner conv (di_turn ids) (di_assistant ids) reply (next_sequence conv d) now in
      case insert_message a d of
        Inl e \<Rightarrow> Inl e
      | Inr (d1, _) \<Rightarrow>
          if tbl_ex (\<lambda>b. gb_sel (owner, key) b \<or> gb_message b = mm_id a) (bindings d1) then Inl ChatIntegrity
          else
            let d2 = d1\<lparr>bindings := bindings d1 @ [\<lparr>gb_owner = owner, gb_key = key, gb_facts = facts, gb_conversation = conv, gb_reply = reply,
                       gb_message = mm_id a, gb_created = now\<rparr>]\<rparr>
            in (case append_change conv (mm_id a) 1 now (touch_conversation conv now d2) of
                  Inl e \<Rightarrow> Inl e
                | Inr (d3, _) \<Rightarrow> Inr (count_up owner (\<lambda>g. g\<lparr>dg_submitted := dg_submitted g + 1\<rparr>) now d3, prepared_of conv None a True False)))"

definition prepare_generated_assistant :: "string \<Rightarrow> string \<Rightarrow> string \<Rightarrow> string \<Rightarrow> string \<Rightarrow> bool \<Rightarrow> chat_ids \<Rightarrow> int \<Rightarrow> chat_db
    \<Rightarrow> (chat_error, chat_db, prepared) outcome" where
  "prepare_generated_assistant owner key facts conv reply retry_failed ids now d =
     (if \<not> generation_ok key facts then Inl ChatValue
      else case conversation_row owner conv d of
        Inl e \<Rightarrow> Inl e
      | Inr _ \<Rightarrow>
          if \<not> tbl_ex (\<lambda>m. mm_id m = reply \<and> mm_owner m = owner \<and> mm_conversation m = conv \<and> mm_role m = ''user'' \<and> mm_status m = ChatCompleted) (chat_rows d)
          then Inl ChatNotFound
          else (case generated_rows owner key d of
                  Inl e \<Rightarrow> Inl e
                | Inr (Some (b, a)) \<Rightarrow> regenerate owner facts conv reply retry_failed b a now d
                | Inr None \<Rightarrow> generate_new owner key facts conv reply ids now d))"

subsection \<open>Answers\<close>

text \<open>An attempt that is no longer current writes nothing and returns \<open>False\<close>.\<close>

definition answer_row :: "string \<Rightarrow> string \<Rightarrow> chat_db \<Rightarrow> magi_message option" where
  "answer_row owner mid d = tbl_get (\<lambda>m. mm_id m = mid \<and> mm_owner m = owner \<and> mm_role m = ''assistant'') (chat_rows d)"

definition complete_submission :: "string \<Rightarrow> string \<Rightarrow> int \<Rightarrow> string \<Rightarrow> int \<Rightarrow> int \<Rightarrow> int \<Rightarrow> chat_db \<Rightarrow> (chat_error, chat_db, bool) outcome" where
  "complete_submission owner mid attempt content latency tools now d =
     (case answer_row owner mid d of
        None \<Rightarrow> Inl ChatNotFound
      | Some m \<Rightarrow>
          if mm_status m \<noteq> ChatPending \<or> mm_attempt m \<noteq> attempt then Inr (d, False)
          else (case revise m (\<lambda>x. x\<lparr>mm_content := content, mm_status := ChatCompleted, mm_error := None\<rparr>) now (touch_conversation (mm_conversation m) now d) of
                  Inl e \<Rightarrow> Inl e
                | Inr (d1, _) \<Rightarrow> Inr (count_up owner (completion_metrics (max 0 latency) (int (length content)) tools) now d1, True)))"

definition safe_code :: "string \<Rightarrow> string" where
  "safe_code c = (if c \<noteq> [] \<and> length c \<le> 64 then c else ''provider_failure'')"

definition fail_submission :: "string \<Rightarrow> string \<Rightarrow> int \<Rightarrow> string \<Rightarrow> int \<Rightarrow> int \<Rightarrow> chat_db \<Rightarrow> (chat_error, chat_db, bool) outcome" where
  "fail_submission owner mid attempt err tools now d =
     (case answer_row owner mid d of
        None \<Rightarrow> Inl ChatNotFound
      | Some m \<Rightarrow>
          if mm_status m \<noteq> ChatPending \<or> mm_attempt m \<noteq> attempt then Inr (d, False)
          else (case revise m (\<lambda>x. x\<lparr>mm_content := [], mm_status := ChatFailed, mm_error := Some (safe_code err)\<rparr>) now (touch_conversation (mm_conversation m) now d) of
                  Inl e \<Rightarrow> Inl e
                | Inr (d1, _) \<Rightarrow> Inr (count_up owner (\<lambda>g. g\<lparr>dg_failed := dg_failed g + 1, dg_tool_calls := dg_tool_calls g + max 0 tools\<rparr>) now d1, True)))"

definition close_routes :: "string \<Rightarrow> string \<Rightarrow> string \<Rightarrow> int \<Rightarrow> chat_db \<Rightarrow> chat_db" where
  "close_routes owner mid result now d =
     d\<lparr>turn_routes := tbl_upd (\<lambda>t. tr_message t = mid \<and> tr_owner t = owner) (\<lambda>t. t\<lparr>tr_outcome := result, tr_updated := now\<rparr>) (turn_routes d)\<rparr>"

text \<open>The startup recovery, row by row.\<close>

fun recover_messages :: "magi_message list \<Rightarrow> int \<Rightarrow> chat_db \<Rightarrow> (chat_error, chat_db, unit) outcome" where
  "recover_messages [] now d = Inr (d, ())"
| "recover_messages (m # ms) now d =
     (case revise m (\<lambda>x. if mm_status x = ChatPending then x\<lparr>mm_content := [], mm_status := ChatFailed, mm_error := Some ''server_restart''\<rparr> else x) now
             (touch_conversation (mm_conversation m) now d) of
        Inl e \<Rightarrow> Inl e
      | Inr (d1, _) \<Rightarrow> recover_messages ms now (close_routes (mm_owner m) (mm_id m) ''failed'' now d1))"

fun count_failures :: "string list \<Rightarrow> magi_message list \<Rightarrow> int \<Rightarrow> chat_db \<Rightarrow> chat_db" where
  "count_failures [] ms now d = d"
| "count_failures (u # us) ms now d =
     count_failures us ms now (count_up u (\<lambda>g. g\<lparr>dg_failed := dg_failed g + int (length (filter (\<lambda>m. mm_owner m = u) ms))\<rparr>) now d)"

definition orphaned :: "chat_db \<Rightarrow> magi_message list" where
  "orphaned d = filter (\<lambda>m. mm_role m = ''assistant'' \<and> mm_status m = ChatPending) (chat_rows d)"

definition recover_orphaned_pending :: "int \<Rightarrow> chat_db \<Rightarrow> (chat_error, chat_db, nat) outcome" where
  "recover_orphaned_pending now d =
     (case recover_messages (orphaned d) now d of
        Inl e \<Rightarrow> Inl e
      | Inr (d1, _) \<Rightarrow> Inr (count_failures (remdups (map mm_owner (orphaned d))) (orphaned d) now d1, length (orphaned d)))"

definition cancel_submission :: "string \<Rightarrow> string \<Rightarrow> int \<Rightarrow> chat_db \<Rightarrow> (chat_error, chat_db, unit) outcome" where
  "cancel_submission owner client now d =
     (case submission_rows owner client d of
        Inl e \<Rightarrow> Inl e
      | Inr None \<Rightarrow> Inl ChatNotFound
      | Inr (Some (u, a)) \<Rightarrow>
          if mm_status a \<noteq> ChatPending then Inr (d, ())
          else (case revise a (\<lambda>x. x\<lparr>mm_content := [], mm_status := ChatCancelled, mm_error := None\<rparr>) now d of
                  Inl e \<Rightarrow> Inl e
                | Inr (d1, _) \<Rightarrow> Inr (close_routes owner (mm_id a) ''cancelled'' now (touch_conversation (mm_conversation u) now d1), ())))"

subsection \<open>Route closures and counters\<close>

definition VALID_ROUTE_CATEGORIES :: "string list" where
  "VALID_ROUTE_CATEGORIES = [''DIRECT_CONVERSATION'', ''READ_ONLY_INVESTIGATION'', ''EXECUTION'', ''DECISION_RESPONSE'', ''HIGH_IMPACT_ACTION'']"

definition VALID_ROUTE_OUTCOMES :: "string list" where
  "VALID_ROUTE_OUTCOMES = [''routing'', ''direct-response'', ''objective-accepted'', ''memory-saved'', ''confirmation-required'', ''failed'', ''cancelled'']"

definition record_turn_route :: "string \<Rightarrow> string \<Rightarrow> string \<Rightarrow> bool \<Rightarrow> bool \<Rightarrow> string \<Rightarrow> int \<Rightarrow> chat_db \<Rightarrow> (chat_error, chat_db, unit) outcome" where
  "record_turn_route owner mid category permission confirmation result now d =
     (if category \<notin> set VALID_ROUTE_CATEGORIES \<or> result \<notin> set VALID_ROUTE_OUTCOMES then Inl ChatValue
      else if answer_row owner mid d = None then Inl ChatNotFound
      else Inr (d\<lparr>turn_routes :=
              (if tbl_ex (tr_sel mid) (turn_routes d)
               then tbl_upd (\<lambda>t. tr_sel mid t \<and> tr_owner t = owner)
                      (\<lambda>t. t\<lparr>tr_category := category, tr_permission := permission, tr_confirmation := confirmation, tr_outcome := result, tr_updated := now\<rparr>)
                      (turn_routes d)
               else turn_routes d @ [\<lparr>tr_message = mid, tr_owner = owner, tr_category = category, tr_permission = permission,
                      tr_confirmation = confirmation, tr_outcome = result, tr_created = now, tr_updated = now\<rparr>])\<rparr>, ()))"

definition route_closures :: "string \<Rightarrow> nat \<Rightarrow> chat_db \<Rightarrow> turn_route list option" where
  "route_closures owner limit d =
     (if 1 \<le> limit \<and> limit \<le> 100
      then Some (take limit (sort_key (\<lambda>t. - tr_updated t) (filter (\<lambda>t. tr_owner t = owner) (turn_routes d)))) else None)"

datatype compatibility_counter = LegacyRead | TerminalRead | OwnershipRead

definition record_compatibility_read :: "string \<Rightarrow> compatibility_counter \<Rightarrow> int \<Rightarrow> chat_db \<Rightarrow> chat_db" where
  "record_compatibility_read owner c now d = count_up owner
     (\<lambda>g. case c of LegacyRead \<Rightarrow> g\<lparr>dg_legacy := dg_legacy g + 1\<rparr> | TerminalRead \<Rightarrow> g\<lparr>dg_terminal := dg_terminal g + 1\<rparr>
           | OwnershipRead \<Rightarrow> g\<lparr>dg_ownership := dg_ownership g + 1\<rparr>) now d"

definition reset_diagnostics :: "string \<Rightarrow> chat_db \<Rightarrow> chat_db" where
  "reset_diagnostics owner d = d\<lparr>counters := filter (\<lambda>g. \<not> dg_sel owner g) (counters d)\<rparr>"

subsection \<open>Reads\<close>

definition context_before :: "string \<Rightarrow> string \<Rightarrow> string \<Rightarrow> nat \<Rightarrow> chat_db \<Rightarrow> chat_error + magi_message list" where
  "context_before owner conv mid limit d =
     (if \<not> (1 \<le> limit \<and> limit \<le> MAX_MAGI_CONTEXT_MESSAGES) then Inl ChatValue
      else case conversation_row owner conv d of
        Inl e \<Rightarrow> Inl e
      | Inr _ \<Rightarrow>
         (case tbl_get (\<lambda>m. mm_id m = mid \<and> mm_owner m = owner \<and> mm_role m = ''user'') (chat_rows d) of
            None \<Rightarrow> Inl ChatNotFound
          | Some u \<Rightarrow> Inr (rev (take limit (sort_key (\<lambda>m. - mm_sequence m)
                (filter (\<lambda>m. mm_owner m = owner \<and> mm_conversation m = conv \<and> mm_sequence m < mm_sequence u \<and> mm_status m = ChatCompleted \<and> mm_content m \<noteq> [])
                   (chat_rows d)))))))"

record history_page =
  hp_messages :: "magi_message list"
  hp_more :: bool
  hp_next :: "int option"
  hp_latest :: int

text \<open>Reading the history of no named conversation creates the default one.\<close>

definition list_conversation :: "string \<Rightarrow> string option \<Rightarrow> int option \<Rightarrow> nat \<Rightarrow> string \<Rightarrow> int \<Rightarrow> chat_db \<Rightarrow> (chat_error, chat_db, history_page) outcome" where
  "list_conversation owner conv before limit cid now d =
     (if \<not> (1 \<le> limit \<and> limit \<le> MAX_MAGI_HISTORY_MESSAGES) then Inl ChatValue
      else if (case before of None \<Rightarrow> False | Some b \<Rightarrow> b < 1) then Inl ChatValue
      else case find_conversation owner conv cid now d of
        Inl e \<Rightarrow> Inl e
      | Inr (d1, c) \<Rightarrow>
          let rows = take (limit + 1) (sort_key (\<lambda>m. - mm_sequence m)
                (filter (\<lambda>m. mm_owner m = owner \<and> mm_conversation m = cv_id c \<and> (case before of None \<Rightarrow> True | Some b \<Rightarrow> mm_sequence m < b)) (chat_rows d1)));
              more = (limit < length rows);
              page = rev (take limit rows)
          in Inr (d1, \<lparr>hp_messages = page, hp_more = more, hp_next = (if more \<and> page \<noteq> [] then Some (mm_sequence (hd page)) else None),
                       hp_latest = last_change (cv_id c) d1\<rparr>))"

record replay_page =
  rp_messages :: "(magi_message \<times> int) list"
  rp_next :: int
  rp_latest :: int
  rp_more :: bool

fun changed_messages :: "string \<Rightarrow> change list \<Rightarrow> chat_db \<Rightarrow> chat_error + (magi_message \<times> int) list" where
  "changed_messages owner [] d = Inr []"
| "changed_messages owner (c # cs) d =
     (case tbl_get (\<lambda>m. mm_id m = mc_message c \<and> mm_owner m = owner) (chat_rows d) of
        None \<Rightarrow> Inl ChatConflict
      | Some m \<Rightarrow> (case changed_messages owner cs d of Inl e \<Rightarrow> Inl e | Inr ms \<Rightarrow> Inr ((m, mc_sequence c) # ms)))"

definition replay :: "string \<Rightarrow> string \<Rightarrow> int \<Rightarrow> nat \<Rightarrow> chat_db \<Rightarrow> chat_error + replay_page" where
  "replay owner conv cursor limit d =
     (if cursor < 0 \<or> \<not> (1 \<le> limit \<and> limit \<le> MAX_MAGI_HISTORY_MESSAGES) then Inl ChatValue
      else case conversation_row owner conv d of
        Inl e \<Rightarrow> Inl e
      | Inr _ \<Rightarrow>
          let found = take (limit + 1) (sort_key mc_sequence (filter (\<lambda>c. mc_conversation c = conv \<and> cursor < mc_sequence c) (changes d)));
              chosen = take limit found
          in (case changed_messages owner chosen d of
                Inl e \<Rightarrow> Inl e
              | Inr ms \<Rightarrow> Inr \<lparr>rp_messages = ms, rp_next = (if chosen = [] then cursor else mc_sequence (last chosen)),
                              rp_latest = last_change conv d, rp_more = (limit < length found)\<rparr>))"

text \<open>\<open>submission\<close> (here \<open>read_submission\<close>) and \<open>generated_assistant\<close>: the current rows of one exchange.\<close>

definition read_submission :: "string \<Rightarrow> string \<Rightarrow> chat_db \<Rightarrow> chat_error + (conversation \<times> magi_message list)" where
  "read_submission owner client d =
     (case submission_rows owner client d of
        Inl e \<Rightarrow> Inl e
      | Inr None \<Rightarrow> Inl ChatNotFound
      | Inr (Some (u, a)) \<Rightarrow> (case conversation_row owner (mm_conversation u) d of Inl e \<Rightarrow> Inl e | Inr (_, c) \<Rightarrow> Inr (c, [u, a])))"

definition generated_assistant :: "string \<Rightarrow> string \<Rightarrow> chat_db \<Rightarrow> chat_error + (conversation \<times> magi_message)" where
  "generated_assistant owner key d =
     (case generated_rows owner key d of
        Inl e \<Rightarrow> Inl e
      | Inr None \<Rightarrow> Inl ChatNotFound
      | Inr (Some (b, a)) \<Rightarrow> (case conversation_row owner (mm_conversation a) d of Inl e \<Rightarrow> Inl e | Inr (_, c) \<Rightarrow> Inr (c, a)))"

end
