(* ===== verification/Chat_Inv.thy ===== *)
theory Chat_Inv
  imports Chat_Store
begin

text \<open>
  The writes of the chat store as four kinds of steps (\<open>wrote\<close>): a submission, a generated message, a revision of
  an answer, and writes that leave messages and the change log alone. Every operation is a sequence of them
  (\<open>Chat_System\<close>); the invariant and the order on histories are proved per step.
\<close>

interpretation mmk: keyed_rows mm_id mm_sel by unfold_locales (simp add: mm_sel_def)
interpretation cvk: keyed_rows cv_id cv_sel by unfold_locales (simp add: cv_sel_def)
interpretation gbk: keyed_rows "\<lambda>b. (gb_owner b, gb_key b)" gb_sel by unfold_locales (simp add: gb_sel_def)

definition log_of :: "string \<Rightarrow> change table \<Rightarrow> change list" where
  "log_of conv t = filter (\<lambda>c. mc_conversation c = conv) t"

text \<open>The change log of a conversation is numbered from 1 without gaps.\<close>

definition log_ok :: "change table \<Rightarrow> bool" where
  "log_ok t \<longleftrightarrow> (\<forall>conv. map mc_sequence (log_of conv t) = [1..int (length (log_of conv t))])"

lemma foldr_max_append: "foldr max (xs @ [y]) (0::int) = max y (foldr max xs 0)"
  by (induction xs) (auto simp: max.left_commute)

lemma foldr_max_upto: "foldr max [1..int n] 0 = int n"
proof (induction n)
  case (Suc n)
  have "[1..int (Suc n)] = [1..int n] @ [int n + 1]" using upto_rec2[of 1 "int (Suc n)"] by simp
  then have "foldr max [1..int (Suc n)] 0 = max (int n + 1) (foldr max [1..int n] 0)" by (simp only: foldr_max_append)
  then show ?case using Suc by simp
qed simp

lemma last_change_log: "log_ok (changes d) \<Longrightarrow> last_change conv d = int (length (log_of conv (changes d)))"
proof -
  assume "log_ok (changes d)"
  then have "map mc_sequence (filter (\<lambda>c. mc_conversation c = conv) (changes d)) = [1..int (length (log_of conv (changes d)))]"
    by (simp add: log_ok_def log_of_def)
  then show ?thesis by (simp add: last_change_def foldr_max_upto)
qed

definition next_change :: "string \<Rightarrow> string \<Rightarrow> int \<Rightarrow> int \<Rightarrow> chat_db \<Rightarrow> change" where
  "next_change conv msg r now d = \<lparr>mc_conversation = conv, mc_sequence = last_change conv d + 1, mc_message = msg, mc_revision = r, mc_changed = now\<rparr>"

lemma log_ok_append: "log_ok (changes d) \<Longrightarrow> log_ok (changes d @ [next_change conv msg r now d])"
proof -
  assume ok: "log_ok (changes d)"
  have "[1..int (length (log_of conv (changes d))) + 1] = [1..int (length (log_of conv (changes d)))] @ [int (length (log_of conv (changes d))) + 1]"
    using upto_rec2[of 1 "int (length (log_of conv (changes d))) + 1"] by simp
  then have "map mc_sequence (log_of c (changes d @ [next_change conv msg r now d])) = [1..int (length (log_of c (changes d @ [next_change conv msg r now d])))]" for c
    using ok last_change_log[OF ok, of conv] by (auto simp: log_ok_def log_of_def next_change_def add.commute)
  then show ?thesis by (simp add: log_ok_def)
qed

text \<open>Rows: keys, owners, and the change that carries the current revision.\<close>

definition mm_clash :: "magi_message \<Rightarrow> magi_message \<Rightarrow> bool" where
  "mm_clash x m \<longleftrightarrow> mm_id x = mm_id m
      \<or> (mm_client m \<noteq> None \<and> mm_owner x = mm_owner m \<and> mm_client x = mm_client m)
      \<or> (mm_conversation x = mm_conversation m \<and> mm_turn x = mm_turn m \<and> mm_role x = mm_role m)
      \<or> (mm_conversation x = mm_conversation m \<and> mm_sequence x = mm_sequence m)"

definition keys_ok :: "magi_message table \<Rightarrow> bool" where
  "keys_ok t \<longleftrightarrow> mmk.uniq t \<and> (\<forall>m \<in> set t. \<forall>x \<in> set t. mm_clash x m \<longrightarrow> x = m)"

lemma keys_okD: "keys_ok t \<Longrightarrow> m \<in> set t \<Longrightarrow> x \<in> set t \<Longrightarrow> mm_clash x m \<Longrightarrow> x = m"
  unfolding keys_ok_def by blast

definition answered :: "magi_message table \<Rightarrow> magi_message \<Rightarrow> bool" where
  "answered t u \<longleftrightarrow> (mm_role u = ''user'' \<longrightarrow> mm_status u = ChatCompleted \<and> (\<exists>a \<in> set t. mm_owner a = mm_owner u \<and> mm_conversation a = mm_conversation u
      \<and> mm_turn a = mm_turn u \<and> mm_role a = ''assistant''))"

definition bound :: "magi_message table \<Rightarrow> binding \<Rightarrow> bool" where
  "bound t b \<longleftrightarrow> (\<exists>a \<in> set t. mm_id a = gb_message b \<and> mm_owner a = gb_owner b \<and> mm_role a = ''assistant'' \<and> mm_conversation a = gb_conversation b
      \<and> mm_reply a = Some (gb_reply b) \<and> mm_source a = ''magi-native'')"

definition chat_inv :: "chat_db \<Rightarrow> bool" where
  "chat_inv d \<longleftrightarrow> keys_ok (chat_rows d) \<and> cvk.uniq (conversations d) \<and> gbk.uniq (bindings d) \<and> log_ok (changes d)
     \<and> (\<forall>c \<in> set (conversations d). \<forall>x \<in> set (conversations d). cv_default c \<and> cv_default x \<and> cv_owner c = cv_owner x \<longrightarrow> c = x)
     \<and> (\<forall>m \<in> set (chat_rows d). \<exists>c \<in> set (conversations d). cv_id c = mm_conversation m \<and> cv_owner c = mm_owner m)
     \<and> (\<forall>c \<in> set (changes d). \<exists>m \<in> set (chat_rows d). mm_id m = mc_message c \<and> mm_conversation m = mc_conversation c \<and> mc_revision c \<le> mm_revision m)
     \<and> (\<forall>m \<in> set (chat_rows d). answered (chat_rows d) m) \<and> (\<forall>b \<in> set (bindings d). bound (chat_rows d) b)"

definition fresh_message :: "magi_message \<Rightarrow> magi_message table \<Rightarrow> bool" where
  "fresh_message m t \<longleftrightarrow> \<not> tbl_ex (\<lambda>x. mm_clash x m) t"

definition owns :: "chat_db \<Rightarrow> string \<Rightarrow> string \<Rightarrow> bool" where
  "owns d owner conv \<longleftrightarrow> (\<exists>c \<in> set (conversations d). cv_id c = conv \<and> cv_owner c = owner)"

definition add_message :: "magi_message \<Rightarrow> int \<Rightarrow> chat_db \<Rightarrow> chat_db" where
  "add_message m now d = d\<lparr>chat_rows := chat_rows d @ [m], changes := changes d @ [next_change (mm_conversation m) (mm_id m) (mm_revision m) now d]\<rparr>"

definition put_message :: "magi_message \<Rightarrow> int \<Rightarrow> chat_db \<Rightarrow> chat_db" where
  "put_message m now d = d\<lparr>chat_rows := tbl_upd (mm_sel (mm_id m)) (\<lambda>_. m) (chat_rows d),
     changes := changes d @ [next_change (mm_conversation m) (mm_id m) (mm_revision m) now d]\<rparr>"

text \<open>What a revision keeps of a row, and how its state may move: forward from pending, or to a new attempt from failed.\<close>

definition revises :: "magi_message \<Rightarrow> magi_message \<Rightarrow> bool" where
  "revises m m' \<longleftrightarrow> (mm_id m', mm_conversation m', mm_owner m', mm_turn m', mm_role m', mm_source m', mm_client m', mm_reply m')
       = (mm_id m, mm_conversation m, mm_owner m, mm_turn m, mm_role m, mm_source m, mm_client m, mm_reply m)
     \<and> (mm_attachments m', mm_sequence m', mm_created m') = (mm_attachments m, mm_sequence m, mm_created m)
     \<and> mm_revision m' = mm_revision m + 1 \<and> mm_role m = ''assistant''
     \<and> (mm_status m = ChatPending \<and> mm_status m' \<noteq> ChatPending \<and> mm_attempt m' = mm_attempt m
        \<or> mm_status m = ChatFailed \<and> mm_status m' = ChatPending \<and> mm_attempt m' = mm_attempt m + 1)"

text \<open>Writes outside messages, bindings and the log, by the owners \<open>A\<close>.\<close>

definition framed :: "string set \<Rightarrow> chat_db \<Rightarrow> chat_db \<Rightarrow> bool" where
  "framed A d d' \<longleftrightarrow> chat_rows d' = chat_rows d \<and> changes d' = changes d \<and> bindings d' = bindings d
     \<and> (\<exists>P n. conversations d' = tbl_upd (\<lambda>c. P c \<and> cv_owner c \<in> A) (\<lambda>c. c\<lparr>cv_updated := n\<rparr>) (conversations d)
         \<or> (\<exists>c. conversations d' = conversations d @ [c] \<and> cv_owner c \<in> A \<and> \<not> tbl_ex (cv_sel (cv_id c)) (conversations d)
              \<and> \<not> tbl_ex (\<lambda>x. cv_owner x = cv_owner c \<and> cv_default x) (conversations d)))
     \<and> filter (\<lambda>t. tr_owner t \<notin> A) (turn_routes d') = filter (\<lambda>t. tr_owner t \<notin> A) (turn_routes d)
     \<and> filter (\<lambda>g. dg_owner g \<notin> A) (counters d') = filter (\<lambda>g. dg_owner g \<notin> A) (counters d)"

inductive wrote :: "string set \<Rightarrow> chat_db \<Rightarrow> chat_db \<Rightarrow> bool" for A where
  frame: "framed A d d' \<Longrightarrow> wrote A d d'"
| submitted: "mm_owner u \<in> A \<Longrightarrow> owns d (mm_owner u) (mm_conversation u) \<Longrightarrow> fresh_message u (chat_rows d) \<Longrightarrow> fresh_message a (chat_rows d @ [u])
    \<Longrightarrow> (mm_owner a, mm_conversation a, mm_turn a) = (mm_owner u, mm_conversation u, mm_turn u) \<Longrightarrow> mm_role u = ''user'' \<Longrightarrow> mm_status u = ChatCompleted
    \<Longrightarrow> mm_role a = ''assistant'' \<Longrightarrow> wrote A d (add_message a now (add_message u now d))"
| created: "mm_owner a \<in> A \<Longrightarrow> owns d (mm_owner a) (mm_conversation a) \<Longrightarrow> fresh_message a (chat_rows d) \<Longrightarrow> mm_role a = ''assistant''
    \<Longrightarrow> mm_source a = ''magi-native'' \<Longrightarrow> mm_reply a = Some (gb_reply b) \<Longrightarrow> (gb_owner b, gb_conversation b, gb_message b) = (mm_owner a, mm_conversation a, mm_id a)
    \<Longrightarrow> \<not> tbl_ex (gb_sel (gb_owner b, gb_key b)) (bindings d) \<Longrightarrow> wrote A d ((add_message a now d)\<lparr>bindings := bindings d @ [b]\<rparr>)"
| revised: "mm_owner m \<in> A \<Longrightarrow> m \<in> set (chat_rows d) \<Longrightarrow> revises m m' \<Longrightarrow> wrote A d (put_message m' now d)"
| wrote_trans: "wrote A d d1 \<Longrightarrow> wrote A d1 d2 \<Longrightarrow> wrote A d d2"

subsection \<open>The invariant, step by step\<close>

text \<open>The columns a revision keeps.\<close>

definition mm_ident :: "magi_message \<Rightarrow> (string \<times> string \<times> string \<times> string \<times> string \<times> string) \<times> string option \<times> string option \<times> int" where
  "mm_ident m = ((mm_id m, mm_conversation m, mm_owner m, mm_turn m, mm_role m, mm_source m), mm_client m, mm_reply m, mm_sequence m)"

lemma mm_identD:
  assumes "mm_ident x = mm_ident y"
  shows "mm_id x = mm_id y" "mm_conversation x = mm_conversation y" "mm_owner x = mm_owner y" "mm_turn x = mm_turn y" "mm_role x = mm_role y"
    "mm_source x = mm_source y" "mm_client x = mm_client y" "mm_reply x = mm_reply y" "mm_sequence x = mm_sequence y"
  using assms by (simp_all add: mm_ident_def)

lemma revises_ident: "revises m m' \<Longrightarrow> mm_ident m' = mm_ident m"
  by (simp add: revises_def mm_ident_def)

lemma mm_clash_ident: "mm_ident x = mm_ident x' \<Longrightarrow> mm_ident m = mm_ident m' \<Longrightarrow> mm_clash x m \<longleftrightarrow> mm_clash x' m'"
  unfolding mm_clash_def by (simp add: mm_ident_def)

lemma mm_clash_sym: "mm_clash x m \<Longrightarrow> mm_clash m x"
  unfolding mm_clash_def by auto

lemma keys_ok_map:
  assumes "keys_ok t" and f: "\<And>r. r \<in> set t \<Longrightarrow> mm_ident (f r) = mm_ident r"
  shows "keys_ok (map f t)"
proof -
  have "map mm_id (map f t) = map mm_id t" using mm_identD(1)[OF f] by simp
  then have "mmk.uniq (map f t)" using assms(1) by (simp only: keys_ok_def mmk.uniq_def)
  moreover have "f x = f m" if x: "x \<in> set t" and m: "m \<in> set t" and "mm_clash (f x) (f m)" for x m
  proof -
    have "mm_clash x m" using that mm_clash_ident[OF f[OF x] f[OF m]] by simp
    then show ?thesis using keys_okD[OF assms(1) m x] by simp
  qed
  ultimately show ?thesis by (auto simp: keys_ok_def)
qed

lemma keys_ok_snoc:
  assumes "keys_ok t" and "fresh_message m t"
  shows "keys_ok (t @ [m])"
proof -
  have new: "\<not> mm_clash x m \<and> \<not> mm_clash m x" if "x \<in> set t" for x
    using assms(2) that mm_clash_sym by (auto simp: fresh_message_def tbl_simps)
  then have "tbl_get (mm_sel (mm_id m)) t = None" by (auto simp: tbl_get_None_iff mm_sel_def mm_clash_def)
  then have "mmk.uniq (t @ [m])" using assms(1) mmk.uniq_insert by (simp add: keys_ok_def)
  moreover have "x = y" if "x \<in> set (t @ [m])" "y \<in> set (t @ [m])" "mm_clash x y" for x y
    using that new keys_okD[OF assms(1)] by auto
  ultimately show ?thesis unfolding keys_ok_def by blast
qed

lemma put_map:
  assumes "keys_ok t" and "m \<in> set t" and "mm_id m' = mm_id m"
  shows "tbl_upd (mm_sel (mm_id m')) (\<lambda>_. m') t = map (\<lambda>r. if r = m then m' else r) t"
proof -
  have "mm_sel (mm_id m') r = (r = m)" if "r \<in> set t" for r
    using that assms keys_okD[OF assms(1,2) that] by (auto simp: mm_sel_def mm_clash_def)
  then show ?thesis by (simp add: tbl_upd_def)
qed

lemma put_message_rows:
  assumes "chat_inv d" and "m \<in> set (chat_rows d)" and "revises m m'"
  shows "chat_rows (put_message m' now d) = map (\<lambda>r. if r = m then m' else r) (chat_rows d)"
proof -
  have "keys_ok (chat_rows d)" using assms(1) by (simp add: chat_inv_def)
  moreover have "mm_id m' = mm_id m" using assms(3) by (simp add: revises_def)
  ultimately show ?thesis using put_map[OF _ assms(2)] by (simp add: put_message_def)
qed

text \<open>The invariant but for the pairing of messages, which a submission breaks between its two insertions.\<close>

definition rows_inv :: "chat_db \<Rightarrow> bool" where
  "rows_inv d \<longleftrightarrow> keys_ok (chat_rows d) \<and> log_ok (changes d)
     \<and> (\<forall>m \<in> set (chat_rows d). owns d (mm_owner m) (mm_conversation m))
     \<and> (\<forall>c \<in> set (changes d). \<exists>m \<in> set (chat_rows d). mm_id m = mc_message c \<and> mm_conversation m = mc_conversation c \<and> mc_revision c \<le> mm_revision m)
     \<and> (\<forall>b \<in> set (bindings d). bound (chat_rows d) b)"

definition chats_inv :: "chat_db \<Rightarrow> bool" where
  "chats_inv d \<longleftrightarrow> cvk.uniq (conversations d)
     \<and> (\<forall>c \<in> set (conversations d). \<forall>x \<in> set (conversations d). cv_default c \<and> cv_default x \<and> cv_owner c = cv_owner x \<longrightarrow> c = x)"

lemma chat_inv_split: "chat_inv d \<longleftrightarrow> rows_inv d \<and> chats_inv d \<and> gbk.uniq (bindings d) \<and> (\<forall>m \<in> set (chat_rows d). answered (chat_rows d) m)"
  unfolding chat_inv_def rows_inv_def chats_inv_def owns_def by blast

lemma bound_mono: "bound t b \<Longrightarrow> set t \<subseteq> set u \<Longrightarrow> bound u b"
  unfolding bound_def by blast

lemma answered_mono: "answered t m \<Longrightarrow> set t \<subseteq> set u \<Longrightarrow> answered u m"
  unfolding answered_def by blast

lemma add_message_inv:
  assumes "rows_inv d" and "owns d (mm_owner m) (mm_conversation m)" and "fresh_message m (chat_rows d)"
  shows "rows_inv (add_message m now d)"
proof -
  have "bound (chat_rows d @ [m]) b" if "bound (chat_rows d) b" for b using that by (rule bound_mono) auto
  moreover have "\<exists>x \<in> set (chat_rows d @ [m]). mm_id x = mc_message c \<and> mm_conversation x = mc_conversation c \<and> mc_revision c \<le> mm_revision x"
    if "c \<in> set (changes d @ [next_change (mm_conversation m) (mm_id m) (mm_revision m) now d])" for c
    using that assms(1) by (auto simp: rows_inv_def next_change_def)
  ultimately show ?thesis
    using assms keys_ok_snoc[of "chat_rows d" m] log_ok_append[of d] by (auto simp: rows_inv_def add_message_def owns_def)
qed

lemma put_message_inv:
  assumes inv: "chat_inv d" and m: "m \<in> set (chat_rows d)" and r: "revises m m'"
  shows "chat_inv (put_message m' now d)"
proof -
  define f where "f x = (if x = m then m' else x)" for x
  have rows: "chat_rows (put_message m' now d) = map f (chat_rows d)" using put_message_rows[OF assms] by (simp add: f_def)
  have f: "mm_ident (f x) = mm_ident x" for x using revises_ident[OF r] by (simp add: f_def)
  have rev: "mm_revision x \<le> mm_revision (f x)" for x using r by (simp add: f_def revises_def)
  have user: "mm_role x = ''user'' \<Longrightarrow> f x = x" for x using r by (auto simp: f_def revises_def)
  have chg: "\<exists>x \<in> set (map f (chat_rows d)). mm_id x = mc_message c \<and> mm_conversation x = mc_conversation c \<and> mc_revision c \<le> mm_revision x"
    if c: "c \<in> set (changes (put_message m' now d))" for c
  proof (cases "c \<in> set (changes d)")
    case True
    then obtain x where "x \<in> set (chat_rows d)" "mm_id x = mc_message c" "mm_conversation x = mc_conversation c" "mc_revision c \<le> mm_revision x"
      using inv unfolding chat_inv_def by blast
    then show ?thesis using mm_identD(1,2)[OF f[of x]] order_trans[OF _ rev[of x]] by auto
  next
    case False
    then have "c = next_change (mm_conversation m') (mm_id m') (mm_revision m') now d" using c by (simp add: put_message_def)
    moreover have "m' \<in> set (map f (chat_rows d))" using m by (auto simp: f_def intro!: image_eqI[of _ _ m])
    ultimately show ?thesis by (auto simp: next_change_def)
  qed
  have bnd: "bound (map f (chat_rows d)) b" if b: "bound (chat_rows d) b" for b
  proof -
    obtain a where "a \<in> set (chat_rows d)" "mm_id a = gb_message b \<and> mm_owner a = gb_owner b \<and> mm_role a = ''assistant'' \<and> mm_conversation a = gb_conversation b
      \<and> mm_reply a = Some (gb_reply b) \<and> mm_source a = ''magi-native''" using b unfolding bound_def by blast
    then show ?thesis unfolding bound_def using mm_identD[OF f[of a]] by auto
  qed
  have ans: "answered (map f (chat_rows d)) (f x)" if x: "x \<in> set (chat_rows d)" for x
  proof (cases "mm_role x = ''user''")
    case True
    then have "answered (chat_rows d) x" "f x = x" using inv x user by (auto simp: chat_inv_def)
    then obtain a where "a \<in> set (chat_rows d)" "mm_owner a = mm_owner x \<and> mm_conversation a = mm_conversation x \<and> mm_turn a = mm_turn x \<and> mm_role a = ''assistant''"
        "mm_status x = ChatCompleted" using True unfolding answered_def by blast
    then show ?thesis unfolding answered_def \<open>f x = x\<close> using mm_identD[OF f[of a]] by auto
  next
    case False
    then show ?thesis using mm_identD(5)[OF f[of x]] by (simp add: answered_def)
  qed
  have "keys_ok (map f (chat_rows d))" using inv keys_ok_map f by (simp add: chat_inv_def)
  moreover have "log_ok (changes (put_message m' now d))" using inv log_ok_append by (simp add: chat_inv_def put_message_def)
  moreover have "owns d (mm_owner (f x)) (mm_conversation (f x))" if "x \<in> set (chat_rows d)" for x
    using that inv mm_identD(2,3)[OF f[of x]] by (auto simp: chat_inv_def owns_def)
  moreover have "conversations (put_message m' now d) = conversations d" "bindings (put_message m' now d) = bindings d" by (simp_all add: put_message_def)
  ultimately show ?thesis
    using inv chg bnd ans unfolding chat_inv_split rows_inv_def rows chats_inv_def owns_def by simp
qed

lemma default_append:
  assumes "chats_inv d" and "\<not> tbl_ex (cv_sel (cv_id c)) (conversations d)"
    and "\<not> tbl_ex (\<lambda>x. cv_owner x = cv_owner c \<and> cv_default x) (conversations d)" and "conversations d' = conversations d @ [c]"
  shows "chats_inv d'"
proof -
  have "tbl_get (cv_sel (cv_id c)) (conversations d) = None" using assms(2) by (simp add: tbl_ex_iff tbl_get_None_iff)
  then have "cvk.uniq (conversations d')" using assms(1,4) cvk.uniq_insert by (simp add: chats_inv_def)
  moreover have "x = y" if "x \<in> set (conversations d')" "y \<in> set (conversations d')" "cv_default x" "cv_default y" "cv_owner x = cv_owner y" for x y
    using that assms unfolding chats_inv_def by (auto simp: tbl_ex_iff)
  ultimately show ?thesis unfolding chats_inv_def by blast
qed

lemma touched_chats:
  assumes "chats_inv d" and "conversations d' = tbl_upd P (\<lambda>c. c\<lparr>cv_updated := n\<rparr>) (conversations d)"
  shows "chats_inv d'"
proof -
  define f where "f c = (if P c then c\<lparr>cv_updated := n\<rparr> else c)" for c
  have map: "conversations d' = map f (conversations d)" using assms(2) by (simp add: tbl_upd_def f_def)
  have f: "cv_id (f c) = cv_id c \<and> cv_owner (f c) = cv_owner c \<and> cv_default (f c) = cv_default c" for c by (simp add: f_def)
  have "cvk.uniq (conversations d')" using assms cvk.uniq_upd by (simp add: chats_inv_def)
  moreover have "a = b" if ab: "a \<in> set (conversations d')" "b \<in> set (conversations d')" "cv_default a \<and> cv_default b \<and> cv_owner a = cv_owner b" for a b
  proof -
    obtain x y where xy: "a = f x" "b = f y" "x \<in> set (conversations d)" "y \<in> set (conversations d)" using ab(1,2) unfolding map by auto
    then have "x = y" using ab(3) f assms(1) unfolding chats_inv_def by metis
    then show ?thesis using xy by simp
  qed
  ultimately show ?thesis unfolding chats_inv_def by blast
qed

lemma framed_chats: "framed A d d' \<Longrightarrow> chats_inv d \<Longrightarrow> chats_inv d'"
  unfolding framed_def by (elim conjE exE disjE) (rule touched_chats, assumption+, rule default_append, assumption+)

lemma framed_owns: "framed A d d' \<Longrightarrow> owns d w conv \<Longrightarrow> owns d' w conv"
proof -
  assume f: "framed A d d'" and "owns d w conv"
  then obtain c where c: "c \<in> set (conversations d)" "cv_id c = conv" "cv_owner c = w" by (auto simp: owns_def)
  have "\<exists>c' \<in> set (conversations d'). cv_id c' = cv_id c \<and> cv_owner c' = cv_owner c"
    using f unfolding framed_def
  proof (elim conjE exE disjE)
    fix P n assume "conversations d' = tbl_upd (\<lambda>c. P c \<and> cv_owner c \<in> A) (\<lambda>c. c\<lparr>cv_updated := n\<rparr>) (conversations d)"
    then have "rows_kept (\<lambda>x y. cv_id y = cv_id x \<and> cv_owner y = cv_owner x) (conversations d) (conversations d')" by (simp add: rows_kept_upd)
    then show ?thesis using c(1) by (simp add: rows_kept_def)
  next
    fix x assume "conversations d' = conversations d @ [x]"
    then show ?thesis using c(1) by auto
  qed
  then show ?thesis using c by (auto simp: owns_def)
qed

lemma framed_inv: "framed A d d' \<Longrightarrow> chat_inv d \<Longrightarrow> chat_inv d'"
proof -
  assume f: "framed A d d'" and inv: "chat_inv d"
  have "rows_inv d'" using f inv framed_owns[OF f] by (auto simp: chat_inv_split rows_inv_def framed_def)
  then show ?thesis using f inv framed_chats[OF f] by (simp add: chat_inv_split framed_def)
qed

lemma add_message_frame [simp]:
  "chat_rows (add_message m now d) = chat_rows d @ [m]" "conversations (add_message m now d) = conversations d"
  "bindings (add_message m now d) = bindings d"
  "changes (add_message m now d) = changes d @ [next_change (mm_conversation m) (mm_id m) (mm_revision m) now d]"
  by (simp_all add: add_message_def)

lemma chats_inv_cong: "chats_inv d \<Longrightarrow> conversations d' = conversations d \<Longrightarrow> chats_inv d'"
  by (simp add: chats_inv_def)

lemma submitted_inv:
  assumes inv: "chat_inv d" and own: "owns d (mm_owner u) (mm_conversation u)" and fresh: "fresh_message u (chat_rows d)" "fresh_message a (chat_rows d @ [u])"
    and same: "(mm_owner a, mm_conversation a, mm_turn a) = (mm_owner u, mm_conversation u, mm_turn u)"
    and role: "mm_role u = ''user''" "mm_status u = ChatCompleted" "mm_role a = ''assistant''"
  shows "chat_inv (add_message a now (add_message u now d))"
proof -
  let ?d = "add_message a now (add_message u now d)"
  have "rows_inv (add_message u now d)" using inv own fresh(1) add_message_inv by (simp add: chat_inv_split)
  then have "rows_inv ?d" using add_message_inv[of "add_message u now d" a now] own fresh(2) same by (simp add: owns_def)
  moreover have "answered (chat_rows ?d) m" if m: "m \<in> set (chat_rows ?d)" for m
  proof -
    consider "m \<in> set (chat_rows d)" | "m = u" | "m = a" using m by auto
    then show ?thesis
    proof cases
      case 1
      then have "answered (chat_rows d) m" using inv by (simp add: chat_inv_def)
      then show ?thesis by (rule answered_mono) auto
    next
      case 2
      then show ?thesis using same role by (auto simp: answered_def)
    next
      case 3
      then show ?thesis using role by (simp add: answered_def)
    qed
  qed
  moreover have "chats_inv ?d" using inv chats_inv_cong[of d ?d] by (simp add: chat_inv_split)
  ultimately show ?thesis using inv by (simp add: chat_inv_split)
qed

lemma created_inv:
  assumes inv: "chat_inv d" and own: "owns d (mm_owner a) (mm_conversation a)" and fresh: "fresh_message a (chat_rows d)"
    and role: "mm_role a = ''assistant''" "mm_source a = ''magi-native''" "mm_reply a = Some (gb_reply b)"
    and b: "(gb_owner b, gb_conversation b, gb_message b) = (mm_owner a, mm_conversation a, mm_id a)" "\<not> tbl_ex (gb_sel (gb_owner b, gb_key b)) (bindings d)"
  shows "chat_inv ((add_message a now d)\<lparr>bindings := bindings d @ [b]\<rparr>)"
proof -
  let ?d = "(add_message a now d)\<lparr>bindings := bindings d @ [b]\<rparr>"
  have r: "rows_inv (add_message a now d)" using inv own fresh add_message_inv by (simp add: chat_inv_split)
  have "bound (chat_rows ?d) b" using role b by (auto simp: bound_def)
  then have "rows_inv ?d" using r by (auto simp: rows_inv_def owns_def)
  moreover have "answered (chat_rows ?d) m" if "m \<in> set (chat_rows ?d)" for m
  proof (cases "m = a")
    case False
    then have "answered (chat_rows d) m" using that inv by (simp add: chat_inv_def)
    then show ?thesis by (rule answered_mono) auto
  qed (simp add: answered_def role)
  moreover have "chats_inv ?d" using inv chats_inv_cong[of d ?d] by (simp add: chat_inv_split)
  moreover have "gbk.uniq (bindings d @ [b])"
    using inv b(2) gbk.uniq_insert[of "bindings d" b] by (simp add: chat_inv_def tbl_ex_iff tbl_get_None_iff)
  ultimately show ?thesis by (simp add: chat_inv_split)
qed

lemma wrote_inv: "wrote A d d' \<Longrightarrow> chat_inv d \<Longrightarrow> chat_inv d'"
proof (induction rule: wrote.induct)
  case frame then show ?case using framed_inv by blast
next
  case submitted then show ?case by (intro submitted_inv)
next
  case created then show ?case by (intro created_inv)
next
  case revised then show ?case using put_message_inv by blast
qed simp

subsection \<open>The order on histories\<close>

text \<open>What may become of a message: its identity stays, revision and attempt grow, an answer that was completed or
  cancelled is final, and a failed one changes only with a new attempt.\<close>

definition mm_after :: "magi_message \<Rightarrow> magi_message \<Rightarrow> bool" where
  "mm_after m m' \<longleftrightarrow> mm_ident m' = mm_ident m \<and> mm_attachments m' = mm_attachments m \<and> mm_created m' = mm_created m
     \<and> mm_revision m \<le> mm_revision m' \<and> mm_attempt m \<le> mm_attempt m' \<and> (mm_revision m' = mm_revision m \<longrightarrow> m' = m)
     \<and> (mm_status m \<in> {ChatCompleted, ChatCancelled} \<longrightarrow> m' = m)
     \<and> (mm_status m \<noteq> ChatPending \<and> mm_attempt m' = mm_attempt m \<longrightarrow> m' = m)"

lemma mm_after_refl: "mm_after m m" by (simp add: mm_after_def)

lemma mm_after_trans:
  assumes ab: "mm_after a b" and bc: "mm_after b c"
  shows "mm_after a c"
proof -
  have le: "mm_revision a \<le> mm_revision b" "mm_revision b \<le> mm_revision c" "mm_attempt a \<le> mm_attempt b" "mm_attempt b \<le> mm_attempt c"
    using ab bc by (simp_all add: mm_after_def)
  have "c = a" if "mm_revision c = mm_revision a"
  proof -
    have "mm_revision b = mm_revision a" "mm_revision c = mm_revision b" using that le by simp_all
    then have "b = a" "c = b" using ab bc unfolding mm_after_def by blast+
    then show ?thesis by simp
  qed
  moreover have "c = a" if s: "mm_status a \<in> {ChatCompleted, ChatCancelled}"
  proof -
    have "b = a" using ab s unfolding mm_after_def by blast
    then have "c = b" using bc s unfolding mm_after_def by blast
    then show ?thesis using \<open>b = a\<close> by simp
  qed
  moreover have "c = a" if s: "mm_status a \<noteq> ChatPending" "mm_attempt c = mm_attempt a"
  proof -
    have at: "mm_attempt b = mm_attempt a" "mm_attempt c = mm_attempt b" using s le by simp_all
    then have "b = a" using ab s unfolding mm_after_def by blast
    then have "c = b" using bc s at unfolding mm_after_def by blast
    then show ?thesis using \<open>b = a\<close> by simp
  qed
  moreover have "mm_ident c = mm_ident a" "mm_attachments c = mm_attachments a" "mm_created c = mm_created a" using ab bc by (simp_all add: mm_after_def)
  ultimately show ?thesis using order_trans[OF le(1,2)] order_trans[OF le(3,4)] unfolding mm_after_def by blast
qed

lemma revises_after: "revises m m' \<Longrightarrow> mm_after m m'"
  using revises_ident[of m m'] unfolding mm_after_def revises_def by auto

definition chat_after :: "chat_db \<Rightarrow> chat_db \<Rightarrow> bool" where
  "chat_after d d' \<longleftrightarrow> rows_kept mm_after (chat_rows d) (chat_rows d') \<and> set (bindings d) \<subseteq> set (bindings d')
     \<and> (\<exists>cs. changes d' = changes d @ cs \<and> (\<forall>m' \<in> set (chat_rows d'). m' \<in> set (chat_rows d)
          \<or> (\<exists>c \<in> set cs. mc_conversation c = mm_conversation m' \<and> mc_message c = mm_id m' \<and> mc_revision c = mm_revision m')))"

lemma chat_afterD:
  assumes "chat_after d d'"
  obtains cs where "changes d' = changes d @ cs" "rows_kept mm_after (chat_rows d) (chat_rows d')" "set (bindings d) \<subseteq> set (bindings d')"
    "\<And>m. m \<in> set (chat_rows d') \<Longrightarrow> m \<in> set (chat_rows d)
       \<or> (\<exists>c \<in> set cs. mc_conversation c = mm_conversation m \<and> mc_message c = mm_id m \<and> mc_revision c = mm_revision m)"
  using assms unfolding chat_after_def by metis

lemma chat_after_refl: "chat_after d d"
  unfolding chat_after_def using mm_after_refl by (auto intro: rows_kept_subset)

lemma chat_after_trans:
  assumes "chat_after d e" and "chat_after e f"
  shows "chat_after d f"
proof -
  obtain cs where cs: "changes e = changes d @ cs" "rows_kept mm_after (chat_rows d) (chat_rows e)" "set (bindings d) \<subseteq> set (bindings e)"
    "\<And>m. m \<in> set (chat_rows e) \<Longrightarrow> m \<in> set (chat_rows d)
       \<or> (\<exists>c \<in> set cs. mc_conversation c = mm_conversation m \<and> mc_message c = mm_id m \<and> mc_revision c = mm_revision m)"
    using assms(1) by (rule chat_afterD) blast
  obtain cs' where cs': "changes f = changes e @ cs'" "rows_kept mm_after (chat_rows e) (chat_rows f)" "set (bindings e) \<subseteq> set (bindings f)"
    "\<And>m. m \<in> set (chat_rows f) \<Longrightarrow> m \<in> set (chat_rows e)
       \<or> (\<exists>c \<in> set cs'. mc_conversation c = mm_conversation m \<and> mc_message c = mm_id m \<and> mc_revision c = mm_revision m)"
    using assms(2) by (rule chat_afterD) blast
  have "rows_kept mm_after (chat_rows d) (chat_rows f)" using mm_after_trans cs(2) cs'(2) by (rule rows_kept_trans)
  moreover have "changes f = changes d @ cs @ cs'" using cs(1) cs'(1) by simp
  moreover have "m \<in> set (chat_rows d) \<or> (\<exists>c \<in> set (cs @ cs'). mc_conversation c = mm_conversation m \<and> mc_message c = mm_id m \<and> mc_revision c = mm_revision m)"
    if "m \<in> set (chat_rows f)" for m using cs(4) cs'(4)[OF that] by fastforce
  ultimately show ?thesis unfolding chat_after_def using cs(3) cs'(3) by blast
qed

lemma add_message_after: "chat_after d (add_message m now d)"
proof -
  have "rows_kept mm_after (chat_rows d) (chat_rows d @ [m])" using mm_after_refl by (auto intro: rows_kept_subset)
  then show ?thesis unfolding chat_after_def by (auto simp: next_change_def)
qed

lemma put_message_after:
  assumes "chat_inv d" and "m \<in> set (chat_rows d)" and r: "revises m m'"
  shows "chat_after d (put_message m' now d)"
proof -
  have rows: "chat_rows (put_message m' now d) = map (\<lambda>r. if r = m then m' else r) (chat_rows d)" using put_message_rows[OF assms] .
  then have "rows_kept mm_after (chat_rows d) (chat_rows (put_message m' now d))"
    using rows_kept_upd[of mm_after "chat_rows d" "\<lambda>r. r = m" "\<lambda>_. m'"] mm_after_refl revises_after[OF r] by (simp add: tbl_upd_def)
  then show ?thesis unfolding chat_after_def using rows by (auto simp: put_message_def next_change_def)
qed

lemma wrote_after: "wrote A d d' \<Longrightarrow> chat_inv d \<Longrightarrow> chat_after d d'"
proof (induction rule: wrote.induct)
  case (frame d d')
  then have "chat_rows d' = chat_rows d" "changes d' = changes d" "bindings d' = bindings d" by (simp_all add: framed_def)
  then show ?case using chat_after_refl[of d] by (simp add: chat_after_def)
next
  case submitted
  show ?case by (rule chat_after_trans[OF add_message_after add_message_after])
next
  case (created a d b now)
  then show ?case using add_message_after[of d a now] by (auto simp: chat_after_def)
next
  case revised
  then show ?case by (intro put_message_after)
next
  case (wrote_trans d d1 d2)
  then show ?case using chat_after_trans wrote_inv by blast
qed

subsection \<open>Tenants\<close>

text \<open>The rows of the owners outside \<open>A\<close>, and the log of their conversations.\<close>

definition chats_beyond :: "string set \<Rightarrow> chat_db \<Rightarrow> conversation list \<times> magi_message list \<times> binding list \<times> turn_route list \<times> diagnostics list" where
  "chats_beyond A d = (filter (\<lambda>c. cv_owner c \<notin> A) (conversations d), filter (\<lambda>m. mm_owner m \<notin> A) (chat_rows d),
     filter (\<lambda>b. gb_owner b \<notin> A) (bindings d), filter (\<lambda>t. tr_owner t \<notin> A) (turn_routes d), filter (\<lambda>g. dg_owner g \<notin> A) (counters d))"

lemma wrote_beyond: "wrote A d d' \<Longrightarrow> chat_inv d \<Longrightarrow> chats_beyond A d' = chats_beyond A d"
proof (induction rule: wrote.induct)
  case (frame d d')
  have "filter (\<lambda>c. cv_owner c \<notin> A) (conversations d') = filter (\<lambda>c. cv_owner c \<notin> A) (conversations d)"
    using frame unfolding framed_def
  proof (elim conjE exE disjE)
    fix P n assume "conversations d' = tbl_upd (\<lambda>c. P c \<and> cv_owner c \<in> A) (\<lambda>c. c\<lparr>cv_updated := n\<rparr>) (conversations d)"
    moreover have "filter (\<lambda>c. cv_owner c \<notin> A) (tbl_upd (\<lambda>c. P c \<and> cv_owner c \<in> A) (\<lambda>c. c\<lparr>cv_updated := n\<rparr>) (conversations d))
        = filter (\<lambda>c. cv_owner c \<notin> A) (conversations d)" by (rule filter_upd_other) simp
    ultimately show ?thesis by simp
  qed simp
  then show ?case using frame by (simp add: chats_beyond_def framed_def)
next
  case submitted
  then show ?case by (simp add: chats_beyond_def add_message_def)
next
  case created
  then show ?case by (simp add: chats_beyond_def add_message_def)
next
  case (revised m d m' now)
  have "mm_owner m' = mm_owner m" using mm_identD(3)[OF revises_ident[OF revised(3)]] .
  then have "filter (\<lambda>m. mm_owner m \<notin> A) (chat_rows (put_message m' now d)) = filter (\<lambda>m. mm_owner m \<notin> A) (chat_rows d)"
    using put_message_rows[OF revised(4,2,3)] filter_upd_other[of "chat_rows d" "\<lambda>r. r = m" "\<lambda>m. mm_owner m \<notin> A" "\<lambda>_. m'"] revised(1) by (simp add: tbl_upd_def)
  then show ?case by (simp add: chats_beyond_def put_message_def)
next
  case wrote_trans
  then show ?case using wrote_inv by metis
qed

lemma wrote_log:
  "wrote A d d' \<Longrightarrow> chat_inv d \<Longrightarrow> owns d w conv \<Longrightarrow> w \<notin> A \<Longrightarrow> log_of conv (changes d') = log_of conv (changes d) \<and> owns d' w conv"
proof (induction rule: wrote.induct)
  case (frame d d')
  then show ?case using framed_owns by (simp add: framed_def)
next
  case (submitted u d a now)
  then have "mm_conversation u \<noteq> conv" using cvk.uniq_same unfolding owns_def chat_inv_def by metis
  then show ?case using submitted by (simp add: log_of_def next_change_def owns_def)
next
  case (created a d b now)
  then have "mm_conversation a \<noteq> conv" using cvk.uniq_same unfolding owns_def chat_inv_def by metis
  then show ?case using created by (simp add: log_of_def next_change_def owns_def)
next
  case (revised m d m' now)
  then have "owns d (mm_owner m) (mm_conversation m)" by (simp add: chat_inv_split rows_inv_def)
  then have "mm_conversation m \<noteq> conv" using revised cvk.uniq_same unfolding owns_def chat_inv_def by metis
  then have "mm_conversation m' \<noteq> conv" using mm_identD(2)[OF revises_ident[OF revised(3)]] by simp
  then show ?case using revised by (simp add: put_message_def log_of_def next_change_def owns_def)
next
  case wrote_trans
  then show ?case using wrote_inv by metis
qed

lemma wrote_owns: "wrote A d d' \<Longrightarrow> owns d w conv \<Longrightarrow> owns d' w conv"
proof (induction rule: wrote.induct)
  case frame then show ?case using framed_owns by blast
qed (auto simp: owns_def add_message_def put_message_def)

end
