(* ===== verification/Chat_System.thy ===== *)
theory Chat_System
  imports Chat_Inv
begin

text \<open>
  The transactions of the chat store as one family of operations. Each operation of an owner is a sequence of writes
  by that owner; the recovery at startup writes for everyone.
\<close>

subsection \<open>Statements as writes\<close>

lemmas wrote_frameI = wrote.frame

lemma framed_refl_fields:
  assumes "chat_rows d' = chat_rows d" "changes d' = changes d" "bindings d' = bindings d" "conversations d' = conversations d"
    "filter (\<lambda>t. tr_owner t \<notin> A) (turn_routes d') = filter (\<lambda>t. tr_owner t \<notin> A) (turn_routes d)"
    "filter (\<lambda>g. dg_owner g \<notin> A) (counters d') = filter (\<lambda>g. dg_owner g \<notin> A) (counters d)"
  shows "framed A d d'"
proof -
  have "conversations d' = tbl_upd (\<lambda>c. (\<lambda>_. False) c \<and> cv_owner c \<in> A) (\<lambda>c. c\<lparr>cv_updated := 0\<rparr>) (conversations d)"
    using assms(4) by (simp add: tbl_upd_none)
  then show ?thesis unfolding framed_def by (intro conjI assms exI disjI1)
qed

lemma wrote_refl: "wrote A d d"
  by (intro wrote_frameI framed_refl_fields) simp_all

lemma count_up_framed:
  assumes "\<And>g. dg_owner (f g) = dg_owner g" and "owner \<in> A"
  shows "framed A d (count_up owner f now d)"
proof (rule framed_refl_fields)
  have upd: "filter (\<lambda>g. dg_owner g \<notin> A) (tbl_upd (dg_sel owner) (\<lambda>g. (f g)\<lparr>dg_updated := now\<rparr>) t) = filter (\<lambda>g. dg_owner g \<notin> A) t" for t
    by (rule filter_upd_other) (use assms in \<open>auto simp: dg_sel_def\<close>)
  show "filter (\<lambda>g. dg_owner g \<notin> A) (counters (count_up owner f now d)) = filter (\<lambda>g. dg_owner g \<notin> A) (counters d)"
    using assms(2) by (simp add: count_up_def Let_def upd new_diagnostics_def)
qed (simp_all add: count_up_def Let_def)

lemma count_up_rows [simp]:
  "chat_rows (count_up w f now d) = chat_rows d" "changes (count_up w f now d) = changes d" "bindings (count_up w f now d) = bindings d"
  "conversations (count_up w f now d) = conversations d" "turn_routes (count_up w f now d) = turn_routes d"
  by (simp_all add: count_up_def Let_def)

lemma touch_framed:
  assumes "chat_inv d" and "owns d w conv" and "w \<in> A"
  shows "framed A d (touch_conversation conv now d)"
proof -
  have "cv_sel conv c \<longleftrightarrow> cv_sel conv c \<and> cv_owner c \<in> A" if "c \<in> set (conversations d)" for c
    using assms that cvk.uniq_same unfolding chat_inv_def owns_def cv_sel_def by metis
  then have "conversations (touch_conversation conv now d) = tbl_upd (\<lambda>c. cv_sel conv c \<and> cv_owner c \<in> A) (\<lambda>c. c\<lparr>cv_updated := now\<rparr>) (conversations d)"
    unfolding touch_conversation_def tbl_upd_def by simp
  then show ?thesis unfolding framed_def by (auto simp: touch_conversation_def)
qed

lemma touch_rows [simp]:
  "chat_rows (touch_conversation conv now d) = chat_rows d" "changes (touch_conversation conv now d) = changes d"
  "bindings (touch_conversation conv now d) = bindings d" "counters (touch_conversation conv now d) = counters d"
  "turn_routes (touch_conversation conv now d) = turn_routes d"
  by (simp_all add: touch_conversation_def)

lemma close_routes_framed: "owner \<in> A \<Longrightarrow> framed A d (close_routes owner mid result now d)"
proof (rule framed_refl_fields)
  assume "owner \<in> A"
  then show "filter (\<lambda>t. tr_owner t \<notin> A) (turn_routes (close_routes owner mid result now d)) = filter (\<lambda>t. tr_owner t \<notin> A) (turn_routes d)"
    by (simp add: close_routes_def) (rule filter_upd_other, simp)
qed (simp_all add: close_routes_def)

lemma close_routes_rows [simp]:
  "chat_rows (close_routes w mid result now d) = chat_rows d" "changes (close_routes w mid result now d) = changes d"
  "bindings (close_routes w mid result now d) = bindings d" "conversations (close_routes w mid result now d) = conversations d"
  by (simp_all add: close_routes_def)

lemma conversation_row_Inr: "conversation_row owner k d = Inr (d1, c) \<longleftrightarrow> d1 = d \<and> tbl_get (\<lambda>c. cv_id c = k \<and> cv_owner c = owner) (conversations d) = Some c"
  by (auto simp: conversation_row_def split: option.splits)

lemma conversation_rowD:
  assumes "conversation_row owner k d = Inr (d1, c)"
  shows "d1 = d" "c \<in> set (conversations d)" "cv_id c = k" "cv_owner c = owner" "owns d owner k"
  using assms tbl_get_Some_iff[of "\<lambda>c. cv_id c = k \<and> cv_owner c = owner" "conversations d" c] unfolding conversation_row_Inr owns_def by auto

lemma default_conversationD:
  assumes "default_conversation owner cid now d = Inr (d1, c)"
  shows "wrote {owner} d d1" "c \<in> set (conversations d1)" "cv_owner c = owner" "chat_rows d1 = chat_rows d" "bindings d1 = bindings d" "changes d1 = changes d"
proof -
  show "wrote {owner} d d1"
  proof (cases "tbl_get (\<lambda>c. cv_owner c = owner \<and> cv_default c) (conversations d)")
    case None
    then have "\<not> tbl_ex (\<lambda>x. cv_owner x = owner \<and> cv_default x) (conversations d)" by (simp add: tbl_ex_iff tbl_get_None_iff)
    moreover have "conversations d1 = conversations d @ [c]" "d1 = d\<lparr>conversations := conversations d @ [c]\<rparr>" "cv_owner c = owner" "\<not> tbl_ex (cv_sel (cv_id c)) (conversations d)"
      using assms None by (auto simp: default_conversation_def Let_def split: if_splits)
    ultimately have "framed {owner} d d1" unfolding framed_def by auto
    then show ?thesis by (rule wrote_frameI)
  next
    case (Some x)
    then show ?thesis using assms wrote_refl by (simp add: default_conversation_def)
  qed
qed (use assms in \<open>auto simp: default_conversation_def Let_def dest: tbl_get_Some_iff split: option.splits if_splits\<close>)

lemma find_conversationD:
  assumes "find_conversation owner conv cid now d = Inr (d1, c)"
  shows "wrote {owner} d d1" "c \<in> set (conversations d1)" "cv_owner c = owner" "chat_rows d1 = chat_rows d" "bindings d1 = bindings d" "changes d1 = changes d"
proof -
  have "default_conversation owner cid now d = Inr (d1, c) \<or> (\<exists>k. conversation_row owner k d = Inr (d1, c))"
    using assms by (auto simp: find_conversation_def split: option.splits if_splits)
  then have "wrote {owner} d d1 \<and> c \<in> set (conversations d1) \<and> cv_owner c = owner \<and> chat_rows d1 = chat_rows d \<and> bindings d1 = bindings d \<and> changes d1 = changes d"
    using default_conversationD conversation_rowD wrote_refl by metis
  then show "wrote {owner} d d1" "c \<in> set (conversations d1)" "cv_owner c = owner" "chat_rows d1 = chat_rows d" "bindings d1 = bindings d" "changes d1 = changes d"
    by simp_all
qed

text \<open>A revision of a stored answer never fails.\<close>

definition revised_row :: "(magi_message \<Rightarrow> magi_message) \<Rightarrow> int \<Rightarrow> magi_message \<Rightarrow> magi_message" where
  "revised_row f now m = (f m)\<lparr>mm_revision := mm_revision m + 1, mm_updated := now\<rparr>"

lemma revise_eq:
  assumes inv: "chat_inv d" and m: "m \<in> set (chat_rows d)" and r: "revises m (revised_row f now m)"
  shows "revise m f now d = Inr (put_message (revised_row f now m) now d, ())"
proof -
  have only: "mm_sel (mm_id m) x \<longleftrightarrow> x = m" if "x \<in> set (chat_rows d)" for x
    using inv keys_okD[OF _ m that] m by (auto simp: chat_inv_def mm_sel_def mm_clash_def)
  have id: "mm_id (revised_row f now m) = mm_id m" "mm_conversation (revised_row f now m) = mm_conversation m"
    using mm_identD(1,2)[OF revises_ident[OF r]] by simp_all
  have "\<not> (mc_message c = mm_id m \<and> mc_revision c = mm_revision m + 1)" if c: "c \<in> set (changes d)" for c
  proof
    assume eq: "mc_message c = mm_id m \<and> mc_revision c = mm_revision m + 1"
    obtain x where "x \<in> set (chat_rows d)" "mm_id x = mc_message c" "mc_revision c \<le> mm_revision x" using inv c unfolding chat_inv_def by blast
    then show False using eq only[of x] by (simp add: mm_sel_def)
  qed
  then have "\<not> tbl_ex (\<lambda>c. mc_conversation c = mm_conversation m \<and> mc_message c = mm_id m \<and> mc_revision c = mm_revision m + 1) (changes d)"
    by (auto simp: tbl_ex_iff)
  moreover have "tbl_upd (mm_sel (mm_id m)) (\<lambda>x. (f x)\<lparr>mm_revision := mm_revision m + 1, mm_updated := now\<rparr>) (chat_rows d)
      = tbl_upd (mm_sel (mm_id m)) (\<lambda>_. revised_row f now m) (chat_rows d)"
    using only by (simp add: tbl_upd_def revised_row_def)
  moreover have "mm_revision (revised_row f now m) = mm_revision m + 1" by (simp add: revised_row_def)
  ultimately show ?thesis
    by (simp add: revise_def append_change_def put_message_def next_change_def last_change_def id)
qed

lemma insert_messageD: "insert_message m d = Inr (d1, u) \<Longrightarrow> fresh_message m (chat_rows d) \<and> d1 = d\<lparr>chat_rows := chat_rows d @ [m]\<rparr>"
  by (simp add: insert_message_def fresh_message_def mm_clash_def split: if_splits)

lemma append_changeD: "append_change conv msg r now d = Inr (d1, u) \<Longrightarrow> d1 = d\<lparr>changes := changes d @ [next_change conv msg r now d]\<rparr>"
  by (simp add: append_change_def next_change_def split: if_splits)

lemma submit_newD:
  assumes "submit_new owner conv client content source as ids now d = Inr (d', p)"
  defines "u \<equiv> user_message owner conv (di_turn ids) (di_user ids) client content source as (next_sequence conv d) now"
  defines "a \<equiv> assistant_message owner conv (di_turn ids) (di_assistant ids) (di_user ids) (next_sequence conv d + 1) now"
  shows "fresh_message u (chat_rows d)" "fresh_message a (chat_rows d @ [u])" "p = prepared_of conv (Some u) a True False"
    "d' = count_up owner (\<lambda>g. g\<lparr>dg_submitted := dg_submitted g + 1\<rparr>) now (touch_conversation conv now (add_message a now (add_message u now d)))"
proof -
  obtain d1 d2 d3 d4 where s: "insert_message u d = Inr (d1, ())" "insert_message a d1 = Inr (d2, ())"
      "append_change conv (mm_id u) 1 now (touch_conversation conv now d2) = Inr (d3, ())" "append_change conv (mm_id a) 1 now d3 = Inr (d4, ())"
    and d': "d' = count_up owner (\<lambda>g. g\<lparr>dg_submitted := dg_submitted g + 1\<rparr>) now d4" "p = prepared_of conv (Some u) a True False"
    using assms(1) unfolding submit_new_def u_def a_def by (auto simp: Let_def split: sum.splits)
  note i = insert_messageD[OF s(1)] insert_messageD[OF s(2)] append_changeD[OF s(3)] append_changeD[OF s(4)]
  have c: "mm_conversation u = conv" "mm_conversation a = conv" "mm_revision u = 1" "mm_revision a = 1" by (simp_all add: u_def a_def user_message_def assistant_message_def)
  have "d4 = touch_conversation conv now (add_message a now (add_message u now d))"
    using i by (simp add: add_message_def touch_conversation_def next_change_def last_change_def c)
  then show "d' = count_up owner (\<lambda>g. g\<lparr>dg_submitted := dg_submitted g + 1\<rparr>) now (touch_conversation conv now (add_message a now (add_message u now d)))"
    using d'(1) by simp
  show "fresh_message u (chat_rows d)" "fresh_message a (chat_rows d @ [u])" "p = prepared_of conv (Some u) a True False" using i d' by simp_all
qed

lemma generate_newD:
  assumes "generate_new owner key facts conv reply ids now d = Inr (d', p)"
  defines "a \<equiv> assistant_message owner conv (di_turn ids) (di_assistant ids) reply (next_sequence conv d) now"
  defines "b \<equiv> \<lparr>gb_owner = owner, gb_key = key, gb_facts = facts, gb_conversation = conv, gb_reply = reply, gb_message = mm_id a, gb_created = now\<rparr>"
  shows "fresh_message a (chat_rows d)" "\<not> tbl_ex (gb_sel (owner, key)) (bindings d)" "p = prepared_of conv None a True False"
    "d' = count_up owner (\<lambda>g. g\<lparr>dg_submitted := dg_submitted g + 1\<rparr>) now
       (touch_conversation conv now ((add_message a now d)\<lparr>bindings := bindings d @ [b]\<rparr>))"
proof -
  obtain d1 d3 where s: "insert_message a d = Inr (d1, ())" "\<not> tbl_ex (\<lambda>b. gb_sel (owner, key) b \<or> gb_message b = mm_id a) (bindings d1)"
      "append_change conv (mm_id a) 1 now (touch_conversation conv now (d1\<lparr>bindings := bindings d1 @ [b]\<rparr>)) = Inr (d3, ())"
    and d': "d' = count_up owner (\<lambda>g. g\<lparr>dg_submitted := dg_submitted g + 1\<rparr>) now d3" "p = prepared_of conv None a True False"
    using assms(1) unfolding generate_new_def a_def b_def by (auto simp: Let_def split: sum.splits if_splits)
  note i = insert_messageD[OF s(1)] append_changeD[OF s(3)]
  have c: "mm_conversation a = conv" "mm_revision a = 1" by (simp_all add: a_def assistant_message_def)
  have "d3 = touch_conversation conv now ((add_message a now d)\<lparr>bindings := bindings d @ [b]\<rparr>)"
    using i by (simp add: add_message_def touch_conversation_def next_change_def last_change_def c)
  then show "d' = count_up owner (\<lambda>g. g\<lparr>dg_submitted := dg_submitted g + 1\<rparr>) now
       (touch_conversation conv now ((add_message a now d)\<lparr>bindings := bindings d @ [b]\<rparr>))" using d'(1) by simp
  show "fresh_message a (chat_rows d)" "p = prepared_of conv None a True False" using i d' by simp_all
  show "\<not> tbl_ex (gb_sel (owner, key)) (bindings d)" using s(2) i by (auto simp: tbl_ex_iff)
qed

subsection \<open>Operations as writes\<close>

lemma inv_owns: "chat_inv d \<Longrightarrow> m \<in> set (chat_rows d) \<Longrightarrow> owns d (mm_owner m) (mm_conversation m)"
  by (simp add: chat_inv_split rows_inv_def)

lemma inv_framed [intro]: "chat_inv d \<Longrightarrow> framed A d d' \<Longrightarrow> chat_inv d'"
  using wrote_inv wrote_frameI by blast

lemma count_inv:
  assumes "chat_inv d" and "\<And>g. dg_owner (f g) = dg_owner g"
  shows "chat_inv (count_up w f now d)"
  using assms count_up_framed[of f w UNIV] by blast

lemma touch_inv: "chat_inv d \<Longrightarrow> owns d w conv \<Longrightarrow> chat_inv (touch_conversation conv now d)"
  using touch_framed[of d w conv UNIV] by blast

definition completing :: "string \<Rightarrow> magi_message \<Rightarrow> magi_message" where
  "completing content x = x\<lparr>mm_content := content, mm_status := ChatCompleted, mm_error := None\<rparr>"

definition failing :: "string \<Rightarrow> magi_message \<Rightarrow> magi_message" where
  "failing err x = x\<lparr>mm_content := [], mm_status := ChatFailed, mm_error := Some err\<rparr>"

definition cancelling :: "magi_message \<Rightarrow> magi_message" where
  "cancelling x = x\<lparr>mm_content := [], mm_status := ChatCancelled, mm_error := None\<rparr>"

definition orphaning :: "magi_message \<Rightarrow> magi_message" where
  "orphaning x = (if mm_status x = ChatPending then failing ''server_restart'' x else x)"

lemmas outcome_defs = completing_def failing_def cancelling_def orphaning_def

lemma revises_outcome:
  assumes "mm_role m = ''assistant''" "mm_status m = ChatPending"
  shows "revises m (revised_row (completing content) now m)" "revises m (revised_row (failing err) now m)"
    "revises m (revised_row cancelling now m)" "revises m (revised_row orphaning now m)"
  using assms by (simp_all add: revises_def revised_row_def outcome_defs)

lemma revises_retried: "mm_role m = ''assistant'' \<Longrightarrow> mm_status m = ChatFailed \<Longrightarrow> revises m (revised_row retried now m)"
  by (simp add: revises_def revised_row_def retried_def)

lemma put_owns: "owns (put_message m now d) w conv \<longleftrightarrow> owns d w conv"
  by (simp add: owns_def put_message_def)

lemma retry_eq:
  assumes "chat_inv d" and "a \<in> set (chat_rows d)" and "mm_role a = ''assistant''" and "mm_status a = ChatFailed"
  shows "retry owner a now d = Inr (count_up owner (\<lambda>g. g\<lparr>dg_retries := dg_retries g + 1\<rparr>) now (put_message (revised_row retried now a) now d), revised_row retried now a)"
  using revise_eq[OF assms(1,2) revises_retried[OF assms(3,4)]] by (simp add: retry_def revised_row_def)

lemma retry_wrote:
  assumes "chat_inv d" and "a \<in> set (chat_rows d)" and "mm_role a = ''assistant''" and "mm_status a = ChatFailed" and "mm_owner a \<in> A" "owner \<in> A"
    and "retry owner a now d = Inr (d1, x)"
  shows "wrote A d d1"
proof -
  have "wrote A d (put_message (revised_row retried now a) now d)" using assms revises_retried by (intro wrote.revised[of a]) auto
  moreover have "d1 = count_up owner (\<lambda>g. g\<lparr>dg_retries := dg_retries g + 1\<rparr>) now (put_message (revised_row retried now a) now d)"
    using assms(7) unfolding retry_eq[OF assms(1-4)] by blast
  ultimately show ?thesis using count_up_framed[of "\<lambda>g. g\<lparr>dg_retries := dg_retries g + 1\<rparr>" owner A] assms(6) wrote_trans wrote_frameI by fastforce
qed

lemma submission_rowsD:
  assumes "submission_rows owner client d = Inr (Some (u, a))"
  shows "u \<in> set (chat_rows d)" "mm_owner u = owner" "mm_client u = Some client" "mm_role u = ''user''" "a \<in> set (chat_rows d)" "mm_owner a = owner"
    "mm_conversation a = mm_conversation u" "mm_turn a = mm_turn u" "mm_role a = ''assistant''"
  using assms by (auto simp: submission_rows_def dest!: tbl_get_Some_iff split: option.splits)

lemma generated_rowsD:
  assumes "generated_rows owner key d = Inr (Some (b, a))"
  shows "b \<in> set (bindings d)" "gb_owner b = owner" "gb_key b = key" "a \<in> set (chat_rows d)" "mm_id a = gb_message b" "mm_owner a = owner" "mm_role a = ''assistant''"
  using assms by (auto simp: generated_rows_def gb_sel_def dest!: tbl_get_Some_iff split: option.splits)

lemma answer_rowD:
  assumes "answer_row owner mid d = Some m"
  shows "m \<in> set (chat_rows d)" "mm_id m = mid" "mm_owner m = owner" "mm_role m = ''assistant''"
  using assms tbl_get_Some_iff unfolding answer_row_def by fastforce+

lemma resubmit_wrote:
  assumes "chat_inv d" and "submission_rows owner client d = Inr (Some (u, a))" and "resubmit owner conv content source as rt u a now d = Inr (d', p)"
  shows "wrote {owner} d d'"
proof -
  let ?d = "count_up owner (\<lambda>g. g\<lparr>dg_duplicates := dg_duplicates g + 1\<rparr>) now d"
  have w: "wrote {owner} d ?d" by (intro wrote_frameI count_up_framed) simp_all
  consider "d' = ?d" | x where "retry owner a now ?d = Inr (d', x)" "mm_status a = ChatFailed"
    using assms(3) by (auto simp: resubmit_def Let_def split: if_splits sum.splits)
  then show ?thesis
  proof cases
    case 2
    then have "wrote {owner} ?d d'"
      using wrote_inv[OF w assms(1)] submission_rowsD[OF assms(2)] by (intro retry_wrote[of ?d a]) simp_all
    then show ?thesis using w wrote_trans by blast
  qed (simp add: w)
qed

lemma submit_new_wrote:
  assumes "chat_inv d" and "owns d owner conv" and "submit_new owner conv client content source as ids now d = Inr (d', p)"
  shows "wrote {owner} d d'"
proof -
  let ?u = "user_message owner conv (di_turn ids) (di_user ids) client content source as (next_sequence conv d) now"
  let ?a = "assistant_message owner conv (di_turn ids) (di_assistant ids) (di_user ids) (next_sequence conv d + 1) now"
  let ?e = "add_message ?a now (add_message ?u now d)"
  note s = submit_newD[OF assms(3)]
  have e: "wrote {owner} d ?e" using s(1,2) assms(2) by (intro wrote.submitted) (simp_all add: user_message_def assistant_message_def)
  have "wrote {owner} ?e (touch_conversation conv now ?e)"
    using wrote_inv[OF e assms(1)] assms(2) by (intro wrote_frameI touch_framed[of _ owner]) (simp_all add: owns_def)
  moreover have "wrote {owner} (touch_conversation conv now ?e) d'" unfolding s(4) by (intro wrote_frameI count_up_framed) simp_all
  ultimately show ?thesis using e wrote_trans by blast
qed

lemma prepare_submission_wrote:
  assumes "chat_inv d" and "prepare_submission owner client content conv source atts rt ids now d = Inr (d', p)"
  shows "wrote {owner} d d'"
proof -
  obtain as where as: "atts = Some as" using assms(2) by (cases atts) (auto simp: prepare_submission_def split: if_splits)
  obtain d1 c where f: "find_conversation owner conv (di_conversation ids) now d = Inr (d1, c)"
    using assms(2) as by (cases "find_conversation owner conv (di_conversation ids) now d") (auto simp: prepare_submission_def split: if_splits)
  have r: "(\<exists>u a. submission_rows owner client d1 = Inr (Some (u, a)) \<and> resubmit owner (cv_id c) content source as rt u a now d1 = Inr (d', p))
      \<or> submit_new owner (cv_id c) client content source as ids now d1 = Inr (d', p)"
    using assms(2) as f by (auto simp: prepare_submission_def split: if_splits option.splits sum.splits)
  note d1 = find_conversationD[OF f]
  have inv: "chat_inv d1" using wrote_inv[OF d1(1) assms(1)] .
  have own: "owns d1 owner (cv_id c)" using d1(2,3) by (auto simp: owns_def)
  have "wrote {owner} d1 d'" using r
    by (elim disjE exE conjE) (rule resubmit_wrote[OF inv], assumption+, rule submit_new_wrote[OF inv own], assumption)
  then show ?thesis using d1(1) wrote_trans by blast
qed

lemma prepare_generated_wrote:
  assumes "chat_inv d" and "prepare_generated_assistant owner key facts conv reply rt ids now d = Inr (d', p)"
  shows "wrote {owner} d d'"
proof -
  obtain c where "conversation_row owner conv d = Inr (d, c)"
    and r: "(\<exists>b a. generated_rows owner key d = Inr (Some (b, a)) \<and> regenerate owner facts conv reply rt b a now d = Inr (d', p))
      \<or> generate_new owner key facts conv reply ids now d = Inr (d', p)"
    using assms(2) unfolding prepare_generated_assistant_def by (auto dest: conversation_rowD(1) split: if_splits option.splits sum.splits)
  then have own: "owns d owner conv" using conversation_rowD(5) by blast
  from r show ?thesis
  proof (elim disjE exE conjE)
    fix b a assume g: "generated_rows owner key d = Inr (Some (b, a))" and "regenerate owner facts conv reply rt b a now d = Inr (d', p)"
    then consider "d' = d" | x where "retry owner a now d = Inr (d', x)" "mm_status a = ChatFailed"
      by (auto simp: regenerate_def split: if_splits sum.splits)
    then show ?thesis
      by cases (use wrote_refl assms(1) generated_rowsD[OF g] in \<open>auto intro: retry_wrote[of d a]\<close>)
  next
    assume n: "generate_new owner key facts conv reply ids now d = Inr (d', p)"
    let ?a = "assistant_message owner conv (di_turn ids) (di_assistant ids) reply (next_sequence conv d) now"
    let ?b = "\<lparr>gb_owner = owner, gb_key = key, gb_facts = facts, gb_conversation = conv, gb_reply = reply, gb_message = mm_id ?a, gb_created = now\<rparr>"
    let ?e = "(add_message ?a now d)\<lparr>bindings := bindings d @ [?b]\<rparr>"
    note s = generate_newD[OF n]
    have e: "wrote {owner} d ?e" using s(1,2) own by (intro wrote.created) (simp_all add: assistant_message_def)
    have "wrote {owner} ?e (touch_conversation conv now ?e)"
      using wrote_inv[OF e assms(1)] own by (intro wrote_frameI touch_framed[of _ owner]) (simp_all add: owns_def)
    moreover have "wrote {owner} (touch_conversation conv now ?e) d'" unfolding s(4) by (intro wrote_frameI count_up_framed) simp_all
    ultimately show ?thesis using e wrote_trans by blast
  qed
qed

text \<open>The end of an attempt: the conversation is touched, the answer revised.\<close>

definition end_attempt :: "(magi_message \<Rightarrow> magi_message) \<Rightarrow> magi_message \<Rightarrow> int \<Rightarrow> chat_db \<Rightarrow> chat_db" where
  "end_attempt f m now d = put_message (revised_row f now m) now (touch_conversation (mm_conversation m) now d)"

lemma end_attempt_eq:
  assumes "chat_inv d" and "m \<in> set (chat_rows d)" and "revises m (revised_row f now m)"
  shows "revise m f now (touch_conversation (mm_conversation m) now d) = Inr (end_attempt f m now d, ())"
  using revise_eq[of "touch_conversation (mm_conversation m) now d" m f now] touch_inv[OF assms(1) inv_owns[OF assms(1,2)]] assms(2,3)
  by (simp add: end_attempt_def)

lemma end_attempt_wrote:
  assumes "chat_inv d" and "m \<in> set (chat_rows d)" and "revises m (revised_row f now m)" and "mm_owner m \<in> A"
  shows "wrote A d (end_attempt f m now d)"
proof -
  have "wrote A d (touch_conversation (mm_conversation m) now d)"
    using wrote_frameI touch_framed[OF assms(1) inv_owns[OF assms(1,2)] assms(4)] .
  moreover have "wrote A (touch_conversation (mm_conversation m) now d) (end_attempt f m now d)"
    unfolding end_attempt_def using assms(2,3,4) by (intro wrote.revised[of m]) simp_all
  ultimately show ?thesis by (rule wrote_trans)
qed

lemma completing_eq: "(\<lambda>x. x\<lparr>mm_content := content, mm_status := ChatCompleted, mm_error := None\<rparr>) = completing content"
  by (simp add: completing_def fun_eq_iff)

lemma failing_eq: "(\<lambda>x. x\<lparr>mm_content := [], mm_status := ChatFailed, mm_error := Some err\<rparr>) = failing err"
  by (simp add: failing_def fun_eq_iff)

lemma cancelling_eq: "(\<lambda>x. x\<lparr>mm_content := [], mm_status := ChatCancelled, mm_error := None\<rparr>) = cancelling"
  by (simp add: cancelling_def fun_eq_iff)

lemma orphaning_eq: "(\<lambda>x. if mm_status x = ChatPending then x\<lparr>mm_content := [], mm_status := ChatFailed, mm_error := Some ''server_restart''\<rparr> else x) = orphaning"
  by (simp add: orphaning_def failing_def fun_eq_iff)

lemma complete_eq:
  assumes "chat_inv d" and "answer_row owner mid d = Some m"
  shows "complete_submission owner mid attempt content latency tools now d
    = (if mm_status m \<noteq> ChatPending \<or> mm_attempt m \<noteq> attempt then Inr (d, False)
       else Inr (count_up owner (completion_metrics (max 0 latency) (int (length content)) tools) now (end_attempt (completing content) m now d), True))"
  using assms answer_rowD[OF assms(2)] end_attempt_eq[OF assms(1), of m "completing content" now] revises_outcome(1)[of m content now]
  by (simp add: complete_submission_def completing_eq)

lemma fail_eq:
  assumes "chat_inv d" and "answer_row owner mid d = Some m"
  shows "fail_submission owner mid attempt err tools now d
    = (if mm_status m \<noteq> ChatPending \<or> mm_attempt m \<noteq> attempt then Inr (d, False)
       else Inr (count_up owner (\<lambda>g. g\<lparr>dg_failed := dg_failed g + 1, dg_tool_calls := dg_tool_calls g + max 0 tools\<rparr>) now
                   (end_attempt (failing (safe_code err)) m now d), True))"
  using assms answer_rowD[OF assms(2)] end_attempt_eq[OF assms(1), of m "failing (safe_code err)" now] revises_outcome(2)[of m "safe_code err" now]
  by (simp add: fail_submission_def failing_eq)

lemma cancel_eq:
  assumes "chat_inv d" and "submission_rows owner client d = Inr (Some (u, a))"
  shows "cancel_submission owner client now d
    = (if mm_status a \<noteq> ChatPending then Inr (d, ())
       else Inr (close_routes owner (mm_id a) ''cancelled'' now (touch_conversation (mm_conversation u) now (put_message (revised_row cancelling now a) now d)), ()))"
  using assms submission_rowsD[OF assms(2)] revise_eq[OF assms(1), of a cancelling now] revises_outcome(3)[of a now]
  by (simp add: cancel_submission_def cancelling_eq)

lemma answer_wrote:
  assumes "chat_inv d" and "complete_submission owner mid attempt content latency tools now d = Inr (d', x)
    \<or> fail_submission owner mid attempt err tools now d = Inr (d', x)"
  shows "wrote {owner} d d'"
proof -
  obtain m where m: "answer_row owner mid d = Some m"
    using assms(2) by (auto simp: complete_submission_def fail_submission_def split: option.splits)
  consider "d' = d" | f g where "d' = count_up owner g now (end_attempt f m now d)" "\<And>x. dg_owner (g x) = dg_owner x" "revises m (revised_row f now m)"
    using assms(2) revises_outcome(1,2)[OF answer_rowD(4)[OF m]] complete_eq[OF assms(1) m] fail_eq[OF assms(1) m]
    by (auto split: if_splits simp: completion_metrics_def)
  then show ?thesis
  proof cases
    case 2
    then have "wrote {owner} d (end_attempt f m now d)" using answer_rowD[OF m] assms(1) by (intro end_attempt_wrote) simp_all
    moreover have "wrote {owner} (end_attempt f m now d) d'" unfolding 2(1) by (intro wrote_frameI count_up_framed 2(2)) simp
    ultimately show ?thesis by (rule wrote_trans)
  qed (simp add: wrote_refl)
qed

lemma cancel_wrote:
  assumes "chat_inv d" and "cancel_submission owner client now d = Inr (d', x)"
  shows "wrote {owner} d d'"
proof -
  obtain u a where s: "submission_rows owner client d = Inr (Some (u, a))"
    using assms(2) by (auto simp: cancel_submission_def split: sum.splits option.splits)
  note r = submission_rowsD[OF s]
  show ?thesis
  proof (cases "mm_status a = ChatPending")
    case True
    let ?e = "put_message (revised_row cancelling now a) now d"
    let ?f = "touch_conversation (mm_conversation u) now ?e"
    have e: "wrote {owner} d ?e" using r True revises_outcome(3) by (intro wrote.revised[of a]) simp_all
    have "owns d (mm_owner u) (mm_conversation u)" using inv_owns[OF assms(1) r(1)] .
    then have "owns ?e owner (mm_conversation u)" using r(2) by (simp add: put_owns)
    then have f: "wrote {owner} ?e ?f" using wrote_inv[OF e assms(1)] by (intro wrote_frameI touch_framed) simp_all
    have "d' = close_routes owner (mm_id a) ''cancelled'' now ?f" using cancel_eq[OF assms(1) s] assms(2) True by simp
    then have "wrote {owner} ?f d'" by (simp add: wrote_frameI close_routes_framed)
    then show ?thesis using wrote_trans[OF wrote_trans[OF e f]] by blast
  next
    case False
    then show ?thesis using cancel_eq[OF assms(1) s] assms(2) wrote_refl by simp
  qed
qed

subsection \<open>Recovery\<close>

lemma end_attempt_rows:
  assumes "chat_inv d" and "m \<in> set (chat_rows d)" and "revises m (revised_row f now m)"
  shows "chat_rows (end_attempt f m now d) = map (\<lambda>r. if r = m then revised_row f now m else r) (chat_rows d)"
  using put_message_rows[of "touch_conversation (mm_conversation m) now d" m "revised_row f now m" now] assms touch_inv[OF assms(1) inv_owns[OF assms(1,2)]]
  by (simp add: end_attempt_def)

lemma recover_messages_ok:
  assumes "chat_inv d" and "\<And>m. m \<in> set ms \<Longrightarrow> m \<in> set (chat_rows d) \<and> mm_role m = ''assistant'' \<and> mm_status m = ChatPending" and "distinct ms"
  shows "\<exists>d'. recover_messages ms now d = Inr (d', ()) \<and> wrote UNIV d d'
    \<and> chat_rows d' = map (\<lambda>x. if x \<in> set ms then revised_row orphaning now x else x) (chat_rows d)"
  using assms
proof (induction ms arbitrary: d)
  case (Cons m ms)
  let ?m = "revised_row orphaning now m" and ?e = "end_attempt orphaning m now d"
  let ?d = "close_routes (mm_owner m) (mm_id m) ''failed'' now ?e"
  have m: "m \<in> set (chat_rows d)" "revises m ?m" using Cons.prems(2)[of m] revises_outcome(4) by simp_all
  have e: "wrote UNIV d ?e" by (rule end_attempt_wrote[OF Cons.prems(1) m]) simp
  moreover have "wrote UNIV ?e ?d" by (intro wrote_frameI close_routes_framed) simp
  ultimately have w: "wrote UNIV d ?d" by (rule wrote_trans)
  have rows: "chat_rows ?d = map (\<lambda>r. if r = m then ?m else r) (chat_rows d)" using end_attempt_rows[OF Cons.prems(1) m] by simp
  have "mm_status ?m \<noteq> ChatPending" using Cons.prems(2)[of m] by (simp add: revised_row_def orphaning_def failing_def)
  then have new: "?m \<notin> set ms" using Cons.prems(2)[of ?m] by auto
  have "x \<in> set (chat_rows ?d)" if "x \<in> set ms" for x
    using Cons.prems(2)[of x] Cons.prems(3) that unfolding rows by (auto intro!: image_eqI[of _ _ x])
  then obtain d' where d': "recover_messages ms now ?d = Inr (d', ())" "wrote UNIV ?d d'"
      "chat_rows d' = map (\<lambda>x. if x \<in> set ms then revised_row orphaning now x else x) (chat_rows ?d)"
    using Cons.IH[OF wrote_inv[OF w Cons.prems(1)]] Cons.prems(2,3) by auto
  have "recover_messages (m # ms) now d = Inr (d', ())" using d'(1) end_attempt_eq[OF Cons.prems(1) m] by (simp add: orphaning_eq)
  moreover have "chat_rows d' = map (\<lambda>x. if x \<in> set (m # ms) then revised_row orphaning now x else x) (chat_rows d)"
    unfolding d'(3) rows using new Cons.prems(3) by auto
  ultimately show ?case using wrote_trans[OF w d'(2)] by blast
qed (simp add: wrote_refl)

lemma count_failures_wrote: "wrote UNIV d (count_failures us ms now d)"
proof (induction us arbitrary: d)
  case (Cons u us)
  have "wrote UNIV d (count_up u (\<lambda>g. g\<lparr>dg_failed := dg_failed g + int (length (filter (\<lambda>m. mm_owner m = u) ms))\<rparr>) now d)"
    by (intro wrote_frameI count_up_framed) simp_all
  then show ?case using Cons.IH wrote_trans by fastforce
qed (simp add: wrote_refl)

lemma count_failures_rows [simp]: "chat_rows (count_failures us ms now d) = chat_rows d"
  by (induction us arbitrary: d) simp_all

lemma recover_ok:
  assumes "chat_inv d"
  shows "\<exists>d'. recover_orphaned_pending now d = Inr (d', length (orphaned d)) \<and> wrote UNIV d d'
    \<and> chat_rows d' = map (\<lambda>x. if x \<in> set (orphaned d) then revised_row orphaning now x else x) (chat_rows d)"
proof -
  have "distinct (orphaned d)" using assms by (simp add: chat_inv_def keys_ok_def mmk.uniq_def orphaned_def distinct_map)
  then obtain d1 where d1: "recover_messages (orphaned d) now d = Inr (d1, ())" "wrote UNIV d d1"
      "chat_rows d1 = map (\<lambda>x. if x \<in> set (orphaned d) then revised_row orphaning now x else x) (chat_rows d)"
    using recover_messages_ok[OF assms, of "orphaned d" now] by (auto simp: orphaned_def)
  then show ?thesis using wrote_trans[OF d1(2) count_failures_wrote] by (simp add: recover_orphaned_pending_def)
qed

subsection \<open>The family\<close>

datatype chat_op =
    CSubmit string string string "string option" string "attachment list option" bool chat_ids int
  | CGenerate string string string string string bool chat_ids int
  | CComplete string string int string int int int
  | CFail string string int string int int
  | CRecover int
  | CCancel string string int
  | CRoute string string string bool bool string int
  | CRead string compatibility_counter int
  | CReset string
  | CHistory string "string option" "int option" nat string int

definition chat_done :: "('e, 's, 'a) outcome \<Rightarrow> ('e, 's, unit) outcome" where
  "chat_done r = (case r of Inl e \<Rightarrow> Inl e | Inr (s, _) \<Rightarrow> Inr (s, ()))"

lemma chat_done_Inr [simp]: "chat_done r = Inr (s, u) \<longleftrightarrow> (\<exists>a. r = Inr (s, a))"
  by (auto simp: chat_done_def split: sum.splits)

fun exec_chat :: "chat_op \<Rightarrow> chat_db \<Rightarrow> (chat_error, chat_db, unit) outcome" where
  "exec_chat (CSubmit w client content conv source atts rt ids now) d = chat_done (prepare_submission w client content conv source atts rt ids now d)"
| "exec_chat (CGenerate w key facts conv reply rt ids now) d = chat_done (prepare_generated_assistant w key facts conv reply rt ids now d)"
| "exec_chat (CComplete w mid attempt content latency tools now) d = chat_done (complete_submission w mid attempt content latency tools now d)"
| "exec_chat (CFail w mid attempt err tools now) d = chat_done (fail_submission w mid attempt err tools now d)"
| "exec_chat (CRecover now) d = chat_done (recover_orphaned_pending now d)"
| "exec_chat (CCancel w client now) d = cancel_submission w client now d"
| "exec_chat (CRoute w mid category permission confirmation result now) d = record_turn_route w mid category permission confirmation result now d"
| "exec_chat (CRead w c now) d = Inr (record_compatibility_read w c now d, ())"
| "exec_chat (CReset w) d = Inr (reset_diagnostics w d, ())"
| "exec_chat (CHistory w conv before limit cid now) d = chat_done (list_conversation w conv before limit cid now d)"

text \<open>Whose rows an operation writes.\<close>

fun op_owners :: "chat_op \<Rightarrow> string set" where
  "op_owners (CSubmit w _ _ _ _ _ _ _ _) = {w}"
| "op_owners (CGenerate w _ _ _ _ _ _ _) = {w}"
| "op_owners (CComplete w _ _ _ _ _ _) = {w}"
| "op_owners (CFail w _ _ _ _ _) = {w}"
| "op_owners (CRecover _) = UNIV"
| "op_owners (CCancel w _ _) = {w}"
| "op_owners (CRoute w _ _ _ _ _ _) = {w}"
| "op_owners (CRead w _ _) = {w}"
| "op_owners (CReset w) = {w}"
| "op_owners (CHistory w _ _ _ _ _) = {w}"

lemma record_turn_route_framed:
  assumes "record_turn_route w mid category permission confirmation result now d = Inr (d', u)"
  shows "framed {w} d d'"
proof (rule framed_refl_fields)
  have "filter (\<lambda>t. tr_owner t \<notin> {w}) (tbl_upd (\<lambda>t. tr_sel mid t \<and> tr_owner t = w) f ts) = filter (\<lambda>t. tr_owner t \<notin> {w}) ts"
    if "\<And>t. tr_owner (f t) = tr_owner t" for f ts by (rule filter_upd_other) (simp add: that)
  then show "filter (\<lambda>t. tr_owner t \<notin> {w}) (turn_routes d') = filter (\<lambda>t. tr_owner t \<notin> {w}) (turn_routes d)"
    using assms by (auto simp: record_turn_route_def split: if_splits)
qed (use assms in \<open>auto simp: record_turn_route_def split: if_splits\<close>)

lemma list_conversation_wrote:
  assumes "list_conversation w conv before limit cid now d = Inr (d', x)"
  shows "wrote {w} d d'"
proof -
  have "\<exists>c. find_conversation w conv cid now d = Inr (d', c)"
    using assms unfolding list_conversation_def by (auto simp: Let_def split: if_splits sum.splits)
  then show ?thesis using find_conversationD(1) by blast
qed

lemma exec_chat_wrote: "chat_inv d \<Longrightarrow> exec_chat p d = Inr (d', u) \<Longrightarrow> wrote (op_owners p) d d'"
proof (cases p)
  case CSubmit
  assume "chat_inv d" "exec_chat p d = Inr (d', u)"
  then show ?thesis using CSubmit prepare_submission_wrote by fastforce
next
  case CGenerate
  assume "chat_inv d" "exec_chat p d = Inr (d', u)"
  then show ?thesis using CGenerate prepare_generated_wrote by fastforce
next
  case CComplete
  assume "chat_inv d" "exec_chat p d = Inr (d', u)"
  then show ?thesis using CComplete answer_wrote by fastforce
next
  case CFail
  assume "chat_inv d" "exec_chat p d = Inr (d', u)"
  then show ?thesis using CFail answer_wrote by fastforce
next
  case (CRecover now)
  assume "chat_inv d" "exec_chat p d = Inr (d', u)"
  then show ?thesis using CRecover recover_ok[of d now] by auto
next
  case CCancel
  assume "chat_inv d" "exec_chat p d = Inr (d', u)"
  then show ?thesis using CCancel cancel_wrote by simp
next
  case CRoute
  assume "chat_inv d" "exec_chat p d = Inr (d', u)"
  then show ?thesis using CRoute record_turn_route_framed wrote_frameI by simp
next
  case (CRead w c now)
  assume "chat_inv d" "exec_chat p d = Inr (d', u)"
  then have "d' = record_compatibility_read w c now d" using CRead by simp
  moreover have "framed {w} d (record_compatibility_read w c now d)"
    unfolding record_compatibility_read_def by (intro count_up_framed) (simp_all split: compatibility_counter.splits)
  ultimately show ?thesis using CRead wrote_frameI by simp
next
  case (CReset w)
  assume "chat_inv d" "exec_chat p d = Inr (d', u)"
  moreover have "framed {w} d (reset_diagnostics w d)" by (rule framed_refl_fields) (auto simp: reset_diagnostics_def dg_sel_def intro!: filter_cong)
  ultimately show ?thesis using CReset wrote_frameI by auto
next
  case CHistory
  assume "chat_inv d" "exec_chat p d = Inr (d', u)"
  then show ?thesis using CHistory list_conversation_wrote by fastforce
qed

interpretation chats: audited exec_chat chat_inv "\<lambda>_. True" chat_after
proof unfold_locales
  show "chat_after s s" for s by (rule chat_after_refl)
  show "chat_after s t \<Longrightarrow> chat_after t u \<Longrightarrow> chat_after s u" for s t u by (rule chat_after_trans)
  show "chat_inv s \<Longrightarrow> True \<Longrightarrow> exec_chat p s = Inr (s', a) \<Longrightarrow> chat_inv s'" for s s' p a using exec_chat_wrote wrote_inv by blast
  show "chat_inv s \<Longrightarrow> True \<Longrightarrow> exec_chat p s = Inr (s', a) \<Longrightarrow> chat_after s s'" for s s' p a using exec_chat_wrote wrote_after by blast
qed

definition empty_chat :: chat_db where
  "empty_chat = \<lparr>conversations = [], chat_rows = [], changes = [], bindings = [], turn_routes = [], counters = []\<rparr>"

lemma empty_chat_inv: "chat_inv empty_chat"
  by (simp add: empty_chat_def chat_inv_def keys_ok_def log_ok_def log_of_def mmk.uniq_def cvk.uniq_def gbk.uniq_def)

end
