(* ===== verification/Chat_Properties.thy ===== *)
theory Chat_Properties
  imports Chat_System
begin

text \<open>
  What the chat store promises: one exchange per submission id, one outcome per attempt, a startup that leaves nothing
  pending, a change log from which a client catches up, and tenants that do not see each other.
\<close>

subsection \<open>Sample state\<close>

definition sample_ids :: chat_ids where
  "sample_ids = \<lparr>di_conversation = ''c1'', di_turn = ''t1'', di_user = ''u1'', di_assistant = ''a1''\<rparr>"

definition sample_prepared :: prepared where
  "sample_prepared = \<lparr>ps_conversation = ''c1'', ps_user = Some ''u1'', ps_assistant = ''a1'', ps_turn = ''t1'', ps_attempt = 1, ps_claimed = True,
     ps_duplicate = False, ps_status = ChatPending\<rparr>"

definition sample_user :: magi_message where
  "sample_user = user_message ''w'' ''c1'' ''t1'' ''u1'' ''k'' ''hello'' ''text'' [] 0 5"

definition sample_answer :: magi_message where
  "sample_answer = assistant_message ''w'' ''c1'' ''t1'' ''a1'' ''u1'' 1 5"

definition sample_chat :: chat_db where
  "sample_chat = \<lparr>conversations = [\<lparr>cv_id = ''c1'', cv_owner = ''w'', cv_default = True, cv_created = 5, cv_updated = 5\<rparr>],
     chat_rows = [sample_user, sample_answer],
     changes = [\<lparr>mc_conversation = ''c1'', mc_sequence = 1, mc_message = ''u1'', mc_revision = 1, mc_changed = 5\<rparr>,
       \<lparr>mc_conversation = ''c1'', mc_sequence = 2, mc_message = ''a1'', mc_revision = 1, mc_changed = 5\<rparr>],
     bindings = [], turn_routes = [], counters = [(new_diagnostics ''w'' 5)\<lparr>dg_submitted := 1\<rparr>]\<rparr>"

lemmas sample_chat_defs = sample_ids_def sample_prepared_def sample_user_def sample_answer_def sample_chat_def user_message_def assistant_message_def

lemma sample_submitted: "prepare_submission ''w'' ''k'' ''hello'' None ''text'' (Some []) False sample_ids 5 empty_chat = Inr (sample_chat, sample_prepared)"
  by (simp add: prepare_submission_def find_conversation_def default_conversation_def empty_chat_def submission_rows_def submit_new_def insert_message_def
      append_change_def last_change_def next_sequence_def touch_conversation_def count_up_def prepared_of_def cv_sel_def dg_sel_def Let_def new_diagnostics_def sample_chat_defs)

lemma sample_chat_inv: "chat_inv sample_chat"
  using wrote_inv[OF prepare_submission_wrote[OF empty_chat_inv sample_submitted] empty_chat_inv] .

subsection \<open>Rows along a history\<close>

lemma later_row:
  assumes "chat_inv d" and "m \<in> set (chat_rows d)" and "d' = run_ops exec_chat ps d"
  obtains m' where "m' \<in> set (chat_rows d')" "mm_after m m'"
proof -
  have "chat_after d d'" unfolding assms(3) by (rule chats.run_older[OF assms(1)]) (simp add: list_all_iff)
  then have "\<exists>m' \<in> set (chat_rows d'). mm_after m m'" using assms(2) unfolding chat_after_def rows_kept_def by blast
  then show thesis using that by blast
qed

lemma chat_run_inv: "chat_inv d \<Longrightarrow> chat_inv (run_ops exec_chat ps d)"
  by (rule chats.run_inv) (simp_all add: list_all_iff)

lemma tbl_get_unique: "x \<in> set t \<Longrightarrow> P x \<Longrightarrow> (\<And>y. y \<in> set t \<Longrightarrow> P y \<Longrightarrow> y = x) \<Longrightarrow> tbl_get P t = Some x"
  by (metis not_None_eq tbl_get_None_iff tbl_get_Some_iff)

lemma answer_row_unique:
  assumes "chat_inv d" and "m \<in> set (chat_rows d)" and "mm_role m = ''assistant''"
  shows "answer_row (mm_owner m) (mm_id m) d = Some m"
  unfolding answer_row_def
  by (rule tbl_get_unique) (use assms keys_okD in \<open>auto simp: chat_inv_def mm_clash_def\<close>)

lemma submission_rows_unique:
  assumes "chat_inv d" and "u \<in> set (chat_rows d)" "mm_role u = ''user''" "mm_client u = Some k"
    and "a \<in> set (chat_rows d)" "mm_role a = ''assistant''" "(mm_owner a, mm_conversation a, mm_turn a) = (mm_owner u, mm_conversation u, mm_turn u)"
  shows "submission_rows (mm_owner u) k d = Inr (Some (u, a))"
proof -
  have keys: "keys_ok (chat_rows d)" using assms(1) by (simp add: chat_inv_def)
  have "tbl_get (\<lambda>m. mm_owner m = mm_owner u \<and> mm_client m = Some k \<and> mm_role m = ''user'') (chat_rows d) = Some u"
    by (rule tbl_get_unique) (use assms keys_okD[OF keys assms(2)] in \<open>auto simp: mm_clash_def\<close>)
  moreover have "tbl_get (\<lambda>m. mm_owner m = mm_owner u \<and> mm_conversation m = mm_conversation u \<and> mm_turn m = mm_turn u \<and> mm_role m = ''assistant'') (chat_rows d) = Some a"
    by (rule tbl_get_unique) (use assms keys_okD[OF keys assms(5)] in \<open>auto simp: mm_clash_def\<close>)
  ultimately show ?thesis by (simp add: submission_rows_def)
qed

subsection \<open>Attempts\<close>

lemma end_attempt_row:
  assumes "chat_inv d" and "m \<in> set (chat_rows d)" and "revises m (revised_row f now m)"
  shows "revised_row f now m \<in> set (chat_rows (end_attempt f m now d))"
  unfolding end_attempt_rows[OF assms] using assms(2) by (auto intro!: image_eqI[of _ _ m])

lemma answer_ended:
  assumes "chat_inv d" and "complete_submission w mid k content latency tools now d = Inr (d1, True) \<or> fail_submission w mid k err tools now d = Inr (d1, True)"
  obtains m where "m \<in> set (chat_rows d1)" "mm_id m = mid" "mm_owner m = w" "mm_role m = ''assistant''" "mm_attempt m = k" "mm_status m \<noteq> ChatPending"
proof -
  obtain m where m: "answer_row w mid d = Some m"
    using assms(2) by (auto simp: complete_submission_def fail_submission_def split: option.splits)
  note a = answer_rowD[OF m]
  have p: "mm_status m = ChatPending" "mm_attempt m = k"
    and d1: "d1 = count_up w (completion_metrics (max 0 latency) (int (length content)) tools) now (end_attempt (completing content) m now d)
      \<or> d1 = count_up w (\<lambda>g. g\<lparr>dg_failed := dg_failed g + 1, dg_tool_calls := dg_tool_calls g + max 0 tools\<rparr>) now (end_attempt (failing (safe_code err)) m now d)"
    using assms(2) complete_eq[OF assms(1) m] fail_eq[OF assms(1) m] by (auto split: if_splits)
  note r = revises_outcome[OF a(4) p(1)]
  from d1 show thesis
  proof
    assume d1: "d1 = count_up w (completion_metrics (max 0 latency) (int (length content)) tools) now (end_attempt (completing content) m now d)"
    have "revised_row (completing content) now m \<in> set (chat_rows d1)" unfolding d1 count_up_rows by (rule end_attempt_row[OF assms(1) a(1) r(1)])
    then show thesis by (rule that) (simp_all add: revised_row_def completing_def a p)
  next
    assume d1: "d1 = count_up w (\<lambda>g. g\<lparr>dg_failed := dg_failed g + 1, dg_tool_calls := dg_tool_calls g + max 0 tools\<rparr>) now (end_attempt (failing (safe_code err)) m now d)"
    have "revised_row (failing (safe_code err)) now m \<in> set (chat_rows d1)" unfolding d1 count_up_rows by (rule end_attempt_row[OF assms(1) a(1) r(2)])
    then show thesis by (rule that) (simp_all add: revised_row_def failing_def a p)
  qed
qed

text \<open>C15. An attempt has one outcome: once an attempt of an answer was completed or failed, every later call that reports
  an outcome for it or for an earlier attempt is told so and writes nothing, whatever operations (retries, cancellations,
  restarts) lie between.\<close>

theorem attempt_outcome_once:
  assumes inv: "chat_inv d"
    and ended: "complete_submission w mid k content latency tools now d = Inr (d1, True) \<or> fail_submission w mid k err tools now d = Inr (d1, True)"
    and d2: "d2 = run_ops exec_chat ps d1" and "k' \<le> k"
  shows "complete_submission w mid k' content' latency' tools' now' d2 = Inr (d2, False) \<and> fail_submission w mid k' err' tools' now' d2 = Inr (d2, False)"
proof -
  obtain m where m: "m \<in> set (chat_rows d1)" "mm_id m = mid" "mm_owner m = w" "mm_role m = ''assistant''" "mm_attempt m = k" "mm_status m \<noteq> ChatPending"
    using answer_ended[OF inv ended] .
  have inv1: "chat_inv d1" using wrote_inv[OF answer_wrote[OF inv ended] inv] .
  obtain m' where m': "m' \<in> set (chat_rows d2)" "mm_after m m'" using later_row[OF inv1 m(1) d2] .
  have inv2: "chat_inv d2" unfolding d2 by (rule chat_run_inv[OF inv1])
  have id: "mm_ident m' = mm_ident m" "mm_attempt m \<le> mm_attempt m'" using m'(2) by (simp_all add: mm_after_def)
  have row: "answer_row w mid d2 = Some m'" using answer_row_unique[OF inv2 m'(1)] mm_identD[OF id(1)] m by simp
  have "mm_status m' \<noteq> ChatPending \<or> mm_attempt m' \<noteq> k'"
  proof (cases "mm_attempt m' = mm_attempt m")
    case True
    then have "m' = m" using m'(2) m(6) unfolding mm_after_def by blast
    then show ?thesis using m(6) by simp
  next
    case False
    then show ?thesis using id(2) m(5) \<open>k' \<le> k\<close> by simp
  qed
  then show ?thesis using complete_eq[OF inv2 row] fail_eq[OF inv2 row] by simp
qed

theorem attempt_outcome_once_witness:
  "\<exists>d1. complete_submission ''w'' ''a1'' 1 ''hi'' 3 0 6 sample_chat = Inr (d1, True)
     \<and> fail_submission ''w'' ''a1'' 1 ''late'' 0 9 (run_ops exec_chat [CCancel ''w'' ''k'' 7, CRecover 8] d1)
         = Inr (run_ops exec_chat [CCancel ''w'' ''k'' 7, CRecover 8] d1, False)"
proof -
  have row: "answer_row ''w'' ''a1'' sample_chat = Some sample_answer" by (simp add: answer_row_def sample_chat_defs)
  have "mm_status sample_answer = ChatPending" "mm_attempt sample_answer = 1" by (simp_all add: sample_chat_defs)
  then obtain d1 where d1: "complete_submission ''w'' ''a1'' 1 ''hi'' 3 0 6 sample_chat = Inr (d1, True)"
    using complete_eq[OF sample_chat_inv row] by simp
  then show ?thesis using attempt_outcome_once[OF sample_chat_inv disjI1[OF d1] refl order_refl] by blast
qed

subsection \<open>One exchange per submission id\<close>

text \<open>\<open>p\<close> is the exchange of \<open>u\<close> and \<open>a\<close>, which carry the submission.\<close>

definition exchange_of :: "string \<Rightarrow> string \<Rightarrow> string \<Rightarrow> string \<Rightarrow> attachment list \<Rightarrow> prepared \<Rightarrow> magi_message \<Rightarrow> magi_message \<Rightarrow> bool" where
  "exchange_of w client content source as p u a \<longleftrightarrow> mm_role u = ''user'' \<and> mm_owner u = w \<and> mm_client u = Some client \<and> mm_content u = content
     \<and> mm_source u = source \<and> mm_attachments u = as \<and> mm_role a = ''assistant'' \<and> (mm_owner a, mm_conversation a, mm_turn a) = (w, mm_conversation u, mm_turn u)
     \<and> ps_conversation p = mm_conversation u \<and> ps_user p = Some (mm_id u) \<and> ps_assistant p = mm_id a \<and> ps_turn p = mm_turn u"

lemma retry_rows:
  assumes "chat_inv d" and "a \<in> set (chat_rows d)" and "mm_role a = ''assistant''" and "mm_status a = ChatFailed" and "retry w a now d = Inr (d', x)"
  shows "x = revised_row retried now a" "chat_rows d' = map (\<lambda>r. if r = a then x else r) (chat_rows d)"
proof -
  have "Inr (d', x) = (Inr (count_up w (\<lambda>g. g\<lparr>dg_retries := dg_retries g + 1\<rparr>) now (put_message (revised_row retried now a) now d), revised_row retried now a)
      :: (chat_error, chat_db, magi_message) outcome)"
    using assms(5) unfolding retry_eq[OF assms(1-4)] by (rule sym)
  then have d': "d' = count_up w (\<lambda>g. g\<lparr>dg_retries := dg_retries g + 1\<rparr>) now (put_message (revised_row retried now a) now d)" and x: "x = revised_row retried now a"
    by blast+
  show "x = revised_row retried now a" by (rule x)
  show "chat_rows d' = map (\<lambda>r. if r = a then x else r) (chat_rows d)"
    unfolding d' x count_up_rows by (rule put_message_rows[OF assms(1,2) revises_retried[OF assms(3,4)]])
qed

lemma retried_ident: "mm_ident (revised_row retried now a) = mm_ident a"
  by (simp add: mm_ident_def revised_row_def retried_def)

lemma resubmitD:
  assumes inv: "chat_inv d" and s: "submission_rows w client d = Inr (Some (u, a))" and r: "resubmit w conv content source as rt u a now d = Inr (d', p)"
  shows "conv = mm_conversation u \<and> content = mm_content u \<and> source = mm_source u \<and> as = mm_attachments u \<and> ps_duplicate p
    \<and> map mm_id (chat_rows d') = map mm_id (chat_rows d) \<and> u \<in> set (chat_rows d')
    \<and> (\<exists>a' \<in> set (chat_rows d'). mm_ident a' = mm_ident a \<and> exchange_of w client content source as p u a')"
proof -
  note q = submission_rowsD[OF s]
  let ?d = "count_up w (\<lambda>g. g\<lparr>dg_duplicates := dg_duplicates g + 1\<rparr>) now d"
  have same: "conv = mm_conversation u" "content = mm_content u" "source = mm_source u" "as = mm_attachments u"
    using r by (auto simp: resubmit_def Let_def split: if_splits)
  consider "d' = ?d" "p = prepared_of conv (Some u) a False True"
    | x where "retry w a now ?d = Inr (d', x)" "mm_status a = ChatFailed" "p = prepared_of conv (Some u) x True True"
    using r by (auto simp: resubmit_def Let_def split: if_splits sum.splits)
  then show ?thesis
  proof cases
    case 1
    then show ?thesis using q same by (auto simp: exchange_of_def prepared_of_def intro!: bexI[of _ a])
  next
    case 2
    have inv': "chat_inv ?d" by (rule count_inv[OF inv]) simp
    have rows: "x = revised_row retried now a" "chat_rows d' = map (\<lambda>r. if r = a then x else r) (chat_rows d)"
      using retry_rows[OF inv' _ q(9) 2(2,1)] q(5) by simp_all
    have id: "mm_ident x = mm_ident a" unfolding rows(1) by (rule retried_ident)
    have ids: "map mm_id (chat_rows d') = map mm_id (chat_rows d)" unfolding rows(2) using mm_identD(1)[OF id] by simp
    have x: "x \<in> set (chat_rows d')" unfolding rows(2) using q(5) by (auto intro!: image_eqI[of _ _ a])
    have "u \<noteq> a" using q(4,9) by auto
    then have u: "u \<in> set (chat_rows d')" unfolding rows(2) using q(1) by (auto intro!: image_eqI[of _ _ u])
    have "exchange_of w client content source as p u x" using 2(3) same q mm_identD[OF id] by (simp add: exchange_of_def prepared_of_def)
    moreover have "ps_duplicate p" using 2(3) by (simp add: prepared_of_def)
    ultimately show ?thesis using same ids u x id by blast
  qed
qed

lemma submit_exchange:
  assumes inv: "chat_inv d" and st: "prepare_submission w client content conv source atts rt ids now d = Inr (d', p)"
  obtains u a as where "u \<in> set (chat_rows d')" "a \<in> set (chat_rows d')" "atts = Some as" "source \<in> {''text'', ''voice''}"
    "exchange_of w client content source as p u a"
proof -
  obtain as where as: "atts = Some as" "source \<in> {''text'', ''voice''}" using st by (cases atts) (auto simp: prepare_submission_def split: if_splits)
  obtain d1 c where f: "find_conversation w conv (di_conversation ids) now d = Inr (d1, c)"
    using st as by (cases "find_conversation w conv (di_conversation ids) now d") (auto simp: prepare_submission_def)
  have inv1: "chat_inv d1" using wrote_inv[OF find_conversationD(1)[OF f] inv] .
  consider u a where "submission_rows w client d1 = Inr (Some (u, a))" "resubmit w (cv_id c) content source as rt u a now d1 = Inr (d', p)"
    | "submit_new w (cv_id c) client content source as ids now d1 = Inr (d', p)"
    using st as f by (auto simp: prepare_submission_def split: option.splits sum.splits)
  then show thesis
  proof cases
    case 1
    then show thesis using resubmitD[OF inv1 1] that as by blast
  next
    case 2
    note s = submit_newD[OF 2]
    show thesis
      by (rule that[OF _ _ as, of "user_message w (cv_id c) (di_turn ids) (di_user ids) client content source as (next_sequence (cv_id c) d1) now"
            "assistant_message w (cv_id c) (di_turn ids) (di_assistant ids) (di_user ids) (next_sequence (cv_id c) d1 + 1) now"])
        (simp_all add: s(3,4) exchange_of_def prepared_of_def user_message_def assistant_message_def)
  qed
qed

lemma later_exchange:
  assumes inv: "chat_inv d1" and u: "u \<in> set (chat_rows d1)" "a \<in> set (chat_rows d1)" and e: "exchange_of w client content source as p u a"
    and d2: "d2 = run_ops exec_chat ps d1"
  obtains a' where "u \<in> set (chat_rows d2)" "a' \<in> set (chat_rows d2)" "mm_ident a' = mm_ident a" "submission_rows w client d2 = Inr (Some (u, a'))"
proof -
  have inv2: "chat_inv d2" unfolding d2 by (rule chat_run_inv[OF inv])
  have "answered (chat_rows d1) u" using inv u(1) by (simp add: chat_inv_def)
  then have "mm_status u = ChatCompleted" using e by (simp add: answered_def exchange_of_def)
  moreover obtain u' where "u' \<in> set (chat_rows d2)" "mm_after u u'" using later_row[OF inv u(1) d2] .
  ultimately have u2: "u \<in> set (chat_rows d2)" by (simp add: mm_after_def)
  obtain a' where a': "a' \<in> set (chat_rows d2)" "mm_after a a'" using later_row[OF inv u(2) d2] .
  have id: "mm_ident a' = mm_ident a" using a'(2) by (simp add: mm_after_def)
  have "submission_rows w client d2 = Inr (Some (u, a'))"
    using submission_rows_unique[OF inv2 u2 _ _ a'(1), of client] e mm_identD[OF id] by (simp add: exchange_of_def)
  then show thesis using that u2 a'(1) id by blast
qed



subsection \<open>Recovery\<close>



subsection \<open>Immutable history\<close>

text \<open>C17. Whatever operations run on a consistent store: every message keeps its identity, author, order and attachments, its
  revision and attempt never go back, a completed or cancelled answer never changes, no generated-message binding is lost,
  and the change log only grows, by an entry for every message that is new or different.\<close>

theorem chat_history_kept:
  assumes "chat_inv d" and "d' = run_ops exec_chat ps d"
  shows "chat_inv d' \<and> chat_after d d'"
  unfolding assms(2) using chat_run_inv[OF assms(1)] chats.run_older[OF assms(1)] by (simp add: list_all_iff)

theorem chat_history_kept_witness:
  "chat_after sample_chat (run_ops exec_chat [CRecover 8, CSubmit ''w'' ''k'' ''hello'' None ''text'' (Some []) True sample_ids 9] sample_chat)"
  using chat_history_kept[OF sample_chat_inv refl] by blast

subsection \<open>Tenants\<close>

text \<open>What the reads of an owner depend on.\<close>

definition chats_of :: "string \<Rightarrow> chat_db \<Rightarrow> conversation list \<times> magi_message list \<times> binding list \<times> turn_route list \<times> diagnostics list" where
  "chats_of w d = (filter (\<lambda>c. cv_owner c = w) (conversations d), filter (\<lambda>m. mm_owner m = w) (chat_rows d),
     filter (\<lambda>b. gb_owner b = w) (bindings d), filter (\<lambda>t. tr_owner t = w) (turn_routes d), filter (\<lambda>g. dg_owner g = w) (counters d))"

lemma filter_weaken: "(\<And>x. Q x \<Longrightarrow> P x) \<Longrightarrow> filter P t = filter P u \<Longrightarrow> filter Q t = filter Q u"
proof -
  assume PQ: "\<And>x. Q x \<Longrightarrow> P x" and eq: "filter P t = filter P u"
  have "filter Q s = filter Q (filter P s)" for s using PQ by (auto intro: filter_cong)
  then show ?thesis using eq by metis
qed

lemma chats_of_beyond: "w \<notin> A \<Longrightarrow> chats_beyond A d' = chats_beyond A d \<Longrightarrow> chats_of w d' = chats_of w d"
  unfolding chats_beyond_def chats_of_def prod.inject by (intro conjI; elim conjE; erule filter_weaken[rotated]; blast)

lemma tbl_get_filter: "(\<And>x. P x \<Longrightarrow> Q x) \<Longrightarrow> tbl_get P t = tbl_get P (filter Q t)"
  by (induction t) auto

lemma tbl_get_same: "filter Q t = filter Q u \<Longrightarrow> (\<And>x. P x \<Longrightarrow> Q x) \<Longrightarrow> tbl_get P t = tbl_get P u"
  using tbl_get_filter[of P Q] by metis

lemma other_run:
  assumes "chat_inv d" and "list_all (\<lambda>p. w \<notin> op_owners p) ps"
  shows "chats_of w (run_ops exec_chat ps d) = chats_of w d
    \<and> (\<forall>conv. owns d w conv \<longrightarrow> log_of conv (changes (run_ops exec_chat ps d)) = log_of conv (changes d))"
  using assms
proof (induction ps arbitrary: d)
  case (Cons p ps)
  show ?case
  proof (cases "exec_chat p d")
    case (Inl e)
    then show ?thesis using Cons by simp
  next
    case (Inr r)
    then obtain d1 where d1: "exec_chat p d = Inr (d1, ())" by (cases r) auto
    then have w: "wrote (op_owners p) d d1" using exec_chat_wrote Cons.prems(1) by blast
    have "chats_of w d1 = chats_of w d"
      by (rule chats_of_beyond[OF _ wrote_beyond[OF w Cons.prems(1)]]) (use Cons.prems(2) in simp)
    moreover have "log_of conv (changes d1) = log_of conv (changes d) \<and> owns d1 w conv" if "owns d w conv" for conv
      using wrote_log[OF w Cons.prems(1) that] Cons.prems(2) by simp
    ultimately show ?thesis using Cons.IH[OF wrote_inv[OF w Cons.prems(1)]] Cons.prems(2) d1 by simp
  qed
qed simp

lemma conversation_read:
  assumes "chats_of w d' = chats_of w d"
  shows "tbl_get (\<lambda>c. cv_id c = k \<and> cv_owner c = w) (conversations d') = tbl_get (\<lambda>c. cv_id c = k \<and> cv_owner c = w) (conversations d)"
  by (rule tbl_get_same[of "\<lambda>c. cv_owner c = w"]) (use assms in \<open>simp_all add: chats_of_def\<close>)

lemma message_read:
  assumes "chats_of w d' = chats_of w d" and "\<And>m. P m \<Longrightarrow> mm_owner m = w"
  shows "tbl_get P (chat_rows d') = tbl_get P (chat_rows d)"
  by (rule tbl_get_same[of "\<lambda>m. mm_owner m = w"]) (use assms in \<open>simp_all add: chats_of_def\<close>)

lemma changed_messages_read: "chats_of w d' = chats_of w d \<Longrightarrow> changed_messages w cs d' = changed_messages w cs d"
proof (induction cs)
  case (Cons c cs)
  have "tbl_get (\<lambda>m. mm_id m = mc_message c \<and> mm_owner m = w) (chat_rows d') = tbl_get (\<lambda>m. mm_id m = mc_message c \<and> mm_owner m = w) (chat_rows d)"
    by (rule message_read[OF Cons.prems]) simp
  then show ?case using Cons by (simp split: option.split)
qed simp

text \<open>A replay as a function of the conversation's log.\<close>

lemma replay_log:
  "replay w conv cursor limit d =
    (if cursor < 0 \<or> \<not> (1 \<le> limit \<and> limit \<le> MAX_MAGI_HISTORY_MESSAGES) then Inl ChatValue
     else case tbl_get (\<lambda>c. cv_id c = conv \<and> cv_owner c = w) (conversations d) of
       None \<Rightarrow> Inl ChatNotFound
     | Some _ \<Rightarrow>
         let log = log_of conv (changes d);
             found = take (limit + 1) (sort_key mc_sequence (filter (\<lambda>c. cursor < mc_sequence c) log));
             chosen = take limit found
         in (case changed_messages w chosen d of
               Inl e \<Rightarrow> Inl e
             | Inr ms \<Rightarrow> Inr \<lparr>rp_messages = ms, rp_next = (if chosen = [] then cursor else mc_sequence (last chosen)),
                             rp_latest = foldr max (map mc_sequence log) 0, rp_more = (limit < length found)\<rparr>))"
  unfolding replay_def conversation_row_def last_change_def log_of_def Let_def by (simp split: option.split sum.split)



subsection \<open>Catching up\<close>

text \<open>Reading a replay to its end: page after page from the cursor of the last one, while there is more.\<close>

fun drain :: "nat \<Rightarrow> string \<Rightarrow> string \<Rightarrow> int \<Rightarrow> nat \<Rightarrow> chat_db \<Rightarrow> (magi_message \<times> int) list option" where
  "drain 0 w conv cursor limit d = None"
| "drain (Suc k) w conv cursor limit d =
     (case replay w conv cursor limit d of
        Inl _ \<Rightarrow> None
      | Inr p \<Rightarrow> if rp_more p then map_option (append (rp_messages p)) (drain k w conv (rp_next p) limit d) else Some (rp_messages p))"

lemma tbl_get_ex: "x \<in> set t \<Longrightarrow> P x \<Longrightarrow> \<exists>y. tbl_get P t = Some y"
  by (metis not_None_eq tbl_get_None_iff)

lemma filter_upto: "0 \<le> k \<Longrightarrow> filter (\<lambda>i. k < i) [1..n] = [k + 1..n]"
proof (cases "k < n")
  case True
  assume "0 \<le> k"
  then have "[1..n] = [1..k] @ [k + 1..n]" using True upto_split2[of 1 k n] by (cases "k = 0") simp_all
  moreover have "filter (\<lambda>i. k < i) [1..k] = []" "filter (\<lambda>i. k < i) [k + 1..n] = [k + 1..n]" by (auto simp: filter_empty_conv filter_id_conv)
  ultimately show ?thesis by simp
qed (auto simp: filter_empty_conv)

lemma take_upto_int: "take k [a..b] = [a..min b (a + int k - 1)]"
proof (induction k arbitrary: a)
  case (Suc k)
  show ?case
  proof (cases "a \<le> b")
    case True
    then have "take (Suc k) [a..b] = a # [a + 1..min b (a + 1 + int k - 1)]" using Suc upto_rec1[of a b] by simp
    then show ?thesis using True upto_rec1[of a "min b (a + int (Suc k) - 1)"] by (simp add: algebra_simps)
  qed simp
qed simp

lemma log_sequence: "chat_inv d \<Longrightarrow> map mc_sequence (log_of conv (changes d)) = [1..last_change conv d]"
  using last_change_log[of d conv] by (simp add: chat_inv_def log_ok_def)

lemma changed_messages_ok:
  assumes "\<And>c. c \<in> set cs \<Longrightarrow> \<exists>m \<in> set (chat_rows d). mm_id m = mc_message c \<and> mm_owner m = w"
  shows "\<exists>ms. changed_messages w cs d = Inr ms \<and> map snd ms = map mc_sequence cs
    \<and> (\<forall>c \<in> set cs. \<exists>m \<in> set (chat_rows d). (m, mc_sequence c) \<in> set ms \<and> mm_id m = mc_message c)"
  using assms
proof (induction cs)
  case (Cons c cs)
  obtain m where m: "tbl_get (\<lambda>m. mm_id m = mc_message c \<and> mm_owner m = w) (chat_rows d) = Some m" 
    using Cons.prems[of c] tbl_get_ex[of _ "chat_rows d" "\<lambda>m. mm_id m = mc_message c \<and> mm_owner m = w"] by auto
  obtain ms where ms: "changed_messages w cs d = Inr ms" "map snd ms = map mc_sequence cs"
    "\<forall>c \<in> set cs. \<exists>m \<in> set (chat_rows d). (m, mc_sequence c) \<in> set ms \<and> mm_id m = mc_message c" using Cons by auto
  have "m \<in> set (chat_rows d)" "mm_id m = mc_message c" using tbl_get_Some_iff[OF m] by simp_all
  then show ?case using m ms by auto
qed simp

lemma log_messages:
  assumes inv: "chat_inv d" and own: "owns d w conv" and c: "c \<in> set (log_of conv (changes d))"
  shows "\<exists>m \<in> set (chat_rows d). mm_id m = mc_message c \<and> mm_owner m = w"
proof -
  have c': "c \<in> set (changes d)" "mc_conversation c = conv" using c by (simp_all add: log_of_def)
  then obtain m where m: "m \<in> set (chat_rows d)" "mm_id m = mc_message c" "mm_conversation m = conv" using inv unfolding chat_inv_def by blast
  then have "mm_owner m = w" using inv_owns[OF inv m(1)] own inv cvk.uniq_same unfolding owns_def chat_inv_def by metis
  then show ?thesis using m by blast
qed

lemma replay_page_ok:
  assumes inv: "chat_inv d" and own: "owns d w conv" and cur: "0 \<le> cursor" and lim: "1 \<le> limit" "limit \<le> MAX_MAGI_HISTORY_MESSAGES"
  defines "n \<equiv> last_change conv d"
  shows "\<exists>p. replay w conv cursor limit d = Inr p \<and> rp_latest p = n \<and> (rp_more p \<longleftrightarrow> cursor + int limit < n)
    \<and> map snd (rp_messages p) = [cursor + 1..min n (cursor + int limit)] \<and> (rp_more p \<longrightarrow> rp_next p = cursor + int limit)
    \<and> (\<forall>c \<in> set (log_of conv (changes d)). cursor < mc_sequence c \<and> mc_sequence c \<le> cursor + int limit
         \<longrightarrow> (\<exists>m \<in> set (chat_rows d). (m, mc_sequence c) \<in> set (rp_messages p) \<and> mm_id m = mc_message c))"
proof -
  define L where "L = filter (\<lambda>c. cursor < mc_sequence c) (log_of conv (changes d))"
  have "map mc_sequence L = filter (\<lambda>i. cursor < i) (map mc_sequence (log_of conv (changes d)))" by (simp add: L_def filter_map comp_def)
  then have seq: "map mc_sequence L = [cursor + 1..n]" using log_sequence[OF inv] filter_upto[OF cur] by (simp add: n_def)
  then have sorted: "sort_key mc_sequence L = L" by (simp add: sort_key_id_if_sorted)
  have len: "length L = nat (n - cursor)" using arg_cong[OF seq, of length] by simp
  have chosen: "map mc_sequence (take limit L) = [cursor + 1..min n (cursor + int limit)]" using seq by (simp add: take_map[symmetric] take_upto_int)
  have rows: "\<exists>m \<in> set (chat_rows d). mm_id m = mc_message c \<and> mm_owner m = w" if "c \<in> set (take limit L)" for c
    using in_set_takeD[OF that] log_messages[OF inv own, of c] by (simp add: L_def)
  obtain ms where ms: "changed_messages w (take limit L) d = Inr ms" "map snd ms = map mc_sequence (take limit L)"
    "\<forall>c \<in> set (take limit L). \<exists>m \<in> set (chat_rows d). (m, mc_sequence c) \<in> set ms \<and> mm_id m = mc_message c"
    using changed_messages_ok[OF rows] by blast
  obtain x where x: "tbl_get (\<lambda>c. cv_id c = conv \<and> cv_owner c = w) (conversations d) = Some x"
    using own tbl_get_ex[of _ "conversations d" "\<lambda>c. cv_id c = conv \<and> cv_owner c = w"] unfolding owns_def by blast
  have latest: "foldr max (map mc_sequence (log_of conv (changes d))) 0 = n" by (simp add: n_def last_change_def log_of_def)
  have r: "replay w conv cursor limit d = Inr \<lparr>rp_messages = ms, rp_next = (if take limit L = [] then cursor else mc_sequence (last (take limit L))),
       rp_latest = n, rp_more = (limit < length L)\<rparr>"
    using cur lim x sorted ms(1) latest by (simp add: replay_log Let_def L_def[symmetric] min_absorb1)
  have next_page: "mc_sequence (last (take limit L)) = cursor + int limit" "take limit L \<noteq> []" if "limit < length L"
  proof -
    show ne: "take limit L \<noteq> []" using that lim by auto
    have "mc_sequence (last (take limit L)) = last (map mc_sequence (take limit L))" using ne by (simp add: last_map)
    also have "\<dots> = cursor + int limit" unfolding chosen using that len lim upto_rec2[of "cursor + 1" "cursor + int limit"] by simp
    finally show "mc_sequence (last (take limit L)) = cursor + int limit" .
  qed
  have early: "c \<in> set (take limit L)" if c: "c \<in> set (log_of conv (changes d))" "cursor < mc_sequence c" "mc_sequence c \<le> cursor + int limit" for c
  proof -
    have "c \<in> set L" using c by (simp add: L_def)
    then obtain i where i: "i < length L" "L ! i = c" by (auto simp: in_set_conv_nth)
    have "mc_sequence c = [cursor + 1..n] ! i" using i seq by (metis nth_map)
    then have "mc_sequence c = cursor + 1 + int i" using i len by simp
    then have "i < limit" using c(3) by simp
    then show ?thesis using i by (auto simp: in_set_conv_nth)
  qed
  show ?thesis using r len next_page ms(2,3) chosen early by auto
qed

lemma drain_ok:
  assumes inv: "chat_inv d" and own: "owns d w conv" and lim: "1 \<le> limit" "limit \<le> MAX_MAGI_HISTORY_MESSAGES"
  shows "0 \<le> cursor \<Longrightarrow> cursor \<le> last_change conv d \<Longrightarrow> last_change conv d - cursor < int k \<Longrightarrow> \<exists>ms. drain k w conv cursor limit d = Some ms
    \<and> map snd ms = [cursor + 1..last_change conv d]
    \<and> (\<forall>c \<in> set (log_of conv (changes d)). cursor < mc_sequence c \<longrightarrow> (\<exists>m \<in> set (chat_rows d). (m, mc_sequence c) \<in> set ms \<and> mm_id m = mc_message c))"
proof (induction k arbitrary: cursor)
  case 0
  then show ?case by simp
next
  case (Suc k)
  let ?n = "last_change conv d"
  have le: "mc_sequence c \<le> ?n" if "c \<in> set (log_of conv (changes d))" for c
    using that log_sequence[OF inv, of conv] by (metis atLeastAtMost_iff image_eqI list.set_map set_upto)
  obtain p where p: "replay w conv cursor limit d = Inr p" "rp_more p \<longleftrightarrow> cursor + int limit < ?n"
      "map snd (rp_messages p) = [cursor + 1..min ?n (cursor + int limit)]" "rp_more p \<longrightarrow> rp_next p = cursor + int limit"
      "\<forall>c \<in> set (log_of conv (changes d)). cursor < mc_sequence c \<and> mc_sequence c \<le> cursor + int limit
         \<longrightarrow> (\<exists>m \<in> set (chat_rows d). (m, mc_sequence c) \<in> set (rp_messages p) \<and> mm_id m = mc_message c)"
    using replay_page_ok[OF inv own Suc.prems(1) lim] by blast
  show ?case
  proof (cases "rp_more p")
    case True
    then have more: "cursor + int limit < ?n" "rp_next p = cursor + int limit" using p by simp_all
    obtain ms where ms: "drain k w conv (cursor + int limit) limit d = Some ms" "map snd ms = [cursor + int limit + 1..?n]"
      "\<forall>c \<in> set (log_of conv (changes d)). cursor + int limit < mc_sequence c \<longrightarrow> (\<exists>m \<in> set (chat_rows d). (m, mc_sequence c) \<in> set ms \<and> mm_id m = mc_message c)"
      using Suc.IH[of "cursor + int limit"] Suc.prems lim more by auto
    have "drain (Suc k) w conv cursor limit d = Some (rp_messages p @ ms)" using p(1) True more ms(1) by simp
    moreover have "map snd (rp_messages p @ ms) = [cursor + 1..?n]"
      using p(3) ms(2) more lim upto_split2[of "cursor + 1" "cursor + int limit" ?n] by (simp add: min_def)
    moreover have "\<exists>m \<in> set (chat_rows d). (m, mc_sequence c) \<in> set (rp_messages p @ ms) \<and> mm_id m = mc_message c"
      if "c \<in> set (log_of conv (changes d))" "cursor < mc_sequence c" for c
      using that p(5) ms(3) by (cases "mc_sequence c \<le> cursor + int limit") (force, force)
    ultimately show ?thesis by blast
  next
    case False
    then have stop: "?n \<le> cursor + int limit" using p(2) by simp
    then have "map snd (rp_messages p) = [cursor + 1..?n]" using p(3) by (simp add: min_def)
    moreover have "\<exists>m \<in> set (chat_rows d). (m, mc_sequence c) \<in> set (rp_messages p) \<and> mm_id m = mc_message c"
      if "c \<in> set (log_of conv (changes d))" "cursor < mc_sequence c" for c using that p(5) le[of c] stop by force
    ultimately show ?thesis using p(1) False by simp
  qed
qed

lemma run_owns: "chat_inv d \<Longrightarrow> owns d w conv \<Longrightarrow> owns (run_ops exec_chat ps d) w conv"
proof (induction ps arbitrary: d)
  case (Cons p ps)
  have "chat_inv (commit d (exec_chat p d)) \<and> owns (commit d (exec_chat p d)) w conv"
  proof (cases "exec_chat p d")
    case (Inr r)
    then obtain d1 where d1: "exec_chat p d = Inr (d1, ())" by (cases r) auto
    then have "wrote (op_owners p) d d1" using exec_chat_wrote Cons.prems(1) by blast
    then show ?thesis using d1 wrote_inv wrote_owns Cons.prems by fastforce
  qed (simp add: Cons.prems)
  then show ?case using Cons.IH by simp
qed simp

lemma later_sequence:
  assumes "chat_inv d" and "chat_inv d'" and cs: "changes d' = changes d @ cs" and c: "c \<in> set cs" "mc_conversation c = conv"
  shows "last_change conv d < mc_sequence c"
proof -
  let ?n = "last_change conv d" and ?n' = "last_change conv d'"
  have old: "map mc_sequence (log_of conv (changes d)) = [1..?n]" using log_sequence[OF assms(1)] .
  have len: "0 \<le> ?n" using last_change_log[of d conv] assms(1) by (simp add: chat_inv_def)
  have "[1..?n] @ map mc_sequence (log_of conv cs) = [1..?n']"
    using log_sequence[OF assms(2), of conv] old by (simp add: cs log_of_def)
  then have "map mc_sequence (log_of conv cs) = drop (nat ?n) [1..?n']" by (metis append_eq_conv_conj length_upto add_diff_cancel_right' diff_add_cancel)
  moreover have "distinct ([1..?n] @ map mc_sequence (log_of conv cs))" using \<open>[1..?n] @ _ = _\<close> by simp
  moreover have "mc_sequence c \<in> set (map mc_sequence (log_of conv cs))" using c by (auto simp: log_of_def)
  ultimately have "mc_sequence c \<notin> {1..?n}" "mc_sequence c \<in> set [1..?n']" by (auto dest: in_set_dropD)
  then show ?thesis by auto
qed

text \<open>C0. A client catches up by replaying. Take a conversation as it was when its latest change was \<open>last_change\<close>, and any
  operations after that: reading replay pages of any legal size from that cursor until there are no more ends, after at most
  as many pages as there were changes and one, delivers each later change exactly once and in order, and delivers the current
  row of every message of the conversation that is new or different.\<close>

theorem replay_catches_up:
  assumes inv: "chat_inv d" and own: "owns d w conv" and d': "d' = run_ops exec_chat ps d" and lim: "1 \<le> limit" "limit \<le> MAX_MAGI_HISTORY_MESSAGES"
  shows "\<exists>ms. drain (nat (last_change conv d' - last_change conv d) + 1) w conv (last_change conv d) limit d' = Some ms
    \<and> map snd ms = [last_change conv d + 1..last_change conv d']
    \<and> (\<forall>m \<in> set (chat_rows d'). mm_conversation m = conv \<longrightarrow> m \<in> set (chat_rows d) \<or> m \<in> fst ` set ms)"
proof -
  have inv': "chat_inv d'" unfolding d' by (rule chat_run_inv[OF inv])
  have "chat_after d d'" unfolding d' by (rule chats.run_older[OF inv]) (simp add: list_all_iff)
  then obtain cs where cs: "changes d' = changes d @ cs" and rows: "\<And>m. m \<in> set (chat_rows d') \<Longrightarrow> m \<in> set (chat_rows d)
       \<or> (\<exists>c \<in> set cs. mc_conversation c = mm_conversation m \<and> mc_message c = mm_id m \<and> mc_revision c = mm_revision m)" by (rule chat_afterD) blast
  have own': "owns d' w conv" using run_owns[OF inv own] d' by simp
  have k: "0 \<le> last_change conv d" using inv last_change_log[of d conv] by (simp add: chat_inv_def)
  have mono: "last_change conv d \<le> last_change conv d'"
    using inv inv' last_change_log[of d conv] last_change_log[of d' conv] by (simp add: chat_inv_def cs log_of_def)
  then have enough: "last_change conv d' - last_change conv d < int (nat (last_change conv d' - last_change conv d) + 1)" by simp
  obtain ms where ms: "drain (nat (last_change conv d' - last_change conv d) + 1) w conv (last_change conv d) limit d' = Some ms"
      "map snd ms = [last_change conv d + 1..last_change conv d']"
      "\<forall>c \<in> set (log_of conv (changes d')). last_change conv d < mc_sequence c \<longrightarrow> (\<exists>m \<in> set (chat_rows d'). (m, mc_sequence c) \<in> set ms \<and> mm_id m = mc_message c)"
    using drain_ok[OF inv' own' lim k mono enough] by blast
  have "m \<in> set (chat_rows d) \<or> m \<in> fst ` set ms" if m: "m \<in> set (chat_rows d')" "mm_conversation m = conv" for m
  proof (cases "m \<in> set (chat_rows d)")
    case False
    then obtain c where c: "c \<in> set cs" "mc_conversation c = conv" "mc_message c = mm_id m" using rows[OF m(1)] m(2) by auto
    then have log: "c \<in> set (log_of conv (changes d'))" unfolding cs by (simp add: log_of_def)
    have "last_change conv d < mc_sequence c" by (rule later_sequence[OF inv inv' cs c(1,2)])
    then obtain x where x: "x \<in> set (chat_rows d')" "(x, mc_sequence c) \<in> set ms" "mm_id x = mm_id m" using ms(3) log c(3) by auto
    have "x = m" using inv' x(1,3) m(1) keys_okD[of "chat_rows d'" m x] by (simp add: chat_inv_def mm_clash_def)
    then show ?thesis using x(2) by force
  qed simp
  then show ?thesis using ms(1,2) by blast
qed

theorem replay_catches_up_witness:
  "\<exists>ms. drain (nat (last_change ''c1'' (run_ops exec_chat [CRecover 8] sample_chat) - 2) + 1) ''w'' ''c1'' 2 1 (run_ops exec_chat [CRecover 8] sample_chat) = Some ms
     \<and> map snd ms = [3..last_change ''c1'' (run_ops exec_chat [CRecover 8] sample_chat)]"
proof -
  have "owns sample_chat ''w'' ''c1''" "last_change ''c1'' sample_chat = 2" by (simp_all add: owns_def last_change_def sample_chat_defs)
  then show ?thesis
    using replay_catches_up[OF sample_chat_inv _ refl, of "''w''" "''c1''" 1 "[CRecover 8]"] by (auto simp: MAX_MAGI_HISTORY_MESSAGES_def)
qed

end
