(* ===== verification/Model_Routing.thy ===== *)
theory Model_Routing
  imports Py_Values Complex_Main "HOL-Library.Char_ord" "HOL-Library.List_Lexorder" "HOL-Library.Product_Lexorder"
begin

text \<open>
  \<open>app/magi_routing.py\<close>: which model answers a turn and what it may cost. Routes are rows of a content-free ledger; a
  reservation charges the estimate, a settlement replaces the charge. The provider of an attempt, the ids, the clock and
  what other requests do to the ledger while the provider answers are given per attempt (\<open>world\<close>).

  A \<open>Decimal\<close> is a rational number. The configuration documents, the provider adapters and the rendering of the
  summary are not modelled.
\<close>

datatype route_category = DirectConversation | ReadOnlyInvestigation | Execution | DecisionResponse | HighImpactAction

record route_context =
  rc_owner :: string
  rc_category :: route_category
  rc_permission :: bool
  rc_confirmed :: bool
  rc_tokens :: int
  rc_tools :: bool
  rc_multimodal :: bool
  rc_provider :: "string option"
  rc_model :: "string option"

record model_usage =
  us_input :: int
  us_output :: int
  us_cached :: int

record candidate =
  md_id :: string
  md_provider :: string
  md_model :: string
  md_credential :: string
  md_base_url :: "string option"
  md_class :: string
  md_reasoning :: int
  md_context :: int
  md_tools :: bool
  md_multimodal :: bool
  md_reliability :: rat
  md_latency :: int
  md_input :: int
  md_output :: int
  md_cached :: int
  md_billing :: string
  md_plan :: "string option"
  md_credits :: "int option"
  md_enabled :: bool
  md_available :: bool
  md_safety :: int
  md_max_output :: int

record routing_policy =
  po_monthly :: int
  po_request :: int
  po_output :: int
  po_reliability :: rat
  po_retries :: nat
  po_fallback :: int

record model_error =
  me_code :: string
  me_retryable :: bool
  me_tools :: int
  me_uncertain :: bool

datatype route_state = RouteReserved | RouteSucceeded | RouteFailed

record model_route =
  mr_id :: string
  mr_owner :: string
  mr_request :: string
  mr_category :: route_category
  mr_provider :: string
  mr_model :: string
  mr_class :: string
  mr_ordinal :: nat
  mr_from :: "string option"
  mr_state :: route_state
  mr_estimate :: int
  mr_actual :: "int option"
  mr_charge :: int
  mr_input :: "int option"
  mr_output :: "int option"
  mr_error :: "string option"
  mr_created :: int
  mr_updated :: int

definition mr_sel :: "string \<Rightarrow> model_route \<Rightarrow> bool" where "mr_sel k r \<longleftrightarrow> mr_id r = k"

subsection \<open>Costs\<close>

definition estimated_cost :: "candidate \<Rightarrow> int \<Rightarrow> int \<Rightarrow> int" where
  "estimated_cost c input output = max 0 ((max 0 input * md_input c + max 0 output * md_output c + 999999) div 1000000)"

definition actual_cost :: "candidate \<Rightarrow> model_usage \<Rightarrow> int" where
  "actual_cost c u = max 0 ((max 0 (us_input u - us_cached u) * md_input c + us_cached u * md_cached c + us_output u * md_output c + 999999) div 1000000)"

text \<open>\<open>_month_start_ms\<close>: the first day of the month by the civil calendar of \<open>time.gmtime\<close>.\<close>

definition month_start :: "int \<Rightarrow> int" where
  "month_start now =
     (let day = now div 1000 div 86400;
          doe = (day + 719468) mod 146097;
          yoe = (doe - doe div 1460 + doe div 36524 - doe div 146096) div 365;
          doy = doe - (365 * yoe + yoe div 4 - yoe div 100);
          mp = (5 * doy + 2) div 153
      in (day - (doy - (153 * mp + 2) div 5)) * 86400 * 1000)"

subsection \<open>Classification\<close>

text \<open>The three patterns are searched between word boundaries, ignoring case: an alternative is a sequence of words with
  white space between them, or one literal with a separator.\<close>

definition word_char :: "char \<Rightarrow> bool" where
  "word_char c \<longleftrightarrow> py_alnum c \<or> c = CHR ''_''"

definition word_end :: "string \<Rightarrow> bool" where
  "word_end s \<longleftrightarrow> (case s of [] \<Rightarrow> True | c # _ \<Rightarrow> \<not> word_char c)"

fun words_at :: "string list \<Rightarrow> string \<Rightarrow> bool" where
  "words_at [] s \<longleftrightarrow> word_end s"
| "words_at [w] s \<longleftrightarrow> starts_with w s \<and> word_end (drop (length w) s)"
| "words_at (w # v # ws) s \<longleftrightarrow> starts_with w s
     \<and> (case drop (length w) s of [] \<Rightarrow> False | c # _ \<Rightarrow> is_space c) \<and> words_at (v # ws) (dropWhile is_space (drop (length w) s))"

fun search_words :: "string list list \<Rightarrow> bool \<Rightarrow> string \<Rightarrow> bool" where
  "search_words alts inside [] \<longleftrightarrow> False"
| "search_words alts inside (c # cs) \<longleftrightarrow> (\<not> inside \<and> list_ex (\<lambda>a. words_at a (c # cs)) alts) \<or> search_words alts (word_char c) cs"

definition HIGH_IMPACT :: "string list list" where
  "HIGH_IMPACT = [[''deploy''], [''deployment''], [''production''], [''delete''], [''destroy''], [''drop'', ''database''], [''drop'', ''the'', ''database''],
     [''rotate'', ''key''], [''rotate'', ''keys''], [''rotate'', ''the'', ''key''], [''rotate'', ''the'', ''keys''], [''revoke''], [''purchase''], [''pay''], [''publish''],
     [''release'', ''to'', ''appstore''], [''release'', ''to'', ''app'', ''store''], [''release'', ''to'', ''the'', ''appstore''],
     [''release'', ''to'', ''the'', ''app'', ''store''], [''merge'', ''pull'', ''request''], [''merge'', ''pr''], [''merge'', ''the'', ''pull'', ''request''],
     [''merge'', ''the'', ''pr''], [''force-push''], [''force push'']]"

definition READ_ONLY :: "string list list" where
  "READ_ONLY = [[''investigate''], [''inspect''], [''analyse''], [''analyze''], [''audit''], [''review''], [''research''], [''diagnose''], [''explain'', ''why''],
     [''find'', ''the'', ''cause'']]"

definition EXECUTION :: "string list list" where
  "EXECUTION = [[''add''], [''build''], [''change''], [''create''], [''edit''], [''fix''], [''implement''], [''modify''], [''refactor''], [''remove''], [''rename''],
     [''test''], [''update''], [''write'']]"

definition requires_high_impact_confirmation :: "string \<Rightarrow> bool" where
  "requires_high_impact_confirmation s = search_words HIGH_IMPACT False (py_lower s)"

definition classify_turn :: "string \<Rightarrow> bool \<Rightarrow> bool \<Rightarrow> route_category" where
  "classify_turn s authorized bound =
     (if bound then DecisionResponse
      else if authorized \<and> requires_high_impact_confirmation s then HighImpactAction
      else if authorized \<and> search_words READ_ONLY False (py_lower s) then ReadOnlyInvestigation
      else if authorized \<and> search_words EXECUTION False (py_lower s) then Execution
      else DirectConversation)"

subsection \<open>The ledger\<close>

datatype route_fail = RouteError model_error | RouteIntegrity | RouteCancelled

definition refuse :: "string \<Rightarrow> model_error" where
  "refuse c = \<lparr>me_code = c, me_retryable = False, me_tools = 0, me_uncertain = False\<rparr>"

definition month_spent :: "string \<Rightarrow> int \<Rightarrow> model_route table \<Rightarrow> int" where
  "month_spent owner now t = tbl_sum (\<lambda>r. mr_owner r = owner \<and> month_start now \<le> mr_created r) mr_charge t"

definition credits_spent :: "candidate \<Rightarrow> model_route table \<Rightarrow> int" where
  "credits_spent c t = tbl_sum (\<lambda>r. mr_provider r = md_provider c \<and> mr_model r = md_model c) mr_charge t"

definition new_route :: "route_context \<Rightarrow> string \<Rightarrow> candidate \<Rightarrow> nat \<Rightarrow> int \<Rightarrow> string option \<Rightarrow> string \<Rightarrow> int \<Rightarrow> model_route" where
  "new_route x req c ordinal estimate from rid now = \<lparr>mr_id = rid, mr_owner = rc_owner x, mr_request = req, mr_category = rc_category x,
     mr_provider = md_provider c, mr_model = md_model c, mr_class = md_class c, mr_ordinal = ordinal, mr_from = from, mr_state = RouteReserved,
     mr_estimate = estimate, mr_actual = None, mr_charge = estimate, mr_input = None, mr_output = None, mr_error = None, mr_created = now, mr_updated = now\<rparr>"

definition route_reserve :: "route_context \<Rightarrow> string \<Rightarrow> candidate \<Rightarrow> nat \<Rightarrow> int \<Rightarrow> int \<Rightarrow> string option \<Rightarrow> string \<Rightarrow> int \<Rightarrow> model_route table
    \<Rightarrow> (route_fail, model_route table, unit) outcome" where
  "route_reserve x req c ordinal estimate monthly from rid now t =
     (if monthly < month_spent (rc_owner x) now t + estimate then Inl (RouteError (refuse ''model_budget_exhausted''))
      else if (case md_credits c of None \<Rightarrow> False | Some k \<Rightarrow> k < credits_spent c t + estimate) then Inl (RouteError (refuse ''model_credits_exhausted''))
      else if estimate < 0 \<or> tbl_ex (\<lambda>r. mr_id r = rid \<or> (mr_owner r = rc_owner x \<and> mr_request r = req \<and> mr_ordinal r = ordinal)) t then Inl RouteIntegrity
      else Inr (t @ [new_route x req c ordinal estimate from rid now], ()))"

definition settle_charge :: "int option \<Rightarrow> bool \<Rightarrow> int \<Rightarrow> int" where
  "settle_charge actual uncertain estimate = (case actual of Some a \<Rightarrow> a | None \<Rightarrow> if uncertain then estimate else 0)"

text \<open>A route that is not reserved is left alone. The columns refuse negative amounts.\<close>

definition route_settle :: "string \<Rightarrow> model_usage option \<Rightarrow> int option \<Rightarrow> model_error option \<Rightarrow> bool \<Rightarrow> int \<Rightarrow> model_route table
    \<Rightarrow> (route_fail, model_route table, unit) outcome" where
  "route_settle rid usage actual err uncertain now t =
     (case tbl_get (\<lambda>r. mr_id r = rid \<and> mr_state r = RouteReserved) t of
        None \<Rightarrow> Inr (t, ())
      | Some r \<Rightarrow>
          if (case actual of None \<Rightarrow> False | Some a \<Rightarrow> a < 0) \<or> (case usage of None \<Rightarrow> False | Some u \<Rightarrow> us_input u < 0 \<or> us_output u < 0) then Inl RouteIntegrity
          else Inr (tbl_upd (\<lambda>x. mr_id x = rid \<and> mr_state x = RouteReserved)
                 (\<lambda>x. x\<lparr>mr_state := (if err = None then RouteSucceeded else RouteFailed), mr_actual := actual,
                       mr_charge := settle_charge actual uncertain (mr_estimate r), mr_input := map_option us_input usage, mr_output := map_option us_output usage,
                       mr_error := map_option me_code err, mr_updated := now\<rparr>) t, ()))"

text \<open>\<open>Decimal(s) / Decimal(n)\<close> for \<open>0 \<le> s \<le> n\<close>, \<open>0 < n\<close>: the quotient rounded to 28 significant digits, half to even.\<close>

function dec_digits :: "int \<Rightarrow> int \<Rightarrow> nat \<Rightarrow> nat" where
  "dec_digits s n e = (if 0 < s \<and> s * 10 ^ e < n * 10 ^ 27 then dec_digits s n (e + 1) else e)"
  by auto
termination
proof (relation "measure (\<lambda>(s, n, e). nat (n * 10 ^ 27 - s * 10 ^ e))")
  fix s n :: int and e :: nat
  assume "0 < s \<and> s * 10 ^ e < n * 10 ^ 27"
  moreover have "(0 :: int) < 10 ^ e" by simp
  ultimately have "s * 10 ^ e < s * 10 ^ (e + 1)" by simp
  then show "((s, n, e + 1), s, n, e) \<in> measure (\<lambda>(s, n, e). nat (n * 10 ^ 27 - s * 10 ^ e))"
    using \<open>0 < s \<and> s * 10 ^ e < n * 10 ^ 27\<close> by simp
qed simp

declare dec_digits.simps [simp del]

definition dec_div :: "int \<Rightarrow> int \<Rightarrow> rat" where
  "dec_div s n = (let e = dec_digits s n 0 in of_int (round_half_even (s * 10 ^ e) n) / of_int (10 ^ e))"

definition route_reliability :: "candidate \<Rightarrow> model_route table \<Rightarrow> rat" where
  "route_reliability c t =
     (let ended = filter (\<lambda>r. mr_provider r = md_provider c \<and> mr_model r = md_model c \<and> mr_state r \<noteq> RouteReserved) t;
          total = length ended; successes = length (filter (\<lambda>r. mr_state r = RouteSucceeded) ended)
      in if total < 5 then md_reliability c else min (md_reliability c) (dec_div (int successes) (int total)))"

subsection \<open>Selection\<close>

fun reasoning_required :: "route_category \<Rightarrow> int" where
  "reasoning_required DirectConversation = 1"
| "reasoning_required ReadOnlyInvestigation = 2"
| "reasoning_required Execution = 3"
| "reasoning_required DecisionResponse = 3"
| "reasoning_required HighImpactAction = 4"

text \<open>What the estimate reads of a message: its text, the arguments of its tool calls and the sizes of its files.\<close>

record route_message =
  rm_content :: "string option"
  rm_arguments :: "string list"
  rm_files :: "nat list"

text \<open>The messages, the system context and the tools (description and compact parameters) of a request.\<close>

definition estimate_input_tokens :: "route_message list \<Rightarrow> string \<Rightarrow> (string \<times> string) list \<Rightarrow> int" where
  "estimate_input_tokens ms system tools =
     (let characters = length system
        + sum_list (map (\<lambda>m. (case rm_content m of None \<Rightarrow> 0 | Some s \<Rightarrow> length s) + sum_list (map length (rm_arguments m))
                            + sum_list (map (\<lambda>n. (n * 4 + 2) div 3) (rm_files m))) ms)
        + sum_list (map (\<lambda>(a, b). length a + length b) tools)
      in max 1 ((int characters + 3) div 4))"

text \<open>\<open>ready\<close>: the credential is present and the provider registered, or an instance is injected.\<close>

definition eligible_model :: "(candidate \<Rightarrow> bool) \<Rightarrow> routing_policy \<Rightarrow> route_context \<Rightarrow> int \<Rightarrow> model_route table \<Rightarrow> candidate \<Rightarrow> bool" where
  "eligible_model ready p x tokens t c \<longleftrightarrow>
     (let estimate = estimated_cost c tokens (po_output p) in
        md_enabled c \<and> md_available c \<and> ready c
      \<and> \<not> (md_reasoning c < reasoning_required (rc_category x) \<or> md_safety c < (if rc_category x = HighImpactAction then 4 else 1))
      \<and> tokens + po_output p \<le> md_context c
      \<and> \<not> (rc_tools x \<and> \<not> md_tools c) \<and> \<not> (rc_multimodal x \<and> \<not> md_multimodal c)
      \<and> \<not> route_reliability c t < po_reliability p
      \<and> (case md_credits c of None \<Rightarrow> True | Some k \<Rightarrow> estimate \<le> max 0 (k - credits_spent c t))
      \<and> estimate \<le> po_request p)"

definition model_rank :: "route_context \<Rightarrow> model_route table \<Rightarrow> candidate \<times> int \<Rightarrow> int \<times> int \<times> rat \<times> int \<times> string" where
  "model_rank x t ce = (case ce of (c, estimate) \<Rightarrow>
     (if md_billing c = ''subscription'' then 0 else estimate,
      if rc_model x = Some (md_model c) then 0 else if rc_provider x = Some (md_provider c) then 1 else 2,
      - route_reliability c t, md_latency c, md_id c))"

definition eligible_models :: "(candidate \<Rightarrow> bool) \<Rightarrow> routing_policy \<Rightarrow> candidate list \<Rightarrow> route_context \<Rightarrow> int \<Rightarrow> model_route table \<Rightarrow> (candidate \<times> int) list" where
  "eligible_models ready p cs x tokens t =
     (let sorted = sort_key (model_rank x t)
                     (map (\<lambda>c. (c, estimated_cost c tokens (po_output p))) (filter (eligible_model ready p x tokens t) cs))
      in case sorted of [] \<Rightarrow> []
         | (c, _) # _ \<Rightarrow> filter (\<lambda>i. md_class (fst i) = md_class c) sorted @ filter (\<lambda>i. md_class (fst i) \<noteq> md_class c) sorted)"

subsection \<open>Failover\<close>

datatype route_op =
    RReserve route_context string candidate nat int int "string option" string int
  | RSettle string "model_usage option" "int option" "model_error option" bool int

fun exec_route :: "route_op \<Rightarrow> model_route table \<Rightarrow> (route_fail, model_route table, unit) outcome" where
  "exec_route (RReserve x req c ordinal estimate monthly from rid now) t = route_reserve x req c ordinal estimate monthly from rid now t"
| "exec_route (RSettle rid usage actual err uncertain now) t = route_settle rid usage actual err uncertain now t"

text \<open>The provider's answer: a result with its reported usage, a classified failure, any other exception, or the
  cancellation of the task that awaits it, which no handler catches.\<close>

datatype 'r provider_reply = Answer 'r "model_usage option" | Failure model_error | Crash | TaskCancelled

text \<open>What attempt number \<open>n\<close> meets: the id drawn for it, the clock when it is reserved and settled, the ledger operations of
  other requests while the provider answers, and the answer.\<close>

record 'r world =
  wd_id :: string
  wd_now :: int
  wd_meanwhile :: "route_op list"
  wd_reply :: "'r provider_reply"
  wd_later :: int

record loop =
  lp_routes :: "model_route table"
  lp_ordinal :: nat
  lp_from :: "string option"
  lp_last :: "model_error option"

definition crash_error :: model_error where
  "crash_error = \<lparr>me_code = ''provider_failure'', me_retryable = True, me_tools = 0, me_uncertain = True\<rparr>"

text \<open>How the handling of an attempt goes on: the request ends, the model is asked again, or the next one is.\<close>

datatype 'r verdict = Ended "route_fail + 'r" | AskAgain | NextModel

definition retry_forbidden :: "routing_policy \<Rightarrow> int \<Rightarrow> model_error \<Rightarrow> bool" where
  "retry_forbidden p estimate e \<longleftrightarrow> \<not> me_retryable e \<or> me_tools e \<noteq> 0 \<or> (me_uncertain e \<and> po_fallback p < estimate)"

text \<open>The settlement of an answered attempt; if the ledger refuses it, its exception ends the request.\<close>

definition settle_reply :: "candidate \<Rightarrow> 'r world \<Rightarrow> model_route table \<Rightarrow> (route_fail, model_route table, unit) outcome" where
  "settle_reply c v t =
     (case wd_reply v of
        Failure e \<Rightarrow> route_settle (wd_id v) None None (Some e) (me_uncertain e) (wd_later v) t
      | Crash \<Rightarrow> route_settle (wd_id v) None None (Some crash_error) True (wd_later v) t
      | Answer r usage \<Rightarrow> route_settle (wd_id v) usage (map_option (actual_cost c) usage) None (usage = None) (wd_later v) t
      | TaskCancelled \<Rightarrow> Inl RouteCancelled)"

text \<open>After the settlement; \<open>left\<close> says whether attempts on this model are left.\<close>

definition after_reply :: "routing_policy \<Rightarrow> candidate \<Rightarrow> int \<Rightarrow> bool \<Rightarrow> 'r provider_reply \<Rightarrow> loop \<Rightarrow> loop \<times> 'r verdict" where
  "after_reply p c estimate left reply s =
     (case reply of
        Failure e \<Rightarrow>
          (let s1 = s\<lparr>lp_last := Some e\<rparr> in
           if retry_forbidden p estimate e then (s1, Ended (Inl (RouteError e)))
           else if left then (s1, AskAgain)
           else (s1\<lparr>lp_from := Some (md_id c)\<rparr>, NextModel))
      | Crash \<Rightarrow> (s, Ended (Inl (RouteError crash_error)))
      | Answer r _ \<Rightarrow> (s, Ended (Inr r))
      | TaskCancelled \<Rightarrow> (s, Ended (Inl RouteCancelled)))"

definition one_attempt :: "routing_policy \<Rightarrow> route_context \<Rightarrow> string \<Rightarrow> (nat \<Rightarrow> 'r world) \<Rightarrow> candidate \<Rightarrow> int \<Rightarrow> bool \<Rightarrow> loop \<Rightarrow> loop \<times> 'r verdict" where
  "one_attempt p x req w c estimate left s =
     (let n = lp_ordinal s + 1; v = w n; s1 = s\<lparr>lp_ordinal := n\<rparr> in
      case route_reserve x req c n estimate (po_monthly p) (lp_from s) (wd_id v) (wd_now v) (lp_routes s) of
        Inl (RouteError e) \<Rightarrow>
          if me_code e \<noteq> ''model_credits_exhausted'' then (s1, Ended (Inl (RouteError e)))
          else (s1\<lparr>lp_last := Some e, lp_from := Some (md_id c)\<rparr>, NextModel)
      | Inl e \<Rightarrow> (s1, Ended (Inl e))
      | Inr (t, _) \<Rightarrow>
          let t1 = run_ops exec_route (wd_meanwhile v) t in
          (case settle_reply c v t1 of
             Inl e \<Rightarrow> (s1\<lparr>lp_routes := t1\<rparr>, Ended (Inl e))
           | Inr (t2, _) \<Rightarrow> after_reply p c estimate left (wd_reply v) (s1\<lparr>lp_routes := t2\<rparr>)))"

text \<open>The attempts on one candidate, of which \<open>k\<close> are left.\<close>

fun attempt_model :: "routing_policy \<Rightarrow> route_context \<Rightarrow> string \<Rightarrow> (nat \<Rightarrow> 'r world) \<Rightarrow> candidate \<Rightarrow> int \<Rightarrow> nat \<Rightarrow> loop \<Rightarrow> loop \<times> (route_fail + 'r) option" where
  "attempt_model p x req w c estimate 0 s = (s, None)"
| "attempt_model p x req w c estimate (Suc k) s =
     (case one_attempt p x req w c estimate (0 < k) s of
        (s1, Ended r) \<Rightarrow> (s1, Some r)
      | (s1, AskAgain) \<Rightarrow> attempt_model p x req w c estimate k s1
      | (s1, NextModel) \<Rightarrow> (s1, None))"

text \<open>The candidates in order; \<open>first\<close> marks the head of the list.\<close>

fun attempt_models :: "routing_policy \<Rightarrow> route_context \<Rightarrow> string \<Rightarrow> (nat \<Rightarrow> 'r world) \<Rightarrow> (candidate \<times> int) list \<Rightarrow> bool \<Rightarrow> loop \<Rightarrow> loop \<times> (route_fail + 'r)" where
  "attempt_models p x req w [] first s =
     (s, Inl (RouteError (case lp_last s of None \<Rightarrow> refuse ''no_reliably_capable_model'' | Some e \<Rightarrow> e)))"
| "attempt_models p x req w ((c, estimate) # cs) first s =
     (if \<not> first \<and> po_fallback p < estimate \<and> \<not> rc_confirmed x then (s, Inl (RouteError (refuse ''route_fallback_confirmation_required'')))
      else case attempt_model p x req w c estimate (po_retries p + 1) s of
        (s1, Some r) \<Rightarrow> (s1, r)
      | (s1, None) \<Rightarrow> attempt_models p x req w cs False s1)"

definition route_refused :: "route_context \<Rightarrow> string option" where
  "route_refused x =
     (if rc_category x \<noteq> DirectConversation \<and> \<not> rc_permission x then Some ''route_permission_required''
      else if rc_category x = HighImpactAction \<and> \<not> rc_confirmed x then Some ''route_confirmation_required'' else None)"

definition complete_routed :: "(candidate \<Rightarrow> bool) \<Rightarrow> routing_policy \<Rightarrow> candidate list \<Rightarrow> route_context \<Rightarrow> string \<Rightarrow> route_message list \<Rightarrow> string
    \<Rightarrow> (string \<times> string) list \<Rightarrow> (nat \<Rightarrow> 'r world) \<Rightarrow> model_route table \<Rightarrow> loop \<times> (route_fail + 'r)" where
  "complete_routed ready p cs x req ms system tools w t =
     (let s = \<lparr>lp_routes = t, lp_ordinal = 0, lp_from = None, lp_last = None\<rparr> in
      case route_refused x of
        Some e \<Rightarrow> (s, Inl (RouteError (refuse e)))
      | None \<Rightarrow>
          let models = eligible_models ready p cs x (max (rc_tokens x) (estimate_input_tokens ms system tools)) t in
          if models = [] then (s, Inl (RouteError (refuse ''no_reliably_capable_model'')))
          else attempt_models p x req w models True s)"

end
