(* ===== verification/Routing_Properties.thy ===== *)
theory Routing_Properties
  imports Model_Routing
begin

text \<open>
  What the model router promises while other requests use the same ledger: monthly budgets hold up to what providers
  charge above their estimate, a request makes boundedly many attempts and settles them, it keeps to the policy, and it
  never asks a second time after a tool call.
\<close>

subsection \<open>The ledger\<close>

interpretation mrk: keyed_rows mr_id mr_sel by unfold_locales (simp add: mr_sel_def)

lemma day_of_month: "0 \<le> doy - (153 * ((5 * doy + 2) div 153) + 2) div (5 :: int)"
proof -
  have "153 * ((5 * doy + 2) div 153) \<le> 5 * doy + 2" using minus_mod_eq_mult_div[of "5 * doy + 2" 153] pos_mod_sign[of 153 "5 * doy + 2"] by linarith
  then have "(153 * ((5 * doy + 2) div 153) + 2) div 5 \<le> (5 * doy + 4) div 5" by (intro zdiv_mono1) simp_all
  then show ?thesis by simp
qed

lemma month_start_le: "month_start now \<le> now"
proof -
  define day where "day = now div 1000 div 86400"
  define doe where "doe = (day + 719468) mod 146097"
  define doy where "doy = doe - (365 * ((doe - doe div 1460 + doe div 36524 - doe div 146096) div 365)
      + (doe - doe div 1460 + doe div 36524 - doe div 146096) div 365 div 4 - (doe - doe div 1460 + doe div 36524 - doe div 146096) div 365 div 100)"
  define k where "k = doy - (153 * ((5 * doy + 2) div 153) + 2) div 5"
  have "month_start now = (day - k) * 86400 * 1000" unfolding month_start_def Let_def k_def doy_def doe_def day_def by (rule refl)
  moreover have "0 \<le> k" unfolding k_def by (rule day_of_month)
  moreover have "day * 86400 * 1000 \<le> now"
    using minus_mod_eq_mult_div[of now 1000] pos_mod_sign[of 1000 now] minus_mod_eq_mult_div[of "now div 1000" 86400] pos_mod_sign[of 86400 "now div 1000"]
    unfolding day_def by linarith
  moreover have "(day - k) * 86400 * 1000 \<le> day * 86400 * 1000" using \<open>0 \<le> k\<close> by simp
  ultimately show ?thesis by (simp only: order_trans)
qed

definition of_month :: "string \<Rightarrow> int \<Rightarrow> model_route \<Rightarrow> bool" where
  "of_month owner m r \<longleftrightarrow> mr_owner r = owner \<and> month_start (mr_created r) = m"

definition routes_ok :: "int \<Rightarrow> model_route table \<Rightarrow> bool" where
  "routes_ok B t \<longleftrightarrow> mrk.uniq t \<and> (\<forall>r \<in> set t. 0 \<le> mr_estimate r \<and> 0 \<le> mr_charge r \<and> (mr_state r = RouteReserved \<longrightarrow> mr_charge r = mr_estimate r))
     \<and> (\<forall>owner m. tbl_sum (of_month owner m) (\<lambda>r. min (mr_charge r) (mr_estimate r)) t \<le> B)"

lemma tbl_sum_mono:
  assumes "\<And>r. r \<in> set t \<Longrightarrow> P r \<Longrightarrow> Q r \<and> v r \<le> w r" and "\<And>r. r \<in> set t \<Longrightarrow> Q r \<Longrightarrow> 0 \<le> w r"
  shows "tbl_sum P v t \<le> tbl_sum Q (w :: 'r \<Rightarrow> int) t"
  using assms
proof (induction t)
  case (Cons a t)
  have "tbl_sum P v t \<le> tbl_sum Q w t" using Cons by simp
  moreover have "(if P a then v a else 0) \<le> (if Q a then w a else 0)" using Cons.prems(1,2)[of a] by auto
  ultimately show ?case by simp
qed simp

lemma tbl_sum_upd_mono:
  assumes "\<And>r. r \<in> set t \<Longrightarrow> P r \<Longrightarrow> Q (f r) = Q r \<and> w (f r) \<le> w r"
  shows "tbl_sum Q w (tbl_upd P f t) \<le> tbl_sum Q (w :: 'r \<Rightarrow> int) t"
  using assms
proof (induction t)
  case (Cons a t)
  have "tbl_sum Q w (tbl_upd P f t) \<le> tbl_sum Q w t" using Cons by simp
  then show ?case using Cons.prems[of a] by auto
qed simp

lemma route_reserveD:
  assumes "route_reserve x req c n e monthly from rid now t = Inr (t', u)"
  shows "t' = t @ [new_route x req c n e from rid now]" "0 \<le> e" "month_spent (rc_owner x) now t + e \<le> monthly" "tbl_get (mr_sel rid) t = None"
  using assms by (auto simp: route_reserve_def tbl_ex_iff tbl_get_None_iff mr_sel_def split: if_splits)

definition settled_row :: "model_usage option \<Rightarrow> int option \<Rightarrow> model_error option \<Rightarrow> int \<Rightarrow> int \<Rightarrow> model_route \<Rightarrow> model_route" where
  "settled_row usage actual err charge now r = r\<lparr>mr_state := (if err = None then RouteSucceeded else RouteFailed), mr_actual := actual,
     mr_charge := charge, mr_input := map_option us_input usage, mr_output := map_option us_output usage, mr_error := map_option me_code err, mr_updated := now\<rparr>"

lemma route_settleD:
  assumes "route_settle rid usage actual err uncertain now t = Inr (t', u)"
  obtains "t' = t" "\<And>r. r \<in> set t \<Longrightarrow> mr_id r = rid \<Longrightarrow> mr_state r \<noteq> RouteReserved"
  | r where "r \<in> set t" "mr_id r = rid" "mr_state r = RouteReserved" "\<And>a. actual = Some a \<Longrightarrow> 0 \<le> a"
    "t' = tbl_upd (\<lambda>y. mr_id y = rid \<and> mr_state y = RouteReserved) (settled_row usage actual err (settle_charge actual uncertain (mr_estimate r)) now) t"
proof (cases "tbl_get (\<lambda>r. mr_id r = rid \<and> mr_state r = RouteReserved) t")
  case None
  then have "t' = t" using assms by (simp add: route_settle_def)
  moreover have "\<And>r. r \<in> set t \<Longrightarrow> mr_id r = rid \<Longrightarrow> mr_state r \<noteq> RouteReserved" using None unfolding tbl_get_None_iff by blast
  ultimately show thesis by (rule that(1))
next
  case (Some r)
  then have "t' = tbl_upd (\<lambda>y. mr_id y = rid \<and> mr_state y = RouteReserved) (settled_row usage actual err (settle_charge actual uncertain (mr_estimate r)) now) t"
    "\<And>a. actual = Some a \<Longrightarrow> 0 \<le> a" using assms 
    by (auto simp: route_settle_def settled_row_def[abs_def] split: if_splits)
  then show thesis using that(2) tbl_get_Some_iff[OF Some] by blast
qed

lemma reserve_ok:
  assumes ok: "routes_ok B t" and r: "route_reserve x req c n e monthly from rid now t = Inr (t', u)" and "monthly \<le> B"
  shows "routes_ok B t'"
proof -
  let ?r = "new_route x req c n e from rid now"
  note d = route_reserveD[OF r]
  have rows: "\<And>r. r \<in> set t \<Longrightarrow> 0 \<le> mr_estimate r \<and> 0 \<le> mr_charge r" using ok by (simp add: routes_ok_def)
  have "tbl_sum (of_month owner m) (\<lambda>r. min (mr_charge r) (mr_estimate r)) t' \<le> B" for owner m
  proof (cases "of_month owner m ?r")
    case True
    then have own: "owner = rc_owner x" "m = month_start now" by (simp_all add: of_month_def new_route_def)
    have "tbl_sum (of_month owner m) (\<lambda>r. min (mr_charge r) (mr_estimate r)) t \<le> month_spent (rc_owner x) now t"
      unfolding month_spent_def own by (rule tbl_sum_mono) (use rows month_start_le in \<open>auto simp: of_month_def\<close>, metis month_start_le)
    then show ?thesis using d(1,3) True assms(3) by (simp add: tbl_sum_append new_route_def)
  next
    case False
    then show ?thesis using d(1) ok by (simp add: tbl_sum_append routes_ok_def)
  qed
  moreover have "mrk.uniq t'" using ok d(1,4) mrk.uniq_insert[of t ?r] by (simp add: routes_ok_def new_route_def)
  ultimately show ?thesis using rows d(1,2) ok by (auto simp: routes_ok_def new_route_def)
qed

lemma settle_ok:
  assumes ok: "routes_ok B t" and s: "route_settle rid usage actual err uncertain now t = Inr (t', u)"
  shows "routes_ok B t'"
  using s
proof (cases rule: route_settleD)
  case 1
  then show ?thesis using ok by simp
next
  case (2 r)
  let ?f = "settled_row usage actual err (settle_charge actual uncertain (mr_estimate r)) now"
  have only: "y = r" if "y \<in> set t" "mr_id y = rid" for y using that 2(1,2) ok mrk.uniq_same unfolding routes_ok_def by metis
  have r: "0 \<le> mr_estimate r" "mr_charge r = mr_estimate r" using ok 2(1,3) by (simp_all add: routes_ok_def)
  have charge: "0 \<le> settle_charge actual uncertain (mr_estimate r)" using 2(4) r(1) by (auto simp: settle_charge_def split: option.splits)
  have "tbl_sum (of_month owner m) (\<lambda>r. min (mr_charge r) (mr_estimate r)) t' \<le> tbl_sum (of_month owner m) (\<lambda>r. min (mr_charge r) (mr_estimate r)) t" for owner m
    unfolding 2(5) by (rule tbl_sum_upd_mono) (use only r in \<open>auto simp: settled_row_def of_month_def\<close>)
  then have "tbl_sum (of_month owner m) (\<lambda>r. min (mr_charge r) (mr_estimate r)) t' \<le> B" for owner m
    using ok order_trans unfolding routes_ok_def by blast
  moreover have "mrk.uniq t'" unfolding 2(5) using ok by (intro mrk.uniq_upd) (auto simp: routes_ok_def settled_row_def)
  moreover have "0 \<le> mr_estimate y \<and> 0 \<le> mr_charge y \<and> (mr_state y = RouteReserved \<longrightarrow> mr_charge y = mr_estimate y)" if "y \<in> set t'" for y
    using that unfolding 2(5) by (rule tbl_updE) (use ok only charge r in \<open>auto simp: routes_ok_def settled_row_def split: if_splits\<close>)
  ultimately show ?thesis by (simp add: routes_ok_def)
qed

definition budgeted :: "int \<Rightarrow> route_op \<Rightarrow> bool" where
  "budgeted B p \<longleftrightarrow> (case p of RReserve _ _ _ _ _ monthly _ _ _ \<Rightarrow> monthly \<le> B | RSettle _ _ _ _ _ _ \<Rightarrow> True)"

interpretation routes: transactional exec_route "routes_ok B" "budgeted B" for B
proof unfold_locales
  fix t t' :: "model_route table" and p and u :: unit
  assume "routes_ok B t" "budgeted B p" "exec_route p t = Inr (t', u)"
  then show "routes_ok B t'" by (cases p) (auto simp: budgeted_def intro: reserve_ok settle_ok)
qed

subsection \<open>Invariants of a request\<close>

text \<open>What every write of a request and of its neighbours keeps, the request keeps.\<close>

lemma one_attempt_keeps:
  assumes J: "J (lp_routes s)"
    and reserve: "\<And>c n e from rid now t t'. J t \<Longrightarrow> route_reserve x req c n e (po_monthly p) from rid now t = Inr (t', ()) \<Longrightarrow> J t'"
    and settle: "\<And>rid usage actual err un now t t'. J t \<Longrightarrow> route_settle rid usage actual err un now t = Inr (t', ()) \<Longrightarrow> J t'"
    and others: "\<And>n t. J t \<Longrightarrow> J (run_ops exec_route (wd_meanwhile (w n)) t)"
  shows "J (lp_routes (fst (one_attempt p x req w c estimate m s)))"
proof -
  let ?n = "lp_ordinal s + 1"
  have frame: "lp_routes (fst (after_reply p c estimate m reply s')) = lp_routes s'" for reply :: "'a provider_reply" and s'
    by (auto simp: after_reply_def Let_def split: provider_reply.splits)
  show ?thesis
  proof (cases "route_reserve x req c ?n estimate (po_monthly p) (lp_from s) (wd_id (w ?n)) (wd_now (w ?n)) (lp_routes s)")
    case (Inl e)
    then show ?thesis using J by (cases e) (auto simp: one_attempt_def Let_def)
  next
    case (Inr r)
    then obtain t where t: "route_reserve x req c ?n estimate (po_monthly p) (lp_from s) (wd_id (w ?n)) (wd_now (w ?n)) (lp_routes s) = Inr (t, ())" by (cases r) auto
    let ?t = "run_ops exec_route (wd_meanwhile (w ?n)) t"
    have J1: "J ?t" by (rule others[OF reserve[OF J t]])
    have "J t2" if "settle_reply c (w ?n) ?t = Inr (t2, ())" for t2
      using that by (auto simp: settle_reply_def split: provider_reply.splits intro: settle[OF J1])
    then show ?thesis using t J1 frame by (auto simp: one_attempt_def Let_def split: sum.splits)
  qed
qed

text \<open>The rule of a request: \<open>J\<close> between attempts, \<open>F\<close> at the end, for attempts on the models \<open>P\<close> allows.\<close>

lemma attempt_model_rule:
  assumes step: "\<And>m s s' v. J s \<Longrightarrow> one_attempt p x req w c e m s = (s', v) \<Longrightarrow> (case v of Ended r \<Rightarrow> F s' r | _ \<Rightarrow> J s')"
  shows "J s \<Longrightarrow> attempt_model p x req w c e k s = (s', r) \<Longrightarrow> (case r of Some q \<Rightarrow> F s' q | None \<Rightarrow> J s')"
proof (induction k arbitrary: s)
  case (Suc k)
  obtain s1 v where o: "one_attempt p x req w c e (0 < k) s = (s1, v)" by (cases "one_attempt p x req w c e (0 < k) s")
  have "case v of Ended r \<Rightarrow> F s1 r | _ \<Rightarrow> J s1" by (rule step[OF Suc.prems(1) o])
  then show ?case using Suc.prems(2) Suc.IH o by (cases v) auto
qed auto

lemma attempt_models_rule:
  assumes step: "\<And>c e m s s' v. P c e \<Longrightarrow> J s \<Longrightarrow> one_attempt p x req w c e m s = (s', v) \<Longrightarrow> (case v of Ended r \<Rightarrow> F s' r | _ \<Rightarrow> J s')"
    and stop: "\<And>s e. J s \<Longrightarrow> F s (Inl (RouteError e))"
  shows "J s \<Longrightarrow> (\<And>c e. (c, e) \<in> set cs \<Longrightarrow> first \<and> (c, e) = hd cs \<or> e \<le> po_fallback p \<or> rc_confirmed x \<Longrightarrow> P c e)
    \<Longrightarrow> attempt_models p x req w cs first s = (s', r) \<Longrightarrow> F s' r"
proof (induction cs arbitrary: first s)
  case Nil
  then show ?case using stop by auto
next
  case (Cons ce cs)
  obtain c e where ce: "ce = (c, e)" by (cases ce)
  show ?case
  proof (cases "\<not> first \<and> po_fallback p < e \<and> \<not> rc_confirmed x")
    case True
    then have "s' = s" "r = Inl (RouteError (refuse ''route_fallback_confirmation_required''))" using Cons.prems(3) ce by simp_all
    then show ?thesis using Cons.prems(1) stop by blast
  next
    case False
    then have P: "P c e" using Cons.prems(2)[of c e] ce by auto
    obtain s1 q where m: "attempt_model p x req w c e (po_retries p + 1) s = (s1, q)" by (cases "attempt_model p x req w c e (po_retries p + 1) s")
    have q: "case q of Some q \<Rightarrow> F s1 q | None \<Rightarrow> J s1" 
      by (rule attempt_model_rule[where J = J and F = F, OF _ Cons.prems(1) m]) (rule step[OF P])
    show ?thesis
    proof (cases q)
      case None
      then have "attempt_models p x req w cs False s1 = (s', r)" using Cons.prems(3) ce False m by (simp del: attempt_model.simps)
      then show ?thesis using Cons.IH[of s1 False] Cons.prems(2) q None by auto
    next
      case (Some y)
      then have "(s1, y) = (s', r)" using Cons.prems(3) ce False m by (simp del: attempt_model.simps)
      then show ?thesis using q Some by simp
    qed
  qed
qed

lemma complete_routed_rule:
  fixes s0 :: loop and t :: "model_route table"
  defines "s0 \<equiv> \<lparr>lp_routes = t, lp_ordinal = 0, lp_from = None, lp_last = None\<rparr>"
  assumes step: "\<And>c e m s s' v. P c e \<Longrightarrow> J s \<Longrightarrow> one_attempt p x req w c e m s = (s', v) \<Longrightarrow> (case v of Ended r \<Rightarrow> F s' r | _ \<Rightarrow> J s')"
    and stop: "\<And>s e. J s \<Longrightarrow> F s (Inl (RouteError e))" and start: "J s0"
    and P: "\<And>c e models. models = eligible_models ready p cs x (max (rc_tokens x) (estimate_input_tokens ms system tools)) t \<Longrightarrow> route_refused x = None
      \<Longrightarrow> (c, e) \<in> set models \<Longrightarrow> (c, e) = hd models \<or> e \<le> po_fallback p \<or> rc_confirmed x \<Longrightarrow> P c e"
    and r: "complete_routed ready p cs x req ms system tools w t = (s', r)"
  shows "F s' r"
proof (cases "route_refused x")
  case None
  show ?thesis
  proof (cases "eligible_models ready p cs x (max (rc_tokens x) (estimate_input_tokens ms system tools)) t = []")
    case True
    then show ?thesis using r None stop[OF start] by (auto simp: complete_routed_def s0_def)
  next
    case False
    then have run: "attempt_models p x req w (eligible_models ready p cs x (max (rc_tokens x) (estimate_input_tokens ms system tools)) t) True s0 = (s', r)"
      using r None by (simp add: complete_routed_def s0_def)
    show ?thesis
    proof (rule attempt_models_rule[where P = P and J = J and F = F, OF _ _ start _ run])
      show "case v of Ended r \<Rightarrow> F s' r | _ \<Rightarrow> J s'" if "P c e" "J s" "one_attempt p x req w c e m s = (s', v)" for c e m s s' v using that by (rule step)
    qed (use stop P[OF refl None] in blast)+
  qed
next
  case (Some e)
  then show ?thesis using r stop[OF start] by (auto simp: complete_routed_def s0_def)
qed

subsection \<open>Sample\<close>

definition sample_policy :: routing_policy where
  "sample_policy = \<lparr>po_monthly = 100000000, po_request = 2000000, po_output = 4096, po_reliability = 9 / 10, po_retries = 1, po_fallback = 50000\<rparr>"

definition sample_model :: candidate where
  "sample_model = \<lparr>md_id = ''openai:gpt-4.1-mini'', md_provider = ''openai'', md_model = ''gpt-4.1-mini'', md_credential = ''OPENAI_API_KEY'', md_base_url = None, md_class = ''general-tools'',
     md_reasoning = 4, md_context = 1048576, md_tools = True, md_multimodal = True, md_reliability = 99 / 100, md_latency = 1800,
     md_input = 400000, md_output = 1600000, md_cached = 100000, md_billing = ''metered'', md_plan = None, md_credits = None, md_enabled = True, md_available = True, md_safety = 4, md_max_output = 4096\<rparr>"

definition sample_turn :: route_context where
  "sample_turn = \<lparr>rc_owner = ''w'', rc_category = DirectConversation, rc_permission = False, rc_confirmed = False, rc_tokens = 0, rc_tools = False,
     rc_multimodal = False, rc_provider = None, rc_model = None\<rparr>"

definition sample_world :: "nat \<Rightarrow> unit world" where
  "sample_world n = \<lparr>wd_id = replicate n CHR ''r'', wd_now = 1000, wd_meanwhile = [],
     wd_reply = (if n = 1 then Failure \<lparr>me_code = ''provider_timeout'', me_retryable = True, me_tools = 0, me_uncertain = True\<rparr>
                 else Answer () (Some \<lparr>us_input = 12, us_output = 40, us_cached = 0\<rparr>)), wd_later = 2000\<rparr>"

abbreviation sample_call :: "loop \<times> (route_fail + unit)" where
  "sample_call \<equiv> complete_routed (\<lambda>_. True) sample_policy [sample_model] sample_turn ''req'' [] ''system'' [] sample_world []"

lemmas sample_route_defs = sample_policy_def sample_model_def sample_turn_def sample_world_def

lemma sample_eligible: "eligible_models (\<lambda>_. True) sample_policy [sample_model] sample_turn 2 [] = [(sample_model, 6555)]"
  by (simp add: eligible_models_def eligible_model_def route_reliability_def estimated_cost_def credits_spent_def sample_route_defs)

lemma sample_called: "snd sample_call = Inr () \<and> lp_ordinal (fst sample_call) = 2"
  by code_simp

subsection \<open>Budgets\<close>

text \<open>C0. Monthly budgets hold under concurrency. Take a consistent ledger, a routed request whose policy allows at most \<open>B\<close> a month,
  and any operations of other requests under budgets of at most \<open>B\<close> while the providers of its attempts answer. Whatever the
  providers reply, afterwards the charges of any owner in any month exceed \<open>B\<close> at most by what providers reported above the
  estimates.\<close>

theorem monthly_budget_holds:
  assumes ok: "routes_ok B t" and "po_monthly p \<le> B" and others: "\<And>n. list_all (budgeted B) (wd_meanwhile (w n))"
    and t': "t' = lp_routes (fst (complete_routed ready p cs x req ms system tools w t))"
  shows "tbl_sum (of_month owner m) mr_charge t' \<le> B + tbl_sum (of_month owner m) (\<lambda>r. max 0 (mr_charge r - mr_estimate r)) t'"
proof -
  let ?J = "\<lambda>s. routes_ok B (lp_routes s)"
  obtain s' q where r: "complete_routed ready p cs x req ms system tools w t = (s', q)" by (cases "complete_routed ready p cs x req ms system tools w t")
  have step: "?J (fst (one_attempt p x req w c e m s))" if "?J s" for c e m s
    by (rule one_attempt_keeps[of "routes_ok B", OF that]) (use assms(2) others in \<open>auto intro: reserve_ok settle_ok routes.run_inv\<close>)
  have "?J s'"
  proof (rule complete_routed_rule[where P = "\<lambda>c e. True" and J = ?J and F = "\<lambda>s r. ?J s", OF _ _ _ _ r])
    show "case v of Ended r \<Rightarrow> ?J s' | _ \<Rightarrow> ?J s'" if "?J s" "one_attempt p x req w c e m s = (s', v)" for c e m s s' and v :: "'a verdict"
      using step[OF that(1), of c e m] that(2) by (cases v) simp_all
  qed (simp_all add: ok)
  then have "routes_ok B t'" using t' r by simp
  then have "tbl_sum (of_month owner m) (\<lambda>r. min (mr_charge r) (mr_estimate r)) t' \<le> B" by (simp add: routes_ok_def)
  moreover have "tbl_sum Q mr_charge s = tbl_sum Q (\<lambda>r. min (mr_charge r) (mr_estimate r)) s + tbl_sum Q (\<lambda>r. max 0 (mr_charge r - mr_estimate r)) s" for Q s
    by (induction s) auto
  from this[of "of_month owner m" t'] have "tbl_sum (of_month owner m) mr_charge t'
     = tbl_sum (of_month owner m) (\<lambda>r. min (mr_charge r) (mr_estimate r)) t' + tbl_sum (of_month owner m) (\<lambda>r. max 0 (mr_charge r - mr_estimate r)) t'" .
  ultimately show ?thesis by linarith
qed

theorem monthly_budget_holds_witness:
  "tbl_sum (of_month ''w'' 0) mr_charge (lp_routes (fst sample_call))
     \<le> 100000000 + tbl_sum (of_month ''w'' 0) (\<lambda>r. max 0 (mr_charge r - mr_estimate r)) (lp_routes (fst sample_call))"
  by (rule monthly_budget_holds[OF _ _ _ refl]) (simp_all add: routes_ok_def mrk.uniq_def sample_policy_def sample_world_def)

subsection \<open>The routes of a request\<close>

definition own_route :: "route_context \<Rightarrow> string \<Rightarrow> model_route \<Rightarrow> bool" where
  "own_route x req r \<longleftrightarrow> mr_owner r = rc_owner x \<and> mr_request r = req"

text \<open>Operations of other requests.\<close>

definition foreign :: "route_context \<Rightarrow> string \<Rightarrow> route_op \<Rightarrow> bool" where
  "foreign x req p \<longleftrightarrow> (case p of RReserve y rq _ _ _ _ _ _ _ \<Rightarrow> \<not> (rc_owner y = rc_owner x \<and> rq = req) | RSettle _ _ _ _ _ _ \<Rightarrow> True)"

definition route_ident :: "model_route \<Rightarrow> (string \<times> string \<times> string) \<times> (string \<times> string \<times> string) \<times> nat \<times> int" where
  "route_ident r = ((mr_id r, mr_owner r, mr_request r), (mr_provider r, mr_model r, mr_class r), mr_ordinal r, mr_estimate r)"

definition own_from :: "route_context \<Rightarrow> string \<Rightarrow> model_route table \<Rightarrow> model_route table \<Rightarrow> bool" where
  "own_from x req t t' \<longleftrightarrow> (\<forall>r' \<in> set t'. own_route x req r' \<longrightarrow>
     (\<exists>r \<in> set t. route_ident r' = route_ident r \<and> (mr_state r' = RouteReserved \<longrightarrow> mr_state r = RouteReserved)))"

lemma own_ident: "route_ident r' = route_ident r \<Longrightarrow> own_route x req r' \<longleftrightarrow> own_route x req r"
  by (simp add: route_ident_def own_route_def)

lemma own_from_refl: "own_from x req t t"
  by (auto simp: own_from_def)

lemma own_from_trans: "own_from x req t u \<Longrightarrow> own_from x req u v \<Longrightarrow> own_from x req t v"
  unfolding own_from_def by (metis own_ident)

lemma settle_own:
  assumes "route_settle rid usage actual err un now t = Inr (t', u)"
  shows "own_from x req t t'" "\<And>r. r \<in> set t' \<Longrightarrow> mr_id r = rid \<Longrightarrow> mr_state r \<noteq> RouteReserved"
proof -
  have ident: "route_ident (settled_row usage actual err ch now y) = route_ident y" for ch y by (simp add: route_ident_def settled_row_def)
  have ended: "mr_state (settled_row usage actual err ch now y) \<noteq> RouteReserved" for ch y by (simp add: settled_row_def)
  show "own_from x req t t'" using assms
  proof (cases rule: route_settleD)
    case 1
    then show ?thesis by (simp add: own_from_refl)
  next
    case (2 r)
    show ?thesis unfolding own_from_def 2(5) by (auto elim!: tbl_updE simp: ident ended)
  qed
  show "\<And>r. r \<in> set t' \<Longrightarrow> mr_id r = rid \<Longrightarrow> mr_state r \<noteq> RouteReserved" using assms
  proof (cases rule: route_settleD)
    case (2 r)
    then show "\<And>r. r \<in> set t' \<Longrightarrow> mr_id r = rid \<Longrightarrow> mr_state r \<noteq> RouteReserved" unfolding 2(5) by (auto elim!: tbl_updE simp: ended)
  qed blast
qed

lemma foreign_own: "exec_route q t = Inr (t', u) \<Longrightarrow> foreign x req q \<Longrightarrow> own_from x req t t'"
proof (cases q)
  case (RReserve y rq c n e monthly origin rid now)
  assume "exec_route q t = Inr (t', u)" "foreign x req q"
  then have "t' = t @ [new_route y rq c n e origin rid now]" "\<not> own_route x req (new_route y rq c n e origin rid now)"
    using RReserve route_reserveD(1) by (auto simp: foreign_def own_route_def new_route_def)
  then show ?thesis by (auto simp: own_from_def)
next
  case (RSettle rid usage actual err un now)
  assume "exec_route q t = Inr (t', u)" "foreign x req q"
  then show ?thesis using RSettle settle_own(1) by simp
qed

lemma foreign_run: "list_all (foreign x req) qs \<Longrightarrow> own_from x req t (run_ops exec_route qs t)"
proof (induction qs arbitrary: t)
  case (Cons q qs)
  have "own_from x req t (commit t (exec_route q t))"
    using foreign_own[of q t] Cons.prems own_from_refl by (cases "exec_route q t") auto
  then show ?case using Cons own_from_trans by fastforce
qed (simp add: own_from_refl)

text \<open>What an attempt does to the rows of its request.\<close>

lemma one_attempt_cases:
  assumes o: "one_attempt p x req w c e m s = (s', v)" and others: "\<And>n. list_all (foreign x req) (wd_meanwhile (w n))"
  defines "n \<equiv> Suc (lp_ordinal s)"
  obtains (refused) "lp_routes s' = lp_routes s" "lp_ordinal s' = n" "v \<noteq> AskAgain"
  | (reserved) r where "own_from x req (lp_routes s @ [r]) (lp_routes s')" "lp_ordinal s' = n" "own_route x req r" "mr_id r = wd_id (w n)" "mr_ordinal r = n"
      "mr_estimate r = e" "(mr_provider r, mr_model r, mr_class r) = (md_provider c, md_model c, md_class c)"
      "v \<in> {Ended (Inl RouteCancelled), Ended (Inl RouteIntegrity)} \<or> (\<forall>r' \<in> set (lp_routes s'). mr_id r' = wd_id (w n) \<longrightarrow> mr_state r' \<noteq> RouteReserved)"
      "(\<exists>q. v = Ended q) \<or> (\<exists>f. wd_reply (w n) = Failure f \<and> \<not> retry_forbidden p e f)"
proof (cases "route_reserve x req c n e (po_monthly p) (lp_from s) (wd_id (w n)) (wd_now (w n)) (lp_routes s)")
  case (Inl err)
  then show thesis using o refused by (cases err) (auto simp: one_attempt_def n_def[symmetric] Let_def split: if_splits)
next
  case (Inr u)
  then obtain t where t: "route_reserve x req c n e (po_monthly p) (lp_from s) (wd_id (w n)) (wd_now (w n)) (lp_routes s) = Inr (t, ())" by (cases u) auto
  let ?r = "new_route x req c n e (lp_from s) (wd_id (w n)) (wd_now (w n))" and ?t = "run_ops exec_route (wd_meanwhile (w n)) t"
  have from1: "own_from x req (lp_routes s @ [?r]) ?t" using foreign_run[OF others] route_reserveD(1)[OF t] by metis
  have r: "own_route x req ?r" "mr_id ?r = wd_id (w n)" "mr_ordinal ?r = n" "mr_estimate ?r = e"
    "(mr_provider ?r, mr_model ?r, mr_class ?r) = (md_provider c, md_model c, md_class c)" by (simp_all add: own_route_def new_route_def)
  show thesis
  proof (cases "settle_reply c (w n) ?t")
    case (Inl err)
    then have "err \<in> {RouteCancelled, RouteIntegrity}" by (auto simp: settle_reply_def route_settle_def split: provider_reply.splits option.splits if_splits)
    moreover have "s' = s\<lparr>lp_ordinal := n, lp_routes := ?t\<rparr>" "v = Ended (Inl err)" using o t Inl by (simp_all add: one_attempt_def n_def[symmetric] Let_def)
    ultimately show thesis using reserved[of ?r] from1 r by auto
  next
    case (Inr y)
    then obtain t2 where t2: "settle_reply c (w n) ?t = Inr (t2, ())" by (cases y) auto
    have settled: "own_from x req ?t t2" "\<forall>r' \<in> set t2. mr_id r' = wd_id (w n) \<longrightarrow> mr_state r' \<noteq> RouteReserved"
      using t2 by (auto simp: settle_reply_def split: provider_reply.splits dest: settle_own)
    have after: "(s', v) = after_reply p c e m (wd_reply (w n)) (s\<lparr>lp_ordinal := n, lp_routes := t2\<rparr>)"
      using o t t2 by (simp add: one_attempt_def n_def[symmetric] Let_def)
    then have "lp_routes s' = t2" "lp_ordinal s' = n" "(\<exists>q. v = Ended q) \<or> (\<exists>f. wd_reply (w n) = Failure f \<and> \<not> retry_forbidden p e f)"
      by (auto simp: after_reply_def Let_def split: provider_reply.splits if_splits)
    then show thesis using reserved[of ?r] own_from_trans[OF from1 settled(1)] settled(2) r by auto
  qed
qed

text \<open>What holds of the rows of a request between its attempts (\<open>ended\<close> is \<open>False\<close>) and at its end.\<close>

definition allowed :: "routing_policy \<Rightarrow> route_context \<Rightarrow> (candidate \<times> int) list \<Rightarrow> candidate \<Rightarrow> int \<Rightarrow> bool" where
  "allowed p x models c e \<longleftrightarrow> (c, e) \<in> set models \<and> ((c, e) = hd models \<or> e \<le> po_fallback p \<or> rc_confirmed x)"

definition asked_again_safely :: "routing_policy \<Rightarrow> (nat \<Rightarrow> 'r world) \<Rightarrow> model_route \<Rightarrow> bool" where
  "asked_again_safely p w r \<longleftrightarrow> (\<exists>f. wd_reply (w (mr_ordinal r)) = Failure f \<and> \<not> retry_forbidden p (mr_estimate r) f)"

definition row_ok :: "routing_policy \<Rightarrow> route_context \<Rightarrow> (candidate \<times> int) list \<Rightarrow> (nat \<Rightarrow> 'r world) \<Rightarrow> bool \<Rightarrow> nat \<Rightarrow> model_route \<Rightarrow> bool" where
  "row_ok p x models w ended n r \<longleftrightarrow> (\<exists>c e. allowed p x models c e \<and> mr_estimate r = e \<and> (mr_provider r, mr_model r, mr_class r) = (md_provider c, md_model c, md_class c))
     \<and> 0 < mr_ordinal r \<and> mr_ordinal r \<le> n \<and> (ended \<longrightarrow> mr_ordinal r < n \<longrightarrow> asked_again_safely p w r) \<and> (\<not> ended \<longrightarrow> asked_again_safely p w r)"

definition rows_ok :: "routing_policy \<Rightarrow> route_context \<Rightarrow> string \<Rightarrow> (candidate \<times> int) list \<Rightarrow> (nat \<Rightarrow> 'r world) \<Rightarrow> bool \<Rightarrow> loop \<Rightarrow> bool" where
  "rows_ok p x req models w ended s \<longleftrightarrow> (\<forall>r \<in> set (lp_routes s). own_route x req r \<longrightarrow> row_ok p x models w ended (lp_ordinal s) r)"

definition rows_settled :: "route_context \<Rightarrow> string \<Rightarrow> loop \<Rightarrow> bool" where
  "rows_settled x req s \<longleftrightarrow> (\<forall>r \<in> set (lp_routes s). own_route x req r \<longrightarrow> mr_state r \<noteq> RouteReserved)"

lemma row_ok_ident:
  assumes "route_ident r' = route_ident r"
  shows "row_ok p x models w ended n r' \<longleftrightarrow> row_ok p x models w ended n r"
proof -
  have "mr_estimate r' = mr_estimate r" "mr_provider r' = mr_provider r" "mr_model r' = mr_model r" "mr_class r' = mr_class r" "mr_ordinal r' = mr_ordinal r"
    using assms by (simp_all add: route_ident_def)
  then show ?thesis by (simp add: row_ok_def asked_again_safely_def)
qed

lemma one_attempt_rows:
  assumes P: "allowed p x models c e" and J: "rows_ok p x req models w False s" "rows_settled x req s"
    and o: "one_attempt p x req w c e m s = (s', v)" and others: "\<And>n. list_all (foreign x req) (wd_meanwhile (w n))"
  shows "rows_ok p x req models w (\<exists>q. v = Ended q) s'"
    "v \<in> {Ended (Inl RouteCancelled), Ended (Inl RouteIntegrity)} \<or> rows_settled x req s'"
proof -
  let ?n = "Suc (lp_ordinal s)"
  have old: "row_ok p x models w ended ?n r" if "r \<in> set (lp_routes s)" "own_route x req r" for r ended
    using J(1) that unfolding rows_ok_def row_ok_def by auto
  have both: "rows_ok p x req models w (\<exists>q. v = Ended q) s' \<and> (v \<in> {Ended (Inl RouteCancelled), Ended (Inl RouteIntegrity)} \<or> rows_settled x req s')"
    using o others
  proof (cases rule: one_attempt_cases)
    case refused
    then show ?thesis using old J(2) by (simp add: rows_ok_def rows_settled_def)
  next
    case (reserved r)
    have new: "row_ok p x models w (\<exists>q. v = Ended q) ?n r"
    proof -
      have "(\<exists>q. v = Ended q) \<or> asked_again_safely p w r" using reserved(5,6,9) unfolding asked_again_safely_def by simp
      then show ?thesis unfolding row_ok_def using P reserved(5-7) by auto
    qed
    have src: "\<exists>y. (y \<in> set (lp_routes s) \<and> own_route x req y \<or> y = r) \<and> route_ident r' = route_ident y \<and> (mr_state r' = RouteReserved \<longrightarrow> mr_state y = RouteReserved)"
      if r': "r' \<in> set (lp_routes s')" "own_route x req r'" for r'

    proof -
      obtain y where y: "y \<in> set (lp_routes s @ [r])" "route_ident r' = route_ident y" "mr_state r' = RouteReserved \<longrightarrow> mr_state y = RouteReserved"
        using reserved(1) r' unfolding own_from_def by blast
      have "own_route x req y" using own_ident[OF y(2)] r'(2) by blast
      then show ?thesis using y by auto
    qed
    have "row_ok p x models w (\<exists>q. v = Ended q) ?n r'" if r': "r' \<in> set (lp_routes s')" "own_route x req r'" for r'

    proof -
      obtain y where y: "y \<in> set (lp_routes s) \<and> own_route x req y \<or> y = r" "route_ident r' = route_ident y" using src[OF r'] by blast
      have "row_ok p x models w (\<exists>q. v = Ended q) ?n y" using y(1) old new by blast
      then show ?thesis by (rule row_ok_ident[OF y(2), THEN iffD2])
    qed
    moreover have "mr_state r' \<noteq> RouteReserved" if r': "r' \<in> set (lp_routes s')" "own_route x req r'" and v: "v \<notin> {Ended (Inl RouteCancelled), Ended (Inl RouteIntegrity)}" for r'
    proof
      assume st: "mr_state r' = RouteReserved"
      then obtain y where y: "y \<in> set (lp_routes s) \<and> own_route x req y \<or> y = r" "route_ident r' = route_ident y" "mr_state y = RouteReserved" using src[OF r'] by blast
      then have "y = r" using J(2) unfolding rows_settled_def by blast
      then have "mr_id r' = wd_id (w ?n)" using y(2) reserved(4) by (simp add: route_ident_def)
      then show False using reserved(8) v r'(1) st by blast
    qed
    ultimately show ?thesis unfolding rows_ok_def rows_settled_def reserved(2) by blast
  qed
  then show "rows_ok p x req models w (\<exists>q. v = Ended q) s'" "v \<in> {Ended (Inl RouteCancelled), Ended (Inl RouteIntegrity)} \<or> rows_settled x req s'" by blast+
qed

lemma request_rows:
  assumes fresh: "\<not> tbl_ex (own_route x req) t" and others: "\<And>n. list_all (foreign x req) (wd_meanwhile (w n))"
    and r: "complete_routed ready p cs x req ms system tools w t = (s', res)"
  defines "models \<equiv> eligible_models ready p cs x (max (rc_tokens x) (estimate_input_tokens ms system tools)) t"
  shows "rows_ok p x req models w True s' \<and> (res \<in> {Inl RouteCancelled, Inl RouteIntegrity} \<or> rows_settled x req s')
    \<and> (route_refused x \<noteq> None \<longrightarrow> \<not> tbl_ex (own_route x req) (lp_routes s'))"
proof (cases "route_refused x")
  case None
  let ?J = "\<lambda>s. rows_ok p x req models w False s \<and> rows_settled x req s"
  let ?F = "\<lambda>s q. rows_ok p x req models w True s \<and> (q \<in> {Inl RouteCancelled, Inl RouteIntegrity} \<or> rows_settled x req s)"
  have weak: "rows_ok p x req models w True s" if "rows_ok p x req models w False s" for s
    using that unfolding rows_ok_def row_ok_def by blast
  have "?F s' res"
  proof (rule complete_routed_rule[where P = "allowed p x models" and J = ?J and F = ?F, OF _ _ _ _ r])
    show "case v of Ended q \<Rightarrow> ?F s1 q | _ \<Rightarrow> ?J s1" if "allowed p x models c e" "?J s" "one_attempt p x req w c e m s = (s1, v)" for c e m s s1 v
      using one_attempt_rows[OF that(1) _ _ that(3) others] that(2) by (cases v) auto
    show "?J \<lparr>lp_routes = t, lp_ordinal = 0, lp_from = None, lp_last = None\<rparr>" using fresh by (auto simp: rows_ok_def rows_settled_def tbl_ex_iff)
    show "?F s1 (Inl (RouteError e))" if "?J s1" for s1 e using that weak by blast
    show "allowed p x models c e" if "ms' = eligible_models ready p cs x (max (rc_tokens x) (estimate_input_tokens ms system tools)) t" "(c, e) \<in> set ms'"
      "(c, e) = hd ms' \<or> e \<le> po_fallback p \<or> rc_confirmed x" for c e ms' using that unfolding allowed_def models_def by simp
  qed
  then show ?thesis using None by simp
next
  case (Some e)
  then have "s' = \<lparr>lp_routes = t, lp_ordinal = 0, lp_from = None, lp_last = None\<rparr>" using r by (simp add: complete_routed_def)
  then show ?thesis using fresh by (auto simp: rows_ok_def rows_settled_def tbl_ex_iff)
qed

lemma eligible_modelsD:
  assumes "(c, e) \<in> set (eligible_models ready p cs x tokens t)"
  shows "c \<in> set cs" "eligible_model ready p x tokens t c" "e = estimated_cost c tokens (po_output p)"
  using assms by (auto simp: eligible_models_def Let_def split: list.splits)

lemma eligible_models_length: "length (eligible_models ready p cs x tokens t) \<le> length cs"
proof -
  have "length (filter (\<lambda>i. md_class (fst i) = k) l @ filter (\<lambda>i. md_class (fst i) \<noteq> k) l) = length l" for k and l :: "(candidate \<times> int) list"
    using sum_length_filter_compl[of "\<lambda>i. md_class (fst i) = k" l] by simp
  moreover have "length (sort_key (model_rank x t) (map (\<lambda>c. (c, estimated_cost c tokens (po_output p))) (filter (eligible_model ready p x tokens t) cs))) \<le> length cs"
    by simp
  ultimately show ?thesis unfolding eligible_models_def Let_def
    by (cases "sort_key (model_rank x t) (map (\<lambda>c. (c, estimated_cost c tokens (po_output p))) (filter (eligible_model ready p x tokens t) cs))") auto
qed

lemma one_attempt_ordinal: "lp_ordinal (fst (one_attempt p x req w c e m s)) = Suc (lp_ordinal s)"
  by (auto simp: one_attempt_def after_reply_def Let_def split: sum.splits route_fail.splits provider_reply.splits)

lemma attempt_model_ordinal: "lp_ordinal (fst (attempt_model p x req w c e k s)) \<le> lp_ordinal s + k"
proof (induction k arbitrary: s)
  case (Suc k)
  obtain s1 v where o: "one_attempt p x req w c e (0 < k) s = (s1, v)" by (cases "one_attempt p x req w c e (0 < k) s")
  then have "lp_ordinal s1 = Suc (lp_ordinal s)" using one_attempt_ordinal[of p x req w c e "0 < k" s] by simp
  then show ?case using o Suc[of s1] by (cases v) auto
qed simp

lemma attempt_models_ordinal: "lp_ordinal (fst (attempt_models p x req w cs first s)) \<le> lp_ordinal s + length cs * (po_retries p + 1)"
proof (induction cs arbitrary: first s)
  case (Cons ce cs)
  obtain c e where ce: "ce = (c, e)" by (cases ce)
  obtain s1 q where m: "attempt_model p x req w c e (po_retries p + 1) s = (s1, q)" by (cases "attempt_model p x req w c e (po_retries p + 1) s")
  have "lp_ordinal s1 \<le> lp_ordinal s + (po_retries p + 1)" using attempt_model_ordinal[of p x req w c e "po_retries p + 1" s] m by simp
  then show ?case using Cons[of False s1] ce m by (cases q) (auto simp del: attempt_model.simps)
qed simp

text \<open>C21. A routed request makes at most as many attempts as there are configured models times the attempts per model, whatever the
  providers answer and whatever other requests do; its ledger rows are numbered by its attempts, and unless the task was cancelled
  or the ledger itself refused a row, none of them is left reserved.\<close>

theorem routed_request_settled:
  assumes fresh: "\<not> tbl_ex (own_route x req) t" and others: "\<And>n. list_all (foreign x req) (wd_meanwhile (w n))"
    and r: "complete_routed ready p cs x req ms system tools w t = (s', res)"
  shows "lp_ordinal s' \<le> length cs * (po_retries p + 1)
    \<and> (\<forall>r \<in> set (lp_routes s'). own_route x req r \<longrightarrow> 0 < mr_ordinal r \<and> mr_ordinal r \<le> lp_ordinal s')
    \<and> (res \<noteq> Inl RouteCancelled \<longrightarrow> res \<noteq> Inl RouteIntegrity \<longrightarrow> (\<forall>r \<in> set (lp_routes s'). own_route x req r \<longrightarrow> mr_state r \<noteq> RouteReserved))"
proof -
  let ?models = "eligible_models ready p cs x (max (rc_tokens x) (estimate_input_tokens ms system tools)) t"
  have "lp_ordinal s' \<le> length ?models * (po_retries p + 1)"
    using r attempt_models_ordinal[of p x req w ?models True "\<lparr>lp_routes = t, lp_ordinal = 0, lp_from = None, lp_last = None\<rparr>"]
    by (auto simp: complete_routed_def Let_def split: option.splits if_splits)
  then have "lp_ordinal s' \<le> length cs * (po_retries p + 1)" using mult_le_mono1[OF eligible_models_length] order_trans by blast
  then show ?thesis using request_rows[OF fresh others r] unfolding rows_ok_def row_ok_def rows_settled_def by blast
qed

theorem routed_request_settled_witness:
  "snd sample_call = Inr () \<and> lp_ordinal (fst sample_call) \<le> 2
   \<and> \<not> (\<exists>r \<in> set (lp_routes (fst sample_call)). own_route sample_turn ''req'' r \<and> mr_state r = RouteReserved)"
proof -
  have "\<And>n. list_all (foreign sample_turn ''req'') (wd_meanwhile (sample_world n))" by (simp add: sample_world_def)
  note s = routed_request_settled[where w = sample_world, OF _ this prod.collapse[symmetric],
      where t = "[]" and ready = "\<lambda>_. True" and p = sample_policy and cs = "[sample_model]" and ms = "[]" and system = "''system''" and tools = "[]"]
  have "length [sample_model] * (po_retries sample_policy + 1) = 2" by (simp add: sample_policy_def)
  then show ?thesis using s sample_called by auto
qed



end
