(* ===== verification/Request_Boundary.thy ===== *)
theory Request_Boundary
  imports Py_Values
begin

text \<open>
  \<open>app/request_boundary.py\<close>: the limits every HTTP request passes before it is parsed. The counter of running requests is
  shared; the steps of concurrent requests interleave at their awaits, which is the relation \<open>bstep\<close>. The application, the
  client and the clock choose the steps.
\<close>

definition DEFAULT_BODY_LIMIT :: int where "DEFAULT_BODY_LIMIT = 1000000"

definition UPLOAD_BODY_LIMIT :: int where "UPLOAD_BODY_LIMIT = 50 * 1024 * 1024 + 1100000"

definition VOICE_BODY_LIMIT :: int where "VOICE_BODY_LIMIT = 25 * 1024 * 1024 + 1000000"

definition AVATAR_BODY_LIMIT :: int where "AVATAR_BODY_LIMIT = 5 * 1024 * 1024 + 64000"

definition body_limit :: "string \<Rightarrow> int" where
  "body_limit path =
     (if path = ''/api/v1/uploads'' then UPLOAD_BODY_LIMIT
      else if path = ''/api/v1/voice/transcribe'' then VOICE_BODY_LIMIT
      else if path = ''/api/v1/account/avatar'' then AVATAR_BODY_LIMIT else DEFAULT_BODY_LIMIT)"

text \<open>The constructor: the argument unless it is \<open>None\<close> or 0, else the environment, between 1 and 256; \<open>None\<close> is an exception.\<close>

definition max_inflight_of :: "int option \<Rightarrow> string option \<Rightarrow> int option" where
  "max_inflight_of arg env =
     (case (if arg \<noteq> None \<and> arg \<noteq> Some 0 then arg else py_int (case env of None \<Rightarrow> ''32'' | Some s \<Rightarrow> s)) of
        None \<Rightarrow> None
      | Some n \<Rightarrow> if 1 \<le> n \<and> n \<le> 256 then Some n else None)"

type_synonym headers = "(string \<times> string) list"

definition content_lengths :: "headers \<Rightarrow> string list" where
  "content_lengths hs = map snd (filter (\<lambda>h. py_lower (fst h) = ''content-length'') hs)"

text \<open>The status of a refusal before the application runs, if any.\<close>

definition refusal :: "string \<Rightarrow> headers \<Rightarrow> int \<Rightarrow> int \<Rightarrow> nat option" where
  "refusal path hs inflight most =
     (let lengths = content_lengths hs in
      if 1 < length lengths \<or> (lengths \<noteq> [] \<and> \<not> (hd lengths \<noteq> [] \<and> list_all is_digit (hd lengths))) then Some 400
      else if lengths \<noteq> [] \<and> (12 < length (hd lengths) \<or> body_limit path < the (digits_val 0 (hd lengths))) then Some 413
      else if most \<le> inflight then Some 503 else None)"

record request =
  rq_id :: nat
  rq_path :: string
  rq_total :: int
  rq_delivered :: int
  rq_started :: bool
  rq_status :: nat
  rq_failure :: "nat option"

definition new_request :: "nat \<Rightarrow> string \<Rightarrow> request" where
  "new_request i path = \<lparr>rq_id = i, rq_path = path, rq_total = 0, rq_delivered = 0, rq_started = False, rq_status = 500, rq_failure = None\<rparr>"

text \<open>\<open>bounded_receive\<close> of a body message of \<open>n\<close> bytes, or after the deadline; a failure raises, so the application gets no bytes.\<close>

definition bounded_receive :: "nat \<Rightarrow> bool \<Rightarrow> request \<Rightarrow> request" where
  "bounded_receive n late r =
     (if late then r\<lparr>rq_failure := Some 408\<rparr>
      else let total = rq_total r + int n in
        if body_limit (rq_path r) < total then r\<lparr>rq_total := total, rq_failure := Some 413\<rparr>
        else r\<lparr>rq_total := total, rq_delivered := rq_delivered r + int n\<rparr>)"

definition secured_headers :: "string \<Rightarrow> string \<Rightarrow> headers \<Rightarrow> headers" where
  "secured_headers path correlation hs =
     (let kept = filter (\<lambda>h. py_lower (fst h) \<notin> {''x-request-id'', ''x-content-type-options'', ''referrer-policy''}) hs
                 @ [(''x-request-id'', correlation), (''x-content-type-options'', ''nosniff''), (''referrer-policy'', ''no-referrer'')];
          private = (if starts_with ''/api/'' path \<or> starts_with ''/internal/'' path \<or> starts_with ''/uploads/'' path
                     then filter (\<lambda>h. py_lower (fst h) \<noteq> ''cache-control'') kept @ [(''cache-control'', ''no-store'')] else kept)
      in if starts_with ''/uploads/'' path then private @ [(''content-security-policy'', ''default-src 'none'; sandbox'')] else private)"

definition response_start :: "nat \<Rightarrow> request \<Rightarrow> request" where
  "response_start status r = r\<lparr>rq_started := True, rq_status := status\<rparr>"

text \<open>How the application ends: it returns, raises, or its task is cancelled. An exception before the response is answered by
  the recorded failure or 500.\<close>

datatype ending = Returns | Raises | Cancelled

definition final_status :: "ending \<Rightarrow> request \<Rightarrow> nat" where
  "final_status e r = (if e = Raises \<and> \<not> rq_started r then (case rq_failure r of None \<Rightarrow> 500 | Some c \<Rightarrow> c) else rq_status r)"

definition request_outcome :: "nat \<Rightarrow> string" where
  "request_outcome status = (if status \<in> {400, 401, 403, 408, 413, 429} then ''rejected'' else if 500 \<le> status then ''error'' else ''ok'')"

record boundary =
  rb_max :: int
  rb_inflight :: int
  rb_running :: "request table"
  rb_finished :: "(nat \<times> nat) list"

definition rq_sel :: "nat \<Rightarrow> request \<Rightarrow> bool" where "rq_sel k r \<longleftrightarrow> rq_id r = k"

definition idle :: "int \<Rightarrow> boundary" where
  "idle most = \<lparr>rb_max = most, rb_inflight = 0, rb_running = [], rb_finished = []\<rparr>"

inductive bstep :: "boundary \<Rightarrow> boundary \<Rightarrow> bool" where
  refused: "refusal path hs (rb_inflight b) (rb_max b) = Some c \<Longrightarrow> bstep b (b\<lparr>rb_finished := (i, c) # rb_finished b\<rparr>)"
| admitted: "refusal path hs (rb_inflight b) (rb_max b) = None \<Longrightarrow> \<not> tbl_ex (rq_sel i) (rb_running b)
    \<Longrightarrow> bstep b (b\<lparr>rb_inflight := rb_inflight b + 1, rb_running := rb_running b @ [new_request i path]\<rparr>)"
| received: "bstep b (b\<lparr>rb_running := tbl_upd (rq_sel i) (bounded_receive n late) (rb_running b)\<rparr>)"
| responded: "bstep b (b\<lparr>rb_running := tbl_upd (rq_sel i) (response_start status) (rb_running b)\<rparr>)"
| ended: "tbl_get (rq_sel i) (rb_running b) = Some r
    \<Longrightarrow> bstep b (b\<lparr>rb_inflight := rb_inflight b - 1, rb_running := filter (\<lambda>x. \<not> rq_sel i x) (rb_running b), rb_finished := (i, final_status e r) # rb_finished b\<rparr>)"

inductive reached :: "int \<Rightarrow> boundary \<Rightarrow> bool" for most where
  start: "reached most (idle most)"
| step: "reached most b \<Longrightarrow> bstep b b' \<Longrightarrow> reached most b'"

interpretation rqk: keyed_rows rq_id rq_sel by unfold_locales (simp add: rq_sel_def)

subsection \<open>Invariant\<close>

definition boundary_inv :: "int \<Rightarrow> boundary \<Rightarrow> bool" where
  "boundary_inv most b \<longleftrightarrow> rb_max b = most \<and> rqk.uniq (rb_running b) \<and> rb_inflight b = int (length (rb_running b)) \<and> rb_inflight b \<le> most
     \<and> (\<forall>r \<in> set (rb_running b). 0 \<le> rq_delivered r \<and> rq_delivered r \<le> rq_total r \<and> rq_delivered r \<le> body_limit (rq_path r))"

lemma body_limit_pos: "0 \<le> body_limit path"
  by (simp add: body_limit_def DEFAULT_BODY_LIMIT_def UPLOAD_BODY_LIMIT_def VOICE_BODY_LIMIT_def AVATAR_BODY_LIMIT_def)

lemma length_filter_key: "rqk.uniq t \<Longrightarrow> tbl_get (rq_sel i) t = Some r \<Longrightarrow> int (length (filter (\<lambda>x. \<not> rq_sel i x) t)) = int (length t) - 1"
proof (induction t)
  case (Cons a t)
  show ?case
  proof (cases "rq_sel i a")
    case True
    have "\<not> rq_sel i x" if "x \<in> set t" for x
      using imageI[OF that, of rq_id] True Cons.prems(1) by (auto simp: rqk.uniq_def rq_sel_def)
    then have "filter (\<lambda>x. \<not> rq_sel i x) t = t" by (simp add: filter_id_conv)
    then show ?thesis using True by simp
  next
    case False
    then show ?thesis using Cons by (simp add: rqk.uniq_def)
  qed
qed simp

lemma upd_inv:
  assumes "boundary_inv most b" and f: "\<And>r. rq_id (f r) = rq_id r"
    and ok: "\<And>r. 0 \<le> rq_delivered r \<and> rq_delivered r \<le> rq_total r \<and> rq_delivered r \<le> body_limit (rq_path r)
      \<Longrightarrow> 0 \<le> rq_delivered (f r) \<and> rq_delivered (f r) \<le> rq_total (f r) \<and> rq_delivered (f r) \<le> body_limit (rq_path (f r))"
  shows "boundary_inv most (b\<lparr>rb_running := tbl_upd (rq_sel i) f (rb_running b)\<rparr>)"
proof -
  have "rqk.uniq (tbl_upd (rq_sel i) f (rb_running b))" using assms(1) f by (intro rqk.uniq_upd) (simp_all add: boundary_inv_def)
  moreover have "length (tbl_upd (rq_sel i) f (rb_running b)) = length (rb_running b)" by (simp add: tbl_upd_def)
  moreover have "0 \<le> rq_delivered r \<and> rq_delivered r \<le> rq_total r \<and> rq_delivered r \<le> body_limit (rq_path r)" if "r \<in> set (tbl_upd (rq_sel i) f (rb_running b))" for r
    using that by (rule tbl_updE) (use assms(1) ok in \<open>auto simp: boundary_inv_def\<close>)
  ultimately show ?thesis using assms(1) by (simp add: boundary_inv_def)
qed

lemma bstep_inv: "bstep b b' \<Longrightarrow> boundary_inv most b \<Longrightarrow> boundary_inv most b'"
proof (induction rule: bstep.induct)
  case (admitted path hs b i)
  then have "rb_inflight b < rb_max b" by (simp add: refusal_def Let_def split: if_splits)
  moreover have "rqk.uniq (rb_running b @ [new_request i path])"
    using admitted rqk.uniq_insert[of "rb_running b" "new_request i path"] by (simp add: boundary_inv_def new_request_def tbl_ex_iff tbl_get_None_iff)
  ultimately show ?case using admitted body_limit_pos by (auto simp: boundary_inv_def new_request_def)
next
  case (received b i n late)
  show ?case by (rule upd_inv[OF received]) (auto simp: bounded_receive_def Let_def)
next
  case (responded b i status)
  show ?case by (rule upd_inv[OF responded]) (simp_all add: response_start_def)
next
  case (ended i b r e)
  then have "rqk.uniq (filter (\<lambda>x. \<not> rq_sel i x) (rb_running b))" by (simp add: boundary_inv_def rqk.uniq_def distinct_map_filter)
  then show ?case using ended length_filter_key by (simp add: boundary_inv_def)
qed (simp add: boundary_inv_def)

lemma reached_inv: "reached most b \<Longrightarrow> 0 \<le> most \<Longrightarrow> boundary_inv most b"
proof (induction rule: reached.induct)
  case start
  then show ?case by (simp add: boundary_inv_def idle_def rqk.uniq_def)
qed (simp add: bstep_inv)

text \<open>C34. However requests interleave, from an idle gateway: the counter is exactly the number of requests the application is
  running, whether they return, raise or are cancelled, so it returns to zero when the last one ends; it never exceeds the
  configured maximum; and no request is given more body bytes than its route allows, whatever lengths it announced.\<close>

theorem boundary_exact:
  assumes "reached most b" and "1 \<le> most"
  shows "rb_inflight b = int (length (rb_running b)) \<and> rb_inflight b \<le> most \<and> rb_max b = most
    \<and> (\<forall>r \<in> set (rb_running b). rq_delivered r \<le> body_limit (rq_path r))"
  using reached_inv[OF assms(1)] assms(2) by (simp add: boundary_inv_def)

theorem boundary_exact_witness:
  "\<exists>b. reached 1 b \<and> rb_inflight b = 1 \<and> rb_inflight b = int (length (rb_running b)) \<and> refusal ''/x'' [] (rb_inflight b) (rb_max b) = Some 503"
proof -
  let ?b = "(idle 1)\<lparr>rb_inflight := rb_inflight (idle 1) + 1, rb_running := rb_running (idle 1) @ [new_request 7 ''/x'']\<rparr>"
  have "refusal ''/x'' [] (rb_inflight (idle 1)) (rb_max (idle 1)) = None" by (simp add: refusal_def content_lengths_def idle_def)
  moreover have "\<not> tbl_ex (rq_sel 7) (rb_running (idle 1))" by (simp add: idle_def)
  ultimately have r: "reached 1 ?b" using reached.step[OF reached.start bstep.admitted] by blast
  show ?thesis using boundary_exact[OF r] r by (intro exI[of _ ?b]) (simp add: idle_def refusal_def content_lengths_def)
qed

subsection \<open>Responses\<close>

definition header_values :: "string \<Rightarrow> headers \<Rightarrow> string list" where
  "header_values k hs = map snd (filter (\<lambda>h. py_lower (fst h) = k) hs)"

definition gateway_headers :: "string set" where
  "gateway_headers = {''x-request-id'', ''x-content-type-options'', ''referrer-policy'', ''cache-control'', ''content-security-policy''}"

text \<open>Every response carries exactly the correlation id the gateway drew, one \<open>nosniff\<close> and one \<open>no-referrer\<close>, whatever headers the
  application or the client's request id put there; responses under the API, internal and upload paths have the one cache rule
  \<open>no-store\<close>, others the application's; every header the gateway does not own passes unchanged and in order.\<close>

theorem response_headers_secured:
  "header_values ''x-request-id'' (secured_headers path correlation hs) = [correlation]
   \<and> header_values ''x-content-type-options'' (secured_headers path correlation hs) = [''nosniff'']
   \<and> header_values ''referrer-policy'' (secured_headers path correlation hs) = [''no-referrer'']
   \<and> header_values ''cache-control'' (secured_headers path correlation hs)
      = (if starts_with ''/api/'' path \<or> starts_with ''/internal/'' path \<or> starts_with ''/uploads/'' path then [''no-store'']
         else header_values ''cache-control'' hs)
   \<and> filter (\<lambda>h. py_lower (fst h) \<notin> gateway_headers) (secured_headers path correlation hs)
      = filter (\<lambda>h. py_lower (fst h) \<notin> gateway_headers) hs"
proof -
  have lower: "py_lower ''x-request-id'' = ''x-request-id''" "py_lower ''x-content-type-options'' = ''x-content-type-options''"
    "py_lower ''referrer-policy'' = ''referrer-policy''" "py_lower ''cache-control'' = ''cache-control''"
    "py_lower ''content-security-policy'' = ''content-security-policy''" by code_simp+
  note defs = header_values_def secured_headers_def Let_def lower gateway_headers_def
  have "header_values ''x-request-id'' (secured_headers path correlation hs) = [correlation]" by (auto simp: defs filter_empty_conv)
  moreover have "header_values ''x-content-type-options'' (secured_headers path correlation hs) = [''nosniff'']" by (auto simp: defs filter_empty_conv)
  moreover have "header_values ''referrer-policy'' (secured_headers path correlation hs) = [''no-referrer'']" by (auto simp: defs filter_empty_conv)
  moreover have "header_values ''cache-control'' (secured_headers path correlation hs)
      = (if starts_with ''/api/'' path \<or> starts_with ''/internal/'' path \<or> starts_with ''/uploads/'' path then [''no-store'']
         else header_values ''cache-control'' hs)"
    by (auto simp: defs filter_empty_conv intro!: arg_cong[where f = "map snd"] filter_cong)
  moreover have "filter (\<lambda>h. py_lower (fst h) \<notin> gateway_headers) (secured_headers path correlation hs)
      = filter (\<lambda>h. py_lower (fst h) \<notin> gateway_headers) hs"
    by (auto simp: defs intro!: filter_cong)
  ultimately show ?thesis by blast
qed

end
