(* ===== verification/Attention_Actions.thy ===== *)
theory Attention_Actions
  imports Credit_Ledger_Inv Model_Routing
begin

text \<open>
  \<open>app/attention_actions.py\<close>: the owner's confirmed approve or reject of one Firstmate decision. An item is the JSON object the
  attention service lists. \<open>ae_mac\<close> is the hex HMAC-SHA256 under the gateway's secret, \<open>ae_sha\<close> the hex SHA-256 of a token. An
  execution is three transactions and a subprocess; the steps of concurrent executions interleave between them (\<open>astep\<close>).
  The files and the subprocess of \<open>execute_firstmate_action\<close> are its answer, \<open>ok\<close>.
\<close>

definition CONFIRMATION_TTL_SECONDS :: int where "CONFIRMATION_TTL_SECONDS = 300"

definition SAFE_ACTIONS :: "string list" where "SAFE_ACTIONS = [''approve'', ''reject'']"

definition TASK_ID_PATTERN :: "string \<Rightarrow> bool" where
  "TASK_ID_PATTERN s \<longleftrightarrow> s \<noteq> [] \<and> length s \<le> 200 \<and> list_all (\<lambda>c. is_alnum c \<or> c \<in> {CHR ''.'', CHR ''_'', CHR ''-''}) s"

definition RISK_PATTERN :: "string list list" where
  "RISK_PATTERN = [[''delete''], [''destroy''], [''deploy''], [''merge''], [''reset''], [''credential''], [''secret''], [''password''], [''token''],
     [''security''], [''permission''], [''production''], [''public''], [''irreversible''], [''cannot be undone'']]"

datatype attn_error = AttentionActionError string nat | AttnTypeError | AttnIntegrityError

record attn_env =
  ae_mac :: "string \<Rightarrow> string"
  ae_sha :: "string \<Rightarrow> string"

definition safe_text :: "json \<Rightarrow> string" where
  "safe_text v = (case v of JStr s \<Rightarrow> take 200 (py_strip s) | _ \<Rightarrow> [])"

definition item_context :: "json \<Rightarrow> json" where
  "item_context item = (if is_JObj (jget item ''context'') then jget item ''context'' else JObj [])"

definition action_key_for :: "(string \<Rightarrow> string) \<Rightarrow> json \<Rightarrow> string" where
  "action_key_for mac item =
     (let context = item_context item in
      ''aa1_'' @ mac (nul_join ''attention-action.v1'' (nul_join ''firstmate'' (nul_join (safe_text (jget context ''task_id''))
        (nul_join (safe_text (jget context ''decision_key'')) (safe_text (jget item ''revision'')))))))"

text \<open>A list or dict as \<open>risk_level\<close> raises \<open>TypeError\<close> unless an earlier test decided.\<close>

definition risk_reason :: "json \<Rightarrow> attn_error + bool" where
  "risk_reason item =
     (let context = item_context item;
          values = [jget item ''title'', jget item ''subtitle'', jget context ''summary'', jget context ''risk''];
          flagged = list_ex (\<lambda>n. jget context n = JBool True \<or> jget item n = JBool True)
            [''destructive'', ''irreversible'', ''security_sensitive'', ''security_sensitive_request'']
      in if flagged \<or> jget item ''reversible'' = JBool False then Inr True
         else if \<not> hashable (jget context ''risk_level'') then Inl AttnTypeError
         else Inr (jget context ''risk_level'' \<in> {JStr ''high'', JStr ''destructive'', JStr ''security-sensitive''}
           \<or> list_ex (\<lambda>v. case v of JStr s \<Rightarrow> search_words RISK_PATTERN False (py_lower s) | _ \<Rightarrow> False) values))"

record attn_action =
  aa_key :: string
  aa_decision :: string
  aa_revision :: string
  aa_task :: string
  aa_blocked :: bool

definition allowed_actions :: "attn_action \<Rightarrow> string list" where
  "allowed_actions a = (if aa_blocked a then [] else SAFE_ACTIONS)"

definition action_for_item :: "(string \<Rightarrow> string) \<Rightarrow> json \<Rightarrow> attn_error + attn_action option" where
  "action_for_item mac item =
     (let context = item_context item; task = safe_text (jget context ''task_id''); decision = safe_text (jget context ''decision_key'') in
      if jget item ''provider'' \<noteq> JStr ''firstmate'' \<or> jget item ''notification_kind'' \<noteq> JStr ''captain_question''
        \<or> jget item ''status'' \<noteq> JStr ''needs-decision'' \<or> task = [] \<or> decision = [] \<or> \<not> TASK_ID_PATTERN task \<or> \<not> TASK_ID_PATTERN decision
      then Inr None
      else case risk_reason item of
        Inl e \<Rightarrow> Inl e
      | Inr blocked \<Rightarrow> Inr (Some \<lparr>aa_key = action_key_for mac item, aa_decision = decision, aa_revision = safe_text (jget item ''revision''),
          aa_task = task, aa_blocked = blocked\<rparr>))"

definition action_from_item :: "(string \<Rightarrow> string) \<Rightarrow> json \<Rightarrow> attn_error + attn_action" where
  "action_from_item mac item =
     (case action_for_item mac item of
        Inl e \<Rightarrow> Inl e
      | Inr None \<Rightarrow> Inl (AttentionActionError ''unsupported'' 409)
      | Inr (Some a) \<Rightarrow> Inr a)"

fun find_live_item :: "(string \<Rightarrow> string) \<Rightarrow> json list \<Rightarrow> string \<Rightarrow> string \<Rightarrow> attn_error + json" where
  "find_live_item mac [] key target = Inl (AttentionActionError ''stale'' 409)"
| "find_live_item mac (item # items) key target =
     (case action_for_item mac item of
        Inl e \<Rightarrow> Inl e
      | Inr None \<Rightarrow> find_live_item mac items key target
      | Inr (Some a) \<Rightarrow>
          if aa_key a \<noteq> key then find_live_item mac items key target
          else if aa_task a \<noteq> target then Inl (AttentionActionError ''mismatch'' 409)
          else if aa_blocked a then Inl (AttentionActionError ''unsupported_risk'' 409)
          else Inr item)"

subsection \<open>Tables\<close>

record attn_outcome =
  ao_key :: string
  ao_user :: string
  ao_session :: string
  ao_item :: string
  ao_decision :: string
  ao_action :: string
  ao_target :: string
  ao_revision :: string
  ao_status :: string
  ao_evidence :: json
  ao_created :: int
  ao_updated :: int

record attn_confirmation =
  af_hash :: string
  af_key :: string
  af_user :: string
  af_session :: string
  af_action :: string
  af_target :: string
  af_expires :: int
  af_used :: "int option"

record attn_db =
  at_outcomes :: "attn_outcome table"
  at_confirmations :: "attn_confirmation table"

definition ao_sel :: "string \<Rightarrow> attn_outcome \<Rightarrow> bool" where "ao_sel k r \<longleftrightarrow> ao_key r = k"

definition af_sel :: "string \<Rightarrow> attn_confirmation \<Rightarrow> bool" where "af_sel k r \<longleftrightarrow> af_hash r = k"

definition outcome_of :: "string \<Rightarrow> string \<Rightarrow> attn_db \<Rightarrow> attn_outcome option" where
  "outcome_of key user db = tbl_get (\<lambda>r. ao_key r = key \<and> ao_user r = user) (at_outcomes db)"

text \<open>\<open>ORDER BY updated_at DESC LIMIT 1\<close>: the first of the latest.\<close>

definition outcome_for_item :: "string \<Rightarrow> string \<Rightarrow> attn_db \<Rightarrow> attn_outcome option" where
  "outcome_for_item item_id user db =
     (let mine = filter (\<lambda>r. ao_item r = item_id \<and> ao_user r = user) (at_outcomes db) in
      List.find (\<lambda>r. list_all (\<lambda>x. ao_updated x \<le> ao_updated r) mine) mine)"

definition store_confirmation :: "attn_env \<Rightarrow> int \<Rightarrow> string \<Rightarrow> attn_action \<Rightarrow> string \<Rightarrow> string \<Rightarrow> string \<Rightarrow> string \<Rightarrow> attn_db \<Rightarrow> attn_error + attn_db" where
  "store_confirmation env now token a user session sel target db =
     (if tbl_ex (af_sel (ae_sha env token)) (at_confirmations db) then Inl AttnIntegrityError
      else Inr (db\<lparr>at_confirmations := at_confirmations db @
        [\<lparr>af_hash = ae_sha env token, af_key = aa_key a, af_user = user, af_session = session, af_action = sel, af_target = target,
          af_expires = now + CONFIRMATION_TTL_SECONDS, af_used = None\<rparr>]\<rparr>))"

definition prepare_confirmation :: "attn_env \<Rightarrow> int \<Rightarrow> string \<Rightarrow> json list \<Rightarrow> string \<Rightarrow> string \<Rightarrow> string \<Rightarrow> string \<Rightarrow> string \<Rightarrow> attn_db \<Rightarrow> attn_error + attn_db" where
  "prepare_confirmation env now token items key sel target user session db =
     (if sel \<notin> set SAFE_ACTIONS then Inl (AttentionActionError ''invalid_action'' 422)
      else case find_live_item (ae_mac env) items key target of
        Inl e \<Rightarrow> Inl e
      | Inr item \<Rightarrow> (case action_from_item (ae_mac env) item of
          Inl e \<Rightarrow> Inl e
        | Inr a \<Rightarrow> if sel \<notin> set (allowed_actions a) then Inl (AttentionActionError ''unsupported'' 409)
                 else store_confirmation env now token a user session sel target db))"

subsection \<open>Executing\<close>

text \<open>What precedes the confirmation: the recorded outcome, or the live action and item id.\<close>

definition accept_execution :: "attn_env \<Rightarrow> json list \<Rightarrow> string \<Rightarrow> string \<Rightarrow> string \<Rightarrow> string \<Rightarrow> string \<Rightarrow> attn_db \<Rightarrow> attn_error + (attn_outcome + attn_action \<times> string)" where
  "accept_execution env items key sel target token user db =
     (if sel \<notin> set SAFE_ACTIONS then Inl (AttentionActionError ''invalid_action'' 422)
      else case outcome_of key user db of
        Some r \<Rightarrow> if ao_action r \<noteq> sel \<or> ao_target r \<noteq> target then Inl (AttentionActionError ''replay_mismatch'' 409) else Inr (Inl r)
      | None \<Rightarrow> (case find_live_item (ae_mac env) items key target of
          Inl e \<Rightarrow> Inl e
        | Inr item \<Rightarrow> (case action_from_item (ae_mac env) item of
            Inl e \<Rightarrow> Inl e
          | Inr a \<Rightarrow>
              if sel \<notin> set (allowed_actions a) then Inl (AttentionActionError ''unsupported'' 409)
              else if token = [] then Inl (AttentionActionError ''confirmation_required'' 400)
              else if \<not> list_all (\<lambda>c. code c < 128) token then Inl (AttentionActionError ''confirmation_invalid'' 409)
              else Inr (Inr (a, safe_text (jget item ''id''))))))"

definition use_confirmation :: "attn_env \<Rightarrow> int \<Rightarrow> string \<Rightarrow> string \<Rightarrow> string \<Rightarrow> string \<Rightarrow> string \<Rightarrow> string \<Rightarrow> attn_db \<Rightarrow> attn_error + attn_db" where
  "use_confirmation env now token key sel target user session db =
     (case tbl_get (af_sel (ae_sha env token)) (at_confirmations db) of
        None \<Rightarrow> Inl (AttentionActionError ''confirmation_invalid'' 409)
      | Some c \<Rightarrow>
          if af_user c \<noteq> user \<or> af_session c \<noteq> session \<or> af_key c \<noteq> key \<or> af_action c \<noteq> sel \<or> af_target c \<noteq> target
            \<or> af_expires c < now \<or> af_used c \<noteq> None
          then Inl (AttentionActionError ''confirmation_invalid'' 409)
          else Inr (db\<lparr>at_confirmations := tbl_upd (\<lambda>x. af_sel (ae_sha env token) x \<and> af_used x = None) (\<lambda>x. x\<lparr>af_used := Some now\<rparr>) (at_confirmations db)\<rparr>))"

definition pending_evidence :: "attn_action \<Rightarrow> string \<Rightarrow> string \<Rightarrow> json" where
  "pending_evidence a item_id target = JObj [(''provider'', JStr ''firstmate''), (''decision_key'', JStr (aa_decision a)), (''item_id'', JStr item_id),
     (''target_id'', JStr target), (''source_revision'', JStr (aa_revision a)), (''operation'', JStr ''captain-hold-answer'')]"

definition final_evidence :: "attn_action \<Rightarrow> string \<Rightarrow> bool \<Rightarrow> json" where
  "final_evidence a target ok = JObj [(''provider'', JStr ''firstmate''), (''decision_key'', JStr (aa_decision a)), (''target_id'', JStr target),
     (''source_revision'', JStr (aa_revision a)), (''operation'', JStr ''captain-hold-answer''), (''recorded'', JBool ok)]"

text \<open>The key is the primary key of the table; the row a conflict falls back to is read by key and user.\<close>

definition claim_pending :: "int \<Rightarrow> attn_action \<Rightarrow> string \<Rightarrow> string \<Rightarrow> string \<Rightarrow> string \<Rightarrow> string \<Rightarrow> attn_db \<Rightarrow> attn_db \<times> attn_outcome option" where
  "claim_pending now a item_id user session sel target db =
     (if tbl_ex (ao_sel (aa_key a)) (at_outcomes db) then (db, outcome_of (aa_key a) user db)
      else (db\<lparr>at_outcomes := at_outcomes db @
        [\<lparr>ao_key = aa_key a, ao_user = user, ao_session = session, ao_item = item_id, ao_decision = aa_decision a, ao_action = sel,
          ao_target = target, ao_revision = safe_text (JStr (aa_revision a)), ao_status = ''pending'', ao_evidence = pending_evidence a item_id target,
          ao_created = now, ao_updated = now\<rparr>]\<rparr>, None))"

definition decision_text :: "string \<Rightarrow> string" where
  "decision_text sel = (case sel of [] \<Rightarrow> [] | c # cs \<Rightarrow> (if is_lower c then char_of (code c - 32) else c) # py_lower cs) @ ''d by Captain via Magistrate Attention.''"

definition record_outcome :: "int \<Rightarrow> bool \<Rightarrow> attn_action \<Rightarrow> string \<Rightarrow> string \<Rightarrow> attn_db \<Rightarrow> attn_db" where
  "record_outcome now ok a target user db =
     db\<lparr>at_outcomes := tbl_upd (\<lambda>r. ao_key r = aa_key a \<and> ao_user r = user)
       (\<lambda>r. r\<lparr>ao_status := if ok then ''succeeded'' else ''failed'', ao_evidence := final_evidence a target ok, ao_updated := now\<rparr>) (at_outcomes db)\<rparr>"

text \<open>The answer of an uninterrupted execution in one process, with the answer \<open>ok\<close> of the executor, and whether it was asked.\<close>

definition execute_confirmation :: "attn_env \<Rightarrow> int \<Rightarrow> int \<Rightarrow> bool \<Rightarrow> json list \<Rightarrow> string \<Rightarrow> string \<Rightarrow> string \<Rightarrow> string \<Rightarrow> string \<Rightarrow> string \<Rightarrow> attn_db
    \<Rightarrow> attn_error + (attn_db \<times> attn_outcome option \<times> bool)" where
  "execute_confirmation env now later ok items key sel target token user session db =
     (case accept_execution env items key sel target token user db of
        Inl e \<Rightarrow> Inl e
      | Inr (Inl r) \<Rightarrow> Inr (db, Some r, False)
      | Inr (Inr (a, item_id)) \<Rightarrow> (case use_confirmation env now token key sel target user session db of
          Inl e \<Rightarrow> Inl e
        | Inr db1 \<Rightarrow> (case claim_pending now a item_id user session sel target db1 of
            (db2, Some r) \<Rightarrow> Inr (db2, Some r, False)
          | (db2, None) \<Rightarrow> let db3 = record_outcome later ok a target user db2 in Inr (db3, outcome_of key user db3, True))))"

subsection \<open>Concurrent executions\<close>

datatype attn_phase = Accepted | Confirmed | Running

record execution =
  xt_key :: string
  xt_action :: string
  xt_target :: string
  xt_session :: string
  xt_token :: string
  xt_act :: attn_action
  xt_item :: string
  xt_phase :: attn_phase

text \<open>The database, the executions in flight, the executor's calls and its answers, oldest first. \<open>owner\<close> is the configured owner,
  the only user whose requests the API lets through.\<close>

record desk =
  dk_db :: attn_db
  dk_flights :: "execution list"
  dk_calls :: "execution list"
  dk_answers :: "(string \<times> bool) list"

definition empty_desk :: desk where
  "empty_desk = \<lparr>dk_db = \<lparr>at_outcomes = [], at_confirmations = []\<rparr>, dk_flights = [], dk_calls = [], dk_answers = []\<rparr>"

inductive astep :: "attn_env \<Rightarrow> string \<Rightarrow> desk \<Rightarrow> desk \<Rightarrow> bool" for env owner where
  prepared: "prepare_confirmation env now token items key sel target owner session (dk_db d) = Inr db'
    \<Longrightarrow> astep env owner d (d\<lparr>dk_db := db'\<rparr>)"
| accepted: "accept_execution env items key sel target token owner (dk_db d) = Inr (Inr (a, item_id))
    \<Longrightarrow> astep env owner d (d\<lparr>dk_flights := dk_flights d @ [\<lparr>xt_key = key, xt_action = sel, xt_target = target, xt_session = session,
      xt_token = token, xt_act = a, xt_item = item_id, xt_phase = Accepted\<rparr>]\<rparr>)"
| confirmed: "dk_flights d = xs @ f # ys \<Longrightarrow> xt_phase f = Accepted
    \<Longrightarrow> use_confirmation env now (xt_token f) (xt_key f) (xt_action f) (xt_target f) owner (xt_session f) (dk_db d) = Inr db'
    \<Longrightarrow> astep env owner d (d\<lparr>dk_db := db', dk_flights := xs @ f\<lparr>xt_phase := Confirmed\<rparr> # ys\<rparr>)"
| claimed: "dk_flights d = xs @ f # ys \<Longrightarrow> xt_phase f = Confirmed
    \<Longrightarrow> claim_pending now (xt_act f) (xt_item f) owner (xt_session f) (xt_action f) (xt_target f) (dk_db d) = (db', None)
    \<Longrightarrow> astep env owner d (d\<lparr>dk_db := db', dk_flights := xs @ f\<lparr>xt_phase := Running\<rparr> # ys, dk_calls := dk_calls d @ [f]\<rparr>)"
| recorded: "dk_flights d = xs @ f # ys \<Longrightarrow> xt_phase f = Running
    \<Longrightarrow> astep env owner d (d\<lparr>dk_db := record_outcome now ok (xt_act f) (xt_target f) owner (dk_db d), dk_flights := xs @ ys,
      dk_answers := dk_answers d @ [(xt_key f, ok)]\<rparr>)"
| left: "dk_flights d = xs @ f # ys \<Longrightarrow> astep env owner d (d\<lparr>dk_flights := xs @ ys\<rparr>)"

inductive desk_reached :: "attn_env \<Rightarrow> string \<Rightarrow> desk \<Rightarrow> bool" for env owner where
  start: "desk_reached env owner empty_desk"
| step: "desk_reached env owner d \<Longrightarrow> astep env owner d d' \<Longrightarrow> desk_reached env owner d'"

end
