(* ===== verification/Attention_Properties.thy ===== *)
theory Attention_Properties
  imports Attention_Actions
begin

text \<open>
  What the confirmed actions guarantee: an action key names one decision and revision, the executor is asked at most once per
  key and only under a confirmation of the same session used once, and a recorded outcome is final.
\<close>

interpretation aok: keyed_rows ao_key ao_sel by unfold_locales (simp add: ao_sel_def)
interpretation afk: keyed_rows af_hash af_sel by unfold_locales (simp add: af_sel_def)

subsection \<open>Action keys\<close>

lemma task_id_nul_free: "TASK_ID_PATTERN s \<Longrightarrow> nul_free s"
proof -
  have "\<not> (is_alnum (char_of (0::nat)) \<or> char_of (0::nat) \<in> {CHR ''.'', CHR ''_'', CHR ''-''})" by code_simp
  then show "TASK_ID_PATTERN s \<Longrightarrow> nul_free s" by (auto simp: TASK_ID_PATTERN_def nul_free_def list_all_iff)
qed

lemma action_for_itemD:
  assumes "action_for_item mac item = Inr (Some a)"
  shows "aa_key a = action_key_for mac item" and "aa_task a = safe_text (jget (item_context item) ''task_id'')"
    and "aa_decision a = safe_text (jget (item_context item) ''decision_key'')" and "aa_revision a = safe_text (jget item ''revision'')"
    and "TASK_ID_PATTERN (aa_task a)" and "TASK_ID_PATTERN (aa_decision a)" and "risk_reason item = Inr (aa_blocked a)"
    and "jget item ''status'' = JStr ''needs-decision''"
  using assms by (auto simp: action_for_item_def Let_def split: if_splits sum.splits)

text \<open>C30. While the keyed digest does not collide, an action key names exactly one decision: two live items that expose the same key
  are the same task, decision key and revision, so a confirmation can never be moved to another decision or to a later revision.\<close>

theorem action_key_binds:
  assumes "inj mac" and "action_for_item mac x = Inr (Some a)" and "action_for_item mac y = Inr (Some b)" and "aa_key a = aa_key b"
  shows "aa_task a = aa_task b \<and> aa_decision a = aa_decision b \<and> aa_revision a = aa_revision b"
proof -
  note A = action_for_itemD[OF assms(2)] and B = action_for_itemD[OF assms(3)]
  have "mac (nul_join ''attention-action.v1'' (nul_join ''firstmate'' (nul_join (aa_task a) (nul_join (aa_decision a) (aa_revision a)))))
      = mac (nul_join ''attention-action.v1'' (nul_join ''firstmate'' (nul_join (aa_task b) (nul_join (aa_decision b) (aa_revision b)))))"
    using assms(4) A B by (simp add: action_key_for_def Let_def)
  then have "nul_join (aa_task a) (nul_join (aa_decision a) (aa_revision a)) = nul_join (aa_task b) (nul_join (aa_decision b) (aa_revision b))"
    using assms(1) by (simp add: inj_eq nul_join_def)
  then have t: "aa_task a = aa_task b" and "nul_join (aa_decision a) (aa_revision a) = nul_join (aa_decision b) (aa_revision b)"
    using nul_join_inj[OF task_id_nul_free[OF A(5)] task_id_nul_free[OF B(5)]] by blast+
  then show ?thesis using nul_join_inj[OF task_id_nul_free[OF A(6)] task_id_nul_free[OF B(6)]] by blast
qed

definition sample_decision :: json where
  "sample_decision = JObj [(''id'', JStr ''captain-question-task-1''), (''provider'', JStr ''firstmate''), (''title'', JStr ''Rollout choice''),
     (''status'', JStr ''needs-decision''), (''notification_kind'', JStr ''captain_question''), (''revision'', JStr ''r1''),
     (''context'', JObj [(''task_id'', JStr ''task-1''), (''decision_key'', JStr ''decision-1'')])]"

definition sample_action :: attn_action where
  "sample_action = \<lparr>aa_key = action_key_for id sample_decision, aa_decision = ''decision-1'', aa_revision = ''r1'', aa_task = ''task-1'', aa_blocked = False\<rparr>"

lemma sample_action: "action_for_item id sample_decision = Inr (Some sample_action)"
  by code_simp

definition sample_retitled :: json where
  "sample_retitled = JObj [(''id'', JStr ''i-2''), (''provider'', JStr ''firstmate''), (''title'', JStr ''Renamed''), (''subtitle'', JStr ''When?''),
     (''status'', JStr ''needs-decision''), (''notification_kind'', JStr ''captain_question''), (''revision'', JStr '' r1 ''),
     (''context'', JObj [(''decision_key'', JStr ''decision-1''), (''task_id'', JStr ''task-1'')])]"

lemma sample_retitled: "action_for_item id sample_retitled = Inr (Some sample_action)"
  by code_simp

theorem action_key_binds_witness:
  "\<exists>a b. action_for_item id sample_decision = Inr (Some a) \<and> action_for_item id sample_retitled = Inr (Some b) \<and> aa_task a = aa_task b
     \<and> aa_decision a = aa_decision b \<and> aa_revision a = aa_revision b"
  using action_key_binds[where mac = id, OF inj_on_id sample_action sample_retitled refl] sample_action sample_retitled by blast

subsection \<open>Invariant of concurrent executions\<close>

definition sound_flight :: "execution \<Rightarrow> bool" where
  "sound_flight f \<longleftrightarrow> xt_key f = aa_key (xt_act f) \<and> xt_target f = aa_task (xt_act f) \<and> \<not> aa_blocked (xt_act f)
     \<and> TASK_ID_PATTERN (xt_target f) \<and> xt_action f \<in> set SAFE_ACTIONS"

text \<open>A used confirmation of this very request: same session, key, action and target, used before it expired.\<close>

definition backed :: "attn_env \<Rightarrow> string \<Rightarrow> attn_db \<Rightarrow> execution \<Rightarrow> bool" where
  "backed env owner db f \<longleftrightarrow> (\<exists>c \<in> set (at_confirmations db). af_hash c = ae_sha env (xt_token f) \<and> af_key c = xt_key f \<and> af_user c = owner
     \<and> af_session c = xt_session f \<and> af_action c = xt_action f \<and> af_target c = xt_target f \<and> (\<exists>t. af_used c = Some t \<and> t \<le> af_expires c))"

definition token_hashes :: "attn_env \<Rightarrow> desk \<Rightarrow> string list" where
  "token_hashes env d = map (\<lambda>f. ae_sha env (xt_token f)) (dk_calls d @ filter (\<lambda>f. xt_phase f = Confirmed) (dk_flights d))"

definition running_keys :: "desk \<Rightarrow> string list" where
  "running_keys d = map xt_key (filter (\<lambda>f. xt_phase f = Running) (dk_flights d))"

definition reported :: "(string \<times> bool) list \<Rightarrow> attn_outcome \<Rightarrow> bool" where
  "reported answers r \<longleftrightarrow> ao_status r = ''pending'' \<or> ao_status r = ''succeeded'' \<and> (ao_key r, True) \<in> set answers
     \<or> ao_status r = ''failed'' \<and> (ao_key r, False) \<in> set answers"

definition desk_inv :: "attn_env \<Rightarrow> string \<Rightarrow> desk \<Rightarrow> bool" where
  "desk_inv env owner d \<longleftrightarrow> map ao_key (at_outcomes (dk_db d)) = map xt_key (dk_calls d) \<and> aok.uniq (at_outcomes (dk_db d))
     \<and> (\<forall>r \<in> set (at_outcomes (dk_db d)). ao_user r = owner \<and> ao_action r \<in> set SAFE_ACTIONS \<and> reported (dk_answers d) r) \<and> afk.uniq (at_confirmations (dk_db d))
     \<and> (\<forall>f \<in> set (dk_flights d). sound_flight f \<and> (xt_phase f \<noteq> Accepted \<longrightarrow> backed env owner (dk_db d) f))
     \<and> (\<forall>f \<in> set (dk_calls d). sound_flight f \<and> backed env owner (dk_db d) f)
     \<and> distinct (token_hashes env d) \<and> distinct (running_keys d)
     \<and> (\<forall>k \<in> set (running_keys d). \<exists>r \<in> set (at_outcomes (dk_db d)). ao_key r = k \<and> ao_status r = ''pending'')"

lemma backed_mono:
  assumes "backed env owner db f" and "\<And>c. c \<in> set (at_confirmations db) \<Longrightarrow> af_used c \<noteq> None \<Longrightarrow> c \<in> set (at_confirmations db')"
  shows "backed env owner db' f"
  using assms unfolding backed_def by blast

lemma backed_cong: "at_confirmations db' = at_confirmations db \<Longrightarrow> backed env owner db' f = backed env owner db f"
  by (simp add: backed_def)

lemma phase_irrelevant [simp]: "sound_flight (f\<lparr>xt_phase := p\<rparr>) = sound_flight f" "backed env owner db (f\<lparr>xt_phase := p\<rparr>) = backed env owner db f"
  by (simp_all add: sound_flight_def backed_def)

lemma find_live_itemD:
  "find_live_item mac items key target = Inr item \<Longrightarrow> \<exists>a. action_for_item mac item = Inr (Some a) \<and> aa_key a = key \<and> aa_task a = target \<and> \<not> aa_blocked a"
  by (induction items) (auto split: sum.splits option.splits if_splits)

lemma accept_sound:
  assumes "accept_execution env items key sel target token user db = Inr (Inr (a, i))"
  shows "sound_flight \<lparr>xt_key = key, xt_action = sel, xt_target = target, xt_session = session, xt_token = token, xt_act = a, xt_item = i, xt_phase = Accepted\<rparr>"
proof -
  obtain item where item: "find_live_item (ae_mac env) items key target = Inr item" "action_from_item (ae_mac env) item = Inr a" "sel \<in> set SAFE_ACTIONS"
    using assms by (auto simp: accept_execution_def split: if_splits option.splits sum.splits)
  then obtain b where b: "action_for_item (ae_mac env) item = Inr (Some b)" "aa_key b = key" "aa_task b = target" "\<not> aa_blocked b"
    using find_live_itemD by blast
  then have "a = b" using item by (simp add: action_from_item_def)
  then show ?thesis using b item action_for_itemD(5)[OF b(1)] by (simp add: sound_flight_def)
qed

lemma use_confirmationD:
  assumes "use_confirmation env now token key sel target user session db = Inr db'"
  obtains c where "tbl_get (af_sel (ae_sha env token)) (at_confirmations db) = Some c" "af_user c = user" "af_session c = session" "af_key c = key"
    "af_action c = sel" "af_target c = target" "now \<le> af_expires c" "af_used c = None"
    "db' = db\<lparr>at_confirmations := tbl_upd (\<lambda>x. af_sel (ae_sha env token) x \<and> af_used x = None) (\<lambda>x. x\<lparr>af_used := Some now\<rparr>) (at_confirmations db)\<rparr>"
  using assms by (auto simp: use_confirmation_def split: option.splits if_splits)

lemma use_backed:
  assumes "use_confirmation env now (xt_token f) (xt_key f) (xt_action f) (xt_target f) owner (xt_session f) db = Inr db'"
  shows "backed env owner db' f" and "at_outcomes db' = at_outcomes db" and "afk.uniq (at_confirmations db) \<Longrightarrow> afk.uniq (at_confirmations db')"
    and "backed env owner db g \<Longrightarrow> backed env owner db' g"
    and "afk.uniq (at_confirmations db) \<Longrightarrow> backed env owner db g \<Longrightarrow> ae_sha env (xt_token g) \<noteq> ae_sha env (xt_token f)"
proof -
  obtain c where c: "tbl_get (af_sel (ae_sha env (xt_token f))) (at_confirmations db) = Some c" "af_user c = owner" "af_session c = xt_session f" "af_key c = xt_key f"
    "af_action c = xt_action f" "af_target c = xt_target f" "now \<le> af_expires c" "af_used c = None"
    "db' = db\<lparr>at_confirmations := tbl_upd (\<lambda>x. af_sel (ae_sha env (xt_token f)) x \<and> af_used x = None) (\<lambda>x. x\<lparr>af_used := Some now\<rparr>) (at_confirmations db)\<rparr>"
    using assms by (rule use_confirmationD)
  have cm: "c \<in> set (at_confirmations db)" "af_hash c = ae_sha env (xt_token f)" using c(1) tbl_get_Some_iff[OF c(1)] by (auto simp: af_sel_def)
  have "c\<lparr>af_used := Some now\<rparr> \<in> set (at_confirmations db')" using c cm by (force simp: set_tbl_upd af_sel_def)
  then show "backed env owner db' f" unfolding backed_def using c cm by (intro bexI[of _ "c\<lparr>af_used := Some now\<rparr>"]) simp_all
  show "at_outcomes db' = at_outcomes db" using c by simp
  show "afk.uniq (at_confirmations db')" if "afk.uniq (at_confirmations db)" using c that by (simp add: afk.uniq_upd)
  show "backed env owner db' g" if "backed env owner db g"
    using that by (rule backed_mono) (use c in \<open>force simp: set_tbl_upd\<close>)
  show "ae_sha env (xt_token g) \<noteq> ae_sha env (xt_token f)" if u: "afk.uniq (at_confirmations db)" and g: "backed env owner db g"
  proof
    assume e: "ae_sha env (xt_token g) = ae_sha env (xt_token f)"
    obtain x where "x \<in> set (at_confirmations db)" "af_hash x = ae_sha env (xt_token g)" "af_used x \<noteq> None"
      using g by (auto simp: backed_def)
    then show False using afk.uniq_same[OF u, of x c] cm c(8) e by simp
  qed
qed

lemma claimD:
  assumes "claim_pending now a item_id user session sel target db = (db', None)" and "\<forall>r \<in> set (at_outcomes db). ao_user r = user"
  obtains r where "\<not> tbl_ex (ao_sel (aa_key a)) (at_outcomes db)" "db' = db\<lparr>at_outcomes := at_outcomes db @ [r]\<rparr>"
    "ao_key r = aa_key a" "ao_user r = user" "ao_status r = ''pending''" "ao_action r = sel"
proof -
  have free: "\<not> tbl_ex (ao_sel (aa_key a)) (at_outcomes db)"
  proof
    assume e: "tbl_ex (ao_sel (aa_key a)) (at_outcomes db)"
    then have "outcome_of (aa_key a) user db \<noteq> None" using assms(2)
      by (auto simp: outcome_of_def tbl_get_None_iff tbl_ex_iff ao_sel_def)
    then show False using assms(1) e by (auto simp: claim_pending_def)
  qed
  show ?thesis using assms(1) free by (intro that[OF free]) (auto simp: claim_pending_def)
qed

lemma prepared_confirmations:
  assumes "prepare_confirmation env now token items key sel target user session db = Inr db'"
  shows "at_outcomes db' = at_outcomes db \<and> set (at_confirmations db) \<subseteq> set (at_confirmations db')
    \<and> (afk.uniq (at_confirmations db) \<longrightarrow> afk.uniq (at_confirmations db'))"
  using assms
  by (auto simp: prepare_confirmation_def store_confirmation_def tbl_ex_iff tbl_get_None_iff split: if_splits sum.splits intro!: afk.uniq_insert)

lemma reported_more: "reported as r \<Longrightarrow> reported (as @ bs) r"
  by (auto simp: reported_def)

lemma desk_inv_prepared:
  assumes "desk_inv env owner d" and "prepare_confirmation env now token items key sel target owner session (dk_db d) = Inr db'"
  shows "desk_inv env owner (d\<lparr>dk_db := db'\<rparr>)"
proof -
  note p = prepared_confirmations[OF assms(2)]
  have b: "backed env owner db' f" if "backed env owner (dk_db d) f" for f using that by (rule backed_mono) (use p in auto)
  show ?thesis using assms(1) p b by (simp add: desk_inv_def token_hashes_def running_keys_def)
qed

lemma desk_inv_accepted:
  assumes "desk_inv env owner d" and "sound_flight f" and "xt_phase f = Accepted"
  shows "desk_inv env owner (d\<lparr>dk_flights := dk_flights d @ [f]\<rparr>)"
  using assms by (auto simp: desk_inv_def token_hashes_def running_keys_def)

lemma desk_inv_confirmed:
  assumes inv: "desk_inv env owner d" and fl: "dk_flights d = xs @ f # ys" "xt_phase f = Accepted"
    and use: "use_confirmation env now (xt_token f) (xt_key f) (xt_action f) (xt_target f) owner (xt_session f) (dk_db d) = Inr db'"
  shows "desk_inv env owner (d\<lparr>dk_db := db', dk_flights := xs @ f\<lparr>xt_phase := Confirmed\<rparr> # ys\<rparr>)"
proof -
  have uq: "afk.uniq (at_confirmations (dk_db d))" using inv by (simp add: desk_inv_def)
  note u = use_backed[OF use]
  have "backed env owner (dk_db d) g" if "g \<in> set (dk_calls d @ filter (\<lambda>f. xt_phase f = Confirmed) (dk_flights d))" for g
    using that inv by (auto simp: desk_inv_def)
  from u(5)[OF uq this] have "ae_sha env (xt_token f) \<notin> set (token_hashes env d)" unfolding token_hashes_def by (metis (no_types, lifting) imageE set_map)
  then have "distinct (token_hashes env (d\<lparr>dk_db := db', dk_flights := xs @ f\<lparr>xt_phase := Confirmed\<rparr> # ys\<rparr>))"
    using inv fl by (auto simp: token_hashes_def desk_inv_def)
  moreover have "running_keys (d\<lparr>dk_db := db', dk_flights := xs @ f\<lparr>xt_phase := Confirmed\<rparr> # ys\<rparr>) = running_keys d"
    using fl by (simp add: running_keys_def)
  moreover have "\<forall>g \<in> set (xs @ f\<lparr>xt_phase := Confirmed\<rparr> # ys). sound_flight g \<and> (xt_phase g \<noteq> Accepted \<longrightarrow> backed env owner db' g)"
    using inv fl u(1) u(4) by (auto simp: desk_inv_def)
  moreover have "\<forall>g \<in> set (dk_calls d). sound_flight g \<and> backed env owner db' g" using inv u(4) by (simp add: desk_inv_def)
  ultimately show ?thesis using inv u(2) u(3)[OF uq] by (simp add: desk_inv_def)
qed

lemma desk_inv_claimed:
  assumes inv: "desk_inv env owner d" and fl: "dk_flights d = xs @ f # ys" "xt_phase f = Confirmed"
    and claim: "claim_pending now (xt_act f) (xt_item f) owner (xt_session f) (xt_action f) (xt_target f) (dk_db d) = (db', None)"
  shows "desk_inv env owner (d\<lparr>dk_db := db', dk_flights := xs @ f\<lparr>xt_phase := Running\<rparr> # ys, dk_calls := dk_calls d @ [f]\<rparr>)"
    (is "desk_inv env owner ?d")
proof -
  have "\<forall>r \<in> set (at_outcomes (dk_db d)). ao_user r = owner" using inv by (simp add: desk_inv_def)
  from claimD[OF claim this] obtain r where r: "\<not> tbl_ex (ao_sel (aa_key (xt_act f))) (at_outcomes (dk_db d))"
    "db' = dk_db d\<lparr>at_outcomes := at_outcomes (dk_db d) @ [r]\<rparr>" "ao_key r = aa_key (xt_act f)" "ao_user r = owner" "ao_status r = ''pending''" "ao_action r = xt_action f" .
  have f: "sound_flight f" "backed env owner (dk_db d) f" using inv fl by (auto simp: desk_inv_def)
  then have key: "ao_key r = xt_key f" using r by (simp add: sound_flight_def)
  have bk: "backed env owner db' g = backed env owner (dk_db d) g" for g by (rule backed_cong) (simp add: r)
  have fresh: "xt_key f \<notin> ao_key ` set (at_outcomes (dk_db d))" using r(1) key r(3) by (auto simp: tbl_ex_iff ao_sel_def)
  have "tbl_get (ao_sel (ao_key r)) (at_outcomes (dk_db d)) = None" using r(1,3) by (simp add: tbl_ex_iff tbl_get_None_iff)
  then have "aok.uniq (at_outcomes db')" using inv aok.uniq_insert by (simp add: r(2) desk_inv_def)
  moreover have "map ao_key (at_outcomes db') = map xt_key (dk_calls d @ [f])" using inv key by (simp add: r(2) desk_inv_def)
  moreover have "\<forall>x \<in> set (at_outcomes db'). ao_user x = owner \<and> ao_action x \<in> set SAFE_ACTIONS \<and> reported (dk_answers d) x"
    using inv r f by (simp add: desk_inv_def reported_def sound_flight_def)
  moreover have "\<forall>g \<in> set (xs @ f\<lparr>xt_phase := Running\<rparr> # ys). sound_flight g \<and> (xt_phase g \<noteq> Accepted \<longrightarrow> backed env owner db' g)"
    using inv fl f by (auto simp: desk_inv_def bk)
  moreover have "\<forall>g \<in> set (dk_calls d @ [f]). sound_flight g \<and> backed env owner db' g" using inv f unfolding bk by (simp add: desk_inv_def)
  moreover have "distinct (token_hashes env ?d)" using inv fl by (auto simp: token_hashes_def desk_inv_def)
  moreover have "set (running_keys d) \<subseteq> ao_key ` set (at_outcomes (dk_db d))" using inv by (force simp: desk_inv_def)
  then have "distinct (running_keys ?d)" using inv fl fresh by (auto simp: running_keys_def desk_inv_def)
  moreover have "\<forall>k \<in> set (running_keys ?d). \<exists>x \<in> set (at_outcomes db'). ao_key x = k \<and> ao_status x = ''pending''"
    using inv fl r(5) key by (auto simp: running_keys_def desk_inv_def r(2))
  ultimately show ?thesis using inv r by (simp add: desk_inv_def)
qed

lemma desk_inv_left:
  assumes "desk_inv env owner d" and "dk_flights d = xs @ f # ys"
  shows "desk_inv env owner (d\<lparr>dk_flights := xs @ ys\<rparr>)"
  using assms by (auto simp: desk_inv_def token_hashes_def running_keys_def split: if_splits)

lemma running_pending:
  assumes inv: "desk_inv env owner d" and fl: "dk_flights d = xs @ f # ys" "xt_phase f = Running"
    and r: "r \<in> set (at_outcomes (dk_db d))" "ao_key r = xt_key f"
  shows "ao_status r = ''pending''"
proof -
  have uq: "aok.uniq (at_outcomes (dk_db d))" using inv by (simp add: desk_inv_def)
  have "xt_key f \<in> set (running_keys d)" using fl by (simp add: running_keys_def)
  then obtain x where x: "x \<in> set (at_outcomes (dk_db d))" "ao_key x = xt_key f" "ao_status x = ''pending''" using inv by (auto simp: desk_inv_def)
  then show ?thesis using aok.uniq_same[OF uq r(1) x(1)] r(2) by simp
qed

lemma desk_inv_recorded:
  assumes inv: "desk_inv env owner d" and fl: "dk_flights d = xs @ f # ys" "xt_phase f = Running"
  shows "desk_inv env owner (d\<lparr>dk_db := record_outcome now ok (xt_act f) (xt_target f) owner (dk_db d), dk_flights := xs @ ys,
      dk_answers := dk_answers d @ [(xt_key f, ok)]\<rparr>)" (is "desk_inv env owner ?d")
proof -
  let ?db = "record_outcome now ok (xt_act f) (xt_target f) owner (dk_db d)"
  have key: "aa_key (xt_act f) = xt_key f" using inv fl by (auto simp: desk_inv_def sound_flight_def)
  have bk: "backed env owner ?db g = backed env owner (dk_db d) g" for g by (rule backed_cong) (simp add: record_outcome_def)
  have keys: "map ao_key (at_outcomes ?db) = map ao_key (at_outcomes (dk_db d))" unfolding record_outcome_def by (simp add: map_tbl_upd)
  moreover have "aok.uniq (at_outcomes (dk_db d))" using inv by (simp add: desk_inv_def)
  ultimately have "aok.uniq (at_outcomes ?db)" unfolding aok.uniq_def by (simp only:)
  moreover have "ao_user x = owner \<and> ao_action x \<in> set SAFE_ACTIONS \<and> reported (dk_answers ?d) x" if "x \<in> set (at_outcomes ?db)" for x
  proof -
    from that have "x \<in> set (tbl_upd (\<lambda>r. ao_key r = xt_key f \<and> ao_user r = owner)
       (\<lambda>r. r\<lparr>ao_status := if ok then ''succeeded'' else ''failed'', ao_evidence := final_evidence (xt_act f) (xt_target f) ok, ao_updated := now\<rparr>)
       (at_outcomes (dk_db d)))" by (simp add: record_outcome_def key)
    then show ?thesis by (rule tbl_updE) (use inv in \<open>auto simp: desk_inv_def reported_def\<close>)
  qed
  moreover have "\<exists>x \<in> set (at_outcomes ?db). ao_key x = k \<and> ao_status x = ''pending''" if k: "k \<in> set (running_keys ?d)" for k
  proof -
    have "k \<noteq> xt_key f" "k \<in> set (running_keys d)" using k inv fl by (auto simp: running_keys_def desk_inv_def)
    then obtain x where "x \<in> set (at_outcomes (dk_db d))" "ao_key x = k" "ao_status x = ''pending''" "k \<noteq> xt_key f"
      using inv by (auto simp: desk_inv_def)
    then show ?thesis by (intro bexI[of _ x]) (auto simp: record_outcome_def set_tbl_upd key image_iff intro!: bexI[of _ x])
  qed
  moreover have "distinct (token_hashes env ?d)" "distinct (running_keys ?d)"
    using inv fl by (auto simp: desk_inv_def token_hashes_def running_keys_def)
  moreover have "\<forall>g \<in> set (xs @ ys). sound_flight g \<and> (xt_phase g \<noteq> Accepted \<longrightarrow> backed env owner ?db g)"
    "\<forall>g \<in> set (dk_calls d). sound_flight g \<and> backed env owner ?db g"
    "at_confirmations ?db = at_confirmations (dk_db d)"
    using inv fl unfolding bk by (auto simp: desk_inv_def record_outcome_def)
  ultimately show ?thesis using inv keys by (simp add: desk_inv_def)
qed

lemma astep_inv: "astep env owner d d' \<Longrightarrow> desk_inv env owner d \<Longrightarrow> desk_inv env owner d'"
  by (induction rule: astep.induct)
    (simp_all add: desk_inv_prepared desk_inv_accepted accept_sound desk_inv_confirmed desk_inv_claimed desk_inv_recorded desk_inv_left)

lemma desk_reached_inv: "desk_reached env owner d \<Longrightarrow> desk_inv env owner d"
proof (induction rule: desk_reached.induct)
  case start
  show ?case by (simp add: desk_inv_def empty_desk_def aok.uniq_Nil afk.uniq_Nil token_hashes_def running_keys_def)
qed (rule astep_inv)

text \<open>C28. However executions interleave, crash or are cancelled between their transactions: the executor is asked at most once per action
  key and at most once per confirmation token; every time, for a safe action on the exact task of an unblocked decision, under a
  confirmation that the same session of the owner prepared for this key, action and target and that was used before it expired; and
  an outcome reads succeeded or failed only if the executor answered so for that key.\<close>

theorem action_executed_once:
  assumes "desk_reached env owner d"
  shows "distinct (map xt_key (dk_calls d)) \<and> distinct (map (\<lambda>f. ae_sha env (xt_token f)) (dk_calls d))
    \<and> (\<forall>f \<in> set (dk_calls d). sound_flight f \<and> backed env owner (dk_db d) f)
    \<and> (\<forall>r \<in> set (at_outcomes (dk_db d)). reported (dk_answers d) r)"
  using desk_reached_inv[OF assms] by (auto simp: desk_inv_def aok.uniq_def token_hashes_def)

lemma outcome_kept:
  assumes "astep env owner d d'" and "desk_inv env owner d" and "r \<in> set (at_outcomes (dk_db d))" and "ao_status r \<noteq> ''pending''"
  shows "r \<in> set (at_outcomes (dk_db d'))"
  using assms
proof (induction rule: astep.induct)
  case (prepared now token items key sel target session d db')
  then show ?case using prepared_confirmations by auto
next
  case (confirmed d xs f ys now db')
  then show ?case using use_backed(2) by auto
next
  case (claimed d xs f ys now db')
  then show ?case by (auto simp: claim_pending_def split: if_splits)
next
  case (recorded d xs f ys now ok)
  have "aa_key (xt_act f) = xt_key f" using recorded by (auto simp: desk_inv_def sound_flight_def)
  then have "ao_key r \<noteq> aa_key (xt_act f)" using running_pending recorded by metis
  then show ?case using recorded by (auto simp: record_outcome_def set_tbl_upd image_iff intro!: bexI[of _ r])
qed simp_all

lemma steps_inv: "(astep env owner)\<^sup>*\<^sup>* d d' \<Longrightarrow> desk_inv env owner d \<Longrightarrow> desk_inv env owner d'"
  by (induction rule: rtranclp_induct) (auto intro: astep_inv)

lemma outcome_stays:
  assumes "(astep env owner)\<^sup>*\<^sup>* d d'" and "desk_inv env owner d" and "r \<in> set (at_outcomes (dk_db d))" and "ao_status r \<noteq> ''pending''"
  shows "r \<in> set (at_outcomes (dk_db d'))"
  using assms
proof (induction rule: rtranclp_induct)
  case (step e f)
  then show ?case using outcome_kept steps_inv by metis
qed simp

text \<open>C29. A recorded outcome is final: whatever the owner's executions do afterwards, it stays as it was, and repeating the request for its
  key, with any token and even when the decision is no longer listed, is answered with exactly that outcome and asks nobody.\<close>

theorem attention_outcome_final:
  assumes "desk_reached env owner d" and "(astep env owner)\<^sup>*\<^sup>* d d'" and "r \<in> set (at_outcomes (dk_db d))" and "ao_status r \<noteq> ''pending''"
  shows "execute_confirmation env now later ok items (ao_key r) (ao_action r) (ao_target r) token owner session (dk_db d')
    = Inr (dk_db d', Some r, False)"
proof -
  have inv: "desk_inv env owner d'" by (rule steps_inv[OF assms(2) desk_reached_inv[OF assms(1)]])
  have r: "r \<in> set (at_outcomes (dk_db d'))" by (rule outcome_stays[OF assms(2) desk_reached_inv[OF assms(1)] assms(3,4)])
  have "outcome_of (ao_key r) owner (dk_db d') = Some x \<Longrightarrow> x = r" for x
    using inv r aok.uniq_same[of "at_outcomes (dk_db d')" x r] by (auto simp: outcome_of_def desk_inv_def dest!: tbl_get_Some_iff)
  moreover have "outcome_of (ao_key r) owner (dk_db d') \<noteq> None" using inv r by (auto simp: outcome_of_def tbl_get_None_iff desk_inv_def)
  ultimately have o: "outcome_of (ao_key r) owner (dk_db d') = Some r" by auto
  have "ao_action r \<in> set SAFE_ACTIONS" using inv r by (simp add: desk_inv_def)
  then show ?thesis by (simp add: execute_confirmation_def accept_execution_def o)
qed

subsection \<open>Sample run\<close>

definition sample_attn_env :: attn_env where "sample_attn_env = \<lparr>ae_mac = id, ae_sha = id\<rparr>"

definition attn_prepared :: attn_db where
  "attn_prepared = (case prepare_confirmation sample_attn_env 100 ''tok'' [sample_decision] (aa_key sample_action) ''reject'' ''task-1'' ''owner'' ''s1''
     (dk_db empty_desk) of Inl _ \<Rightarrow> dk_db empty_desk | Inr db \<Rightarrow> db)"

definition sample_flight :: execution where
  "sample_flight = \<lparr>xt_key = aa_key sample_action, xt_action = ''reject'', xt_target = ''task-1'', xt_session = ''s1'', xt_token = ''tok'',
     xt_act = sample_action, xt_item = ''captain-question-task-1'', xt_phase = Accepted\<rparr>"

definition attn_used :: attn_db where
  "attn_used = (case use_confirmation sample_attn_env 400 ''tok'' (aa_key sample_action) ''reject'' ''task-1'' ''owner'' ''s1'' attn_prepared of
     Inl _ \<Rightarrow> attn_prepared | Inr db \<Rightarrow> db)"

definition attn_claimed :: attn_db where
  "attn_claimed = fst (claim_pending 400 sample_action ''captain-question-task-1'' ''owner'' ''s1'' ''reject'' ''task-1'' attn_used)"

definition attn_recorded :: attn_db where
  "attn_recorded = record_outcome 401 True sample_action ''task-1'' ''owner'' attn_claimed"

definition sample_running :: desk where
  "sample_running = \<lparr>dk_db = attn_claimed, dk_flights = [sample_flight\<lparr>xt_phase := Running\<rparr>], dk_calls = [sample_flight\<lparr>xt_phase := Confirmed\<rparr>],
     dk_answers = []\<rparr>"

definition sample_recorded :: desk where
  "sample_recorded = \<lparr>dk_db = attn_recorded, dk_flights = [], dk_calls = [sample_flight\<lparr>xt_phase := Confirmed\<rparr>],
     dk_answers = [(aa_key sample_action, True)]\<rparr>"

lemma sample_running_reached: "desk_reached sample_attn_env ''owner'' sample_running"
proof -
  let ?e = sample_attn_env and ?o = "''owner''"
  have "prepare_confirmation ?e 100 ''tok'' [sample_decision] (aa_key sample_action) ''reject'' ''task-1'' ?o ''s1'' (dk_db empty_desk) = Inr attn_prepared"
    by code_simp
  from desk_reached.step[OF desk_reached.start astep.prepared[OF this]]
  have 1: "desk_reached ?e ?o \<lparr>dk_db = attn_prepared, dk_flights = [], dk_calls = [], dk_answers = []\<rparr>" by (simp add: empty_desk_def)
  have "accept_execution ?e [sample_decision] (aa_key sample_action) ''reject'' ''task-1'' ''tok'' ?o attn_prepared
      = Inr (Inr (sample_action, ''captain-question-task-1''))" by code_simp
  then have "astep ?e ?o \<lparr>dk_db = attn_prepared, dk_flights = [], dk_calls = [], dk_answers = []\<rparr>
      \<lparr>dk_db = attn_prepared, dk_flights = [sample_flight], dk_calls = [], dk_answers = []\<rparr>"
    using astep.accepted[where env = ?e and owner = ?o and d = "\<lparr>dk_db = attn_prepared, dk_flights = [], dk_calls = [], dk_answers = []\<rparr>" and session = "''s1''"]
    by (simp add: sample_flight_def)
  from desk_reached.step[OF 1 this]
  have 2: "desk_reached ?e ?o \<lparr>dk_db = attn_prepared, dk_flights = [sample_flight], dk_calls = [], dk_answers = []\<rparr>" .
  have "use_confirmation ?e 400 ''tok'' (aa_key sample_action) ''reject'' ''task-1'' ?o ''s1'' attn_prepared = Inr attn_used" by code_simp
  then have "astep ?e ?o \<lparr>dk_db = attn_prepared, dk_flights = [sample_flight], dk_calls = [], dk_answers = []\<rparr>
      \<lparr>dk_db = attn_used, dk_flights = [sample_flight\<lparr>xt_phase := Confirmed\<rparr>], dk_calls = [], dk_answers = []\<rparr>"
    using astep.confirmed[where env = ?e and owner = ?o and d = "\<lparr>dk_db = attn_prepared, dk_flights = [sample_flight], dk_calls = [], dk_answers = []\<rparr>"
      and xs = "[]" and f = sample_flight and ys = "[]" and now = 400] by (simp add: sample_flight_def)
  from desk_reached.step[OF 2 this]
  have 3: "desk_reached ?e ?o \<lparr>dk_db = attn_used, dk_flights = [sample_flight\<lparr>xt_phase := Confirmed\<rparr>], dk_calls = [], dk_answers = []\<rparr>" .
  have "claim_pending 400 sample_action ''captain-question-task-1'' ?o ''s1'' ''reject'' ''task-1'' attn_used = (attn_claimed, None)" by code_simp
  then have "astep ?e ?o \<lparr>dk_db = attn_used, dk_flights = [sample_flight\<lparr>xt_phase := Confirmed\<rparr>], dk_calls = [], dk_answers = []\<rparr> sample_running"
    using astep.claimed[where env = ?e and owner = ?o and d = "\<lparr>dk_db = attn_used, dk_flights = [sample_flight\<lparr>xt_phase := Confirmed\<rparr>], dk_calls = [], dk_answers = []\<rparr>"
      and xs = "[]" and f = "sample_flight\<lparr>xt_phase := Confirmed\<rparr>" and ys = "[]" and now = 400] by (simp add: sample_flight_def sample_running_def)
  from desk_reached.step[OF 3 this] show ?thesis .
qed

lemma sample_recorded_step: "astep sample_attn_env ''owner'' sample_running sample_recorded"
  using astep.recorded[where env = sample_attn_env and owner = "''owner''" and d = sample_running and xs = "[]" and f = "sample_flight\<lparr>xt_phase := Running\<rparr>"
    and ys = "[]" and now = 401 and ok = True]
  by (simp add: sample_running_def sample_recorded_def sample_flight_def attn_recorded_def)

theorem action_executed_once_witness:
  "desk_reached sample_attn_env ''owner'' sample_recorded \<and> map xt_target (dk_calls sample_recorded) = [''task-1'']
   \<and> distinct (map xt_key (dk_calls sample_recorded)) \<and> map ao_status (at_outcomes (dk_db sample_recorded)) = [''succeeded'']"
proof -
  have r: "desk_reached sample_attn_env ''owner'' sample_recorded" by (rule desk_reached.step[OF sample_running_reached sample_recorded_step])
  have "map ao_status (at_outcomes (dk_db sample_recorded)) = [''succeeded'']" by code_simp
  then show ?thesis using action_executed_once[OF r] r by (simp add: sample_recorded_def sample_flight_def)
qed

theorem attention_outcome_final_witness:
  "\<exists>r. ao_status r = ''succeeded'' \<and> execute_confirmation sample_attn_env 900 901 False [] (ao_key r) (ao_action r) (ao_target r) ''other'' ''owner'' ''s2''
     (dk_db sample_recorded) = Inr (dk_db sample_recorded, Some r, False)"
proof -
  let ?r = "hd (at_outcomes (dk_db sample_recorded))"
  have "at_outcomes (dk_db sample_recorded) \<noteq> [] \<and> ao_status ?r = ''succeeded''" by code_simp
  then have "?r \<in> set (at_outcomes (dk_db sample_recorded))" "ao_status ?r = ''succeeded''" by auto
  moreover have "desk_reached sample_attn_env ''owner'' sample_recorded" by (rule desk_reached.step[OF sample_running_reached sample_recorded_step])
  ultimately show ?thesis
    using attention_outcome_final[where env = sample_attn_env and owner = "''owner''" and d = sample_recorded and d' = sample_recorded and r = ?r
      and now = 900 and later = 901 and ok = False and items = "[]" and token = "''other''" and session = "''s2''"] by auto
qed

subsection \<open>A second owner\<close>

text \<open>The table has one outcome per action key, but a conflict is looked up by key and user: a claim that meets an outcome of another user
  finds none, and the execution goes on to the executor without a row of its own. Only the single configured owner of the API
  keeps this from happening.\<close>

lemma claim_meets_foreign_outcome:
  assumes "r \<in> set (at_outcomes db)" and "ao_key r = aa_key a" and "\<not> tbl_ex (\<lambda>x. ao_key x = aa_key a \<and> ao_user x = user) (at_outcomes db)"
  shows "claim_pending now a item_id user session sel target db = (db, None)"
proof -
  have "tbl_ex (ao_sel (aa_key a)) (at_outcomes db)" using assms(1,2) by (auto simp: tbl_ex_iff ao_sel_def)
  moreover have "outcome_of (aa_key a) user db = None" using assms(3) by (auto simp: outcome_of_def tbl_ex_iff tbl_get_None_iff)
  ultimately show ?thesis by (simp add: claim_pending_def)
qed

text \<open>The text recorded for a rejection.\<close>

lemma rejection_text: "decision_text ''reject'' = ''Rejectd by Captain via Magistrate Attention.''"
  by code_simp

end
