(* ===== verification/Account_Lifecycle.thy ===== *)
theory Account_Lifecycle
  imports Sessions OAuth_Transactions
begin

text \<open>
  \<open>app/account_lifecycle.py\<close>: erasure of one account and the retention of authentication rows. Erasure is a list of
  \<open>DELETE\<close> statements over almost every table, so its database is generic here: the tables by name, a row the list of its
  non-null columns. The statements are data (\<open>deletion\<close>) that \<open>run_deletions\<close> executes in the order of the source.
  Retention works on the tables of the session model. Foreign keys are not enforced (SQLite with the pragma off).
\<close>

type_synonym cells = "(string \<times> string) list"
type_synonym any_db = "string \<rightharpoonup> cells list"

definition cell :: "cells \<Rightarrow> string \<Rightarrow> string option" where "cell r c = map_of r c"

definition rows_of :: "any_db \<Rightarrow> string \<Rightarrow> cells list" where
  "rows_of d t = (case d t of None \<Rightarrow> [] | Some rs \<Rightarrow> rs)"

text \<open>\<open>Owned t c\<close> is \<open>DELETE FROM t WHERE c = ?\<close>; \<open>Child t fk p k c\<close> is \<open>WHERE fk IN (SELECT k FROM p WHERE c = ?)\<close>; \<open>TurnChild t\<close> is
  \<open>WHERE turn_id IN\<close> the turns of the account's retired conversations.\<close>

datatype deletion = Owned string string | Child string string string string string | TurnChild string

fun target :: "deletion \<Rightarrow> string" where
  "target (Owned t c) = t"
| "target (Child t fk p k c) = t"
| "target (TurnChild t) = t"

fun read_tables :: "deletion \<Rightarrow> string list" where
  "read_tables (Owned t c) = []"
| "read_tables (Child t fk p k c) = [p]"
| "read_tables (TurnChild t) = [''conversation_turns'', ''conversations'']"

fun selected :: "string \<Rightarrow> any_db \<Rightarrow> deletion \<Rightarrow> cells \<Rightarrow> bool" where
  "selected u d (Owned t c) r \<longleftrightarrow> cell r c = Some u"
| "selected u d (Child t fk p k c) r \<longleftrightarrow> list_ex (\<lambda>x. cell x c = Some u \<and> cell x k \<noteq> None \<and> cell x k = cell r fk) (rows_of d p)"
| "selected u d (TurnChild t) r \<longleftrightarrow>
     list_ex (\<lambda>x. list_ex (\<lambda>y. cell y ''user_id'' = Some u \<and> cell y ''id'' \<noteq> None \<and> cell y ''id'' = cell x ''conversation_id'') (rows_of d ''conversations'')
       \<and> cell x ''id'' \<noteq> None \<and> cell x ''id'' = cell r ''turn_id'') (rows_of d ''conversation_turns'')"

text \<open>A missing table is skipped; a subquery over a missing table raises.\<close>

definition run_deletion :: "string \<Rightarrow> deletion \<Rightarrow> any_db \<times> nat \<Rightarrow> (any_db \<times> nat) option" where
  "run_deletion u x s =
     (case s of (d, n) \<Rightarrow>
        (case d (target x) of
           None \<Rightarrow> Some (d, n)
         | Some rs \<Rightarrow> if list_ex (\<lambda>p. d p = None) (read_tables x) then None
             else Some (d(target x \<mapsto> filter (\<lambda>r. \<not> selected u d x r) rs), n + length (filter (selected u d x) rs))))"

fun run_deletions :: "string \<Rightarrow> deletion list \<Rightarrow> any_db \<times> nat \<Rightarrow> (any_db \<times> nat) option" where
  "run_deletions u [] s = Some s"
| "run_deletions u (x # xs) s = (case run_deletion u x s of None \<Rightarrow> None | Some s' \<Rightarrow> run_deletions u xs s')"

definition INDIRECT :: "deletion list" where
  "INDIRECT =
    [Owned ''hosted_decision_deliveries'' ''owner_user_id'', Owned ''firstmate_decision_answers'' ''owner_user_id'',
     Owned ''firstmate_decision_answer_confirmations'' ''owner_user_id'', Owned ''firstmate_decision_events'' ''owner_user_id'',
     Owned ''firstmate_decisions'' ''owner_user_id'', Owned ''firstmate_execution_events'' ''owner_user_id'',
     Owned ''firstmate_execution_objectives'' ''owner_user_id'', Owned ''pi_semantic_dispatches'' ''user_id'',
     Child ''project_memory_terms'' ''entry_id'' ''project_memory_entries'' ''entry_id'' ''owner_user_id'',
     Child ''project_memory_revisions'' ''entry_id'' ''project_memory_entries'' ''entry_id'' ''owner_user_id'',
     Owned ''chat_message_attachments'' ''user_id'', Owned ''chat_uploads'' ''user_id'',
     Child ''magi_message_changes'' ''conversation_id'' ''magi_conversations'' ''id'' ''owner_user_id'',
     Owned ''magi_generated_messages'' ''owner_user_id'', Owned ''magi_messages'' ''owner_user_id'', Owned ''magi_conversations'' ''owner_user_id'',
     TurnChild ''magi_additional_response_events'', TurnChild ''magi_response_events'', TurnChild ''conversation_assistant_reservations'',
     Child ''conversation_changes'' ''conversation_id'' ''conversations'' ''id'' ''user_id'',
     Child ''conversation_messages'' ''conversation_id'' ''conversations'' ''id'' ''user_id'',
     Child ''conversation_turns'' ''conversation_id'' ''conversations'' ''id'' ''user_id'', Owned ''conversations'' ''user_id'',
     Child ''github_app_repositories'' ''installation_id'' ''github_app_installations'' ''installation_id'' ''user_id'',
     Owned ''gateway_sessions'' ''user_id'',
     Child ''provider_refresh_tokens'' ''family_id'' ''provider_session_families'' ''family_id'' ''user_id'',
     Child ''provider_assertions'' ''connected_account_id'' ''connected_accounts'' ''id'' ''user_id'',
     Child ''provider_capabilities'' ''connected_account_id'' ''connected_accounts'' ''id'' ''user_id'',
     Child ''oauth_credentials'' ''connected_account_id'' ''connected_accounts'' ''id'' ''user_id'',
     Owned ''provider_session_families'' ''user_id'', Owned ''connected_accounts'' ''user_id'',
     Owned ''notification_push_deliveries'' ''user_id'', Owned ''notification_events'' ''user_id'', Owned ''notification_state'' ''user_id'',
     Owned ''notification_preferences'' ''user_id'', Owned ''push_tokens'' ''user_id'']"

definition DIRECT_OWNER_TABLES :: "(string \<times> string) list" where
  "DIRECT_OWNER_TABLES =
    [(''account_onboarding'', ''user_id''), (''account_credit_ledger'', ''owner_user_id''), (''execution_usage_ledger'', ''owner_user_id''),
     (''objective_state_projections'', ''owner_user_id''), (''personal_resource_reservations'', ''owner_user_id''),
     (''credit_reservations'', ''owner_user_id''), (''credit_ledger'', ''owner_user_id''), (''billing_checkout_sessions'', ''owner_user_id''),
     (''billing_accounts'', ''owner_user_id''), (''project_memory_retrievals'', ''owner_user_id''), (''project_memory_audit'', ''owner_user_id''),
     (''project_memory_entries'', ''owner_user_id''), (''project_memories'', ''owner_user_id''), (''project_repositories'', ''owner_user_id''),
     (''projects'', ''owner_user_id''), (''workspaces'', ''owner_user_id''), (''objective_cancellation_requests'', ''owner_user_id''),
     (''hosted_execution_runs'', ''owner_user_id''), (''magi_objective_submissions'', ''owner_user_id''),
     (''firstmate_execution_events'', ''owner_user_id''), (''firstmate_execution_objectives'', ''owner_user_id''),
     (''firstmate_decision_answers'', ''owner_user_id''), (''firstmate_decision_answer_confirmations'', ''owner_user_id''),
     (''firstmate_decision_events'', ''owner_user_id''), (''firstmate_decisions'', ''owner_user_id''),
     (''firstmate_decision_sources'', ''owner_user_id''), (''attention_action_confirmations'', ''user_id''),
     (''attention_action_outcomes'', ''user_id''), (''agent_migration_requests'', ''user_id''), (''conversation_ingest_diagnostics'', ''user_id''),
     (''pi_semantic_dispatches'', ''user_id''), (''activity_changes'', ''user_id''), (''activity_records'', ''user_id''),
     (''canonical_source_events'', ''user_id''), (''activity_sources'', ''user_id''), (''magi_chat_diagnostics'', ''owner_user_id''),
     (''perception_events'', ''owner_user_id''), (''execution_preferences'', ''user_id''), (''execution_credentials'', ''user_id''),
     (''provider_auth_challenges'', ''owner_user_id''), (''oauth_transactions'', ''principal_id''), (''github_app_transactions'', ''user_id''),
     (''github_app_installations'', ''user_id''), (''gateway_sessions'', ''user_id''), (''friend_beta_access_grants'', ''user_id''),
     (''user_profiles'', ''user_id'')]"

definition ERASURE :: "deletion list" where
  "ERASURE = INDIRECT @ map (\<lambda>(t, c). Owned t c) DIRECT_OWNER_TABLES"

subsection \<open>Files\<close>

text \<open>The candidates: the objects of the uploads, by key under the private root or by the path of older rows, and the avatar.
  \<open>fc_root\<close> is the validated storage root (\<open>None\<close> if it is refused), \<open>fc_linked\<close> says that a path under it is a symbolic link
  and \<open>fc_name i\<close> is the quarantine path drawn for candidate \<open>i\<close>.\<close>

record file_config =
  fc_root :: "string option"
  fc_avatars :: string
  fc_linked :: "string \<Rightarrow> bool"
  fc_name :: "nat \<Rightarrow> string"

definition safe_object_key :: "string \<Rightarrow> bool" where
  "safe_object_key s \<longleftrightarrow> 30 \<le> length s \<and> length s \<le> 70 \<and> s ! 2 = CHR ''/'' \<and> s ! 5 = CHR ''/''
     \<and> list_all (\<lambda>c. is_digit c \<or> (97 \<le> code c \<and> code c \<le> 102)) [s ! 0, s ! 1, s ! 3, s ! 4]
     \<and> list_all (\<lambda>c. is_alnum c \<or> c = CHR ''_'' \<or> c = CHR ''-'') (drop 6 s)"

definition object_path :: "file_config \<Rightarrow> string \<Rightarrow> string option" where
  "object_path cfg k =
     (if \<not> safe_object_key k then None
      else case fc_root cfg of None \<Rightarrow> None
        | Some base \<Rightarrow> let candidate = base @ ''/'' @ k in if fc_linked cfg candidate then None else Some candidate)"

definition upload_file :: "file_config \<Rightarrow> cells \<Rightarrow> string list" where
  "upload_file cfg r =
     (case (cell r ''object_key'', cell r ''path'') of
        (Some (c # cs), _) \<Rightarrow> (case object_path cfg (c # cs) of None \<Rightarrow> [] | Some p \<Rightarrow> [p])
      | (_, Some (c # cs)) \<Rightarrow> [c # cs]
      | _ \<Rightarrow> [])"

definition avatar_file :: "file_config \<Rightarrow> string \<Rightarrow> any_db \<Rightarrow> string list" where
  "avatar_file cfg u d =
     (case tbl_get (\<lambda>r. cell r ''user_id'' = Some u) (rows_of d ''user_profiles'') of
        None \<Rightarrow> []
      | Some r \<Rightarrow> (case cell r ''avatar_url'' of
          None \<Rightarrow> []
        | Some url \<Rightarrow> let name = drop (length ''/uploads/avatars/'') url in
            if starts_with ''/uploads/avatars/'' url \<and> name \<noteq> [] \<and> name \<noteq> ''default_avatar.png'' \<and> CHR ''/'' \<notin> set name \<and> name \<noteq> ''.''
            then [fc_avatars cfg @ ''/'' @ name] else []))"

definition account_files :: "file_config \<Rightarrow> string \<Rightarrow> any_db \<Rightarrow> (string \<times> string) list" where
  "account_files cfg u d =
     (let candidates = concat (map (upload_file cfg) (filter (\<lambda>r. cell r ''user_id'' = Some u) (rows_of d ''chat_uploads''))) @ avatar_file cfg u d
      in zip candidates (map (fc_name cfg) [0..<length candidates]))"

text \<open>The bytes by resolved path. \<open>movable\<close> is whether the rename of a path into the quarantine succeeds; a failing one raises
  out of \<open>_stage_files\<close>, and its caller then knows of no staged file.\<close>

type_synonym store = "string \<rightharpoonup> string"

fun stage_files :: "(string \<Rightarrow> bool) \<Rightarrow> (string \<times> string) list \<Rightarrow> store \<Rightarrow> (string \<times> string) list \<Rightarrow> store \<times> (string \<times> string) list option" where
  "stage_files movable [] fs staged = (fs, Some staged)"
| "stage_files movable ((source, quarantine) # cs) fs staged =
     (case fs source of
        None \<Rightarrow> stage_files movable cs fs staged
      | Some bytes \<Rightarrow> if \<not> movable source then (fs, None)
          else stage_files movable cs (fs(source := None, quarantine \<mapsto> bytes)) (staged @ [(source, quarantine)]))"

fun restore_files :: "(string \<times> string) list \<Rightarrow> store \<Rightarrow> store" where
  "restore_files [] fs = fs"
| "restore_files ((source, quarantine) # cs) fs =
     (let fs' = restore_files cs fs in
      case fs' quarantine of None \<Rightarrow> fs' | Some bytes \<Rightarrow> fs'(quarantine := None, source \<mapsto> bytes))"

definition unlink_files :: "(string \<times> string) list \<Rightarrow> store \<Rightarrow> store" where
  "unlink_files staged fs = foldl (\<lambda>f c. f(snd c := None)) fs staged"

subsection \<open>Erasure\<close>

datatype lifecycle_error = AccountDeletionError | DatabaseError | StagingError | InjectedFailure

definition delete_account :: "file_config \<Rightarrow> (string \<Rightarrow> bool) \<Rightarrow> string \<Rightarrow> string \<Rightarrow> bool \<Rightarrow> any_db \<times> store
    \<Rightarrow> (lifecycle_error + nat) \<times> any_db \<times> store" where
  "delete_account cfg movable u confirmation fail_after_stage s =
     (case s of (d, fs) \<Rightarrow>
        if confirmation \<noteq> ''DELETE '' @ u then (Inl AccountDeletionError, d, fs)
        else if \<not> list_ex (\<lambda>r. cell r ''user_id'' = Some u) (rows_of d ''user_profiles'') then (Inl AccountDeletionError, d, restore_files [] fs)
        else (case stage_files movable (account_files cfg u d) fs [] of
            (fs1, None) \<Rightarrow> (Inl StagingError, d, restore_files [] fs1)
          | (fs1, Some staged) \<Rightarrow>
              if fail_after_stage then (Inl InjectedFailure, d, restore_files staged fs1)
              else (case run_deletions u ERASURE (d, 0) of
                  None \<Rightarrow> (Inl DatabaseError, d, restore_files staged fs1)
                | Some (d', n) \<Rightarrow> (Inr n, d', unlink_files staged fs1))))"

subsection \<open>Retention\<close>

text \<open>The counts are those of the deleted rows.\<close>

definition long_dead :: "int \<Rightarrow> int \<Rightarrow> int option \<Rightarrow> bool" where
  "long_dead cutoff expires revoked \<longleftrightarrow> expires < cutoff \<or> (case revoked of None \<Rightarrow> False | Some t \<Rightarrow> t < cutoff)"

definition enforce_retention :: "int \<Rightarrow> auth_db \<times> oauth_row table \<Rightarrow> auth_db \<times> oauth_row table" where
  "enforce_retention now s =
     (case s of (d, txs) \<Rightarrow>
        let session_cutoff = now - 30 * 24 * 3600; challenge_cutoff = now - 24 * 3600;
            live = filter (\<lambda>x. \<not> long_dead session_cutoff (gs_expires x) (gs_revoked x)) (sessions d);
            asked = filter (\<lambda>c. \<not> ch_expires c < challenge_cutoff) (challenges d);
            tokens = filter (\<lambda>r. \<not> (rt_expires r < session_cutoff
              \<or> list_ex (\<lambda>f. sf_id f = rt_family r \<and> long_dead session_cutoff (sf_expires f) (sf_revoked f)) (families d))) (refreshes d);
            kept = filter (\<lambda>f. \<not> (long_dead session_cutoff (sf_expires f) (sf_revoked f) \<and> \<not> list_ex (\<lambda>r. rt_family r = sf_id f) tokens)) (families d)
        in (d\<lparr>sessions := live, challenges := asked, refreshes := tokens, families := kept\<rparr>,
            filter (\<lambda>t. \<not> ot_expires t < challenge_cutoff) txs))"

end
