(* ===== verification/Account_Properties.thy ===== *)
theory Account_Properties
  imports Account_Lifecycle Session_Properties
begin

text \<open>
  Erasure removes exactly the rows that belong to the account, because no statement reads a table an earlier one has already
  emptied (\<open>parents_first\<close>, a check of the statement list); a failed erasure restores the files; retention changes no authority.
\<close>

subsection \<open>Order of the statements\<close>

fun parents_first :: "string list \<Rightarrow> deletion list \<Rightarrow> bool" where
  "parents_first gone [] \<longleftrightarrow> True"
| "parents_first gone (x # xs) \<longleftrightarrow> list_all (\<lambda>p. p \<notin> set gone) (read_tables x) \<and> parents_first (target x # gone) xs"

lemma erasure_parents_first: "parents_first [] ERASURE"
  by code_simp

definition erased :: "string \<Rightarrow> any_db \<Rightarrow> deletion list \<Rightarrow> any_db" where
  "erased u d xs = (\<lambda>t. map_option (filter (\<lambda>r. \<not> list_ex (\<lambda>x. target x = t \<and> selected u d x r) xs)) (d t))"

lemma selected_cong: "(\<And>p. p \<in> set (read_tables x) \<Longrightarrow> rows_of d p = rows_of d' p) \<Longrightarrow> selected u d x r = selected u d' x r"
  by (cases x) auto

lemma erased_Nil: "erased u d [] = d"
proof
  show "erased u d [] t = d t" for t by (cases "d t") (simp_all add: erased_def)
qed

lemma rows_of_erased: "p \<notin> target ` set xs \<Longrightarrow> rows_of (erased u d xs) p = rows_of d p"
  by (auto simp: rows_of_def erased_def list_ex_iff image_iff filter_id_conv split: option.splits)

lemma run_deletion_erased:
  assumes "run_deletion u x (erased u d xs, n) = Some (d', n')" and "\<And>p. p \<in> set (read_tables x) \<Longrightarrow> p \<notin> target ` set xs"
  shows "d' = erased u d (xs @ [x])"
proof -
  have sel: "selected u (erased u d xs) x = selected u d x"
    by (rule ext, rule selected_cong) (simp add: rows_of_erased assms(2))
  show ?thesis
  proof (cases "d (target x)")
    case None
    then have d': "d' = erased u d xs" using assms(1) by (simp add: run_deletion_def erased_def)
    show ?thesis
    proof
      show "d' t = erased u d (xs @ [x]) t" for t unfolding d' using None by (cases "t = target x") (auto simp: erased_def)
    qed
  next
    case (Some rs)
    then have "erased u d xs (target x) = Some (filter (\<lambda>r. \<not> list_ex (\<lambda>y. target y = target x \<and> selected u d y r) xs) rs)"
      by (simp add: erased_def)
    then have "d' = (erased u d xs)(target x \<mapsto> filter (\<lambda>r. \<not> selected u d x r) (filter (\<lambda>r. \<not> list_ex (\<lambda>y. target y = target x \<and> selected u d y r) xs) rs))"
      using assms(1) by (simp add: run_deletion_def sel split: if_splits)
    then show ?thesis using Some by (auto simp: erased_def fun_eq_iff intro!: filter_cong)
  qed
qed

lemma run_deletions_erased:
  "run_deletions u ys (erased u d xs, n) = Some (d', n') \<Longrightarrow> parents_first (rev (map target xs)) ys \<Longrightarrow> d' = erased u d (xs @ ys)"
proof (induction ys arbitrary: xs n)
  case (Cons y ys)
  then obtain e m where step: "run_deletion u y (erased u d xs, n) = Some (e, m)" and rest: "run_deletions u ys (e, m) = Some (d', n')"
    by (auto split: option.splits)
  have "e = erased u d (xs @ [y])" by (rule run_deletion_erased[OF step]) (use Cons.prems(2) in \<open>auto simp: list_all_iff\<close>)
  then show ?case using Cons.IH[of "xs @ [y]" m] rest Cons.prems(2) by simp
qed simp

subsection \<open>Files\<close>

definition fresh_quarantine :: "(string \<times> string) list \<Rightarrow> store \<Rightarrow> bool" where
  "fresh_quarantine cs fs \<longleftrightarrow> distinct (map snd cs) \<and> list_all (\<lambda>c. fs (snd c) = None \<and> snd c \<notin> fst ` set cs) cs"

lemma stage_restore:
  assumes "stage_files movable cs fs staged = (fs1, Some st)" and "distinct (map snd cs)" and "\<forall>q \<in> snd ` set cs. fs q = None"
  shows "\<exists>new. st = staged @ new \<and> restore_files new fs1 = fs \<and> snd ` set new \<subseteq> snd ` set cs"
  using assms
proof (induction cs arbitrary: fs staged)
  case (Cons c cs)
  obtain s q where c: "c = (s, q)" by (cases c)
  show ?case
  proof (cases "fs s")
    case None
    then have "stage_files movable cs fs staged = (fs1, Some st)" using Cons.prems(1) c by simp
    then obtain new where "st = staged @ new" "restore_files new fs1 = fs" "snd ` set new \<subseteq> snd ` set cs"
      using Cons.IH Cons.prems(2,3) by auto
    then show ?thesis by auto
  next
    case (Some bytes)
    let ?fs = "fs(s := None, q \<mapsto> bytes)"
    have st: "stage_files movable cs ?fs (staged @ [(s, q)]) = (fs1, Some st)" using Cons.prems(1) c Some by (auto split: if_splits)
    have dd: "distinct (map snd cs)" and h: "\<forall>p \<in> snd ` set cs. ?fs p = None" using Cons.prems(2,3) c by auto
    from Cons.IH[OF st dd h] obtain new where new: "st = (staged @ [(s, q)]) @ new" "restore_files new fs1 = ?fs" "snd ` set new \<subseteq> snd ` set cs"
      by blast
    have "fs q = None" using Cons.prems(3) c by simp
    then have "restore_files ((s, q) # new) fs1 = fs" using new(2) Some by (auto simp: Let_def fun_eq_iff)
    then show ?thesis using new c by (intro exI[of _ "(s, q) # new"]) auto
  qed
qed simp

lemma stage_moved:
  assumes "stage_files movable cs fs staged = (fs1, Some st)" and "snd ` set cs \<inter> fst ` set cs = {}"
  shows "(\<forall>p. p \<notin> snd ` set cs \<longrightarrow> fs1 p = (if p \<in> fst ` set cs then None else fs p)) \<and> (\<forall>q \<in> snd ` set cs. fs1 q = fs q \<or> q \<in> snd ` set st) \<and> set staged \<subseteq> set st"
  using assms
proof (induction cs arbitrary: fs staged)
  case (Cons c cs)
  obtain s q where c: "c = (s, q)" by (cases c)
  have d: "snd ` set cs \<inter> fst ` set cs = {}" "q \<notin> fst ` set cs" "s \<notin> snd ` set cs" "q \<noteq> s" using Cons.prems(2) c by auto
  show ?case
  proof (cases "fs s")
    case None
    then have "stage_files movable cs fs staged = (fs1, Some st)" using Cons.prems(1) c by simp
    note IH = Cons.IH[OF this d(1)]
    have "q \<in> snd ` set cs \<or> fs1 q = fs q" using IH d(2) by auto
    then show ?thesis using IH None c d by auto
  next
    case (Some bytes)
    then have "stage_files movable cs (fs(s := None, q \<mapsto> bytes)) (staged @ [(s, q)]) = (fs1, Some st)"
      using Cons.prems(1) c by (auto split: if_splits)
    note IH = Cons.IH[OF this d(1)]
    then have "(s, q) \<in> set st" by auto
    then have q: "q \<in> snd ` set st" by force
    have "fs1 p = fs p \<or> p \<in> snd ` set st" if "p \<in> snd ` set cs" for p
      using IH q d(3) that by (cases "p = q") (auto split: if_splits)
    then show ?thesis using IH q c d by auto
  qed
qed simp

lemma unlink_files: "unlink_files staged fs p = (if p \<in> snd ` set staged then None else fs p)"
  unfolding unlink_files_def by (induction staged arbitrary: fs) auto

subsection \<open>Erasure\<close>

lemma delete_account_Inr:
  assumes "delete_account cfg movable u confirmation fail (d, fs) = (Inr n, d', fs')"
  obtains fs1 staged where "stage_files movable (account_files cfg u d) fs [] = (fs1, Some staged)" "run_deletions u ERASURE (d, 0) = Some (d', n)"
    "fs' = unlink_files staged fs1" "confirmation = ''DELETE '' @ u"
  using assms by (auto simp: delete_account_def split: if_splits prod.splits option.splits)



definition sample_accounts :: any_db where
  "sample_accounts = (\<lambda>t. if t = ''user_profiles'' then Some [[(''user_id'', ''a''), (''avatar_url'', ''/uploads/avatars/me.png'')], [(''user_id'', ''b'')]]
     else if t = ''connected_accounts'' then Some [[(''id'', ''c1''), (''user_id'', ''a'')], [(''id'', ''c2''), (''user_id'', ''b'')]]
     else if t = ''oauth_credentials'' then Some [[(''id'', ''o1''), (''connected_account_id'', ''c1'')], [(''id'', ''o2''), (''connected_account_id'', ''c2'')]]
     else if t = ''chat_uploads'' then Some [[(''user_id'', ''a''), (''path'', ''/old/1'')], [(''user_id'', ''b''), (''path'', ''/old/3'')]]
     else if t = ''magi_model_routes'' then Some [[(''id'', ''r1''), (''owner_user_id'', ''a'')]]
     else Some [])"

definition sample_files :: file_config where
  "sample_files = \<lparr>fc_root = Some ''/u'', fc_avatars = ''/a'', fc_linked = (\<lambda>_. False), fc_name = (\<lambda>i. ''/q/'' @ nat_str (int i))\<rparr>"

definition sample_store :: store where "sample_store = [''/old/1'' \<mapsto> ''x'', ''/a/me.png'' \<mapsto> ''y'', ''/old/3'' \<mapsto> ''z'']"

lemma sample_fresh: "fresh_quarantine (account_files sample_files ''a'' sample_accounts) sample_store"
  by code_simp

lemma sample_deletion:
  "(case delete_account sample_files (\<lambda>_. True) ''a'' ''DELETE a'' False (sample_accounts, sample_store) of (Inr n, d', fs') \<Rightarrow> n = 4 | _ \<Rightarrow> False)"
  "(case delete_account sample_files (\<lambda>_. True) ''a'' ''DELETE a'' True (sample_accounts, sample_store) of (Inl e, d', fs') \<Rightarrow> e = InjectedFailure | _ \<Rightarrow> False)"
  "(case delete_account sample_files (\<lambda>p. p \<noteq> ''/a/me.png'') ''a'' ''DELETE a'' False (sample_accounts, sample_store) of
     (Inl e, d', fs') \<Rightarrow> e = StagingError \<and> fs' ''/old/1'' = None \<and> fs' ''/q/0'' = Some ''x'' | _ \<Rightarrow> False)"
  by code_simp+



text \<open>What the statement list and the staging leave behind: the rows of the model ledger and of the turn routes carry an owner but no
  statement names their tables, and a file already moved when a later move fails stays in the quarantine.\<close>

lemma erasure_misses_routes: "\<not> list_ex (\<lambda>x. target x \<in> {''magi_model_routes'', ''magi_turn_routes''}) ERASURE"
  by code_simp

lemma failed_staging_strands:
  "case delete_account sample_files (\<lambda>p. p \<noteq> ''/a/me.png'') ''a'' ''DELETE a'' False (sample_accounts, sample_store) of
     (Inl e, d', fs') \<Rightarrow> e = StagingError \<and> fs' ''/old/1'' = None \<and> fs' ''/q/0'' = Some ''x'' | _ \<Rightarrow> False"
  by (rule sample_deletion(3))

subsection \<open>Retention\<close>

lemma filter_get:
  "(\<And>r. r \<in> set t \<Longrightarrow> P r \<Longrightarrow> Q r) \<Longrightarrow> tbl_get P (filter Q t) = tbl_get P t"
  by (induction t) auto

lemma retention_families:
  assumes "enforce_retention now (d, txs) = (d', txs')" and "f \<in> set (families d)"
  shows "f \<in> set (families d') \<longleftrightarrow> \<not> long_dead (now - 30 * 24 * 3600) (sf_expires f) (sf_revoked f)"
  using assms by (auto simp: enforce_retention_def Let_def list_ex_iff)

lemma retention_family_of:
  assumes r: "enforce_retention now (d, txs) = (d', txs')" and u: "distinct (map sf_id (families d))"
    and f: "session_family_of d s = Some f" "\<not> long_dead (now - 30 * 24 * 3600) (sf_expires f) (sf_revoked f)"
  shows "session_family_of d' s = Some f"
proof -
  let ?P = "\<lambda>f. Some (sf_id f) = gs_family s \<and> Some (sf_account f) = gs_account s \<and> sf_user f = gs_user s"
  have fm: "f \<in> set (families d)" "?P f" using f(1) by (auto simp: session_family_of_def dest!: tbl_get_Some_iff)
  obtain Q where Q: "families d' = filter Q (families d)" using r by (auto simp: enforce_retention_def Let_def)
  have "Q x" if "x \<in> set (families d)" "?P x" for x
  proof -
    have "sf_id x = sf_id f" using that(2) fm(2) by (metis option.inject)
    then have "x = f" using u that(1) fm(1) by (auto simp: distinct_map inj_on_def)
    then show ?thesis using retention_families[OF r that(1)] f(2) that(1) by (auto simp: Q)
  qed
  then have "tbl_get ?P (families d') = tbl_get ?P (families d)" unfolding Q by (intro filter_get) blast
  then show ?thesis using f(1) by (simp add: session_family_of_def)
qed

lemma retention_session:
  assumes r: "enforce_retention now (d, txs) = (d', txs')" and u: "distinct (map sf_id (families d))" and ne: "[] \<notin> sf_id ` set (families d)"
    and t: "now \<le> now'"
  shows "session_ok now' d' s \<longleftrightarrow> session_ok now' d s" and "session_ok now' d s \<Longrightarrow> session_principal d' s = session_principal d s"
proof -
  have same: "beta_grants d' = beta_grants d" "logins d' = logins d" using r by (auto simp: enforce_retention_def Let_def)
  have sub: "set (families d') \<subseteq> set (families d)" using r by (auto simp: enforce_retention_def Let_def)
  have cases: "session_family_of d' s = session_family_of d s \<or> session_family_of d' s = None \<and> \<not> session_provider_ok now' d s \<and> present (gs_family s) \<noteq> None"
  proof (cases "session_family_of d s")
    case None
    then have "session_family_of d' s = None" using sub unfolding session_family_of_def tbl_get_None_iff by blast
    then show ?thesis using None by simp
  next
    case (Some f)
    have fm: "f \<in> set (families d)" "gs_family s = Some (sf_id f)" using Some by (auto simp: session_family_of_def dest!: tbl_get_Some_iff)
    show ?thesis
    proof (cases "long_dead (now - 30 * 24 * 3600) (sf_expires f) (sf_revoked f)")
      case False
      then show ?thesis using retention_family_of[OF r u Some] Some by simp
    next
      case True
      have "session_family_of d' s = None"
      proof (cases "session_family_of d' s")
        case (Some g)
        then have g: "g \<in> set (families d')" "sf_id g = sf_id f" using fm(2) by (auto simp: session_family_of_def dest!: tbl_get_Some_iff)
        then have "g = f" using u sub fm(1) by (auto simp: distinct_map inj_on_def)
        then show ?thesis using retention_families[OF r fm(1)] g(1) True by simp
      qed simp
      moreover have "sf_id f \<noteq> []" using ne fm(1) by force
      then have p: "present (gs_family s) = Some (sf_id f)" using fm(2) by (simp add: present_def)
      then have "\<not> session_provider_ok now' d s"
        using True t Some by (auto simp: session_provider_ok_def long_dead_def split: option.splits)
      ultimately show ?thesis using p by simp
    qed
  qed
  have login: "session_login_of d' s = session_login_of d s" by (simp add: session_login_of_def same)
  have "session_provider_ok now' d' s \<longleftrightarrow> session_provider_ok now' d s"
    using cases login by (auto simp: session_provider_ok_def split: option.splits)
  moreover have "session_grant_ok now' d' s = session_grant_ok now' d s" unfolding session_grant_ok_def same ..
  ultimately show "session_ok now' d' s \<longleftrightarrow> session_ok now' d s" unfolding session_ok_def by (simp only:)
  show "session_principal d' s = session_principal d s" if "session_ok now' d s"
    using that cases by (auto simp: session_ok_def session_principal_def)
qed

lemma get_filtered_session:
  "distinct (map gs_hash t) \<Longrightarrow> tbl_get (gs_sel h) (filter Q t) = Some s \<longleftrightarrow> tbl_get (gs_sel h) t = Some s \<and> Q s"
proof (induction t)
  case (Cons a t)
  have "tbl_get (gs_sel h) (filter Q t) \<noteq> Some s" if "gs_hash a = h"
  proof
    assume "tbl_get (gs_sel h) (filter Q t) = Some s"
    then have "s \<in> set t" "gs_hash s = h" by (auto simp: gs_sel_def dest!: tbl_get_Some_iff)
    then have "gs_hash a \<in> gs_hash ` set t" using that by (metis imageI)
    then show False using Cons.prems by simp
  qed
  then show ?case using Cons by (cases "gs_sel h a") (auto simp del: gsk.sel_iff simp: gsk.sel_iff[THEN iffD1])
qed simp

lemma verified_Inr:
  "snd (verified_session env policy sel now d) = Inr p \<longleftrightarrow> (\<exists>s. tbl_get sel (sessions d) = Some s \<and> (present (gs_grant s) = None \<or> friend_beta_enabled env = Some True)
     \<and> session_ok now d s \<and> p = session_principal d s \<and> (\<exists>x. require_principal policy (principal.truncate p) None now = Inr x))"
  by (cases "friend_beta_enabled env") (auto simp: verified_session_def Let_def split: option.splits sum.splits)

text \<open>C33. Retention never changes who is authenticated: at the time it runs or later, a bearer is accepted after it exactly if it would have
  been without it, with the same principal; and what it leaves is bounded: no session, refresh token or sign-in family more than 30 days past
  its expiry, no session or family revoked longer ago, no challenge or OAuth state more than a day past its expiry.\<close>

theorem retention_keeps_authority:
  assumes "enforce_retention now (d, txs) = (d', txs')" and "distinct (map gs_hash (sessions d))" and "distinct (map sf_id (families d))"
    and "[] \<notin> sf_id ` set (families d)" and "now \<le> now'"
  shows "(snd (principal_from_token sha env policy token now' d') = Inr p \<longleftrightarrow> snd (principal_from_token sha env policy token now' d) = Inr p)
      \<and> (\<forall>s \<in> set (sessions d'). \<not> long_dead (now - 2592000) (gs_expires s) (gs_revoked s))
      \<and> (\<forall>f \<in> set (families d'). \<not> long_dead (now - 2592000) (sf_expires f) (sf_revoked f))
      \<and> (\<forall>r \<in> set (refreshes d'). now - 2592000 \<le> rt_expires r) \<and> (\<forall>c \<in> set (challenges d'). now - 86400 \<le> ch_expires c)
      \<and> (\<forall>t \<in> set txs'. now - 86400 \<le> ot_expires t)"
proof -
  note ses = retention_session[OF assms(1,3,4,5)]
  obtain Q where Q: "sessions d' = filter Q (sessions d)" "\<And>s. Q s \<longleftrightarrow> \<not> long_dead (now - 2592000) (gs_expires s) (gs_revoked s)"
    using assms(1) by (auto simp: enforce_retention_def Let_def)
  have alive: "session_ok now' d s \<Longrightarrow> Q s" for s using assms(5) by (auto simp: Q(2) session_ok_def long_dead_def)
  have "snd (verified_session env policy (gs_sel h) now' d') = Inr p \<longleftrightarrow> snd (verified_session env policy (gs_sel h) now' d) = Inr p" for h
    unfolding verified_Inr Q(1) get_filtered_session[OF assms(2)] using ses alive by metis
  then have "snd (principal_from_token sha env policy token now' d') = Inr p \<longleftrightarrow> snd (principal_from_token sha env policy token now' d) = Inr p"
    by (simp add: principal_from_token_def split: option.splits)
  moreover have "(\<forall>s \<in> set (sessions d'). \<not> long_dead (now - 2592000) (gs_expires s) (gs_revoked s))
      \<and> (\<forall>f \<in> set (families d'). \<not> long_dead (now - 2592000) (sf_expires f) (sf_revoked f))
      \<and> (\<forall>r \<in> set (refreshes d'). now - 2592000 \<le> rt_expires r) \<and> (\<forall>c \<in> set (challenges d'). now - 86400 \<le> ch_expires c)
      \<and> (\<forall>t \<in> set txs'. now - 86400 \<le> ot_expires t)"
    using assms(1) by (auto simp: enforce_retention_def Let_def list_ex_iff)
  ultimately show ?thesis by blast
qed

theorem retention_keeps_authority_witness:
  "\<exists>d' txs'. enforce_retention 100 (sample_signed_in, []) = (d', txs') \<and> snd (principal_from_token (auth_env.ae_sha sample_auth_env) Map.empty public_deployment ''bearer'' 200 d')
     = Inr (session_principal sample_signed_in sample_bearer)"
proof -
  obtain d' txs' where r: "enforce_retention 100 (sample_signed_in, []) = (d', txs')" by (cases "enforce_retention 100 (sample_signed_in, [])")
  have b: "snd (principal_from_token (auth_env.ae_sha sample_auth_env) Map.empty public_deployment ''bearer'' 200 sample_signed_in)
      = Inr (session_principal sample_signed_in sample_bearer)" by code_simp
  have "distinct (map gs_hash (sessions sample_signed_in))" "distinct (map sf_id (families sample_signed_in))" "[] \<notin> sf_id ` set (families sample_signed_in)"
    by (simp_all add: sample_signed_in_def empty_auth_def sample_family_def)
  from retention_keeps_authority[OF r this, of 200] show ?thesis using r b by auto
qed

end
