(* ===== verification/Spec2Isabelle.thy ===== *)
theory Spec2Isabelle
  imports Billing_Properties Webhook_Properties Objective_State OAuth_Transactions Hosted_Capacity
    Notification_Properties Execution_Properties Session_Properties
    Onboarding Provider_Keys Chat_Properties Routing_Properties Request_Boundary Attention_Properties Account_Properties
begin

text \<open>
  Magistrate is a gateway (Python, \<open>gateway/app\<close>) that lets a mobile client run software objectives
  on hosted or personal workers. It keeps all authority in one SQL database; every operation that
  matters is a transaction over a few tables. This development models the parts that decide who may
  run what, what it costs, and when it is over.

  \<^bold>\<open>Conventions.\<close> A table is a list of records with the columns of \<open>db.py\<close>; a \<open>SELECT\<close> by key is
  \<open>tbl_get\<close>, an \<open>UPDATE\<close> is \<open>tbl_upd\<close>, an \<open>INSERT\<close> appends a row after the uniqueness checks of the schema.
  A method that runs in one transaction is a function from the database to an \<open>outcome\<close>: \<open>Inl\<close> an
  exception (the transaction is rolled back) or \<open>Inr\<close> the new database and the result. \<open>run_ops\<close> runs a
  sequence of such calls, which is how interleavings of requests, webhooks and workers are stated.
  Integers are unbounded, as in Python. Hashes, MACs, token generators, the clock and the JSON parser
  are parameters; what is assumed of them is a hypothesis of the theorem that needs it.

  \<^bold>\<open>Theories.\<close>
  \<^item> \<open>Prelude\<close>: tables, outcomes and the locales \<open>keyed_rows\<close> (tables with a unique key),
    \<open>transactional\<close> (operations that keep an invariant) and \<open>audited\<close> (operations along which a
    relation on databases only grows). Every component interprets them on its own operations.
  \<^item> \<open>Py_Values\<close>: JSON values, Python strings and integers, and IEEE double division rounded up, as
    \<open>math.ceil(a / b)\<close> computes it.
  \<^item> \<open>Billing_Catalog\<close>: \<open>BillingCatalog\<close> of \<open>billing.py\<close>.
  \<^item> \<open>Credit_Ledger\<close>, \<open>Credit_Ledger_Inv\<close>: \<open>CreditLedger\<close> (accounts, reservations, ledger, usage) and
    its invariant with preservation by every operation.
  \<^item> \<open>Stripe_Webhook\<close>: \<open>StripeWebhookProcessor\<close> and the legacy \<open>accept_webhook\<close>.
  \<^item> \<open>Billing_System\<close>, \<open>Billing_Properties\<close>, \<open>Webhook_Properties\<close>: the ledger calls and both webhook
    endpoints as one system of operations, and its theorems: the balance is the sum of the ledger,
    history is immutable, refunds are bounded, reservations respect every limit, settlements are exact
    and final, deliveries are authentic and take effect once, provider time is monotone, and tenants
    are isolated.
  \<^item> \<open>Deployment_Mode\<close>: \<open>deployment_mode.py\<close> with the contract of \<open>contracts.py\<close>; the environment fails
    closed and personal admission stays inside its ceilings.
  \<^item> \<open>Objective_State\<close>: the objective projection (\<open>project_objective_state\<close>,
    \<open>advance_objective_state\<close>, \<open>persist_objective_state\<close>); it is monotone and never gets stuck.
  \<^item> \<open>OAuth_Transactions\<close>: \<open>oauth_transactions.py\<close>; states are single-use and bound, redirects are safe.
  \<^item> \<open>Hosted_Execution\<close>, \<open>Hosted_Capacity\<close>: the durable queue of \<open>hosted_execution.py\<close> and the steps of
    its controller; capacity limits, lease fencing and retirement.
  \<^item> \<open>Push_Receipts\<close>, \<open>Notifications\<close>: \<open>push_receipts.py\<close> (the outbox of push deliveries) and
    \<open>notifications.py\<close> (devices, preferences, reconciliation of attention items, dispatch, receipts).
  \<^item> \<open>Push_Properties\<close>, \<open>Notification_Properties\<close>: sends are bounded, final rows are frozen, late receipts
    spare replacement devices, the loops refine the store transactions, every actionable item is
    announced exactly once, preferences round trip.
  \<^item> \<open>Execution_Contract\<close>: the event models of \<open>firstmate_execution.py\<close> and their stored payload, which
    determines the event.
  \<^item> \<open>Execution_Store\<close>: \<open>FirstmateExecutionStore\<close>, \<open>PersonalResourceLedger\<close> and \<open>ingest\<close> of the service;
    a terminal event reaches the credit ledger of \<open>Credit_Ledger\<close> and the projection of \<open>Objective_State\<close>.
  \<^item> \<open>Objective_Cancellation\<close>: \<open>objective_cancellation.py\<close>, split into its transactions.
  \<^item> \<open>Execution_Inv\<close>, \<open>Execution_System\<close>, \<open>Execution_Resources\<close>, \<open>Execution_Properties\<close>: all of these
    transactions as one family of operations with its invariant and its order on histories; an objective
    ends once, events are idempotent, history is immutable, holds stay inside the personal limits, a
    terminal event closes what it holds, and cancellation requests are single and truthful. Recovery
    of cancellations acts on a stale snapshot, and a theorem states the consequence.

  \<^item> \<open>Hosted_Config\<close>: \<open>HostedExecutionConfig.from_env\<close>; the isolation boundary is completely configured or
    startup fails.
  \<^item> \<open>Sessions\<close>, \<open>Provider_Auth\<close>, \<open>Provider_Keys\<close>, \<open>Onboarding\<close>: \<open>auth.py\<close> (bootstrap sessions, friend-beta
    grants, logout, verification), \<open>provider_auth.py\<close> (Apple and Google sign-in, rotating refresh tokens, login
    methods, the key cache) and \<open>onboarding.py\<close>.
  \<^item> \<open>Session_Inv\<close>, \<open>Session_System\<close>, \<open>Session_History\<close>, \<open>Session_Properties\<close>: their operations as one family with
    an invariant and an order: a grant or family has one live bearer and one unused refresh token, nothing revives a
    revoked credential, a reused refresh token closes its family, a challenge is exchanged once. Random tokens and ids
    are arguments; "nobody draws the same value again" is a named side condition of the later operations. Linking a
    removed login can leave two logins of one provider connected, and a theorem states it.

  \<^item> \<open>Chat_Store\<close>: \<open>magi_chat_store.py\<close>, complete but for the \<open>diagnostics\<close> read: submissions, generated messages,
    answers, recovery, the change log and its replay, turn routes and counters.
  \<^item> \<open>Chat_Inv\<close>, \<open>Chat_System\<close>, \<open>Chat_Properties\<close>: its invariant and the order on histories, proved per kind of write
    (\<open>wrote\<close>), of which every operation is a sequence. A submission id names one exchange, an attempt has one outcome,
    recovery leaves nothing pending, replay pages deliver every change (\<open>drain\<close> reads them with a bound on their
    number), and tenants do not affect each other's reads.

  \<^item> \<open>Request_Boundary\<close>: \<open>request_boundary.py\<close> (admission, body limits, the running counter under interleaved requests,
    response headers).
  \<^item> \<open>Account_Lifecycle\<close>, \<open>Account_Properties\<close>: \<open>account_lifecycle.py\<close> (erasure of one account over all tables and its files,
    retention of the authentication rows).
  \<^item> \<open>Attention_Actions\<close>, \<open>Attention_Properties\<close>: \<open>attention_actions.py\<close> (action keys, the risk boundary, confirmations, claims and
    outcomes; executions interleave between their transactions and around the executor).
  \<^item> \<open>Model_Routing\<close>, \<open>Routing_Properties\<close>: \<open>magi_routing.py\<close> (turn classification, costs, the route ledger, selection and
    failover). A provider's answer and what other requests do meanwhile are given per attempt (\<open>world\<close>); budgets hold under
    that concurrency, attempts are bounded and settled, and spending keeps to the policy.

  \<^bold>\<open>Loops and bounds.\<close> Every loop of the source that is modelled runs over a finite query result, so the
  definitions are structural recursions and no fuel is needed; limits such as \<open>LIMIT 100\<close> are in the
  queries. A background loop is any sequence of its steps.

  \<^bold>\<open>Not modelled.\<close> HTTP routes and clients (Stripe, Expo, the hosted backend), model providers and chat
  generation, terminal supervision, file storage, the schema migrations, the command line, the broker
  service and the mobile clients. The decision, activity, project and memory stores
  are not modelled; where the modelled code reads their tables, those rows are part
  of the state and may change arbitrarily.
\<close>

end
